(* ===== verification/Prelude.thy ===== *)
theory Prelude
  imports Complex_Main
begin

text \<open>
  Shared vocabulary of the development: the fact collections the components fill, the
  Python string operations the program uses (case and spaces as on ASCII, strings modelled as \<open>string\<close>),
  generic list operations that stand for the SQL the program runs (first match, update of
  the matching rows, stable ordering), and the lemmas about them that carry the component
  proofs.
\<close>

named_theorems res_simps "equations of the result and world monads"
named_theorems frame_simps "what an operation leaves unchanged"
named_theorems row_simps "lookup after an update of a table"

subsection \<open>Python strings\<close>

definition is_space :: "char \<Rightarrow> bool" where
  "is_space c = (let n = (of_char c :: nat) in (9 \<le> n \<and> n \<le> 13) \<or> (28 \<le> n \<and> n \<le> 32))"

definition py_strip :: "string \<Rightarrow> string" where
  "py_strip s = rev (dropWhile is_space (rev (dropWhile is_space s)))"

definition upper_char :: "char \<Rightarrow> char" where
  "upper_char c = (let n = (of_char c :: nat) in if 97 \<le> n \<and> n \<le> 122 then char_of (n - 32) else c)"

definition lower_char :: "char \<Rightarrow> char" where
  "lower_char c = (let n = (of_char c :: nat) in if 65 \<le> n \<and> n \<le> 90 then char_of (n + 32) else c)"

definition py_upper :: "string \<Rightarrow> string" where
  "py_upper s = map upper_char s"

definition py_lower :: "string \<Rightarrow> string" where
  "py_lower s = map lower_char s"

definition is_digit :: "char \<Rightarrow> bool" where
  "is_digit c = (let n = (of_char c :: nat) in 48 \<le> n \<and> n \<le> 57)"

text \<open>\<open>str.isalnum\<close> of a character, a code point up to 255: the letters and digits of ASCII, and the letters and
  numerals above it.\<close>

definition is_ascii_alnum :: "char \<Rightarrow> bool" where
  "is_ascii_alnum c = (let n = (of_char c :: nat) in
     (48 \<le> n \<and> n \<le> 57) \<or> (65 \<le> n \<and> n \<le> 90) \<or> (97 \<le> n \<and> n \<le> 122))"

definition is_alnum :: "char \<Rightarrow> bool" where
  "is_alnum c = (is_ascii_alnum c \<or> (let n = (of_char c :: nat) in
     n \<in> {170, 178, 179, 181, 185, 186, 188, 189, 190} \<or> (192 \<le> n \<and> n \<noteq> 215 \<and> n \<noteq> 247)))"

definition digit_val :: "char \<Rightarrow> nat" where
  "digit_val c = of_char c - 48"

subsection \<open>Tables as lists of rows\<close>

text \<open>
  A table is the list of its rows in insertion order (the order of the implicit row id).
  \<open>upd_where p f xs\<close> is \<open>UPDATE \<dots> SET f WHERE p\<close>, \<open>List.find p xs\<close> is
  \<open>SELECT \<dots> WHERE p LIMIT 1\<close>, \<open>filter\<close> is \<open>SELECT \<dots> WHERE p\<close>, and
  \<open>count_where\<close> the number of matching rows (the cursor's row count).
\<close>

definition upd_where :: "('a \<Rightarrow> bool) \<Rightarrow> ('a \<Rightarrow> 'a) \<Rightarrow> 'a list \<Rightarrow> 'a list" where
  "upd_where p f xs = map (\<lambda>x. if p x then f x else x) xs"

definition count_where :: "('a \<Rightarrow> bool) \<Rightarrow> 'a list \<Rightarrow> nat" where
  "count_where p xs = length (filter p xs)"

text \<open>\<open>first_min k xs\<close>: the first row with the least key, the answer of
  \<open>ORDER BY k ASC, id ASC LIMIT 1\<close> on rows listed in id order.\<close>

fun first_min :: "('a \<Rightarrow> int) \<Rightarrow> 'a list \<Rightarrow> 'a option" where
  "first_min k [] = None"
| "first_min k (x # xs) =
     (case first_min k xs of
        None \<Rightarrow> Some x
      | Some y \<Rightarrow> if k x \<le> k y then Some x else Some y)"

text \<open>\<open>dedup xs\<close> keeps the first occurrence of every element, in order.\<close>

fun dedup_acc :: "'a list \<Rightarrow> 'a list \<Rightarrow> 'a list" where
  "dedup_acc seen [] = seen"
| "dedup_acc seen (x # xs) = (if x \<in> set seen then dedup_acc seen xs else dedup_acc (seen @ [x]) xs)"

definition dedup :: "'a list \<Rightarrow> 'a list" where
  "dedup xs = dedup_acc [] xs"

subsection \<open>Lemmas on tables\<close>

lemma upd_where_simps [simp]:
  "upd_where p f [] = []"
  "upd_where p f (x # xs) = (if p x then f x else x) # upd_where p f xs"
  by (simp_all add: upd_where_def)

lemma length_upd_where [simp]: "length (upd_where p f xs) = length xs"
  by (simp add: upd_where_def)

lemma upd_where_append [simp]: "upd_where p f (xs @ ys) = upd_where p f xs @ upd_where p f ys"
  by (simp add: upd_where_def)

lemma upd_where_none: "(\<And>x. x \<in> set xs \<Longrightarrow> \<not> p x) \<Longrightarrow> upd_where p f xs = xs"
  by (induction xs) auto

lemma map_upd_where: "(\<And>x. g (f x) = g x) \<Longrightarrow> map g (upd_where p f xs) = map g xs"
  by (induction xs) auto

lemma set_upd_where: "y \<in> set (upd_where p f xs) \<longleftrightarrow> (\<exists>x\<in>set xs. y = (if p x then f x else x))"
  by (auto simp: upd_where_def)

lemma find_upd_where [row_simps]:
  assumes "\<And>x. q (f x) = q x"
  shows "List.find q (upd_where p f xs) = map_option (\<lambda>x. if p x then f x else x) (List.find q xs)"
  using assms by (induction xs) auto

lemma find_append: "List.find p (xs @ ys) = (case List.find p xs of None \<Rightarrow> List.find p ys | Some x \<Rightarrow> Some x)"
  by (induction xs) auto

lemma find_SomeD: "List.find p xs = Some x \<Longrightarrow> x \<in> set xs \<and> p x"
  by (auto simp: find_Some_iff)

lemma find_NoneD: "List.find p xs = None \<Longrightarrow> x \<in> set xs \<Longrightarrow> \<not> p x"
  by (auto simp: find_None_iff)

lemma find_Some_ex: "x \<in> set xs \<Longrightarrow> p x \<Longrightarrow> \<exists>y. List.find p xs = Some y"
  by (induction xs) auto

lemma filter_upd_where:
  assumes "\<And>x. q (f x) = q x"
  shows "filter q (upd_where p f xs) = upd_where p f (filter q xs)"
  using assms by (induction xs) auto

lemma count_where_simps [simp]:
  "count_where p [] = 0"
  "count_where p (x # xs) = (if p x then Suc (count_where p xs) else count_where p xs)"
  by (simp_all add: count_where_def)

lemma count_where_0: "count_where p xs = 0 \<longleftrightarrow> (\<forall>x\<in>set xs. \<not> p x)"
  by (induction xs) auto

lemma count_where_pos: "0 < count_where p xs \<longleftrightarrow> (\<exists>x\<in>set xs. p x)"
  by (induction xs) auto

lemma first_min_SomeD: "first_min k xs = Some x \<Longrightarrow> x \<in> set xs"
  by (induction xs arbitrary: x) (auto split: option.splits if_splits)

lemma first_min_None [simp]: "first_min k xs = None \<longleftrightarrow> xs = []"
  by (cases xs) (auto split: option.splits)

lemma first_min_least: "first_min k xs = Some x \<Longrightarrow> y \<in> set xs \<Longrightarrow> k x \<le> k y"
proof (induction xs arbitrary: x)
  case Nil
  then show ?case by simp
next
  case (Cons a xs)
  show ?case
  proof (cases "first_min k xs")
    case None
    with Cons.prems show ?thesis by simp
  next
    case (Some b)
    with Cons.IH [OF Some] Cons.prems show ?thesis
      by (cases "y = a") (auto split: if_splits)
  qed
qed

lemma set_dedup_acc: "set (dedup_acc seen xs) = set seen \<union> set xs"
  by (induction seen xs rule: dedup_acc.induct) auto

lemma distinct_dedup_acc: "distinct seen \<Longrightarrow> distinct (dedup_acc seen xs)"
  by (induction seen xs rule: dedup_acc.induct) auto

lemma set_dedup [simp]: "set (dedup xs) = set xs"
  by (simp add: dedup_def set_dedup_acc)

lemma distinct_dedup [simp]: "distinct (dedup xs)"
  by (simp add: dedup_def distinct_dedup_acc)

lemma dedup_acc_distinct: "distinct (seen @ xs) \<Longrightarrow> dedup_acc seen xs = seen @ xs"
  by (induction seen xs rule: dedup_acc.induct) auto

lemma dedup_idem [simp]: "dedup (dedup xs) = dedup xs"
  using dedup_acc_distinct [of "[]" "dedup xs"] by (simp add: dedup_def [of "dedup xs"])

lemma distinct_map_update:
  "distinct (map g xs) \<Longrightarrow> (\<And>x. g (f x) = g x) \<Longrightarrow> distinct (map g (upd_where p f xs))"
  by (simp add: map_upd_where)

lemma count_where_distinct:
  "distinct (map g xs) \<Longrightarrow> x \<in> set xs \<Longrightarrow> p x \<Longrightarrow> (\<And>y. p y \<Longrightarrow> g y = g x) \<Longrightarrow> count_where p xs = 1"
proof (induction xs)
  case Nil
  then show ?case by simp
next
  case (Cons a xs)
  show ?case
  proof (cases "p a")
    case True
    with Cons.prems have "g a = g x" by blast
    with Cons.prems(1) have notin: "g x \<notin> g ` set xs" by auto
    have "\<not> p y" if "y \<in> set xs" for y
    proof
      assume "p y"
      then have "g x = g y" using Cons.prems(4) [of y] by simp
      with that notin show False by blast
    qed
    then have "count_where p xs = 0" by (simp add: count_where_0)
    with True show ?thesis by simp
  next
    case False
    with Cons.prems(2,3) have "x \<in> set xs" by auto
    moreover from Cons.prems(1) have "distinct (map g xs)" by simp
    ultimately have "count_where p xs = 1" using Cons.IH Cons.prems(3,4) by blast
    with False show ?thesis by simp
  qed
qed

subsection \<open>Lemmas on strings\<close>

lemma is_space_upper [simp]: "is_space (upper_char c) = is_space c"
  by (auto simp: is_space_def upper_char_def Let_def)

lemma upper_char_idem [simp]: "upper_char (upper_char c) = upper_char c"
  by (auto simp: upper_char_def Let_def)

lemma py_upper_idem [simp]: "py_upper (py_upper s) = py_upper s"
  by (simp add: py_upper_def)

lemma strip_upper: "py_strip (py_upper s) = py_upper (py_strip s)"
  by (simp add: py_strip_def py_upper_def dropWhile_map rev_map comp_def)

lemma dropWhile_idem_rev: "dropWhile p (rev (dropWhile p (rev (dropWhile p xs)))) = rev (dropWhile p (rev (dropWhile p xs)))"
proof (cases "rev (dropWhile p (rev (dropWhile p xs)))")
  case (Cons y ys)
  let ?t = "dropWhile p xs"
  have "?t = rev (dropWhile p (rev ?t)) @ rev (takeWhile p (rev ?t))"
    by (metis rev_append rev_rev_ident takeWhile_dropWhile_id)
  with Cons have "?t = y # (ys @ rev (takeWhile p (rev ?t)))" by simp
  then have "\<not> p y" by (metis hd_dropWhile list.distinct(1) list.sel(1))
  with Cons show ?thesis by simp
next
  case Nil
  then show ?thesis by (simp only: dropWhile.simps)
qed

lemma py_strip_idem [simp]: "py_strip (py_strip s) = py_strip s"
  by (simp add: py_strip_def dropWhile_idem_rev)

end
