(* ===== verification/Errors.thy ===== *)
theory Errors
  imports Prelude
begin

text \<open>
  The canonical error vocabulary (\<open>errors.py\<close>), the Python exceptions the modelled code
  can raise, and the two result types of the development: \<open>'a res\<close> for pure code that may
  raise and a state-passing variant used where code changes a state \<open>'s\<close>. Message texts
  are not modelled; the Binance error number carried in \<open>details\<close> is, since code branches
  on it.
\<close>

subsection \<open>Definitions\<close>

datatype errcode =
    INTERNAL_ERROR | INVALID_REQUEST | UNAUTHORIZED | NOT_READY | TOOL_NOT_FOUND
  | INVALID_SYMBOL | STALE_DATA | RATE_LIMITED | TIMEOUT | INSUFFICIENT_BALANCE
  | PIPELINE_UNAVAILABLE | ACCOUNT_NOT_FOUND | ACCOUNT_EXISTS | ACCOUNT_IN_USE
  | ACCOUNT_NO_CREDENTIALS | CREDENTIAL_STORE_UNAVAILABLE | CREDENTIAL_DECRYPT_FAILED
  | RISK_LIMIT_EXCEEDED | SYMBOL_NOT_ALLOWED | OVERRIDE_NOT_AVAILABLE
  | TRADING_NOT_ENABLED | FILTER_VIOLATION | ORDER_REJECTED | ORDER_EXPIRED
  | ORDER_UNKNOWN | ORDER_RECONCILE_REQUIRED | ORDER_NOT_FOUND | NOT_IMPLEMENTED
  | NOT_FOUND

primrec code_name :: "errcode \<Rightarrow> string" where
  "code_name INTERNAL_ERROR = ''INTERNAL_ERROR''"
| "code_name INVALID_REQUEST = ''INVALID_REQUEST''"
| "code_name UNAUTHORIZED = ''UNAUTHORIZED''"
| "code_name NOT_READY = ''NOT_READY''"
| "code_name TOOL_NOT_FOUND = ''TOOL_NOT_FOUND''"
| "code_name INVALID_SYMBOL = ''INVALID_SYMBOL''"
| "code_name STALE_DATA = ''STALE_DATA''"
| "code_name RATE_LIMITED = ''RATE_LIMITED''"
| "code_name TIMEOUT = ''TIMEOUT''"
| "code_name INSUFFICIENT_BALANCE = ''INSUFFICIENT_BALANCE''"
| "code_name PIPELINE_UNAVAILABLE = ''PIPELINE_UNAVAILABLE''"
| "code_name ACCOUNT_NOT_FOUND = ''ACCOUNT_NOT_FOUND''"
| "code_name ACCOUNT_EXISTS = ''ACCOUNT_EXISTS''"
| "code_name ACCOUNT_IN_USE = ''ACCOUNT_IN_USE''"
| "code_name ACCOUNT_NO_CREDENTIALS = ''ACCOUNT_NO_CREDENTIALS''"
| "code_name CREDENTIAL_STORE_UNAVAILABLE = ''CREDENTIAL_STORE_UNAVAILABLE''"
| "code_name CREDENTIAL_DECRYPT_FAILED = ''CREDENTIAL_DECRYPT_FAILED''"
| "code_name RISK_LIMIT_EXCEEDED = ''RISK_LIMIT_EXCEEDED''"
| "code_name SYMBOL_NOT_ALLOWED = ''SYMBOL_NOT_ALLOWED''"
| "code_name OVERRIDE_NOT_AVAILABLE = ''OVERRIDE_NOT_AVAILABLE''"
| "code_name TRADING_NOT_ENABLED = ''TRADING_NOT_ENABLED''"
| "code_name FILTER_VIOLATION = ''FILTER_VIOLATION''"
| "code_name ORDER_REJECTED = ''ORDER_REJECTED''"
| "code_name ORDER_EXPIRED = ''ORDER_EXPIRED''"
| "code_name ORDER_UNKNOWN = ''ORDER_UNKNOWN''"
| "code_name ORDER_RECONCILE_REQUIRED = ''ORDER_RECONCILE_REQUIRED''"
| "code_name ORDER_NOT_FOUND = ''ORDER_NOT_FOUND''"
| "code_name NOT_IMPLEMENTED = ''NOT_IMPLEMENTED''"
| "code_name NOT_FOUND = ''NOT_FOUND''"

text \<open>\<open>RasatError c b\<close>: the canonical error with code \<open>c\<close> and, from the order broker,
  the exchange's error number \<open>b\<close> in its details. The other constructors are the Python
  and sqlite exceptions that the modelled code raises or catches.\<close>

datatype pyexc =
    RasatError errcode "int option"
  | AsyncTimeout
  | IntegrityError
  | OverflowError
  | TypeError
  | ValueError
  | KeyError
  | IndexError
  | ZeroDivisionError
  | RuntimeError
  | OtherException

abbreviation rasat :: "errcode \<Rightarrow> pyexc" where
  "rasat c \<equiv> RasatError c None"

definition http_status_table :: "(errcode \<times> int) list" where
  "http_status_table =
    [(UNAUTHORIZED, 401), (INVALID_REQUEST, 400), (TOOL_NOT_FOUND, 404), (RATE_LIMITED, 429),
     (NOT_READY, 503), (TIMEOUT, 504), (STALE_DATA, 409), (INVALID_SYMBOL, 422),
     (INSUFFICIENT_BALANCE, 409), (PIPELINE_UNAVAILABLE, 503), (ACCOUNT_NOT_FOUND, 404),
     (NOT_FOUND, 404), (ACCOUNT_EXISTS, 409), (ACCOUNT_IN_USE, 409),
     (ACCOUNT_NO_CREDENTIALS, 409), (CREDENTIAL_STORE_UNAVAILABLE, 503),
     (CREDENTIAL_DECRYPT_FAILED, 500), (RISK_LIMIT_EXCEEDED, 422), (SYMBOL_NOT_ALLOWED, 422),
     (OVERRIDE_NOT_AVAILABLE, 409), (TRADING_NOT_ENABLED, 409), (FILTER_VIOLATION, 422),
     (ORDER_REJECTED, 422), (ORDER_EXPIRED, 422), (ORDER_UNKNOWN, 500),
     (ORDER_RECONCILE_REQUIRED, 409), (ORDER_NOT_FOUND, 404)]"

definition http_status_for :: "errcode \<Rightarrow> int" where
  "http_status_for c = (case map_of http_status_table c of Some s \<Rightarrow> s | None \<Rightarrow> 500)"

text \<open>The code an exception is reported under (\<open>error_response_from_exc\<close> of
  \<open>envelope.py\<close>: every exception that is not a \<open>RasatError\<close> is an internal error).\<close>

definition exc_code :: "pyexc \<Rightarrow> errcode" where
  "exc_code e = (case e of RasatError c _ \<Rightarrow> c | _ \<Rightarrow> INTERNAL_ERROR)"

definition is_rasat :: "pyexc \<Rightarrow> bool" where
  "is_rasat e = (case e of RasatError _ _ \<Rightarrow> True | _ \<Rightarrow> False)"

subsection \<open>Code that may raise\<close>

type_synonym 'a res = "pyexc + 'a"

definition rbind :: "'a res \<Rightarrow> ('a \<Rightarrow> 'b res) \<Rightarrow> 'b res" where
  "rbind r f = (case r of Inl e \<Rightarrow> Inl e | Inr x \<Rightarrow> f x)"

definition raise_if :: "bool \<Rightarrow> pyexc \<Rightarrow> unit res" where
  "raise_if b e = (if b then Inl e else Inr ())"

fun rmap :: "('a \<Rightarrow> 'b res) \<Rightarrow> 'a list \<Rightarrow> 'b list res" where
  "rmap f [] = Inr []"
| "rmap f (x # xs) = rbind (f x) (\<lambda>y. rbind (rmap f xs) (\<lambda>ys. Inr (y # ys)))"

fun rall :: "('a \<Rightarrow> bool res) \<Rightarrow> 'a list \<Rightarrow> bool res" where
  "rall f [] = Inr True"
| "rall f (x # xs) = rbind (f x) (\<lambda>b. if b then rall f xs else Inr False)"

fun rany :: "('a \<Rightarrow> bool res) \<Rightarrow> 'a list \<Rightarrow> bool res" where
  "rany f [] = Inr False"
| "rany f (x # xs) = rbind (f x) (\<lambda>b. if b then Inr True else rany f xs)"

fun riter :: "('a \<Rightarrow> unit res) \<Rightarrow> 'a list \<Rightarrow> unit res" where
  "riter f [] = Inr ()"
| "riter f (x # xs) = rbind (f x) (\<lambda>_. riter f xs)"

subsection \<open>Facts about results\<close>

lemma rbind_simps [simp, res_simps]:
  "rbind (Inl e) f = Inl e"
  "rbind (Inr x) f = f x"
  by (simp_all add: rbind_def)

lemma rbind_Inr_iff: "rbind r f = Inr y \<longleftrightarrow> (\<exists>x. r = Inr x \<and> f x = Inr y)"
  by (cases r) auto

lemma rbind_Inl_iff: "rbind r f = Inl e \<longleftrightarrow> r = Inl e \<or> (\<exists>x. r = Inr x \<and> f x = Inl e)"
  by (cases r) auto

lemma raise_if_simps [simp, res_simps]:
  "raise_if True e = Inl e"
  "raise_if False e = Inr ()"
  by (simp_all add: raise_if_def)

lemma raise_if_Inr_iff [simp]: "raise_if b e = Inr u \<longleftrightarrow> \<not> b"
  by (simp add: raise_if_def)

lemma raise_if_Inl_iff [simp]: "raise_if b e = Inl e' \<longleftrightarrow> b \<and> e = e'"
  by (auto simp: raise_if_def)

lemma rbind_raise_if_Inr: "rbind (raise_if b e) f = Inr y \<longleftrightarrow> \<not> b \<and> f () = Inr y"
  by (auto simp: raise_if_def)

lemma rbind_raise_if_Inl: "rbind (raise_if b e) f = Inl e' \<longleftrightarrow> (if b then e = e' else f () = Inl e')"
  by (auto simp: raise_if_def)

lemma exc_code_simps [simp]: "exc_code (RasatError c b) = c"
  by (simp add: exc_code_def)

lemma is_rasat_simps [simp]: "is_rasat (RasatError c b)"
  by (simp add: is_rasat_def)

lemma rmap_cong [fundef_cong]: "xs = ys \<Longrightarrow> (\<And>x. x \<in> set ys \<Longrightarrow> f x = g x) \<Longrightarrow> rmap f xs = rmap g ys"
  by (induction ys arbitrary: xs) auto

lemma rall_cong [fundef_cong]: "xs = ys \<Longrightarrow> (\<And>x. x \<in> set ys \<Longrightarrow> f x = g x) \<Longrightarrow> rall f xs = rall g ys"
  by (induction ys arbitrary: xs) (auto simp: rbind_def split: sum.splits)

lemma rany_cong [fundef_cong]: "xs = ys \<Longrightarrow> (\<And>x. x \<in> set ys \<Longrightarrow> f x = g x) \<Longrightarrow> rany f xs = rany g ys"
  by (induction ys arbitrary: xs) (auto simp: rbind_def split: sum.splits)

lemma riter_cong [fundef_cong]: "xs = ys \<Longrightarrow> (\<And>x. x \<in> set ys \<Longrightarrow> f x = g x) \<Longrightarrow> riter f xs = riter g ys"
  by (induction ys arbitrary: xs) auto

lemma rmap_length: "rmap f xs = Inr ys \<Longrightarrow> length ys = length xs"
  by (induction xs arbitrary: ys) (auto simp: rbind_Inr_iff)

lemma rmap_InrD: "rmap f xs = Inr ys \<Longrightarrow> y \<in> set ys \<Longrightarrow> \<exists>x\<in>set xs. f x = Inr y"
  by (induction xs arbitrary: ys) (auto simp: rbind_Inr_iff)

lemma riter_Inr_iff: "riter f xs = Inr u \<longleftrightarrow> (\<forall>x\<in>set xs. f x = Inr ())"
  by (induction xs) (auto simp: rbind_Inr_iff)

lemma riter_InlD: "riter f xs = Inl e \<Longrightarrow> \<exists>x\<in>set xs. f x = Inl e"
  by (induction xs) (auto simp: rbind_Inl_iff)

lemma http_status_for_range: "http_status_for c \<in> {400, 401, 404, 409, 422, 429, 500, 503, 504}"
  by (cases c) (simp_all add: http_status_for_def http_status_table_def)

end
