(* ===== verification/Numeric.thy ===== *)
theory Numeric
  imports Errors
begin

text \<open>
  Python values and the finite-number checks of \<open>numeric.py\<close> and \<open>timeutil.py\<close>.

  A Python float is a \<open>pyfloat\<close>: a finite number, an infinity or NaN. Finite numbers are
  exact rationals: the rounding of binary floating point is not modelled, its range is
  (conversion of an integer that does not fit raises \<open>OverflowError\<close>, a decimal literal that
  does not fit is an infinity). Parameters whose type the program checks at run time are
  \<open>pyval\<close>s.
\<close>

subsection \<open>Values\<close>

datatype pyfloat = Fin rat | PInf | NInf | NaN

datatype pyval =
    PNone
  | PBool bool
  | PInt int
  | PFloat pyfloat
  | PStr string
  | PList "pyval list"
  | PDict "(string \<times> pyval) list"

type_synonym pydict = "(string \<times> pyval) list"

lemma size_map_of: "map_of d k = Some v \<Longrightarrow> size v < size (PDict d)"
  by (induction d) (auto split: if_splits)

lemma size_in_list: "x \<in> set xs \<Longrightarrow> size x < size (PList xs)"
  by (induction xs) auto

text \<open>Python truth value.\<close>

fun truthy :: "pyval \<Rightarrow> bool" where
  "truthy PNone = False"
| "truthy (PBool b) = b"
| "truthy (PInt n) = (n \<noteq> 0)"
| "truthy (PFloat f) = (f \<noteq> Fin 0)"
| "truthy (PStr s) = (s \<noteq> [])"
| "truthy (PList xs) = (xs \<noteq> [])"
| "truthy (PDict kvs) = (kvs \<noteq> [])"

text \<open>\<open>dict.get(key)\<close>; a dictionary is the association list of its items.\<close>

definition dict_get :: "(string \<times> pyval) list \<Rightarrow> string \<Rightarrow> pyval" where
  "dict_get d k = (case map_of d k of Some v \<Rightarrow> v | None \<Rightarrow> PNone)"

subsection \<open>The float constructor\<close>

text \<open>The least magnitude that rounds to an infinity in binary64.\<close>

definition float_limit :: int where
  "float_limit = 2 ^ 1024 - 2 ^ 970"

definition float_of_int :: "int \<Rightarrow> pyfloat res" where
  "float_of_int n = (if float_limit \<le> \<bar>n\<bar> then Inl OverflowError else Inr (Fin (of_int n)))"

fun scan_tail :: "string \<Rightarrow> nat list \<times> string" where
  "scan_tail [] = ([], [])"
| "scan_tail (c # s) =
     (if is_digit c then (let (ds, r) = scan_tail s in (digit_val c # ds, r))
      else if c = CHR ''_'' then
        (case s of
           d # s' \<Rightarrow> if is_digit d then (let (ds, r) = scan_tail s' in (digit_val d # ds, r))
                       else ([], c # s)
         | [] \<Rightarrow> ([], c # s))
      else ([], c # s))"

definition scan_digits :: "string \<Rightarrow> nat list \<times> string" where
  "scan_digits s =
     (case s of
        [] \<Rightarrow> ([], [])
      | c # s' \<Rightarrow> if is_digit c then (let (ds, r) = scan_tail s' in (digit_val c # ds, r)) else ([], s))"

definition digits_val :: "nat list \<Rightarrow> int" where
  "digits_val ds = foldl (\<lambda>a d. 10 * a + int d) 0 ds"

definition split_sign :: "string \<Rightarrow> bool \<times> string" where
  "split_sign s =
     (case s of
        c # r \<Rightarrow> if c = CHR ''-'' then (True, r) else if c = CHR ''+'' then (False, r) else (False, s)
      | [] \<Rightarrow> (False, []))"

definition scan_exponent :: "string \<Rightarrow> int option" where
  "scan_exponent s =
     (case s of
        [] \<Rightarrow> Some 0
      | c # r \<Rightarrow>
          if c = CHR ''e'' then
            (let (neg, r') = split_sign r; (ds, rest) = scan_digits r'
             in if ds = [] \<or> rest \<noteq> [] then None
                else Some (if neg then - digits_val ds else digits_val ds))
          else None)"

definition scale10 :: "int \<Rightarrow> int \<Rightarrow> rat" where
  "scale10 m e = (if 0 \<le> e then of_int m * 10 ^ nat e else of_int m / 10 ^ nat (- e))"

definition signed_float :: "bool \<Rightarrow> rat \<Rightarrow> pyfloat" where
  "signed_float neg q =
     (if of_int float_limit \<le> q then (if neg then NInf else PInf) else Fin (if neg then - q else q))"

text \<open>\<open>float(s)\<close> on a string: surrounding white space, a sign, \<open>inf\<close>, \<open>infinity\<close> or
  \<open>nan\<close> in any case, or a decimal literal with optional fraction and exponent and
  underscores between digits; anything else is a \<open>ValueError\<close>.\<close>

definition float_of_string :: "string \<Rightarrow> pyfloat res" where
  "float_of_string str =
     (let (neg, s) = split_sign (py_lower (py_strip str)) in
      if s = ''inf'' \<or> s = ''infinity'' then Inr (if neg then NInf else PInf)
      else if s = ''nan'' then Inr NaN
      else
        (let (ip, r1) = scan_digits s;
             (fp, r2) = (case r1 of
                           c # r \<Rightarrow> if c = CHR ''.'' then scan_digits r else ([], r1)
                         | [] \<Rightarrow> ([], []))
         in if ip = [] \<and> fp = [] then Inl ValueError
            else (case scan_exponent r2 of
                    None \<Rightarrow> Inl ValueError
                  | Some e \<Rightarrow>
                      Inr (signed_float neg (scale10 (digits_val (ip @ fp)) (e - int (length fp)))))))"

fun py_float :: "pyval \<Rightarrow> pyfloat res" where
  "py_float PNone = Inl TypeError"
| "py_float (PBool b) = Inr (Fin (if b then 1 else 0))"
| "py_float (PInt n) = float_of_int n"
| "py_float (PFloat f) = Inr f"
| "py_float (PStr s) = float_of_string s"
| "py_float (PList _) = Inl TypeError"
| "py_float (PDict _) = Inl TypeError"

fun is_finite :: "pyfloat \<Rightarrow> bool" where
  "is_finite (Fin _) = True"
| "is_finite _ = False"

subsection \<open>The int constructor\<close>

text \<open>\<open>int\<close> of a float truncates towards zero; \<open>int\<close> of a string reads a decimal integer of at most 4300
  digits.\<close>

definition trunc :: "rat \<Rightarrow> int" where
  "trunc q = (if 0 \<le> q then \<lfloor>q\<rfloor> else \<lceil>q\<rceil>)"

definition int_of_string :: "string \<Rightarrow> int res" where
  "int_of_string s =
     (let (neg, r) = split_sign (py_strip s); (ds, rest) = scan_digits r in
      if ds = [] \<or> rest \<noteq> [] \<or> 4300 < length ds then Inl ValueError
      else Inr (if neg then - digits_val ds else digits_val ds))"

fun py_int :: "pyval \<Rightarrow> int res" where
  "py_int (PInt n) = Inr n"
| "py_int (PBool b) = Inr (if b then 1 else 0)"
| "py_int (PFloat (Fin q)) = Inr (trunc q)"
| "py_int (PFloat NaN) = Inl ValueError"
| "py_int (PFloat _) = Inl OverflowError"
| "py_int (PStr s) = int_of_string s"
| "py_int _ = Inl TypeError"

subsection \<open>numeric.py\<close>

definition require_finite :: "pyval \<Rightarrow> rat res" where
  "require_finite v =
     (case v of
        PNone \<Rightarrow> Inl (rasat INVALID_REQUEST)
      | PBool _ \<Rightarrow> Inl (rasat INVALID_REQUEST)
      | _ \<Rightarrow>
          (case py_float v of
             Inl e \<Rightarrow> if e = TypeError \<or> e = ValueError then Inl (rasat INVALID_REQUEST) else Inl e
           | Inr (Fin q) \<Rightarrow> Inr q
           | Inr _ \<Rightarrow> Inl (rasat INVALID_REQUEST)))"

definition require_positive :: "pyval \<Rightarrow> rat res" where
  "require_positive v =
     rbind (require_finite v) (\<lambda>num.
       if num \<le> 0 then Inl (rasat INVALID_REQUEST) else Inr num)"

subsection \<open>timeutil.py\<close>

definition MS_THRESHOLD :: int where
  "MS_THRESHOLD = 100000000000"

definition to_epoch_seconds :: "int \<Rightarrow> int" where
  "to_epoch_seconds ts = (if MS_THRESHOLD \<le> ts then ts div 1000 else ts)"

subsection \<open>Facts\<close>

lemma float_limit_pos: "0 < float_limit"
  by (simp add: float_limit_def)

lemma float_of_string_no_rasat:
  "float_of_string s = Inl e \<Longrightarrow> e = ValueError"
  by (auto simp: float_of_string_def Let_def split: prod.splits if_splits option.splits)

lemma py_float_errors: "py_float v = Inl e \<Longrightarrow> e \<in> {TypeError, ValueError, OverflowError}"
  by (cases v) (auto simp: float_of_int_def dest: float_of_string_no_rasat split: if_splits)

text \<open>The only exception other than the canonical one is the overflow of an integer.\<close>

lemma require_finite_errors:
  assumes "require_finite v = Inl e"
  shows "e = rasat INVALID_REQUEST \<or> (e = OverflowError \<and> (\<exists>n. v = PInt n \<and> float_limit \<le> \<bar>n\<bar>))"
proof (cases v)
  case (PInt n)
  with assms show ?thesis
    by (auto simp: require_finite_def float_of_int_def split: if_splits)
next
  case (PStr s)
  with assms show ?thesis
    by (auto simp: require_finite_def dest!: float_of_string_no_rasat split: sum.splits pyfloat.splits if_splits)
qed (use assms in \<open>auto simp: require_finite_def split: pyfloat.splits\<close>)

lemma require_finite_float [simp]: "require_finite (PFloat (Fin q)) = Inr q"
  by (simp add: require_finite_def)

lemma require_positive_Inr: "require_positive v = Inr q \<Longrightarrow> 0 < q"
  by (auto simp: require_positive_def rbind_Inr_iff split: if_splits)

lemma require_positive_float [simp]:
  "require_positive (PFloat (Fin q)) = (if q \<le> 0 then Inl (rasat INVALID_REQUEST) else Inr q)"
  by (simp add: require_positive_def)

lemma to_epoch_seconds_idem:
  assumes "0 \<le> ts" "ts < 1000 * MS_THRESHOLD"
  shows "to_epoch_seconds (to_epoch_seconds ts) = to_epoch_seconds ts"
  using assms by (auto simp: to_epoch_seconds_def MS_THRESHOLD_def)

end
