(* ===== verification/Risk.thy ===== *)
theory Risk
  imports Numeric
begin

text \<open>
  The non-bypassable correctness checks (\<open>accuracy.py\<close>) and the user-defined policy caps
  (\<open>risk.py\<close>). A policy is the dictionary \<open>RiskPolicyService.get_policy\<close> returns.
\<close>

subsection \<open>IEEE comparisons\<close>

fun flt :: "pyfloat \<Rightarrow> pyfloat \<Rightarrow> bool" where
  "flt (Fin a) (Fin b) = (a < b)"
| "flt NaN _ = False"
| "flt _ NaN = False"
| "flt NInf NInf = False"
| "flt NInf _ = True"
| "flt _ NInf = False"
| "flt PInf _ = False"
| "flt (Fin _) PInf = True"

definition fle :: "pyfloat \<Rightarrow> pyfloat \<Rightarrow> bool" where
  "fle a b = (a \<noteq> NaN \<and> b \<noteq> NaN \<and> (a = b \<or> flt a b))"

text \<open>\<open>(side or "BUY").upper()\<close>\<close>

definition side_or_buy :: "string \<Rightarrow> string" where
  "side_or_buy side = py_upper (if side = [] then ''BUY'' else side)"

subsection \<open>accuracy.py\<close>

definition check_symbol_valid :: "pyval \<Rightarrow> string list option \<Rightarrow> unit res" where
  "check_symbol_valid symbol universe =
     (case symbol of
        PStr s \<Rightarrow>
          if s = [] then Inl (rasat INVALID_SYMBOL)
          else (case universe of
                  None \<Rightarrow> Inl (rasat INVALID_SYMBOL)
                | Some u \<Rightarrow> raise_if (s \<notin> set u) (rasat INVALID_SYMBOL))
      | _ \<Rightarrow> Inl (rasat INVALID_SYMBOL))"

definition FRESHNESS_FRESH :: string where
  "FRESHNESS_FRESH = ''fresh''"

definition FRESHNESS_STALE :: string where
  "FRESHNESS_STALE = ''stale''"

definition check_price_fresh :: "string option \<Rightarrow> unit res" where
  "check_price_fresh freshness = raise_if (freshness \<noteq> Some FRESHNESS_FRESH) (rasat STALE_DATA)"

definition check_stop_direction :: "string \<Rightarrow> rat \<Rightarrow> rat \<Rightarrow> unit res" where
  "check_stop_direction side entry stop_loss =
     (if side_or_buy side = ''BUY'' then raise_if (entry \<le> stop_loss) (rasat INVALID_REQUEST)
      else if side_or_buy side = ''SELL'' then raise_if (stop_loss \<le> entry) (rasat INVALID_REQUEST)
      else Inl (rasat INVALID_REQUEST))"

definition check_sufficient_balance :: "pyfloat \<Rightarrow> pyfloat \<Rightarrow> unit res" where
  "check_sufficient_balance available_quote required_quote =
     raise_if (flt available_quote required_quote) (rasat INSUFFICIENT_BALANCE)"

subsection \<open>risk.py\<close>

record policy =
  pol_account_id :: string
  max_notional_per_order :: "pyfloat option"
  max_aggregate_exposure :: "pyfloat option"
  allowed_symbols :: "string list"
  policy_version :: int
  configured :: bool

definition DEFAULT_TOLERANCE_PCT :: rat where
  "DEFAULT_TOLERANCE_PCT = 2 / 100"

definition within_tolerance :: "pyval \<Rightarrow> pyval \<Rightarrow> pyval \<Rightarrow> bool res" where
  "within_tolerance value_v target_v tolerance_v =
     rbind (require_finite value_v) (\<lambda>value.
     rbind (require_finite target_v) (\<lambda>target.
     rbind (require_finite tolerance_v) (\<lambda>tolerance_pct.
       if tolerance_pct < 0 then Inl (rasat INVALID_REQUEST)
       else if target = 0 then Inr (value = 0)
       else Inr (\<bar>value - target\<bar> \<le> \<bar>target\<bar> * tolerance_pct))))"

definition check_cap :: "rat \<Rightarrow> pyfloat option \<Rightarrow> unit res" where
  "check_cap amount cap =
     (case cap of
        None \<Rightarrow> Inr ()
      | Some c \<Rightarrow> rbind (require_finite (PFloat c)) (\<lambda>c'.
                    raise_if (c' < amount) (rasat RISK_LIMIT_EXCEEDED)))"

definition enforce_policy_caps :: "pyval \<Rightarrow> pyval \<Rightarrow> policy \<Rightarrow> pyval \<Rightarrow> unit res" where
  "enforce_policy_caps symbol notional_v pol aggregate_v =
     (case symbol of
        PStr s \<Rightarrow>
          if s = [] then Inl (rasat INVALID_REQUEST)
          else
            rbind (require_finite notional_v) (\<lambda>notional.
            rbind (raise_if (notional \<le> 0) (rasat INVALID_REQUEST)) (\<lambda>_.
            rbind (raise_if (allowed_symbols pol \<noteq> [] \<and> s \<notin> set (allowed_symbols pol))
                     (rasat SYMBOL_NOT_ALLOWED)) (\<lambda>_.
            rbind (check_cap notional (max_notional_per_order pol)) (\<lambda>_.
              if aggregate_v = PNone then Inr ()
              else rbind (require_finite aggregate_v) (\<lambda>aggregate.
                     check_cap aggregate (max_aggregate_exposure pol))))))
      | _ \<Rightarrow> Inl (rasat INVALID_REQUEST))"

text \<open>What the caps promise, stated without the code: the symbol is allowed and both
  amounts are at most their cap.\<close>

definition cap_ok :: "rat \<Rightarrow> pyfloat option \<Rightarrow> bool" where
  "cap_ok amount cap = (case cap of None \<Rightarrow> True | Some (Fin c) \<Rightarrow> amount \<le> c | Some _ \<Rightarrow> False)"

definition caps_ok :: "string \<Rightarrow> rat \<Rightarrow> policy \<Rightarrow> rat \<Rightarrow> bool" where
  "caps_ok symbol notional pol exposure =
     ((allowed_symbols pol = [] \<or> symbol \<in> set (allowed_symbols pol))
      \<and> cap_ok notional (max_notional_per_order pol)
      \<and> cap_ok exposure (max_aggregate_exposure pol))"

subsection \<open>Facts\<close>

lemma check_price_fresh_iff: "check_price_fresh f = Inr u \<longleftrightarrow> f = Some FRESHNESS_FRESH"
  by (auto simp: check_price_fresh_def)

lemma check_stop_direction_Inr:
  "check_stop_direction side entry stop = Inr u \<longleftrightarrow>
     (side_or_buy side = ''BUY'' \<and> stop < entry) \<or> (side_or_buy side = ''SELL'' \<and> entry < stop)"
  by (auto simp: check_stop_direction_def)

lemma check_stop_direction_Inl:
  "check_stop_direction side entry stop = Inl e \<Longrightarrow> e = rasat INVALID_REQUEST"
  by (auto simp: check_stop_direction_def split: if_splits)

lemma check_cap_Inr: "check_cap a c = Inr u \<longleftrightarrow> cap_ok a c"
  by (auto simp: check_cap_def cap_ok_def require_finite_def split: option.splits pyfloat.splits)

lemma check_cap_Inl:
  "check_cap a c = Inl e \<Longrightarrow> e = rasat RISK_LIMIT_EXCEEDED \<or> e = rasat INVALID_REQUEST"
  by (auto simp: check_cap_def require_finite_def split: option.splits pyfloat.splits)

lemma enforce_policy_caps_ok:
  "enforce_policy_caps (PStr s) (PFloat (Fin n)) pol (PFloat (Fin x)) = Inr u \<longleftrightarrow>
     s \<noteq> [] \<and> 0 < n \<and> caps_ok s n pol x"
  by (auto simp: enforce_policy_caps_def caps_ok_def rbind_Inr_iff check_cap_Inr)

lemma enforce_policy_caps_errors:
  "enforce_policy_caps (PStr s) (PFloat (Fin n)) pol (PFloat (Fin x)) = Inl e \<Longrightarrow>
     e \<in> {rasat INVALID_REQUEST, rasat SYMBOL_NOT_ALLOWED, rasat RISK_LIMIT_EXCEEDED}"
  by (auto simp: enforce_policy_caps_def rbind_Inl_iff rbind_raise_if_Inl
      split: if_splits dest!: check_cap_Inl)

lemma within_tolerance_sym_band:
  assumes "within_tolerance (PFloat (Fin v)) (PFloat (Fin t)) (PFloat (Fin p)) = Inr True" "0 \<le> p"
  shows "\<bar>t\<bar> * (1 - p) \<le> \<bar>v\<bar>"
proof (cases "t = 0")
  case True
  then show ?thesis by simp
next
  case False
  with assms have "\<bar>v - t\<bar> \<le> \<bar>t\<bar> * p"
    by (simp add: within_tolerance_def split: if_splits)
  moreover have "\<bar>t\<bar> * (1 - p) = \<bar>t\<bar> - \<bar>t\<bar> * p"
    by (simp add: right_diff_distrib)
  ultimately show ?thesis by linarith
qed

end
