(* ===== verification/Sizing.thy ===== *)
theory Sizing
  imports Risk
begin

text \<open>
  Position sizing and the exchange filters (\<open>position_sizing.py\<close>). Filter values come from
  the exchange as text and may be non-finite (a missing maximum is an infinity), so they are
  \<open>pyfloat\<close>s; \<open>entry\<close> of \<open>from_exchange_info\<close> is the JSON entry with its string fields
  and its list of filter dictionaries.
\<close>

subsection \<open>Float arithmetic with a possibly non-finite operand\<close>

fun fmulq :: "pyfloat \<Rightarrow> rat \<Rightarrow> pyfloat" where
  "fmulq (Fin a) q = Fin (a * q)"
| "fmulq NaN q = NaN"
| "fmulq PInf q = (if 0 < q then PInf else if q < 0 then NInf else NaN)"
| "fmulq NInf q = (if 0 < q then NInf else if q < 0 then PInf else NaN)"

fun fadd :: "pyfloat \<Rightarrow> pyfloat \<Rightarrow> pyfloat" where
  "fadd (Fin a) (Fin b) = Fin (a + b)"
| "fadd NaN _ = NaN"
| "fadd _ NaN = NaN"
| "fadd PInf NInf = NaN"
| "fadd NInf PInf = NaN"
| "fadd PInf _ = PInf"
| "fadd _ PInf = PInf"
| "fadd NInf _ = NInf"
| "fadd _ NInf = NInf"

definition EPS :: rat where
  "EPS = 1 / 10 ^ 9"

definition DEFAULT_FEE_RATE :: rat where
  "DEFAULT_FEE_RATE = 1 / 1000"

subsection \<open>Filters\<close>

record symbol_filters =
  sf_symbol :: string
  base_asset :: string
  sf_quote_asset :: string
  sf_status :: string
  step_size :: pyfloat
  min_qty :: pyfloat
  max_qty :: pyfloat
  min_notional :: pyfloat
  tick_size :: pyfloat
  min_price :: pyfloat
  max_price :: pyfloat

record exchange_entry =
  ee_symbol :: "string option"
  ee_base_asset :: "string option"
  ee_quote_asset :: "string option"
  ee_status :: "string option"
  ee_filters :: "(string \<times> pyval) list list"

definition str_or_empty :: "string option \<Rightarrow> string" where
  "str_or_empty s = (case s of Some t \<Rightarrow> t | None \<Rightarrow> [])"

text \<open>\<open>{f.get("filterType"): f for f in ...}.get(fname) or {}\<close>: the last filter of that
  type wins.\<close>

definition filter_of :: "(string \<times> pyval) list list \<Rightarrow> string \<Rightarrow> (string \<times> pyval) list" where
  "filter_of fs fname =
     (case List.find (\<lambda>f. dict_get f ''filterType'' = PStr fname) (rev fs) of Some f \<Rightarrow> f | None \<Rightarrow> [])"

definition filter_num :: "(string \<times> pyval) list list \<Rightarrow> string \<Rightarrow> string \<Rightarrow> pyfloat \<Rightarrow> pyfloat res" where
  "filter_num fs fname key dflt =
     (let raw = dict_get (filter_of fs fname) key in
      if raw = PNone \<or> raw = PStr [] then Inr dflt else py_float raw)"

definition from_exchange_info :: "exchange_entry \<Rightarrow> symbol_filters res" where
  "from_exchange_info entry =
     (let num = filter_num (ee_filters entry) in
      rbind (num ''LOT_SIZE'' ''stepSize'' (Fin 0)) (\<lambda>step.
      rbind (num ''LOT_SIZE'' ''minQty'' (Fin 0)) (\<lambda>minq.
      rbind (num ''LOT_SIZE'' ''maxQty'' PInf) (\<lambda>maxq.
      rbind (rbind (num ''NOTIONAL'' ''minNotional'' (Fin 0)) (\<lambda>m.
               if m = Fin 0 then num ''MIN_NOTIONAL'' ''minNotional'' (Fin 0) else Inr m)) (\<lambda>minn.
      rbind (num ''PRICE_FILTER'' ''tickSize'' (Fin 0)) (\<lambda>tick.
      rbind (num ''PRICE_FILTER'' ''minPrice'' (Fin 0)) (\<lambda>minp.
      rbind (num ''PRICE_FILTER'' ''maxPrice'' PInf) (\<lambda>maxp.
        Inr \<lparr>sf_symbol = str_or_empty (ee_symbol entry), base_asset = str_or_empty (ee_base_asset entry),
             sf_quote_asset = str_or_empty (ee_quote_asset entry), sf_status = str_or_empty (ee_status entry),
             step_size = step, min_qty = minq, max_qty = maxq, min_notional = minn,
             tick_size = tick, min_price = minp, max_price = maxp\<rparr>))))))))"

subsection \<open>Rounding and sizing\<close>

text \<open>The value is finite. An infinite step makes the quotient 0 and the product
  \<open>0 * inf\<close> a NaN; flooring a NaN quotient raises.\<close>

definition round_down_to_step :: "rat \<Rightarrow> pyfloat \<Rightarrow> pyfloat res" where
  "round_down_to_step v step =
     (case step of
        Fin s \<Rightarrow> Inr (Fin (if s \<le> 0 then v else of_int \<lfloor>v / s + EPS\<rfloor> * s))
      | NInf \<Rightarrow> Inr (Fin v)
      | PInf \<Rightarrow> Inr NaN
      | NaN \<Rightarrow> Inl ValueError)"

record sizing =
  sz_symbol :: string
  sz_side :: string
  sz_account_balance :: rat
  sz_risk_pct :: rat
  sz_risk_amount :: rat
  sz_risk_per_unit :: rat
  sz_entry :: rat
  sz_stop_loss :: rat
  sz_quantity :: pyfloat
  sz_notional :: pyfloat
  sz_estimated_fee :: pyfloat
  sz_total_required :: pyfloat
  sz_fee_rate :: rat
  sz_filters :: symbol_filters

text \<open>The result carries the filters themselves; the code renders them with \<open>to_dict\<close>,
  which only replaces an infinite maximum by \<open>None\<close>.\<close>

definition calculate_position_size ::
  "pyval \<Rightarrow> pyval \<Rightarrow> pyval \<Rightarrow> pyval \<Rightarrow> pyval \<Rightarrow> symbol_filters \<Rightarrow> string \<Rightarrow> pyval \<Rightarrow> sizing res" where
  "calculate_position_size symbol_v balance_v risk_v entry_v stop_v flts side fee_v =
     (case symbol_v of
        PStr symbol \<Rightarrow>
          if symbol = [] then Inl (rasat INVALID_REQUEST)
          else
            rbind (require_finite balance_v) (\<lambda>account_balance.
            rbind (require_finite risk_v) (\<lambda>risk_pct.
            rbind (require_finite entry_v) (\<lambda>entry.
            rbind (require_finite stop_v) (\<lambda>stop_loss.
            rbind (require_finite fee_v) (\<lambda>fee_rate.
            rbind (check_stop_direction side entry stop_loss) (\<lambda>_.
            rbind (raise_if (risk_pct \<le> 0 \<or> 1 < risk_pct) (rasat INVALID_REQUEST)) (\<lambda>_.
            rbind (raise_if (account_balance \<le> 0) (rasat INVALID_REQUEST)) (\<lambda>_.
            rbind (raise_if (entry \<le> 0 \<or> stop_loss \<le> 0) (rasat INVALID_REQUEST)) (\<lambda>_.
            rbind (raise_if (fee_rate < 0) (rasat INVALID_REQUEST)) (\<lambda>_.
            rbind (raise_if (flt (Fin entry) (min_price flts) \<or> flt (max_price flts) (Fin entry))
                     (rasat FILTER_VIOLATION)) (\<lambda>_.
              let risk_amount = account_balance * risk_pct;
                  risk_per_unit = \<bar>entry - stop_loss\<bar>;
                  raw_qty = risk_amount / risk_per_unit;
                  balance_cap_qty = account_balance / (entry * (1 + fee_rate))
              in
              rbind (round_down_to_step (min raw_qty balance_cap_qty) (step_size flts)) (\<lambda>qty.
                let notional = fmulq qty entry; fee = fmulq notional fee_rate in
                rbind (raise_if (fle qty (Fin 0) \<or> flt qty (min_qty flts)) (rasat FILTER_VIOLATION)) (\<lambda>_.
                rbind (raise_if (flt (max_qty flts) qty) (rasat FILTER_VIOLATION)) (\<lambda>_.
                rbind (raise_if (flt notional (min_notional flts)) (rasat FILTER_VIOLATION)) (\<lambda>_.
                rbind (check_sufficient_balance (Fin account_balance) (fadd notional fee)) (\<lambda>_.
                  Inr \<lparr>sz_symbol = symbol, sz_side = side_or_buy side,
                       sz_account_balance = account_balance, sz_risk_pct = risk_pct,
                       sz_risk_amount = risk_amount, sz_risk_per_unit = risk_per_unit,
                       sz_entry = entry, sz_stop_loss = stop_loss, sz_quantity = qty,
                       sz_notional = notional, sz_estimated_fee = fee,
                       sz_total_required = fadd notional fee, sz_fee_rate = fee_rate,
                       sz_filters = flts\<rparr>))))))))))))))))
      | _ \<Rightarrow> Inl (rasat INVALID_REQUEST))"

subsection \<open>Facts\<close>

lemma fle_Fin [simp]: "fle (Fin a) (Fin b) \<longleftrightarrow> a \<le> b"
  by (auto simp: fle_def)

lemma EPS_pos: "0 < EPS"
  by (simp add: EPS_def)

lemma round_down_nonfinite: "round_down_to_step v step = Inr q \<Longrightarrow> q = NaN \<or> (\<exists>x. q = Fin x)"
  by (auto simp: round_down_to_step_def split: pyfloat.splits)

text \<open>Rounding never exceeds the value by more than \<open>EPS\<close> of a step, loses less than one
  step, and lands on a multiple of the step.\<close>

lemma round_down_bounds:
  assumes "0 < s" "round_down_to_step v (Fin s) = Inr (Fin q)"
  shows "q \<le> v + EPS * s" "v - s < q" "\<exists>k::int. q = of_int k * s"
proof -
  let ?k = "\<lfloor>v / s + EPS\<rfloor>"
  from assms have q: "q = of_int ?k * s"
    by (simp add: round_down_to_step_def)
  have "of_int ?k \<le> v / s + EPS" by simp
  from mult_right_mono [OF this, of s] assms(1) show "q \<le> v + EPS * s"
    by (simp add: q distrib_right)
  have "v / s + EPS < of_int ?k + 1" by linarith
  then have "v / s < of_int ?k + 1" using EPS_pos by linarith
  from mult_strict_right_mono [OF this assms(1)] assms(1) show "v - s < q"
    by (simp add: q distrib_right)
  show "\<exists>k::int. q = of_int k * s" using q by blast
qed

lemma round_down_of_multiple:
  assumes "0 < s"
  shows "round_down_to_step (of_int k * s) (Fin s) = Inr (Fin (of_int k * s))"
proof -
  have "\<lfloor>of_int k + EPS\<rfloor> = k" by (simp add: EPS_def floor_eq_iff)
  with assms show ?thesis by (simp add: round_down_to_step_def)
qed

lemma round_down_idem:
  assumes "round_down_to_step v (Fin s) = Inr (Fin q)"
  shows "round_down_to_step q (Fin s) = Inr (Fin q)"
proof (cases "s \<le> 0")
  case True
  then show ?thesis by (simp add: round_down_to_step_def)
next
  case False
  then have "0 < s" by simp
  with round_down_bounds(3) [OF this assms] obtain k :: int where "q = of_int k * s" by blast
  with round_down_of_multiple [OF \<open>0 < s\<close>, of k] show ?thesis by simp
qed

text \<open>Every guard of \<open>calculate_position_size\<close> that a returned size has passed.\<close>

lemma calculate_position_size_Inr:
  assumes "calculate_position_size smb bal rp en st flts side fee = Inr r" "step_size flts = Fin s"
  obtains q where
    "sz_quantity r = Fin q" "sz_notional r = Fin (q * sz_entry r)" "sz_filters r = flts"
    "sz_estimated_fee r = Fin (q * sz_entry r * sz_fee_rate r)"
    "round_down_to_step (min (sz_risk_amount r / sz_risk_per_unit r)
        (sz_account_balance r / (sz_entry r * (1 + sz_fee_rate r)))) (Fin s) = Inr (Fin q)"
    "0 < q" "\<not> flt (Fin q) (min_qty flts)" "\<not> flt (max_qty flts) (Fin q)"
    "\<not> flt (Fin (q * sz_entry r)) (min_notional flts)"
    "q * sz_entry r + q * sz_entry r * sz_fee_rate r \<le> sz_account_balance r"
    "0 < sz_entry r" "0 < sz_stop_loss r" "0 \<le> sz_fee_rate r" "0 < sz_risk_pct r" "sz_risk_pct r \<le> 1"
    "sz_risk_amount r = sz_account_balance r * sz_risk_pct r"
    "sz_risk_per_unit r = \<bar>sz_entry r - sz_stop_loss r\<bar>" "0 < sz_account_balance r"
    "sz_entry r \<noteq> sz_stop_loss r"
proof -
  from assms(2) have rd: "\<exists>q. round_down_to_step x (step_size flts) = Inr (Fin q)" for x
    by (simp add: round_down_to_step_def)
  from assms(1) show ?thesis
    unfolding calculate_position_size_def Let_def
    apply (clarsimp simp: rbind_Inr_iff check_stop_direction_Inr check_sufficient_balance_def
        split: pyval.splits if_splits)
    subgoal for symbol account_balance risk_pct entry stop_loss fee_rate qty
      using rd [of "min (account_balance * risk_pct / \<bar>entry - stop_loss\<bar>) (account_balance / (entry * (1 + fee_rate)))"]
        assms(2)
      by (elim exE) (rule that, auto)
    done
qed

subsection \<open>Properties\<close>

text \<open>C33: A computed position is safe: a positive multiple of the lot step whose cost including
  fees the balance covers, whose loss at the stop exceeds the risk budget by at most the
  rounding allowance of a billionth of a step, and which respects the quantity and notional
  filters.\<close>

theorem position_size_safe:
  assumes "calculate_position_size smb bal rp en st flts side fee = Inr r"
    and "step_size flts = Fin s" "0 < s"
  shows "\<exists>q. sz_quantity r = Fin q \<and> 0 < q \<and> (\<exists>k::int. q = of_int k * s)
     \<and> q * sz_entry r * (1 + sz_fee_rate r) \<le> sz_account_balance r
     \<and> q * \<bar>sz_entry r - sz_stop_loss r\<bar>
         \<le> sz_account_balance r * sz_risk_pct r + EPS * s * \<bar>sz_entry r - sz_stop_loss r\<bar>
     \<and> \<not> flt (Fin q) (min_qty flts) \<and> \<not> flt (max_qty flts) (Fin q)
     \<and> \<not> flt (Fin (q * sz_entry r)) (min_notional flts)"
proof -
  obtain q where q: "sz_quantity r = Fin q" "0 < q" "\<not> flt (Fin q) (min_qty flts)" "\<not> flt (max_qty flts) (Fin q)"
    "\<not> flt (Fin (q * sz_entry r)) (min_notional flts)"
    "q * sz_entry r + q * sz_entry r * sz_fee_rate r \<le> sz_account_balance r"
    "round_down_to_step (min (sz_risk_amount r / sz_risk_per_unit r)
        (sz_account_balance r / (sz_entry r * (1 + sz_fee_rate r)))) (Fin s) = Inr (Fin q)"
    "sz_risk_amount r = sz_account_balance r * sz_risk_pct r"
    "sz_risk_per_unit r = \<bar>sz_entry r - sz_stop_loss r\<bar>" "sz_entry r \<noteq> sz_stop_loss r"
    using assms(1,2) by (rule calculate_position_size_Inr) blast
  let ?u = "\<bar>sz_entry r - sz_stop_loss r\<bar>"
  have u: "0 < ?u" using q(10) by simp
  have "q \<le> sz_account_balance r * sz_risk_pct r / ?u + EPS * s"
    using round_down_bounds(1) [OF assms(3) q(7)] by (simp add: q(8,9) min_def split: if_splits)
  then have "q * ?u \<le> (sz_account_balance r * sz_risk_pct r / ?u + EPS * s) * ?u"
    using u by (simp add: mult_right_mono)
  also have "\<dots> = sz_account_balance r * sz_risk_pct r + EPS * s * ?u"
    using u by (simp add: distrib_right)
  finally show ?thesis
    using q round_down_bounds(3) [OF assms(3) q(7)] by (auto simp: distrib_left)
qed

theorem position_size_safe_witness:
  "\<exists>r q. calculate_position_size (PStr ''BTCUSDT'') (PInt 1000) (PFloat (Fin (1 / 10))) (PInt 100) (PInt 90)
      \<lparr>sf_symbol = ''BTCUSDT'', base_asset = ''BTC'', sf_quote_asset = ''USDT'', sf_status = ''TRADING'', step_size = Fin 1,
       min_qty = Fin 1, max_qty = Fin 100, min_notional = Fin 10, tick_size = Fin 1, min_price = Fin 1, max_price = Fin 10000\<rparr>
      ''BUY'' (PFloat (Fin (1 / 1000))) = Inr r \<and> sz_quantity r = Fin q \<and> 0 < q"
proof -
  let ?f = "\<lparr>sf_symbol = ''BTCUSDT'', base_asset = ''BTC'', sf_quote_asset = ''USDT'', sf_status = ''TRADING'', step_size = Fin 1,
       min_qty = Fin 1, max_qty = Fin 100, min_notional = Fin 10, tick_size = Fin 1, min_price = Fin 1, max_price = Fin 10000\<rparr>"
  let ?c = "calculate_position_size (PStr ''BTCUSDT'') (PInt 1000) (PFloat (Fin (1 / 10))) (PInt 100) (PInt 90) ?f ''BUY'' (PFloat (Fin (1 / 1000)))"
  have fl: "\<lfloor>10000000001001 / 1001000000000 :: rat\<rfloor> = 9" by (simp add: floor_eq_iff)
  have "\<exists>r. ?c = Inr r"
    by (simp add: calculate_position_size_def require_finite_def float_of_int_def float_limit_def check_stop_direction_def
        side_or_buy_def py_upper_def upper_char_def round_down_to_step_def EPS_def check_sufficient_balance_def min_def Let_def
        fl)
  then obtain r where "?c = Inr r" by blast
  with position_size_safe [OF this, of 1] show ?thesis by auto
qed

end
