(* ===== verification/Order_Validation.thy ===== *)
theory Order_Validation
  imports Sizing
begin

text \<open>
  The shared execution validator (\<open>storage/order_validation.py\<close>): every order is
  normalised and checked here before any broker call. Sides and order types are strings in
  the code; after normalisation they are the constructors below.
\<close>

datatype side = BUY | SELL

datatype order_type = MARKET | LIMIT | STOP_LOSS_LIMIT | OCO

definition SIDES :: "(string \<times> side) list" where
  "SIDES = [(''BUY'', BUY), (''SELL'', SELL)]"

definition ORDER_TYPES :: "(string \<times> order_type) list" where
  "ORDER_TYPES = [(''MARKET'', MARKET), (''LIMIT'', LIMIT), (''STOP_LOSS_LIMIT'', STOP_LOSS_LIMIT), (''OCO'', OCO)]"

fun side_name :: "side \<Rightarrow> string" where
  "side_name BUY = ''BUY''"
| "side_name SELL = ''SELL''"

fun order_type_name :: "order_type \<Rightarrow> string" where
  "order_type_name MARKET = ''MARKET''"
| "order_type_name LIMIT = ''LIMIT''"
| "order_type_name STOP_LOSS_LIMIT = ''STOP_LOSS_LIMIT''"
| "order_type_name OCO = ''OCO''"

definition ALIGN_EPS :: rat where
  "ALIGN_EPS = 1 / 10 ^ 6"

definition normalize_side :: "pyval \<Rightarrow> side res" where
  "normalize_side v =
     (case v of
        PStr s \<Rightarrow> (if py_strip s = [] then Inl (rasat INVALID_REQUEST)
                   else (case map_of SIDES (py_upper (py_strip s)) of
                           Some d \<Rightarrow> Inr d | None \<Rightarrow> Inl (rasat INVALID_REQUEST)))
      | _ \<Rightarrow> Inl (rasat INVALID_REQUEST))"

definition normalize_order_type :: "pyval \<Rightarrow> order_type res" where
  "normalize_order_type v =
     (case v of
        PStr s \<Rightarrow> (if py_strip s = [] then Inl (rasat INVALID_REQUEST)
                   else (case map_of ORDER_TYPES (py_upper (py_strip s)) of
                           Some t \<Rightarrow> Inr t | None \<Rightarrow> Inl (rasat INVALID_REQUEST)))
      | _ \<Rightarrow> Inl (rasat INVALID_REQUEST))"

definition require_positive_optional :: "pyval \<Rightarrow> rat option res" where
  "require_positive_optional v =
     (if v = PNone then Inr None else rbind (require_positive v) (\<lambda>q. Inr (Some q)))"

definition check_filters_finite :: "symbol_filters \<Rightarrow> unit res" where
  "check_filters_finite f =
     riter (\<lambda>x. raise_if (\<not> is_finite x) (rasat FILTER_VIOLATION))
       [step_size f, min_qty f, max_qty f, min_notional f, tick_size f, min_price f, max_price f]"

text \<open>\<open>round\<close> of a float: to the nearest integer, ties to the even one.\<close>

definition py_round :: "rat \<Rightarrow> int" where
  "py_round q =
     (let f = \<lfloor>q\<rfloor>; d = q - of_int f in
      if d < 1 / 2 then f else if 1 / 2 < d then f + 1 else if even f then f else f + 1)"

definition misaligned :: "rat \<Rightarrow> bool" where
  "misaligned steps = (ALIGN_EPS < \<bar>steps - of_int (py_round steps)\<bar>)"

text \<open>The conditional fields of the four order types, with the stop direction and the OCO
  price geometry.\<close>

definition check_conditional ::
  "side \<Rightarrow> order_type \<Rightarrow> rat option \<Rightarrow> rat option \<Rightarrow> rat option \<Rightarrow> rat option \<Rightarrow> unit res" where
  "check_conditional sd ot price stop_price stop_limit_price market_price =
     (let bad = Inl (rasat INVALID_REQUEST);
          stop_side = (\<lambda>sp. case market_price of
                 None \<Rightarrow> Inr ()
               | Some mp \<Rightarrow> if (sd = SELL \<and> mp \<le> sp) \<or> (sd = BUY \<and> sp \<le> mp) then bad else Inr ())
      in case ot of
        MARKET \<Rightarrow> Inr ()
      | LIMIT \<Rightarrow> (if price = None then bad else Inr ())
      | STOP_LOSS_LIMIT \<Rightarrow>
          (case price of None \<Rightarrow> bad | Some p \<Rightarrow>
          (case stop_price of None \<Rightarrow> bad | Some sp \<Rightarrow> stop_side sp))
      | OCO \<Rightarrow>
          (case price of None \<Rightarrow> bad | Some p \<Rightarrow>
          (case stop_price of None \<Rightarrow> bad | Some sp \<Rightarrow>
          (case stop_limit_price of None \<Rightarrow> bad | Some slp \<Rightarrow>
             if sd = SELL \<and> (sp \<le> slp \<or> p \<le> sp) then bad
             else if sd = BUY \<and> (slp \<le> sp \<or> sp \<le> p) then bad
             else stop_side sp))))"

definition check_price_filter :: "symbol_filters \<Rightarrow> rat option \<Rightarrow> unit res" where
  "check_price_filter f pval =
     (case pval of
        None \<Rightarrow> Inr ()
      | Some p \<Rightarrow>
          rbind (raise_if (flt (Fin p) (min_price f) \<or> flt (max_price f) (Fin p)) (rasat FILTER_VIOLATION)) (\<lambda>_.
            (case (tick_size f, min_price f) of
               (Fin t, Fin m) \<Rightarrow> raise_if (0 < t \<and> misaligned ((p - m) / t)) (rasat FILTER_VIOLATION)
             | _ \<Rightarrow> Inr ())))"

definition check_symbol_filters ::
  "symbol_filters \<Rightarrow> rat \<Rightarrow> rat option \<Rightarrow> rat option \<Rightarrow> rat option \<Rightarrow> rat option \<Rightarrow> unit res" where
  "check_symbol_filters f qty price stop_price stop_limit_price notional =
     rbind (check_filters_finite f) (\<lambda>_.
     rbind (raise_if (flt (Fin qty) (min_qty f)) (rasat FILTER_VIOLATION)) (\<lambda>_.
     rbind (raise_if (flt (max_qty f) (Fin qty)) (rasat FILTER_VIOLATION)) (\<lambda>_.
     rbind (case step_size f of
              Fin s \<Rightarrow> raise_if (0 < s \<and> misaligned (qty / s)) (rasat FILTER_VIOLATION)
            | _ \<Rightarrow> Inr ()) (\<lambda>_.
     rbind (riter (check_price_filter f) [price, stop_price, stop_limit_price]) (\<lambda>_.
       (case notional of
          None \<Rightarrow> Inl (rasat INVALID_REQUEST)
        | Some n \<Rightarrow> raise_if (flt (Fin n) (min_notional f)) (rasat FILTER_VIOLATION)))))))"

record validated =
  v_side :: side
  v_order_type :: order_type
  v_quantity :: rat
  v_price :: "rat option"
  v_stop_price :: "rat option"
  v_stop_limit_price :: "rat option"
  v_notional :: "rat option"

text \<open>The parameters of a call; the two optional trusted inputs are \<open>filters\<close> and
  \<open>market_price\<close>.\<close>

record order_request =
  r_side :: pyval
  r_order_type :: pyval
  r_quantity :: pyval
  r_price :: pyval
  r_stop_price :: pyval
  r_stop_limit_price :: pyval
  r_filters :: "symbol_filters option"
  r_market_price :: pyval

definition validate_execution_order :: "order_request \<Rightarrow> validated res" where
  "validate_execution_order r =
     rbind (normalize_side (r_side r)) (\<lambda>sd.
     rbind (normalize_order_type (r_order_type r)) (\<lambda>ot.
     rbind (require_positive (r_quantity r)) (\<lambda>qty.
     rbind (require_positive_optional (r_price r)) (\<lambda>price.
     rbind (require_positive_optional (r_stop_price r)) (\<lambda>stop_price.
     rbind (require_positive_optional (r_stop_limit_price r)) (\<lambda>stop_limit_price.
     rbind (require_positive_optional (r_market_price r)) (\<lambda>market_price.
     rbind (check_conditional sd ot price stop_price stop_limit_price market_price) (\<lambda>_.
       let reference = (if price \<noteq> None then price else market_price);
           notional = map_option (\<lambda>p. qty * p) reference
       in rbind (case r_filters r of
                   None \<Rightarrow> Inr ()
                 | Some f \<Rightarrow> check_symbol_filters f qty price stop_price stop_limit_price notional) (\<lambda>_.
            Inr \<lparr>v_side = sd, v_order_type = ot, v_quantity = qty, v_price = price,
                 v_stop_price = stop_price, v_stop_limit_price = stop_limit_price,
                 v_notional = notional\<rparr>)))))))))"

subsection \<open>What the validator guarantees, stated without the code\<close>

definition in_range :: "symbol_filters \<Rightarrow> rat option \<Rightarrow> bool" where
  "in_range f pval = (case pval of None \<Rightarrow> True | Some p \<Rightarrow> fle (min_price f) (Fin p) \<and> fle (Fin p) (max_price f))"

definition lot_ok :: "symbol_filters \<Rightarrow> rat \<Rightarrow> bool" where
  "lot_ok f qty =
     (fle (min_qty f) (Fin qty) \<and> fle (Fin qty) (max_qty f)
      \<and> (\<forall>s. step_size f = Fin s \<longrightarrow> 0 < s \<longrightarrow> (\<exists>k::int. \<bar>qty - of_int k * s\<bar> \<le> ALIGN_EPS * s)))"

definition geometry_ok :: "validated \<Rightarrow> bool" where
  "geometry_ok v =
     (case v_order_type v of
        MARKET \<Rightarrow> True
      | LIMIT \<Rightarrow> v_price v \<noteq> None
      | STOP_LOSS_LIMIT \<Rightarrow> v_price v \<noteq> None \<and> v_stop_price v \<noteq> None
      | OCO \<Rightarrow>
          (\<exists>p sp slp. v_price v = Some p \<and> v_stop_price v = Some sp \<and> v_stop_limit_price v = Some slp
            \<and> (if v_side v = SELL then slp < sp \<and> sp < p else p < sp \<and> sp < slp)))"

subsection \<open>Facts\<close>

lemma map_of_SIDES: "map_of SIDES s = Some d \<longleftrightarrow> s = side_name d"
  by (cases d) (auto simp: SIDES_def split: if_splits)

lemma map_of_ORDER_TYPES: "map_of ORDER_TYPES s = Some t \<longleftrightarrow> s = order_type_name t"
  by (cases t) (auto simp: ORDER_TYPES_def split: if_splits)

lemma normalize_side_Inl: "normalize_side v = Inl e \<Longrightarrow> e = rasat INVALID_REQUEST"
  by (auto simp: normalize_side_def split: pyval.splits option.splits if_splits)

lemma normalize_order_type_Inl: "normalize_order_type v = Inl e \<Longrightarrow> e = rasat INVALID_REQUEST"
  by (auto simp: normalize_order_type_def split: pyval.splits option.splits if_splits)

lemma normalize_side_name [simp]: "normalize_side (PStr (side_name d)) = Inr d"
  by (cases d) (simp_all add: normalize_side_def SIDES_def py_upper_def py_strip_def
      is_space_def upper_char_def)

lemma normalize_order_type_name [simp]: "normalize_order_type (PStr (order_type_name t)) = Inr t"
  by (cases t) (simp_all add: normalize_order_type_def ORDER_TYPES_def py_upper_def py_strip_def
      is_space_def upper_char_def)

lemma require_positive_optional_simps [simp]:
  "require_positive_optional PNone = Inr None"
  "require_positive_optional (PFloat (Fin q)) = (if q \<le> 0 then Inl (rasat INVALID_REQUEST) else Inr (Some q))"
  by (simp_all add: require_positive_optional_def)

lemma require_positive_optional_pos: "require_positive_optional v = Inr (Some q) \<Longrightarrow> 0 < q"
  by (auto simp: require_positive_optional_def rbind_Inr_iff dest: require_positive_Inr split: if_splits)

lemma require_positive_errors:
  "require_positive v = Inl e \<Longrightarrow> e = rasat INVALID_REQUEST \<or> e = OverflowError"
  by (auto simp: require_positive_def rbind_Inl_iff dest: require_finite_errors split: if_splits)

lemma require_positive_optional_errors:
  "require_positive_optional v = Inl e \<Longrightarrow> e = rasat INVALID_REQUEST \<or> e = OverflowError"
  by (auto simp: require_positive_optional_def rbind_Inl_iff dest: require_positive_errors split: if_splits)

lemma check_filters_finite_Inr:
  "check_filters_finite f = Inr u \<longleftrightarrow>
     is_finite (step_size f) \<and> is_finite (min_qty f) \<and> is_finite (max_qty f) \<and> is_finite (min_notional f)
     \<and> is_finite (tick_size f) \<and> is_finite (min_price f) \<and> is_finite (max_price f)"
  by (auto simp: check_filters_finite_def riter_Inr_iff simp del: riter.simps)

lemma is_finite_Fin: "is_finite x \<longleftrightarrow> (\<exists>q. x = Fin q)"
  by (cases x) auto

lemma not_flt_finite: "is_finite a \<Longrightarrow> is_finite b \<Longrightarrow> \<not> flt a b \<longleftrightarrow> fle b a"
  by (auto simp: is_finite_Fin)

lemma not_misaligned:
  assumes "\<not> misaligned (q / s)" "0 < s"
  shows "\<exists>k::int. \<bar>q - of_int k * s\<bar> \<le> ALIGN_EPS * s"
proof -
  let ?k = "py_round (q / s)"
  from assms(1) have "\<bar>q / s - of_int ?k\<bar> \<le> ALIGN_EPS" by (simp add: misaligned_def)
  then have "\<bar>q / s - of_int ?k\<bar> * s \<le> ALIGN_EPS * s"
    using assms(2) by (simp add: mult_right_mono)
  moreover have "\<bar>q / s - of_int ?k\<bar> * s = \<bar>q - of_int ?k * s\<bar>"
  proof -
    have "\<bar>q / s - of_int ?k\<bar> * s = \<bar>(q / s - of_int ?k) * s\<bar>"
      using assms(2) by (simp add: abs_mult)
    also have "(q / s - of_int ?k) * s = q - of_int ?k * s"
      using assms(2) by (simp add: left_diff_distrib)
    finally show ?thesis .
  qed
  ultimately show ?thesis by auto
qed

lemma check_conditional_geometry:
  assumes "check_conditional sd ot p sp slp mp = Inr u"
  shows "geometry_ok \<lparr>v_side = sd, v_order_type = ot, v_quantity = q, v_price = p,
           v_stop_price = sp, v_stop_limit_price = slp, v_notional = n\<rparr>"
  using assms by (cases sd; cases ot)
    (auto simp: check_conditional_def geometry_ok_def Let_def split: option.splits if_splits)

lemma check_conditional_errors:
  "check_conditional sd ot p sp slp mp = Inl e \<Longrightarrow> e = rasat INVALID_REQUEST"
  by (cases ot) (auto simp: check_conditional_def Let_def split: option.splits if_splits)

lemma check_conditional_weaken:
  "check_conditional sd ot p sp slp mp = Inr u \<Longrightarrow> ot \<noteq> OCO \<Longrightarrow>
   check_conditional sd ot p sp slp' mp = Inr ()"
  by (cases ot) (auto simp: check_conditional_def Let_def split: option.splits if_splits)

lemma check_conditional_more_price:
  "check_conditional sd MARKET p sp slp mp = Inr ()"
  by (simp add: check_conditional_def Let_def)

lemma check_symbol_filters_Inr:
  assumes "check_symbol_filters f qty p sp slp n = Inr u"
  shows "lot_ok f qty" "in_range f p" "in_range f sp" "in_range f slp"
    "\<exists>x. n = Some x \<and> fle (min_notional f) (Fin x)"
proof -
  from assms have fin: "is_finite (step_size f)" "is_finite (min_qty f)" "is_finite (max_qty f)"
      "is_finite (min_notional f)" "is_finite (min_price f)" "is_finite (max_price f)"
    and qty: "\<not> flt (Fin qty) (min_qty f)" "\<not> flt (max_qty f) (Fin qty)"
    and step: "(case step_size f of Fin s \<Rightarrow> raise_if (0 < s \<and> misaligned (qty / s)) (rasat FILTER_VIOLATION)
            | _ \<Rightarrow> Inr ()) = Inr ()"
    and prices: "\<forall>x\<in>{p, sp, slp}. check_price_filter f x = Inr ()"
    and nn: "\<exists>x. n = Some x \<and> \<not> flt (Fin x) (min_notional f)"
    by (auto simp: check_symbol_filters_def rbind_Inr_iff check_filters_finite_Inr riter_Inr_iff
        split: option.splits)
  from step have al: "\<forall>s. step_size f = Fin s \<longrightarrow> 0 < s \<longrightarrow> \<not> misaligned (qty / s)"
    by auto
  show "lot_ok f qty"
    using fin qty al by (auto simp: lot_ok_def not_flt_finite intro: not_misaligned)
  have rng: "in_range f x" if "check_price_filter f x = Inr ()" for x
    using that fin by (auto simp: check_price_filter_def in_range_def rbind_Inr_iff not_flt_finite
        split: option.splits)
  from prices show "in_range f p" "in_range f sp" "in_range f slp" by (auto intro: rng)
  from nn fin show "\<exists>x. n = Some x \<and> fle (min_notional f) (Fin x)"
    by (auto simp: not_flt_finite)
qed

lemma check_symbol_filters_errors:
  "check_symbol_filters f q p sp slp n = Inl e \<Longrightarrow> e = rasat FILTER_VIOLATION \<or> e = rasat INVALID_REQUEST"
  by (auto simp: check_symbol_filters_def rbind_Inl_iff check_filters_finite_def check_price_filter_def
      dest!: riter_InlD split: option.splits pyfloat.splits)

text \<open>Everything a successful validation has established, in the vocabulary of the
  specification predicates.\<close>

lemma validate_execution_order_E:
  assumes "validate_execution_order r = Inr v"
  obtains mp where
    "normalize_side (r_side r) = Inr (v_side v)"
    "normalize_order_type (r_order_type r) = Inr (v_order_type v)"
    "require_positive (r_quantity r) = Inr (v_quantity v)"
    "require_positive_optional (r_price r) = Inr (v_price v)"
    "require_positive_optional (r_stop_price r) = Inr (v_stop_price v)"
    "require_positive_optional (r_stop_limit_price r) = Inr (v_stop_limit_price v)"
    "require_positive_optional (r_market_price r) = Inr mp"
    "check_conditional (v_side v) (v_order_type v) (v_price v) (v_stop_price v) (v_stop_limit_price v) mp = Inr ()"
    "v_notional v = map_option (\<lambda>p. v_quantity v * p) (if v_price v \<noteq> None then v_price v else mp)"
    "\<And>f. r_filters r = Some f \<Longrightarrow>
       check_symbol_filters f (v_quantity v) (v_price v) (v_stop_price v) (v_stop_limit_price v) (v_notional v) = Inr ()"
  using assms
  by (auto simp: validate_execution_order_def rbind_Inr_iff Let_def split: option.splits)

lemma validate_execution_order_Inr:
  assumes "validate_execution_order r = Inr v"
  shows "0 < v_quantity v" "geometry_ok v"
    "\<And>p. v_price v = Some p \<Longrightarrow> 0 < p"
    "\<And>f. r_filters r = Some f \<Longrightarrow> lot_ok f (v_quantity v)"
    "\<And>f. r_filters r = Some f \<Longrightarrow> in_range f (v_price v) \<and> in_range f (v_stop_price v) \<and> in_range f (v_stop_limit_price v)"
    "\<And>f. r_filters r = Some f \<Longrightarrow> \<exists>n. v_notional v = Some n \<and> fle (min_notional f) (Fin n)"
proof -
  obtain mp where *: "require_positive (r_quantity r) = Inr (v_quantity v)"
    "require_positive_optional (r_price r) = Inr (v_price v)"
    "check_conditional (v_side v) (v_order_type v) (v_price v) (v_stop_price v) (v_stop_limit_price v) mp = Inr ()"
    and **: "\<And>f. r_filters r = Some f \<Longrightarrow>
       check_symbol_filters f (v_quantity v) (v_price v) (v_stop_price v) (v_stop_limit_price v) (v_notional v) = Inr ()"
    using assms by (rule validate_execution_order_E) blast
  from * show "0 < v_quantity v" by (blast intro: require_positive_Inr)
  from check_conditional_geometry [OF *(3), of "v_quantity v" "v_notional v"] show "geometry_ok v"
    by (cases v) simp
  show "\<And>p. v_price v = Some p \<Longrightarrow> 0 < p"
    using *(2) by (metis require_positive_optional_pos)
  fix f
  assume "r_filters r = Some f"
  note ok = check_symbol_filters_Inr [OF ** [OF this]]
  show "lot_ok f (v_quantity v)" by (rule ok(1))
  show "in_range f (v_price v) \<and> in_range f (v_stop_price v) \<and> in_range f (v_stop_limit_price v)"
    using ok(2-4) by blast
  show "\<exists>n. v_notional v = Some n \<and> fle (min_notional f) (Fin n)" by (rule ok(5))
qed

lemma validate_execution_order_errors:
  assumes "validate_execution_order r = Inl e"
  shows "e \<in> {rasat INVALID_REQUEST, rasat FILTER_VIOLATION, OverflowError}"
  using assms
  by (auto simp: validate_execution_order_def rbind_Inl_iff Let_def
      dest!: normalize_side_Inl normalize_order_type_Inl require_positive_errors
        require_positive_optional_errors check_conditional_errors check_symbol_filters_errors
      split: option.splits)

lemma py_round_of_int: "py_round (of_int k) = k"
  by (simp add: py_round_def Let_def)

lemma aligned_multiple: "\<not> misaligned (of_int k)"
  by (simp add: misaligned_def py_round_of_int ALIGN_EPS_def)

lemma market_filters_pass:
  assumes "check_filters_finite f = Inr ()" "\<not> flt (Fin q) (min_qty f)" "\<not> flt (max_qty f) (Fin q)"
    "step_size f = Fin s" "q = of_int k * s" "\<not> flt (Fin n) (min_notional f)"
  shows "check_symbol_filters f q None None None (Some n) = Inr ()"
  using assms by (simp add: check_symbol_filters_def check_price_filter_def aligned_multiple)

subsection \<open>Properties\<close>

text \<open>C32: What the validator accepts is sound: a positive quantity on the lot grid (up to the
  alignment tolerance) within the lot bounds, every given price within the price bounds, the
  fields its order type needs with the geometry of an OCO respected, and a notional of at
  least the minimum.\<close>

theorem validated_order_sound:
  assumes "validate_execution_order r = Inr v" "r_filters r = Some f"
  shows "0 < v_quantity v \<and> lot_ok f (v_quantity v) \<and> geometry_ok v
     \<and> in_range f (v_price v) \<and> in_range f (v_stop_price v) \<and> in_range f (v_stop_limit_price v)
     \<and> (\<exists>n. v_notional v = Some n \<and> fle (min_notional f) (Fin n))"
  using validate_execution_order_Inr [OF assms(1)] assms(2) by blast

theorem validated_order_sound_witness:
  "\<exists>v f. validate_execution_order
      \<lparr>r_side = PStr (side_name SELL), r_order_type = PStr (order_type_name OCO), r_quantity = PFloat (Fin 2),
       r_price = PFloat (Fin 120), r_stop_price = PFloat (Fin 90), r_stop_limit_price = PFloat (Fin 89),
       r_filters = Some f, r_market_price = PFloat (Fin 100)\<rparr> = Inr v \<and> lot_ok f (v_quantity v) \<and> geometry_ok v"
proof -
  let ?f = "\<lparr>sf_symbol = ''BTCUSDT'', base_asset = ''BTC'', sf_quote_asset = ''USDT'', sf_status = ''TRADING'', step_size = Fin 1,
       min_qty = Fin 1, max_qty = Fin 100, min_notional = Fin 10, tick_size = Fin 1, min_price = Fin 1, max_price = Fin 10000\<rparr>"
  let ?r = "\<lparr>r_side = PStr (side_name SELL), r_order_type = PStr (order_type_name OCO), r_quantity = PFloat (Fin 2),
       r_price = PFloat (Fin 120), r_stop_price = PFloat (Fin 90), r_stop_limit_price = PFloat (Fin 89),
       r_filters = Some ?f, r_market_price = PFloat (Fin 100)\<rparr>"
  have "\<exists>v. validate_execution_order ?r = Inr v"
    by (simp add: validate_execution_order_def normalize_side_name [simplified] normalize_order_type_name [simplified]
        check_conditional_def Let_def check_symbol_filters_def check_filters_finite_def check_price_filter_def
        misaligned_def ALIGN_EPS_def py_round_def del: side_name.simps order_type_name.simps)
  then obtain v where "validate_execution_order ?r = Inr v" by blast
  with validated_order_sound [OF this, of ?f] show ?thesis by auto
qed

text \<open>Sizing and validation agree: a position computed for a symbol with finite filters is
  accepted by the order validator as a market order at any market price that keeps the notional
  above the minimum; the two components never disagree on the lot grid.\<close>

theorem sized_order_validates:
  assumes "calculate_position_size smb bal rp en st f side fee = Inr r"
    and "check_filters_finite f = Inr ()" "step_size f = Fin s" "0 < s"
    and "sz_quantity r = Fin q" "0 < p" "\<not> flt (Fin (q * p)) (min_notional f)"
  shows "\<exists>v. validate_execution_order
     \<lparr>r_side = PStr (side_name d), r_order_type = PStr (order_type_name MARKET), r_quantity = PFloat (Fin q), r_price = PNone,
      r_stop_price = PNone, r_stop_limit_price = PNone, r_filters = Some f, r_market_price = PFloat (Fin p)\<rparr> = Inr v
     \<and> v_quantity v = q \<and> v_notional v = Some (q * p)"
proof -
  obtain q' where q: "sz_quantity r = Fin q'" "0 < q'" "\<not> flt (Fin q') (min_qty f)" "\<not> flt (max_qty f) (Fin q')"
    "round_down_to_step (min (sz_risk_amount r / sz_risk_per_unit r)
        (sz_account_balance r / (sz_entry r * (1 + sz_fee_rate r)))) (Fin s) = Inr (Fin q')"
    using assms(1,3) by (rule calculate_position_size_Inr) blast
  with assms(5) have [simp]: "q' = q" by simp
  from round_down_bounds(3) [OF assms(4) q(5)] obtain k :: int where "q = of_int k * s" by auto
  with market_filters_pass [OF assms(2) _ _ assms(3), of q k "q * p"] q assms(7)
  have "check_symbol_filters f q None None None (Some (q * p)) = Inr ()" by simp
  then show ?thesis
    using q(2) assms(6)
    by (simp add: validate_execution_order_def check_conditional_def Let_def
        del: side_name.simps order_type_name.simps)
qed

theorem sized_order_validates_witness:
  "\<exists>r q f. calculate_position_size (PStr ''BTCUSDT'') (PInt 1000) (PFloat (Fin (1 / 10))) (PInt 100) (PInt 90) f
      ''BUY'' (PFloat (Fin (1 / 1000))) = Inr r \<and> sz_quantity r = Fin q
    \<and> (\<exists>v. validate_execution_order
     \<lparr>r_side = PStr (side_name BUY), r_order_type = PStr (order_type_name MARKET), r_quantity = PFloat (Fin q), r_price = PNone,
      r_stop_price = PNone, r_stop_limit_price = PNone, r_filters = Some f, r_market_price = PFloat (Fin 101)\<rparr> = Inr v
     \<and> v_quantity v = q)"
proof -
  let ?f = "\<lparr>sf_symbol = ''BTCUSDT'', base_asset = ''BTC'', sf_quote_asset = ''USDT'', sf_status = ''TRADING'', step_size = Fin 1,
       min_qty = Fin 1, max_qty = Fin 100, min_notional = Fin 10, tick_size = Fin 1, min_price = Fin 1, max_price = Fin 10000\<rparr>"
  let ?c = "calculate_position_size (PStr ''BTCUSDT'') (PInt 1000) (PFloat (Fin (1 / 10))) (PInt 100) (PInt 90) ?f ''BUY'' (PFloat (Fin (1 / 1000)))"
  have fl: "\<lfloor>10000000001001 / 1001000000000 :: rat\<rfloor> = 9" by (simp add: floor_eq_iff)
  have "\<exists>r. ?c = Inr r \<and> sz_quantity r = Fin 9"
    by (simp add: calculate_position_size_def require_finite_def float_of_int_def float_limit_def check_stop_direction_def
        side_or_buy_def py_upper_def upper_char_def round_down_to_step_def EPS_def check_sufficient_balance_def min_def Let_def fl)
  then obtain r where r: "?c = Inr r" "sz_quantity r = Fin 9" by blast
  have "check_filters_finite ?f = Inr ()" by (simp add: check_filters_finite_def)
  from sized_order_validates [OF r(1) this, of 1 9 101 BUY] r show ?thesis by auto
qed

text \<open>The validator answers a bad order with a canonical error (invalid request or filter
  violation), with one exception: an integer too large for a float escapes as \<open>OverflowError\<close>,
  which callers report as an internal error.\<close>

theorem validator_error_codes:
  "(\<forall>e. validate_execution_order r = Inl e \<longrightarrow> e \<in> {rasat INVALID_REQUEST, rasat FILTER_VIOLATION, OverflowError})
   \<and> (float_limit \<le> \<bar>n\<bar> \<longrightarrow> require_positive (PInt n) = Inl OverflowError \<and> exc_code OverflowError = INTERNAL_ERROR)"
  using validate_execution_order_errors [of r]
  by (auto simp: require_positive_def require_finite_def float_of_int_def exc_code_def)

theorem validator_error_codes_witness:
  "require_positive (PInt (10 ^ 400)) = Inl OverflowError"
proof -
  have "float_limit \<le> \<bar>10 ^ 400\<bar>" by (simp add: float_limit_def)
  with validator_error_codes [of undefined "10 ^ 400"] show ?thesis by blast
qed

end
