(* ===== verification/Broker.thy ===== *)
theory Broker
  imports Order_Validation
begin

text \<open>
  The exchange adapter (\<open>data/order_broker.py\<close>): the request every operation of
  \<open>BinanceOrderBroker\<close> sends and how its reply becomes an \<open>OrderResult\<close>, a missing order or a
  canonical error. The HTTP exchange itself (signing, transport) is not under the program's
  control: a reply is a value of \<open>http_reply\<close>, arbitrary in every fact. \<open>sha1\<close> of
  \<open>to_client_order_id\<close> is a parameter. Numbers in a request keep their value; their decimal
  rendering by \<open>str\<close> is not modelled.
\<close>

subsection \<open>Results\<close>

datatype order_status =
  NEW | PARTIALLY_FILLED | FILLED | CANCELED | REJECTED | EXPIRED | UNKNOWN | PAPER

definition ORDER_STATUSES :: "(string \<times> order_status) list" where
  "ORDER_STATUSES =
     [(''NEW'', NEW), (''PARTIALLY_FILLED'', PARTIALLY_FILLED), (''FILLED'', FILLED),
      (''CANCELED'', CANCELED), (''REJECTED'', REJECTED), (''EXPIRED'', EXPIRED), (''UNKNOWN'', UNKNOWN)]"

definition TERMINAL_STATUSES :: "order_status list" where
  "TERMINAL_STATUSES = [FILLED, CANCELED, REJECTED, EXPIRED]"

definition OPEN_STATUSES :: "order_status list" where
  "OPEN_STATUSES = [NEW, PARTIALLY_FILLED]"

record order_result =
  or_status :: order_status
  or_exchange_order_id :: "string option"
  or_executed_qty :: pyfloat
  or_avg_price :: pyfloat

definition unknown_result :: order_result where
  "unknown_result = \<lparr>or_status = UNKNOWN, or_exchange_order_id = None, or_executed_qty = Fin 0, or_avg_price = Fin 0\<rparr>"

subsection \<open>Client order ids\<close>

definition cid_char :: "char \<Rightarrow> bool" where
  "cid_char ch = (is_alnum ch \<or> ch = CHR ''.'' \<or> ch = CHR ''_'' \<or> ch = CHR ''-'')"

definition to_client_order_id :: "(string \<Rightarrow> string) \<Rightarrow> string \<Rightarrow> string" where
  "to_client_order_id sha1 idempotency_key =
     (let allowed = filter cid_char idempotency_key;
          allowed = (if allowed = [] then ''idem'' else allowed);
          allowed = (if 24 < length allowed then take 24 allowed else allowed);
          digest = take 11 (sha1 idempotency_key)
      in allowed @ ''-'' @ digest)"

subsection \<open>Transport\<close>

text \<open>A reply: a transport failure (\<open>aiohttp.ClientError\<close> or a timeout), or a status with the
  decoded JSON body (an undecodable error body is the empty dictionary).\<close>

datatype http_reply = TransportError | Reply int pyval

definition binance_code_of :: "(string \<times> pyval) list \<Rightarrow> int option" where
  "binance_code_of body = (case dict_get body ''code'' of PInt n \<Rightarrow> Some n | _ \<Rightarrow> None)"

definition broker_request :: "http_reply \<Rightarrow> pyval res" where
  "broker_request reply =
     (case reply of
        TransportError \<Rightarrow> Inl (rasat TIMEOUT)
      | Reply st body \<Rightarrow>
          if st = 401 \<or> st = 403 then Inl (rasat UNAUTHORIZED)
          else if 400 \<le> st then
            (case body of
               PDict d \<Rightarrow> Inl (RasatError ORDER_REJECTED (binance_code_of d))
             | _ \<Rightarrow> Inl OtherException)
          else Inr body)"

definition request_weight :: "string \<Rightarrow> nat" where
  "request_weight path = (if path = ''/api/v3/account'' then 5 else 1)"

subsection \<open>Decoding a reply\<close>

fun fdiv :: "pyfloat \<Rightarrow> pyfloat \<Rightarrow> pyfloat" where
  "fdiv NaN _ = NaN"
| "fdiv _ NaN = NaN"
| "fdiv (Fin a) (Fin b) = Fin (a / b)"
| "fdiv (Fin a) PInf = Fin 0"
| "fdiv (Fin a) NInf = Fin 0"
| "fdiv PInf (Fin b) = (if b < 0 then NInf else PInf)"
| "fdiv NInf (Fin b) = (if b < 0 then PInf else NInf)"
| "fdiv _ _ = NaN"

definition status_of :: "pyval \<Rightarrow> order_status" where
  "status_of v =
     (case v of
        PStr s \<Rightarrow> (case map_of ORDER_STATUSES (py_upper s) of Some st \<Rightarrow> st | None \<Rightarrow> UNKNOWN)
      | _ \<Rightarrow> UNKNOWN)"

text \<open>\<open>str(v)\<close> of an order id: the exchange sends integers (or strings).\<close>

definition id_text :: "(int \<Rightarrow> string) \<Rightarrow> pyval \<Rightarrow> string option" where
  "id_text show_int v = (case v of PNone \<Rightarrow> None | PInt n \<Rightarrow> Some (show_int n) | PStr s \<Rightarrow> Some s | _ \<Rightarrow> Some [])"

definition get_default :: "(string \<times> pyval) list \<Rightarrow> string \<Rightarrow> pyval \<Rightarrow> pyval" where
  "get_default d k v = (case map_of d k of Some x \<Rightarrow> x | None \<Rightarrow> v)"

text \<open>\<open>_order_result\<close>: a \<open>TypeError\<close> or \<open>ValueError\<close> of a conversion is swallowed and keeps what was
  set so far; an overflow is not.\<close>

definition order_result_of :: "(int \<Rightarrow> string) \<Rightarrow> (string \<times> pyval) list \<Rightarrow> order_result res" where
  "order_result_of show_int data =
     (let st = status_of (dict_get data ''status'');
          eid = id_text show_int (dict_get data ''orderId'');
          mk = (\<lambda>q p. Inr \<lparr>or_status = st, or_exchange_order_id = eid, or_executed_qty = q, or_avg_price = p\<rparr>)
      in (case py_float (get_default data ''executedQty'' (PInt 0)) of
            Inl e \<Rightarrow> if e = OverflowError then Inl e else mk (Fin 0) (Fin 0)
          | Inr q \<Rightarrow>
              (case py_float (get_default data ''cummulativeQuoteQty'' (PInt 0)) of
                 Inl e \<Rightarrow> if e = OverflowError then Inl e else mk q (Fin 0)
               | Inr c \<Rightarrow> mk q (if q = Fin 0 then Fin 0 else fdiv c q))))"

definition list_status_of :: "(string \<times> pyval) list \<Rightarrow> string" where
  "list_status_of data = (case dict_get data ''listOrderStatus'' of PStr s \<Rightarrow> py_upper s | _ \<Rightarrow> [])"

text \<open>A body that is not a dictionary has no \<open>get\<close>: an attribute error.\<close>

definition as_dict :: "pyval \<Rightarrow> (string \<times> pyval) list res" where
  "as_dict v = (case v of PDict d \<Rightarrow> Inr d | _ \<Rightarrow> Inl OtherException)"

definition list_result :: "(int \<Rightarrow> string) \<Rightarrow> order_status \<Rightarrow> (string \<times> pyval) list \<Rightarrow> order_result" where
  "list_result show_int st data =
     \<lparr>or_status = st, or_exchange_order_id = id_text show_int (dict_get data ''orderListId''),
      or_executed_qty = Fin 0, or_avg_price = Fin 0\<rparr>"

text \<open>The request parameters of \<open>place_order\<close>; the check of the conditional fields comes first.\<close>

definition status_name :: "order_status \<Rightarrow> string" where
  "status_name st = (case map_of (map (\<lambda>p. (snd p, fst p)) ORDER_STATUSES) st of Some n \<Rightarrow> n | None \<Rightarrow> ''PAPER'')"

definition opt_str :: "string option \<Rightarrow> pyval" where
  "opt_str x = (case x of None \<Rightarrow> PNone | Some v \<Rightarrow> PStr v)"

definition opt_num :: "rat option \<Rightarrow> pyval" where
  "opt_num q = (case q of None \<Rightarrow> PNone | Some x \<Rightarrow> PFloat (Fin x))"

definition place_order_params ::
  "string \<Rightarrow> side \<Rightarrow> order_type \<Rightarrow> rat \<Rightarrow> rat option \<Rightarrow> string \<Rightarrow> rat option \<Rightarrow> (string \<times> pyval) list res" where
  "place_order_params symbol sd ot quantity price client_order_id stop_price =
     (let base = [(''symbol'', PStr symbol), (''side'', PStr (side_name sd)),
                  (''type'', PStr (order_type_name ot)), (''quantity'', PFloat (Fin quantity))];
          cid = (if client_order_id = [] then [] else [(''newClientOrderId'', PStr client_order_id)])
      in if ot = LIMIT then
           (case price of
              None \<Rightarrow> Inl (rasat INVALID_REQUEST)
            | Some p \<Rightarrow> Inr (base @ [(''price'', PFloat (Fin p)), (''timeInForce'', PStr ''GTC'')] @ cid))
         else if ot = STOP_LOSS_LIMIT then
           (case stop_price of
              None \<Rightarrow> Inl (rasat INVALID_REQUEST)
            | Some sp \<Rightarrow>
                (case price of
                   None \<Rightarrow> Inl (rasat INVALID_REQUEST)
                 | Some p \<Rightarrow> Inr (base @ [(''stopPrice'', PFloat (Fin sp)), (''price'', PFloat (Fin p)),
                                         (''timeInForce'', PStr ''GTC'')] @ cid)))
         else Inr (base @ cid))"

definition place_oco_params ::
  "string \<Rightarrow> side \<Rightarrow> rat \<Rightarrow> rat \<Rightarrow> rat \<Rightarrow> rat \<Rightarrow> string \<Rightarrow> (string \<times> pyval) list" where
  "place_oco_params symbol sd quantity price stop_price stop_limit_price client_order_id =
     [(''symbol'', PStr symbol), (''side'', PStr (side_name sd)), (''quantity'', PFloat (Fin quantity)),
      (''listClientOrderId'', if client_order_id = [] then PNone else PStr client_order_id)]
     @ (if sd = BUY then
          [(''aboveType'', PStr ''STOP_LOSS_LIMIT''), (''aboveStopPrice'', PFloat (Fin stop_price)),
           (''abovePrice'', PFloat (Fin stop_limit_price)), (''aboveTimeInForce'', PStr ''GTC''),
           (''belowType'', PStr ''LIMIT_MAKER''), (''belowPrice'', PFloat (Fin price))]
        else
          [(''aboveType'', PStr ''LIMIT_MAKER''), (''abovePrice'', PFloat (Fin price)),
           (''belowType'', PStr ''STOP_LOSS_LIMIT''), (''belowStopPrice'', PFloat (Fin stop_price)),
           (''belowPrice'', PFloat (Fin stop_limit_price)), (''belowTimeInForce'', PStr ''GTC'')])"

subsection \<open>The operations, from reply to result\<close>

definition place_reply :: "(int \<Rightarrow> string) \<Rightarrow> http_reply \<Rightarrow> order_result res" where
  "place_reply show_int reply =
     rbind (broker_request reply) (\<lambda>v. rbind (as_dict v) (order_result_of show_int))"

definition place_oco_reply :: "(int \<Rightarrow> string) \<Rightarrow> http_reply \<Rightarrow> order_result res" where
  "place_oco_reply show_int reply =
     rbind (broker_request reply) (\<lambda>v. rbind (as_dict v) (\<lambda>d. Inr (list_result show_int NEW d)))"

text \<open>The rejection with this exchange code is a missing order, every other error is raised.\<close>

definition absent_on :: "int \<Rightarrow> 'a option res \<Rightarrow> 'a option res" where
  "absent_on code r =
     (case r of Inl e \<Rightarrow> if e = RasatError ORDER_REJECTED (Some code) then Inr None else Inl e | Inr x \<Rightarrow> Inr x)"

definition query_order_reply :: "(int \<Rightarrow> string) \<Rightarrow> http_reply \<Rightarrow> order_result option res" where
  "query_order_reply show_int reply =
     rbind (absent_on (- 2013) (rbind (broker_request reply) (\<lambda>v. Inr (Some v)))) (\<lambda>ov.
       (case ov of
          None \<Rightarrow> Inr None
        | Some v \<Rightarrow> rbind (as_dict v) (\<lambda>d. rbind (order_result_of show_int d) (\<lambda>r. Inr (Some r)))))"

definition query_oco_reply :: "(int \<Rightarrow> string) \<Rightarrow> http_reply \<Rightarrow> order_result option res" where
  "query_oco_reply show_int reply =
     rbind (absent_on (- 2013) (rbind (broker_request reply) (\<lambda>v. Inr (Some v)))) (\<lambda>ov.
       (case ov of
          None \<Rightarrow> Inr None
        | Some v \<Rightarrow> rbind (as_dict v) (\<lambda>d.
            let ls = list_status_of d;
                st = (if ls = ''EXECUTING'' then NEW else if ls = ''ALL_DONE'' then FILLED else UNKNOWN)
            in Inr (Some (list_result show_int st d)))))"

definition cancel_order_reply :: "(int \<Rightarrow> string) \<Rightarrow> http_reply \<Rightarrow> order_result option res" where
  "cancel_order_reply show_int reply =
     rbind (absent_on (- 2011) (rbind (broker_request reply) (\<lambda>v. Inr (Some v)))) (\<lambda>ov.
       (case ov of
          None \<Rightarrow> Inr None
        | Some v \<Rightarrow> rbind (as_dict v) (\<lambda>d. rbind (order_result_of show_int d) (\<lambda>r. Inr (Some r)))))"

definition cancel_oco_reply :: "(int \<Rightarrow> string) \<Rightarrow> http_reply \<Rightarrow> order_result option res" where
  "cancel_oco_reply show_int reply =
     rbind (absent_on (- 2011) (rbind (broker_request reply) (\<lambda>v. Inr (Some v)))) (\<lambda>ov.
       (case ov of
          None \<Rightarrow> Inr None
        | Some v \<Rightarrow> rbind (as_dict v) (\<lambda>d.
            let ls = list_status_of d;
                st = (if ls = ''ALL_DONE'' then CANCELED else if ls = ''EXECUTING'' then NEW else UNKNOWN)
            in Inr (Some (list_result show_int st d)))))"

definition cancel_all_reply :: "http_reply \<Rightarrow> nat res" where
  "cancel_all_reply reply =
     rbind (absent_on (- 2011) (rbind (broker_request reply) (\<lambda>v. Inr (Some v)))) (\<lambda>ov.
       (case ov of None \<Rightarrow> Inr 0 | Some (PList xs) \<Rightarrow> Inr (length xs) | Some _ \<Rightarrow> Inr 0))"

text \<open>\<open>float(x or 0)\<close>\<close>

definition float_or_zero :: "pyval \<Rightarrow> pyfloat res" where
  "float_or_zero v = (if truthy v then py_float v else Inr (Fin 0))"

definition balance_entry :: "pyval \<Rightarrow> (string \<times> pyfloat \<times> pyfloat) res" where
  "balance_entry b =
     rbind (as_dict b) (\<lambda>d.
       (case map_of d ''asset'' of
          None \<Rightarrow> Inl KeyError
        | Some (PStr asset) \<Rightarrow>
            rbind (float_or_zero (get_default d ''free'' (PInt 0))) (\<lambda>free.
            rbind (float_or_zero (get_default d ''locked'' (PInt 0))) (\<lambda>locked.
              Inr (asset, free, locked)))
        | Some _ \<Rightarrow> Inl OtherException))"

text \<open>\<open>balances[asset] = \<dots>\<close>: the first occurrence keeps its place, the last value wins.\<close>

definition dict_put :: "('k \<times> 'v) list \<Rightarrow> 'k \<Rightarrow> 'v \<Rightarrow> ('k \<times> 'v) list" where
  "dict_put d k v = (if k \<in> fst ` set d then map (\<lambda>kv. if fst kv = k then (k, v) else kv) d else d @ [(k, v)])"

definition balance_detail_reply :: "http_reply \<Rightarrow> (string \<times> pyfloat \<times> pyfloat) list res" where
  "balance_detail_reply reply =
     rbind (broker_request reply) (\<lambda>v. rbind (as_dict v) (\<lambda>d.
       (case get_default d ''balances'' (PList []) of
          PList bs \<Rightarrow> rbind (rmap balance_entry bs) (\<lambda>es. Inr (foldl (\<lambda>m e. dict_put m (fst e) (snd e)) [] es))
        | _ \<Rightarrow> Inl TypeError)))"

definition balance_reply :: "http_reply \<Rightarrow> (string \<times> pyfloat) list res" where
  "balance_reply reply =
     rbind (balance_detail_reply reply) (\<lambda>detail.
       Inr (map (\<lambda>e. (fst e, fst (snd e))) (filter (\<lambda>e. fst (snd e) \<noteq> Fin 0) detail)))"

subsection \<open>Facts\<close>

lemma cid_char_idem: "list_all cid_char ''idem-''"
  by (simp add: cid_char_def is_alnum_def is_ascii_alnum_def)

lemma dict_put_keys: "distinct (map fst d) \<Longrightarrow> distinct (map fst (dict_put d k v))"
proof (cases "k \<in> fst ` set d")
  case True
  assume d: "distinct (map fst d)"
  have "map fst (dict_put d k v) = map fst d"
    using True by (auto simp: dict_put_def)
  with d show ?thesis by simp
next
  case False
  assume "distinct (map fst d)"
  with False show ?thesis by (simp add: dict_put_def)
qed

lemma fold_dict_put_distinct: "distinct (map fst d) \<Longrightarrow> distinct (map fst (foldl (\<lambda>m e. dict_put m (fst e) (snd e)) d es))"
  by (induction es arbitrary: d) (auto simp: dict_put_keys)

lemma map_of_replace:
  "map_of (map (\<lambda>kv. if fst kv = k then (k, v) else kv) d) k' =
     (if k' = k \<and> map_of d k \<noteq> None then Some v else map_of d k')"
  by (induction d) auto

lemma map_of_dict_put: "map_of (dict_put d k v) k' = (if k' = k then Some v else map_of d k')"
proof (cases "map_of d k")
  case None
  then have "k \<notin> fst ` set d" by (simp add: map_of_eq_None_iff)
  with None show ?thesis by (cases "map_of d k'") (auto simp: dict_put_def map_add_def)
next
  case (Some x)
  then have "k \<in> fst ` set d" by (force dest: map_of_SomeD)
  with Some show ?thesis by (simp add: dict_put_def map_of_replace)
qed

lemma absent_on_Inl: "absent_on c r = Inl e \<Longrightarrow> r = Inl e"
  by (auto simp: absent_on_def split: sum.splits if_splits)

lemma status_of_not_paper [simp]: "status_of v \<noteq> PAPER"
  by (auto simp: status_of_def ORDER_STATUSES_def split: pyval.splits if_splits)

subsection \<open>Properties\<close>

text \<open>What the exchange accepts in an id.\<close>

definition legal_cid_char :: "char \<Rightarrow> bool" where
  "legal_cid_char ch = (is_ascii_alnum ch \<or> ch = CHR ''.'' \<or> ch = CHR ''_'' \<or> ch = CHR ''-'')"

lemma legal_cid_ascii: "legal_cid_char ch \<longleftrightarrow> cid_char ch \<and> (of_char ch :: nat) < 128"
  by (auto simp: legal_cid_char_def cid_char_def is_alnum_def is_ascii_alnum_def Let_def)

text \<open>For a key of ASCII characters the client order id is legal: 1 to 36 characters, all of them letters,
  digits, dots, underscores or dashes (given that the digest is text of such characters); it
  is a function of the idempotency key, so a retry uses the same id.\<close>

theorem client_order_id_legal:
  assumes "list_all legal_cid_char (sha1 key)" "list_all (\<lambda>c. (of_char c :: nat) < 128) key"
  shows "list_all legal_cid_char (to_client_order_id sha1 key)
     \<and> 2 \<le> length (to_client_order_id sha1 key) \<and> length (to_client_order_id sha1 key) \<le> 36"
proof -
  have f: "list_all legal_cid_char (filter cid_char key)" using assms(2) by (auto simp: list_all_iff legal_cid_ascii)
  have t: "list_all legal_cid_char (take n xs)" if "list_all legal_cid_char xs" for n xs
    using that by (auto simp: list_all_iff dest: in_set_takeD)
  have i: "list_all legal_cid_char ''idem-''" by (simp add: legal_cid_char_def is_ascii_alnum_def)
  show ?thesis
    using f t [OF f, of 24] t [OF assms(1), of 11] i
    by (auto simp: to_client_order_id_def Let_def Suc_le_eq)
qed

theorem client_order_id_legal_witness:
  "list_all legal_cid_char (to_client_order_id (\<lambda>s. ''0123456789abcdef'') ''approve:1'')
   \<and> 2 \<le> length (to_client_order_id (\<lambda>s. ''0123456789abcdef'') ''approve:1'')
   \<and> length (to_client_order_id (\<lambda>s. ''0123456789abcdef'') ''approve:1'') \<le> 36"
  by (rule client_order_id_legal) (simp_all add: legal_cid_char_def is_ascii_alnum_def)

text \<open>A letter beyond ASCII is kept and makes the id illegal, whatever the digest.\<close>

theorem client_order_id_keeps_foreign_letters:
  "\<not> list_all legal_cid_char (to_client_order_id sha1 (char_of (246 :: nat) # key))"
proof -
  let ?c = "char_of (246 :: nat) :: char"
  have "cid_char ?c" "\<not> legal_cid_char ?c"
    by code_simp+
  then show ?thesis by (auto simp: to_client_order_id_def Let_def take_Cons')
qed

text \<open>A broker reply never fabricates certainty: a query or cancellation answers "no such order"
  only for the exchange's own code for it; a transport failure is always \<open>TIMEOUT\<close>; an order
  status or list status the exchange does not document is \<open>UNKNOWN\<close>.\<close>

theorem broker_replies_conservative:
  "(query_order_reply sh r = Inr None \<longrightarrow> broker_request r = Inl (RasatError ORDER_REJECTED (Some (- 2013))))
   \<and> (query_oco_reply sh r = Inr None \<longrightarrow> broker_request r = Inl (RasatError ORDER_REJECTED (Some (- 2013))))
   \<and> (cancel_order_reply sh r = Inr None \<longrightarrow> broker_request r = Inl (RasatError ORDER_REJECTED (Some (- 2011))))
   \<and> (cancel_oco_reply sh r = Inr None \<longrightarrow> broker_request r = Inl (RasatError ORDER_REJECTED (Some (- 2011))))
   \<and> place_reply sh TransportError = Inl (rasat TIMEOUT)
   \<and> query_order_reply sh TransportError = Inl (rasat TIMEOUT)
   \<and> (\<forall>s. py_upper s \<notin> fst ` set ORDER_STATUSES \<longrightarrow> status_of (PStr s) = UNKNOWN)"
proof -
  have abs: "absent_on c (rbind b (\<lambda>v. Inr (Some v))) = Inr None \<longleftrightarrow> b = Inl (RasatError ORDER_REJECTED (Some c))"
    for c and b :: "pyval res"
    by (cases b) (auto simp: absent_on_def)
  have un: "status_of (PStr s) = UNKNOWN" if "py_upper s \<notin> fst ` set ORDER_STATUSES" for s
    using that by (auto simp: status_of_def map_of_eq_None_iff split: option.splits dest: map_of_SomeD)
      (metis fst_conv image_eqI map_of_SomeD)
  show ?thesis
    by (auto simp: query_order_reply_def query_oco_reply_def cancel_order_reply_def cancel_oco_reply_def
        rbind_Inr_iff abs un place_reply_def Let_def broker_request_def [of TransportError]
        split: option.splits)
      (auto simp: absent_on_def)
qed

theorem broker_replies_conservative_witness:
  "status_of (PStr ''PENDING_CANCEL'') = UNKNOWN
   \<and> broker_request (Reply 400 (PDict [(''code'', PInt (- 2013))])) = Inl (RasatError ORDER_REJECTED (Some (- 2013)))"
proof -
  have "query_order_reply (\<lambda>n. []) (Reply 400 (PDict [(''code'', PInt (- 2013))])) = Inr None"
    by (simp add: query_order_reply_def broker_request_def absent_on_def binance_code_of_def dict_get_def)
  with broker_replies_conservative [of "\<lambda>n. []" "Reply 400 (PDict [(''code'', PInt (- 2013))])"]
  show ?thesis by (simp add: ORDER_STATUSES_def py_upper_def upper_char_def)
qed

text \<open>The OCO request puts the legs on the sides the exchange expects: for a validated OCO the
  leg above carries the larger price and the leg below the smaller one, the profit target is
  the \<open>LIMIT_MAKER\<close> and the stop the \<open>STOP_LOSS_LIMIT\<close> leg.\<close>

theorem oco_legs_ordered:
  assumes "validate_execution_order r = Inr v" "v_order_type v = OCO"
    "v_price v = Some p" "v_stop_price v = Some sp" "v_stop_limit_price v = Some slp"
  shows "\<exists>above below.
     map_of (place_oco_params symbol (v_side v) (v_quantity v) p sp slp cid) ''abovePrice'' = Some (PFloat (Fin above))
   \<and> map_of (place_oco_params symbol (v_side v) (v_quantity v) p sp slp cid) ''belowPrice'' = Some (PFloat (Fin below))
   \<and> below < above
   \<and> map_of (place_oco_params symbol (v_side v) (v_quantity v) p sp slp cid)
       (if v_side v = BUY then ''belowType'' else ''aboveType'') = Some (PStr ''LIMIT_MAKER'')
   \<and> map_of (place_oco_params symbol (v_side v) (v_quantity v) p sp slp cid)
       (if v_side v = BUY then ''aboveType'' else ''belowType'') = Some (PStr ''STOP_LOSS_LIMIT'')"
proof -
  from validate_execution_order_Inr(2) [OF assms(1)] assms(2-5)
  have "if v_side v = SELL then slp < sp \<and> sp < p else p < sp \<and> sp < slp"
    by (simp add: geometry_ok_def)
  then show ?thesis
    by (cases "v_side v") (auto simp: place_oco_params_def)
qed

theorem oco_legs_ordered_witness:
  "\<exists>above below.
     map_of (place_oco_params ''BTCUSDT'' SELL 1 120 90 89 ''c'') ''abovePrice'' = Some (PFloat (Fin above))
   \<and> map_of (place_oco_params ''BTCUSDT'' SELL 1 120 90 89 ''c'') ''belowPrice'' = Some (PFloat (Fin below))
   \<and> below < above"
proof -
  let ?r = "\<lparr>r_side = PStr (side_name SELL), r_order_type = PStr (order_type_name OCO), r_quantity = PFloat (Fin 1),
    r_price = PFloat (Fin 120), r_stop_price = PFloat (Fin 90), r_stop_limit_price = PFloat (Fin 89),
    r_filters = None, r_market_price = PNone\<rparr>"
  let ?v = "\<lparr>v_side = SELL, v_order_type = OCO, v_quantity = 1, v_price = Some 120, v_stop_price = Some 90,
    v_stop_limit_price = Some 89, v_notional = Some 120\<rparr>"
  have "validate_execution_order ?r = Inr ?v"
    by (simp add: validate_execution_order_def normalize_side_name [simplified]
        normalize_order_type_name [simplified] check_conditional_def Let_def del: side_name.simps order_type_name.simps)
  from oco_legs_ordered [OF this, of 120 90 89 "''BTCUSDT''" "''c''"] show ?thesis by auto
qed

end
