(* ===== verification/Signing.thy ===== *)
theory Signing
  imports Broker
begin

text \<open>
  Signed requests (\<open>_signed_request_url\<close> of \<open>data/order_broker.py\<close>). The URL library quotes keys and values; its quoting and
  the HMAC are parameters. Of the query string the library offers two texts, the decoded one, which
  the code signs, and the quoted one, which is sent and which the exchange verifies.
\<close>

type_synonym query = "(string \<times> string) list"

definition now_ms :: "rat option \<Rightarrow> rat \<Rightarrow> int" where
  "now_ms server_now host_now = trunc ((case server_now of Some t \<Rightarrow> t | None \<Rightarrow> host_now) * 1000)"

text \<open>\<open>show_int\<close> is \<open>str\<close> of an integer.\<close>

definition signed_base :: "(int \<Rightarrow> string) \<Rightarrow> int \<Rightarrow> int \<Rightarrow> query \<Rightarrow> query" where
  "signed_base show_int now recv_window params =
     dict_put (dict_put params ''timestamp'' (show_int now)) ''recvWindow'' (show_int recv_window)"

text \<open>The text of a query whose keys and values are written by \<open>f\<close>.\<close>

fun join_amp :: "string list \<Rightarrow> string" where
  "join_amp [] = []"
| "join_amp [x] = x"
| "join_amp (x # y # zs) = x @ ''&'' @ join_amp (y # zs)"

definition query_text :: "(string \<Rightarrow> string) \<Rightarrow> query \<Rightarrow> string" where
  "query_text f q = join_amp (map (\<lambda>(k, v). f k @ ''='' @ f v) q)"

definition signature :: "(string \<Rightarrow> string \<Rightarrow> string) \<Rightarrow> string \<Rightarrow> query \<Rightarrow> string" where
  "signature hmac secret base = hmac secret (query_text (\<lambda>s. s) base)"

definition signed_query :: "(string \<Rightarrow> string \<Rightarrow> string) \<Rightarrow> (string \<Rightarrow> string) \<Rightarrow> string \<Rightarrow> query \<Rightarrow> string" where
  "signed_query hmac quote secret base =
     query_text quote (dict_put base ''signature'' (signature hmac secret base))"

text \<open>What the exchange checks: the text before the last parameter, as it was sent, has the signature given there.\<close>

definition exchange_accepts :: "(string \<Rightarrow> string \<Rightarrow> string) \<Rightarrow> string \<Rightarrow> string \<Rightarrow> bool" where
  "exchange_accepts hmac secret raw = (\<exists>q. raw = q @ ''&signature='' @ hmac secret q)"

lemma join_amp_snoc: "xs \<noteq> [] \<Longrightarrow> join_amp (xs @ [x]) = join_amp xs @ ''&'' @ x"
  by (induction xs rule: join_amp.induct) auto

lemma query_text_snoc: "q \<noteq> [] \<Longrightarrow> query_text f (q @ [(k, v)]) = query_text f q @ ''&'' @ f k @ ''='' @ f v"
  by (simp add: query_text_def join_amp_snoc)

lemma query_text_cong: "(\<And>k v. (k, v) \<in> set q \<Longrightarrow> f k = g k \<and> f v = g v) \<Longrightarrow> query_text f q = query_text g q"
  unfolding query_text_def by (rule arg_cong [of _ _ join_amp]) auto

lemma length_join_amp: "length (join_amp xs) = sum_list (map length xs) + (length xs - 1)"
  by (induction xs rule: join_amp.induct) auto

text \<open>Texts of unreserved characters are what quoting leaves as they are.\<close>

definition plain :: "(string \<Rightarrow> string) \<Rightarrow> string \<Rightarrow> bool" where
  "plain quote s = (quote s = s)"

definition plain_query :: "(string \<Rightarrow> string) \<Rightarrow> query \<Rightarrow> bool" where
  "plain_query quote q = list_all (\<lambda>(k, v). plain quote k \<and> plain quote v) q"

lemma dict_put_not_empty: "dict_put d k v \<noteq> []"
  by (auto simp: dict_put_def)

lemma dict_put_new: "k \<notin> fst ` set d \<Longrightarrow> dict_put d k v = d @ [(k, v)]"
  by (simp add: dict_put_def)

text \<open>A request whose parameters need no quoting is accepted. When no parameter is called \<open>signature\<close> and the texts of
  the parameters, of the numbers and of the digest are left alone by the library's quoting, the query
  that is sent ends with the signature of exactly the text before it, which is what the exchange checks.\<close>

theorem plain_requests_are_accepted:
  assumes "plain_query quote params" "''signature'' \<notin> fst ` set params"
    "\<And>n. plain quote (show_int n)" "list_all (plain quote) [''timestamp'', ''recvWindow'', ''signature'']" "\<And>s. plain quote (hmac secret s)"
  shows "exchange_accepts hmac secret (signed_query hmac quote secret (signed_base show_int now recv_window params))"
proof -
  let ?base = "signed_base show_int now recv_window params"
  have put: "plain_query quote (dict_put d k v)" if "plain_query quote d" "plain quote k" "plain quote v" for d k v
    using that by (auto simp: plain_query_def dict_put_def list_all_iff)
  have pl: "plain_query quote ?base"
    unfolding signed_base_def using assms(1,3,4) by (intro put) simp_all
  then have raw: "query_text quote ?base = query_text (\<lambda>s. s) ?base"
    by (intro query_text_cong) (auto simp: plain_query_def plain_def list_all_iff)
  have new: "''signature'' \<notin> fst ` set ?base"
    using assms(2) by (auto simp: signed_base_def dict_put_def split: if_splits)
  have "signed_query hmac quote secret ?base
      = query_text quote ?base @ ''&'' @ quote ''signature'' @ ''='' @ quote (signature hmac secret ?base)"
    unfolding signed_query_def dict_put_new [OF new]
    by (rule query_text_snoc) (simp add: signed_base_def dict_put_not_empty)
  also have "\<dots> = query_text (\<lambda>s. s) ?base @ ''&signature='' @ hmac secret (query_text (\<lambda>s. s) ?base)"
    using assms(4,5) raw by (simp add: plain_def signature_def)
  finally show ?thesis unfolding exchange_accepts_def by blast
qed

subsection \<open>Parameters that need quoting\<close>

text \<open>When quoting makes a text longer, as percent-encoding does, and some parameter needs it, the text that is
  signed is not the text that is sent.\<close>

theorem quoted_requests_sign_another_text:
  assumes "\<And>s. length s \<le> length (quote s)" "(k, v) \<in> set base" "length v < length (quote v)"
  shows "query_text quote base \<noteq> query_text (\<lambda>s. s) base"
proof -
  let ?len = "\<lambda>f :: string \<Rightarrow> string. sum_list (map (\<lambda>(k, v). length (f k) + length (f v)) base)"
  have "length (query_text f base) = ?len f + length base + (length base - 1)" for f
    unfolding query_text_def length_join_amp by (induction base) (auto simp: split_beta)
  moreover have "?len (\<lambda>s. s) < ?len quote"
    using assms(2,3)
  proof (induction base)
    case (Cons p ps)
    have le: "sum_list (map (\<lambda>(k, v). length k + length v) ps) \<le> sum_list (map (\<lambda>(k, v). length (quote k) + length (quote v)) ps)"
      by (rule sum_list_mono) (auto intro: add_mono assms(1))
    have pl: "length (fst p) + length (snd p) \<le> length (quote (fst p)) + length (quote (snd p))"
      using assms(1) [of "fst p"] assms(1) [of "snd p"] by simp
    show ?case
    proof (cases "p = (k, v)")
      case True
      with le assms(1) [of k] assms(3) show ?thesis by simp
    next
      case False
      with Cons have "sum_list (map (\<lambda>(k, v). length k + length v) ps) < sum_list (map (\<lambda>(k, v). length (quote k) + length (quote v)) ps)" by auto
      with pl show ?thesis by (cases p) simp
    qed
  qed simp
  ultimately have "length (query_text (\<lambda>s. s) base) < length (query_text quote base)" by simp
  then show ?thesis by auto
qed

theorem plain_requests_are_accepted_witness:
  "exchange_accepts (\<lambda>k s. ''aa'') ''key'' (signed_query (\<lambda>k s. ''aa'') (\<lambda>s. s) ''key''
     (signed_base (\<lambda>n. if n = 10000 then ''10000'' else ''5'') 5 10000 [(''symbol'', ''BTCUSDT'')]))"
  by (rule plain_requests_are_accepted) (simp_all add: plain_query_def plain_def)

end
