(* ===== verification/Audit_Log.thy ===== *)
theory Audit_Log
  imports Numeric
begin

text \<open>
  The append-only hash-chain log (\<open>storage/audit.py\<close>). The digest \<open>H\<close>
  (\<open>sha256(...).hexdigest()\<close>) and the JSON printer \<open>dumps\<close> are parameters: every fact
  holds for any digest and printer, and tamper detection names what it needs of the digest.
  A log is the list of the rows of \<open>audit_log\<close> in insertion order.
\<close>

subsection \<open>Redaction\<close>

definition SENSITIVE_KEYS :: "string list" where
  "SENSITIVE_KEYS =
     [''key'', ''secret'', ''api_key'', ''api_secret'', ''apikey'', ''apisecret'', ''token'',
      ''password'', ''passphrase'', ''encrypted_api_key'', ''encrypted_secret'', ''signature'']"

definition REDACTED :: pyval where
  "REDACTED = PStr ''***REDACTED***''"

definition sensitive :: "string \<Rightarrow> bool" where
  "sensitive k = (py_lower k \<in> set SENSITIVE_KEYS)"

fun redact :: "pyval \<Rightarrow> pyval" where
  "redact (PDict kvs) = PDict (map (\<lambda>kv. (fst kv, if sensitive (fst kv) then REDACTED else redact (snd kv))) kvs)"
| "redact (PList vs) = PList (map redact vs)"
| "redact v = v"

text \<open>No sensitive key, at any depth, has a value other than the marker.\<close>

fun no_secret :: "pyval \<Rightarrow> bool" where
  "no_secret (PDict kvs) =
     list_all (\<lambda>kv. (sensitive (fst kv) \<longrightarrow> snd kv = REDACTED) \<and> no_secret (snd kv)) kvs"
| "no_secret (PList vs) = list_all no_secret vs"
| "no_secret v = True"

subsection \<open>Rows and digests\<close>

record audit_row =
  a_seq :: int
  a_actor :: string
  a_action :: string
  a_details :: string
  a_prev_hash :: string
  a_hash :: string
  a_created_at :: int

definition GENESIS_HASH :: string where
  "GENESIS_HASH = ''GENESIS''"

fun nat_str :: "nat \<Rightarrow> string" where
  "nat_str n = (if n < 10 then [char_of (48 + n)] else nat_str (n div 10) @ [char_of (48 + n mod 10)])"

declare nat_str.simps [simp del]

definition int_str :: "int \<Rightarrow> string" where
  "int_str n = (if n < 0 then CHR ''-'' # nat_str (nat (- n)) else nat_str (nat n))"

definition payload :: "string \<Rightarrow> int \<Rightarrow> string \<Rightarrow> string \<Rightarrow> string \<Rightarrow> int \<Rightarrow> string" where
  "payload prev_hash seq actor action details_json created_at =
     prev_hash @ ''|'' @ int_str seq @ ''|'' @ actor @ ''|'' @ action @ ''|'' @ details_json @ ''|''
       @ int_str created_at"

definition hash_entry :: "(string \<Rightarrow> string) \<Rightarrow> string \<Rightarrow> int \<Rightarrow> string \<Rightarrow> string \<Rightarrow> string \<Rightarrow> int \<Rightarrow> string" where
  "hash_entry H prev_hash seq actor action details_json created_at =
     H (payload prev_hash seq actor action details_json created_at)"

subsection \<open>Append, tail, verify\<close>

text \<open>\<open>details or {}\<close>\<close>

definition or_empty :: "pyval \<Rightarrow> pyval" where
  "or_empty v = (if truthy v then v else PDict [])"

text \<open>\<open>SELECT seq, hash FROM audit_log ORDER BY seq DESC LIMIT 1\<close>\<close>

definition last_row :: "audit_row list \<Rightarrow> audit_row option" where
  "last_row rows = (if rows = [] then None else Some (last (sort_key a_seq rows)))"

definition append_row ::
  "(string \<Rightarrow> string) \<Rightarrow> (pyval \<Rightarrow> string) \<Rightarrow> string \<Rightarrow> string \<Rightarrow> pyval \<Rightarrow> int \<Rightarrow> audit_row list \<Rightarrow> audit_row" where
  "append_row H dumps actor action details now rows =
     (let prev_seq = (case last_row rows of Some r \<Rightarrow> a_seq r | None \<Rightarrow> 0);
          prev_hash = (case last_row rows of Some r \<Rightarrow> a_hash r | None \<Rightarrow> GENESIS_HASH);
          seq = prev_seq + 1;
          details_json = dumps (redact (or_empty details))
      in \<lparr>a_seq = seq, a_actor = actor, a_action = action, a_details = details_json,
          a_prev_hash = prev_hash,
          a_hash = hash_entry H prev_hash seq actor action details_json now,
          a_created_at = now\<rparr>)"

definition append_in_connection ::
  "(string \<Rightarrow> string) \<Rightarrow> (pyval \<Rightarrow> string) \<Rightarrow> string \<Rightarrow> string \<Rightarrow> pyval \<Rightarrow> int \<Rightarrow> audit_row list \<Rightarrow> int \<times> audit_row list" where
  "append_in_connection H dumps actor action details now rows =
     (let r = append_row H dumps actor action details now rows in (a_seq r, rows @ [r]))"

definition tail :: "nat \<Rightarrow> audit_row list \<Rightarrow> audit_row list" where
  "tail limit rows = take limit (rev (sort_key a_seq rows))"

datatype break_reason = SequenceGap int | ChainBreak | HashMismatch | CorruptRow

fun verify_from ::
  "(string \<Rightarrow> string) \<Rightarrow> string \<Rightarrow> int \<Rightarrow> audit_row list \<Rightarrow> (int \<times> break_reason) list" where
  "verify_from H prev_hash prev_seq [] = []"
| "verify_from H prev_hash prev_seq (row # rows) =
     (if a_seq row \<noteq> prev_seq + 1 then [(a_seq row, SequenceGap (prev_seq + 1))] else [])
     @ (if a_prev_hash row \<noteq> prev_hash then [(a_seq row, ChainBreak)] else [])
     @ (if a_hash row \<noteq> hash_entry H prev_hash (a_seq row) (a_actor row) (a_action row) (a_details row) (a_created_at row)
        then [(a_seq row, HashMismatch)] else [])
     @ verify_from H (a_hash row) (a_seq row) rows"

definition verify :: "(string \<Rightarrow> string) \<Rightarrow> audit_row list \<Rightarrow> (int \<times> break_reason) list" where
  "verify H rows = verify_from H GENESIS_HASH 0 (sort_key a_seq rows)"

record audit_view =
  av_verified :: bool
  av_broken :: "(int \<times> break_reason) list"
  av_tail :: "audit_row list"
  av_count :: nat

text \<open>\<open>OrderService.get_audit_log\<close>; \<open>None\<close> is a service without an audit log.\<close>

definition get_audit_log ::
  "(string \<Rightarrow> string) \<Rightarrow> audit_row list option \<Rightarrow> pyval \<Rightarrow> audit_view res" where
  "get_audit_log H audit limit_v =
     (case audit of
        None \<Rightarrow> Inl (rasat NOT_IMPLEMENTED)
      | Some rows \<Rightarrow>
          (case limit_v of
             PInt limit \<Rightarrow>
               (if limit < 1 \<or> 500 < limit then Inl (rasat INVALID_REQUEST)
                else (let broken = verify H rows; t = tail (nat limit) rows in
                  Inr \<lparr>av_verified = (length broken = 0), av_broken = broken, av_tail = t, av_count = length t\<rparr>))
           | PBool b \<Rightarrow>
               (if \<not> b then Inl (rasat INVALID_REQUEST)
                else (let broken = verify H rows; t = tail 1 rows in
                  Inr \<lparr>av_verified = (length broken = 0), av_broken = broken, av_tail = t, av_count = length t\<rparr>))
           | _ \<Rightarrow> Inl (rasat INVALID_REQUEST)))"

subsection \<open>The contract of an append-only log\<close>

text \<open>
  What the clients of a log rely on: a log starts intact, appending keeps it intact, and
  appending adds exactly one entry and changes none. Both the audit table and the emergency
  log file are shown to satisfy it.
\<close>

locale append_only_log =
  fixes empty_log :: 'l
    and intact :: "'l \<Rightarrow> bool"
    and log_entries :: "'l \<Rightarrow> 'r list"
    and log_append :: "'e \<Rightarrow> 'l \<Rightarrow> 'l"
  assumes intact_empty: "intact empty_log"
    and entries_empty: "log_entries empty_log = []"
    and intact_append: "intact l \<Longrightarrow> intact (log_append e l)"
    and entries_append: "intact l \<Longrightarrow> \<exists>r. log_entries (log_append e l) = log_entries l @ [r]"
begin

lemma intact_run: "intact l \<Longrightarrow> intact (fold log_append es l)"
  by (induction es arbitrary: l) (auto intro: intact_append)

lemma run_extends: "intact l \<Longrightarrow> \<exists>rs. log_entries (fold log_append es l) = log_entries l @ rs \<and> length rs = length es"
proof (induction es arbitrary: l)
  case Nil
  then show ?case by simp
next
  case (Cons e es)
  from Cons.prems obtain r where r: "log_entries (log_append e l) = log_entries l @ [r]"
    using entries_append by blast
  from Cons.IH [OF intact_append [OF Cons.prems]] obtain rs
    where "log_entries (fold log_append es (log_append e l)) = log_entries (log_append e l) @ rs"
      "length rs = length es" by blast
  with r show ?case by (intro exI [of _ "r # rs"]) simp
qed

lemma run_from_empty: "intact (fold log_append es empty_log) \<and> length (log_entries (fold log_append es empty_log)) = length es"
  using intact_run [OF intact_empty] run_extends [OF intact_empty, of es] by (auto simp: entries_empty)

end

subsection \<open>Facts about redaction\<close>

lemma redact_no_secret [simp]: "no_secret (redact v)"
  by (induction v rule: redact.induct) (auto simp: list_all_iff REDACTED_def)

lemma redact_clean: "no_secret v \<Longrightarrow> redact v = v"
proof (induction v rule: redact.induct)
  case (1 kvs)
  then have "map (\<lambda>kv. (fst kv, if sensitive (fst kv) then REDACTED else redact (snd kv))) kvs = kvs"
    by (intro map_idI) (auto simp: list_all_iff prod_eq_iff)
  then show ?case by simp
next
  case (2 vs)
  then show ?case by (simp add: list_all_iff map_idI)
qed simp_all

subsection \<open>Facts about the chain\<close>

text \<open>An intact log: sequence numbers 1, 2, \dots{} and every link and digest as written.\<close>

fun chained :: "(string \<Rightarrow> string) \<Rightarrow> string \<Rightarrow> int \<Rightarrow> audit_row list \<Rightarrow> bool" where
  "chained H prev_hash prev_seq [] = True"
| "chained H prev_hash prev_seq (row # rows) =
     (a_seq row = prev_seq + 1 \<and> a_prev_hash row = prev_hash
      \<and> a_hash row = hash_entry H prev_hash (a_seq row) (a_actor row) (a_action row) (a_details row) (a_created_at row)
      \<and> chained H (a_hash row) (a_seq row) rows)"

definition audit_intact :: "(string \<Rightarrow> string) \<Rightarrow> audit_row list \<Rightarrow> bool" where
  "audit_intact H rows = chained H GENESIS_HASH 0 rows"

lemma verify_from_Nil_iff: "verify_from H p s rows = [] \<longleftrightarrow> chained H p s rows"
  by (induction H p s rows rule: chained.induct) auto

lemma chained_seq_nth: "chained H p s rows \<Longrightarrow> i < length rows \<Longrightarrow> a_seq (rows ! i) = s + 1 + int i"
proof (induction H p s rows arbitrary: i rule: chained.induct)
  case (1 H p s)
  then show ?case by simp
next
  case (2 H p s row rows)
  from 2(2) have "a_seq row = s + 1" "chained H (a_hash row) (a_seq row) rows" by auto
  with 2(1,3) show ?case by (cases i) auto
qed

lemma chained_sorted: "chained H p s rows \<Longrightarrow> sorted (map a_seq rows)"
  by (auto simp: sorted_iff_nth_mono chained_seq_nth)

lemma sort_key_chained: "chained H p s rows \<Longrightarrow> sort_key a_seq rows = rows"
  by (drule chained_sorted) (metis sort_key_id_if_sorted)

lemma verify_intact: "audit_intact H rows \<Longrightarrow> verify H rows = []"
  by (simp add: audit_intact_def verify_def sort_key_chained verify_from_Nil_iff)

lemma verify_chained: "verify H rows = [] \<longleftrightarrow> audit_intact H (sort_key a_seq rows)"
  by (simp add: audit_intact_def verify_def verify_from_Nil_iff)

lemma chained_append:
  "chained H p s (xs @ ys) \<longleftrightarrow>
     chained H p s xs \<and> chained H (if xs = [] then p else a_hash (last xs)) (if xs = [] then s else a_seq (last xs)) ys"
  by (induction H p s xs rule: chained.induct) auto

lemma last_row_intact:
  "audit_intact H rows \<Longrightarrow> last_row rows = (if rows = [] then None else Some (last rows))"
  by (simp add: last_row_def audit_intact_def sort_key_chained)

lemma append_intact:
  assumes "audit_intact H rows"
  shows "audit_intact H (rows @ [append_row H dumps actor action details now rows])"
  using assms
  by (cases "rows = []")
    (simp_all add: audit_intact_def chained_append append_row_def Let_def last_row_def sort_key_chained
      split del: if_split)


text \<open>One call of \<open>append\<close>, as an operation on the table.\<close>

definition audit_append ::
  "(string \<Rightarrow> string) \<Rightarrow> (pyval \<Rightarrow> string) \<Rightarrow> string \<times> string \<times> pyval \<times> int \<Rightarrow> audit_row list \<Rightarrow> audit_row list" where
  "audit_append H dumps e rows =
     (case e of (actor, action, details, now) \<Rightarrow> snd (append_in_connection H dumps actor action details now rows))"

lemma append_in_connection_snd [simp]:
  "snd (append_in_connection H dumps actor action details now rows)
     = rows @ [append_row H dumps actor action details now rows]"
  by (simp add: append_in_connection_def Let_def)

interpretation audit_log: append_only_log "[]" "audit_intact H" "\<lambda>rows. rows" "audit_append H dumps"
  for H :: "string \<Rightarrow> string" and dumps :: "pyval \<Rightarrow> string"
proof unfold_locales
  show "audit_intact H []" by (simp add: audit_intact_def)
qed (auto simp: audit_append_def append_intact split: prod.splits)

lemma chained_take: "chained H p s rows \<Longrightarrow> chained H p s (take k rows)"
  using chained_append [of H p s "take k rows" "drop k rows"] by simp

text \<open>The digest covers the details: with everything else fixed, other details give another
  payload.\<close>

lemma payload_details_inj: "payload p s a c d t = payload p s a c d' t \<longleftrightarrow> d = d'"
  by (simp add: payload_def)

lemma chained_nthD:
  assumes "chained H p s rows" "i < length rows"
  shows "a_hash (rows ! i) =
     hash_entry H (if i = 0 then p else a_hash (rows ! (i - 1))) (a_seq (rows ! i)) (a_actor (rows ! i))
       (a_action (rows ! i)) (a_details (rows ! i)) (a_created_at (rows ! i))"
  using assms
proof (induction H p s rows arbitrary: i rule: chained.induct)
  case (1 H p s)
  then show ?case by simp
next
  case (2 H p s row rows)
  then show ?case by (cases i) (auto simp: nth_Cons')
qed

lemma chained_details_unique:
  assumes "inj H" "chained H p s rows" "i < length rows"
    "chained H p s (rows[i := (rows ! i)\<lparr>a_details := d\<rparr>])"
  shows "d = a_details (rows ! i)"
  using chained_nthD [OF assms(2,3)] chained_nthD [OF assms(4), of i] assms(1,3)
  by (simp add: hash_entry_def inj_eq payload_details_inj split: if_splits)

lemma sort_key_update_details:
  assumes "sorted (map a_seq rows)" "i < length rows"
  shows "sort_key a_seq (rows[i := (rows ! i)\<lparr>a_details := d\<rparr>]) = rows[i := (rows ! i)\<lparr>a_details := d\<rparr>]"
proof -
  have "map a_seq (rows[i := (rows ! i)\<lparr>a_details := d\<rparr>]) = map a_seq rows"
    using assms(2) by (simp add: map_update list_update_same_conv)
  with assms(1) show ?thesis by (simp add: sort_key_id_if_sorted)
qed

lemma sorted_delete: "sorted (map f xs) \<Longrightarrow> sorted (map f (take i xs @ drop (Suc i) xs))"
proof (induction xs arbitrary: i)
  case (Cons x xs)
  from Cons.prems have "sorted (map f (take j xs @ drop (Suc j) xs))" for j by (intro Cons.IH) simp
  with Cons.prems show ?case
    by (cases i) (auto dest: in_set_takeD in_set_dropD)
qed simp

lemma chained_delete:
  assumes "chained H p s rows" "Suc i < length rows"
  shows "\<not> chained H p s (take i rows @ drop (Suc i) rows)"
proof
  assume c: "chained H p s (take i rows @ drop (Suc i) rows)"
  from assms(2) have "(take i rows @ drop (Suc i) rows) ! i = rows ! Suc i"
    by (simp add: nth_append min_def)
  moreover from assms(2) have "i < length (take i rows @ drop (Suc i) rows)" by simp
  ultimately show False
    using chained_seq_nth [OF c, of i] chained_seq_nth [OF assms(1), of "Suc i"] assms(2) by simp
qed


subsection \<open>Properties\<close>

text \<open>C38: Every log that is only ever written through \<open>append\<close> verifies as intact, has exactly
  one row per call, and any later run of appends leaves the rows already there as a prefix.\<close>

theorem audit_appends_verify:
  "verify H (fold (audit_append H dumps) es []) = []
   \<and> length (fold (audit_append H dumps) es []) = length es
   \<and> (\<exists>rs. fold (audit_append H dumps) (es @ fs) [] = fold (audit_append H dumps) es [] @ rs \<and> length rs = length fs)"
  using audit_log.run_from_empty [of H dumps es]
    audit_log.run_extends [of H "fold (audit_append H dumps) es []" dumps fs]
  by (simp add: verify_intact)

text \<open>C39: Tamper detection. In an intact log, removing any row but the last is reported; and when
  the digest is injective (no collisions), changing the details of any row is reported.\<close>

theorem audit_tamper_detected:
  assumes "audit_intact H rows" "i < length rows"
  shows "(Suc i < length rows \<longrightarrow> verify H (take i rows @ drop (Suc i) rows) \<noteq> [])
    \<and> (inj H \<longrightarrow> d \<noteq> a_details (rows ! i) \<longrightarrow> verify H (rows[i := (rows ! i)\<lparr>a_details := d\<rparr>]) \<noteq> [])"
proof -
  from assms(1) have c: "chained H GENESIS_HASH 0 rows" by (simp add: audit_intact_def)
  note srt = chained_sorted [OF c]
  show ?thesis
    using chained_delete [OF c, of i] chained_details_unique [OF _ c assms(2), of d]
      sorted_delete [OF srt, of i] sort_key_update_details [OF srt assms(2), of d]
    by (auto simp: verify_chained audit_intact_def sort_key_id_if_sorted)
qed

theorem audit_tamper_detected_witness:
  "verify (\<lambda>s. s) ((fold (audit_append (\<lambda>s. s) (\<lambda>v. [])) [(''a'', ''x'', PNone, 1)] [])[0 :=
     (fold (audit_append (\<lambda>s. s) (\<lambda>v. [])) [(''a'', ''x'', PNone, 1)] [] ! 0)\<lparr>a_details := ''z''\<rparr>]) \<noteq> []"
proof -
  let ?rows = "fold (audit_append (\<lambda>s. s) (\<lambda>v. [])) [(''a'', ''x'', PNone, 1)] []"
  have "audit_intact (\<lambda>s. s) ?rows" "length ?rows = 1"
    using audit_log.run_from_empty [of "\<lambda>s. s" "\<lambda>v. []" "[(''a'', ''x'', PNone, 1)]"] by simp_all
  moreover have "a_details (?rows ! 0) = []"
    by (simp add: audit_append_def append_row_def Let_def)
  ultimately show ?thesis
    using audit_tamper_detected [of "\<lambda>s. s" ?rows 0 "''z''"] by (simp add: inj_def)
qed

text \<open>The limits of the chain: dropping any number of rows from the end of an intact log leaves
  a log that still verifies, and so does moving a separator between the actor and the action of
  a row, since the digest is taken of the fields joined with \<open>|\<close>.\<close>

theorem audit_blind_spots:
  "(audit_intact H rows \<longrightarrow> verify H (take k rows) = [])
   \<and> (audit_intact H (rows @ [r\<lparr>a_actor := a @ ''|'' @ b, a_action := c\<rparr>])
        \<longrightarrow> verify H (rows @ [r\<lparr>a_actor := a, a_action := b @ ''|'' @ c\<rparr>]) = [])"
proof -
  have "audit_intact H (rows @ [r\<lparr>a_actor := a @ ''|'' @ b, a_action := c\<rparr>])
      \<Longrightarrow> audit_intact H (rows @ [r\<lparr>a_actor := a, a_action := b @ ''|'' @ c\<rparr>])"
    by (simp add: audit_intact_def chained_append hash_entry_def payload_def)
  then show ?thesis
    by (auto intro!: verify_intact) (simp add: audit_intact_def chained_take)
qed

theorem audit_blind_spots_witness:
  "verify (\<lambda>s. s) (take 1 (fold (audit_append (\<lambda>s. s) (\<lambda>v. []))
      [(''a'', ''x'', PNone, 1), (''a'', ''y'', PNone, 2)] [])) = []"
  using audit_blind_spots [of "\<lambda>s. s" "fold (audit_append (\<lambda>s. s) (\<lambda>v. [])) [(''a'', ''x'', PNone, 1), (''a'', ''y'', PNone, 2)] []" 1]
    audit_log.run_from_empty [of "\<lambda>s. s" "\<lambda>v. []" "[(''a'', ''x'', PNone, 1), (''a'', ''y'', PNone, 2)]"]
  by blast

text \<open>C40: Secrets never reach the log: at every depth, the details that an append serialises carry
  the redaction marker under every sensitive key, and details without secrets are written
  unchanged.\<close>

theorem audit_no_secret_logged:
  "\<exists>safe. no_secret safe
     \<and> a_details (append_row H dumps actor action details now rows) = dumps safe
     \<and> (no_secret (or_empty details) \<longrightarrow> safe = or_empty details)"
  by (rule exI [of _ "redact (or_empty details)"]) (auto simp: append_row_def Let_def redact_clean)

theorem audit_no_secret_logged_witness:
  "\<exists>safe. no_secret safe
     \<and> a_details (append_row (\<lambda>s. s) (\<lambda>v. ''j'') ''a'' ''b'' (PDict [(''n'', PInt 1)]) 1 []) = ''j''
     \<and> safe = PDict [(''n'', PInt 1)]"
proof -
  have "no_secret (or_empty (PDict [(''n'', PInt 1)]))"
    by (simp add: or_empty_def)  (simp add: sensitive_def SENSITIVE_KEYS_def py_lower_def lower_char_def)
  with audit_no_secret_logged [of "\<lambda>s. s" "\<lambda>v. ''j''" "''a''" "''b''" "PDict [(''n'', PInt 1)]" 1 "[]"]
  show ?thesis by (auto simp: or_empty_def)
qed

end
