(* ===== verification/Emergency_Log.thy ===== *)
theory Emergency_Log
  imports Audit_Log
begin

text \<open>
  The independent hash-chain file of \<open>emergency_stop\<close> (\<open>storage/emergency_log.py\<close>) and its
  reconciliation into the audit table at daemon start. The file is the list of its non-blank
  lines, each either not JSON (\<open>Corrupt\<close>) or an entry; a line that is JSON of another shape is
  not modelled. The digest \<open>H\<close> and the JSON printer \<open>dumps\<close> are parameters, as for the audit
  table.
\<close>

subsection \<open>The file\<close>

record elog_entry =
  e_seq :: int
  e_actor :: string
  e_action :: string
  e_details :: "(string \<times> pyval) list"
  e_prev_hash :: string
  e_hash :: string
  e_created_at :: int

datatype log_line = Corrupt string | Entry elog_entry

definition redact_dict :: "(string \<times> pyval) list \<Rightarrow> (string \<times> pyval) list" where
  "redact_dict kvs = map (\<lambda>kv. (fst kv, if sensitive (fst kv) then REDACTED else redact (snd kv))) kvs"

text \<open>\<open>prev["seq"]\<close> on a corrupt last line raises \<open>KeyError\<close>, before anything is written.\<close>

definition elog_prev :: "log_line list \<Rightarrow> (int \<times> string) res" where
  "elog_prev lines =
     (if lines = [] then Inr (0, GENESIS_HASH)
      else (case last lines of
              Corrupt _ \<Rightarrow> Inl KeyError
            | Entry e \<Rightarrow> Inr (e_seq e, e_hash e)))"

definition elog_entry_of ::
  "(string \<Rightarrow> string) \<Rightarrow> (pyval \<Rightarrow> string) \<Rightarrow> string \<Rightarrow> string \<Rightarrow> (string \<times> pyval) list \<Rightarrow> int \<Rightarrow> int \<times> string \<Rightarrow> elog_entry" where
  "elog_entry_of H dumps actor action details now prev =
     (let seq = fst prev + 1; prev_hash = snd prev; safe_details = redact_dict details;
          details_json = dumps (PDict safe_details)
      in \<lparr>e_seq = seq, e_actor = actor, e_action = action, e_details = safe_details,
          e_prev_hash = prev_hash, e_hash = hash_entry H prev_hash seq actor action details_json now,
          e_created_at = now\<rparr>)"

definition elog_append ::
  "(string \<Rightarrow> string) \<Rightarrow> (pyval \<Rightarrow> string) \<Rightarrow> string \<Rightarrow> string \<Rightarrow> (string \<times> pyval) list \<Rightarrow> int
     \<Rightarrow> log_line list \<Rightarrow> (string \<times> log_line list) res" where
  "elog_append H dumps actor action details now lines =
     rbind (elog_prev lines) (\<lambda>prev.
       let e = elog_entry_of H dumps actor action details now prev in Inr (e_hash e, lines @ [Entry e]))"

fun elog_verify_from ::
  "(string \<Rightarrow> string) \<Rightarrow> (pyval \<Rightarrow> string) \<Rightarrow> string \<Rightarrow> int \<Rightarrow> log_line list \<Rightarrow> (int option \<times> break_reason) list" where
  "elog_verify_from H dumps prev_hash prev_seq [] = []"
| "elog_verify_from H dumps prev_hash prev_seq (Corrupt _ # ls) =
     (None, CorruptRow) # elog_verify_from H dumps prev_hash prev_seq ls"
| "elog_verify_from H dumps prev_hash prev_seq (Entry row # ls) =
     (if e_seq row \<noteq> prev_seq + 1 then [(Some (e_seq row), SequenceGap (prev_seq + 1))] else [])
     @ (if e_prev_hash row \<noteq> prev_hash then [(Some (e_seq row), ChainBreak)] else [])
     @ (if e_hash row \<noteq> hash_entry H prev_hash (e_seq row) (e_actor row) (e_action row)
              (dumps (PDict (e_details row))) (e_created_at row)
        then [(Some (e_seq row), HashMismatch)] else [])
     @ elog_verify_from H dumps (e_hash row) (e_seq row) ls"

definition elog_verify :: "(string \<Rightarrow> string) \<Rightarrow> (pyval \<Rightarrow> string) \<Rightarrow> log_line list \<Rightarrow> (int option \<times> break_reason) list" where
  "elog_verify H dumps lines = elog_verify_from H dumps GENESIS_HASH 0 lines"

definition done_line :: "string \<Rightarrow> string \<Rightarrow> string option \<Rightarrow> log_line \<Rightarrow> bool" where
  "done_line action idem_key status line =
     (case line of
        Corrupt _ \<Rightarrow> False
      | Entry row \<Rightarrow>
          e_action row = action \<and> dict_get (e_details row) ''idem_key'' = PStr idem_key
          \<and> (case status of None \<Rightarrow> True | Some st \<Rightarrow> dict_get (e_details row) ''status'' = PStr st))"

definition is_action_done :: "string \<Rightarrow> string \<Rightarrow> string option \<Rightarrow> log_line list \<Rightarrow> bool" where
  "is_action_done action idem_key status lines = list_ex (done_line action idem_key status) lines"

subsection \<open>Reconciliation into the audit table\<close>

record reconciled_row =
  rr_entry_hash :: string
  rr_seq :: int
  rr_reconciled_at :: int

definition reconcile_details :: "elog_entry \<Rightarrow> pyval" where
  "reconcile_details entry =
     PDict [(''source'', PStr ''emergency_stop.log''), (''entry_seq'', PInt (e_seq entry)),
            (''action'', PStr (e_action entry)), (''entry'', PDict (e_details entry))]"

text \<open>The loop of \<open>_reconcile\<close>; \<open>existing\<close> is read once before it. \<open>entry_hash\<close> is the primary
  key of \<open>emergency_reconciled\<close>, so a second insert of a hash raises and the transaction is
  rolled back.\<close>

fun reconcile_loop ::
  "(string \<Rightarrow> string) \<Rightarrow> (pyval \<Rightarrow> string) \<Rightarrow> int \<Rightarrow> string set \<Rightarrow> log_line list
     \<Rightarrow> audit_row list \<times> reconciled_row list \<times> nat \<Rightarrow> (audit_row list \<times> reconciled_row list \<times> nat) res" where
  "reconcile_loop H dumps now existing [] st = Inr st"
| "reconcile_loop H dumps now existing (Corrupt _ # ls) st = reconcile_loop H dumps now existing ls st"
| "reconcile_loop H dumps now existing (Entry e # ls) (rows, rec, written) =
     (if e_hash e \<in> existing then reconcile_loop H dumps now existing ls (rows, rec, written)
      else (let rows' = snd (append_in_connection H dumps ''emergency_stop'' ''emergency_stop'' (reconcile_details e) now rows) in
        if e_hash e \<in> rr_entry_hash ` set rec then Inl IntegrityError
        else reconcile_loop H dumps now existing ls
               (rows', rec @ [\<lparr>rr_entry_hash = e_hash e, rr_seq = e_seq e, rr_reconciled_at = now\<rparr>], written + 1)))"

definition reconcile_emergency_log ::
  "(string \<Rightarrow> string) \<Rightarrow> (pyval \<Rightarrow> string) \<Rightarrow> int \<Rightarrow> log_line list \<Rightarrow> audit_row list \<times> reconciled_row list
     \<Rightarrow> ((nat \<times> (int option \<times> break_reason) list) \<times> audit_row list \<times> reconciled_row list) res" where
  "reconcile_emergency_log H dumps now lines st =
     (let broken = elog_verify H dumps lines in
      rbind (reconcile_loop H dumps now (rr_entry_hash ` set (snd st)) lines (fst st, snd st, 0)) (\<lambda>out.
        Inr ((snd (snd out), broken), fst out, fst (snd out))))"

subsection \<open>Facts about the file\<close>

text \<open>An entry as a row of the audit table: the same chain.\<close>

definition as_row :: "(pyval \<Rightarrow> string) \<Rightarrow> elog_entry \<Rightarrow> audit_row" where
  "as_row dumps e =
     \<lparr>a_seq = e_seq e, a_actor = e_actor e, a_action = e_action e, a_details = dumps (PDict (e_details e)),
      a_prev_hash = e_prev_hash e, a_hash = e_hash e, a_created_at = e_created_at e\<rparr>"

definition entries_of :: "log_line list \<Rightarrow> elog_entry list" where
  "entries_of lines = concat (map (\<lambda>l. case l of Entry e \<Rightarrow> [e] | Corrupt _ \<Rightarrow> []) lines)"

definition elog_intact :: "(string \<Rightarrow> string) \<Rightarrow> (pyval \<Rightarrow> string) \<Rightarrow> log_line list \<Rightarrow> bool" where
  "elog_intact H dumps lines = (elog_verify H dumps lines = [])"

lemma as_row_simps [simp]:
  "a_seq (as_row dumps e) = e_seq e" "a_actor (as_row dumps e) = e_actor e"
  "a_action (as_row dumps e) = e_action e" "a_details (as_row dumps e) = dumps (PDict (e_details e))"
  "a_prev_hash (as_row dumps e) = e_prev_hash e" "a_hash (as_row dumps e) = e_hash e"
  "a_created_at (as_row dumps e) = e_created_at e"
  by (simp_all add: as_row_def)

lemma entries_of_simps [simp]:
  "entries_of [] = []"
  "entries_of (Entry e # ls) = e # entries_of ls"
  "entries_of (Corrupt r # ls) = entries_of ls"
  "entries_of (xs @ ys) = entries_of xs @ entries_of ys"
  by (simp_all add: entries_of_def)

text \<open>The file verifies exactly when it has no corrupt line and its entries, read as audit rows,
  form a chain.\<close>

lemma elog_verify_from_Nil:
  "elog_verify_from H dumps p s lines = [] \<longleftrightarrow>
     lines = map Entry (entries_of lines) \<and> chained H p s (map (as_row dumps) (entries_of lines))"
  by (induction H dumps p s lines rule: elog_verify_from.induct) (auto simp: map_eq_Cons_conv)

lemma elog_intact_iff:
  "elog_intact H dumps lines \<longleftrightarrow>
     lines = map Entry (entries_of lines) \<and> audit_intact H (map (as_row dumps) (entries_of lines))"
  by (simp add: elog_intact_def elog_verify_def elog_verify_from_Nil audit_intact_def)

lemma elog_append_intact:
  assumes "elog_intact H dumps lines"
  shows "\<exists>h e. elog_append H dumps actor action details now lines = Inr (h, lines @ [Entry e])
     \<and> e_details e = redact_dict details \<and> e_action e = action
     \<and> elog_intact H dumps (lines @ [Entry e])"
proof -
  from assms have l: "lines = map Entry (entries_of lines)"
    and c: "audit_intact H (map (as_row dumps) (entries_of lines))"
    by (simp_all add: elog_intact_iff)
  define prev where "prev = (if entries_of lines = [] then (0, GENESIS_HASH)
    else (e_seq (last (entries_of lines)), e_hash (last (entries_of lines))))"
  define e where "e = elog_entry_of H dumps actor action details now prev"
  have p: "elog_prev lines = Inr prev"
    by (subst l) (simp add: elog_prev_def prev_def last_map)
  then have "elog_append H dumps actor action details now lines = Inr (e_hash e, lines @ [Entry e])"
    by (simp add: elog_append_def e_def Let_def)
  moreover have "audit_intact H (map (as_row dumps) (entries_of (lines @ [Entry e])))"
    using c by (simp add: audit_intact_def chained_append e_def elog_entry_of_def Let_def prev_def last_map)
  then have "elog_intact H dumps (lines @ [Entry e])"
    using l by (simp add: elog_intact_iff)
  moreover have "e_details e = redact_dict details" "e_action e = action"
    by (simp_all add: e_def elog_entry_of_def Let_def)
  ultimately show ?thesis by blast
qed

text \<open>A run of the file's writer: an append that raises leaves the file as it is.\<close>

definition elog_write ::
  "(string \<Rightarrow> string) \<Rightarrow> (pyval \<Rightarrow> string) \<Rightarrow> string \<times> string \<times> (string \<times> pyval) list \<times> int \<Rightarrow> log_line list \<Rightarrow> log_line list" where
  "elog_write H dumps ev lines =
     (case ev of (actor, action, details, now) \<Rightarrow>
        (case elog_append H dumps actor action details now lines of Inl _ \<Rightarrow> lines | Inr r \<Rightarrow> snd r))"

interpretation emergency_file: append_only_log "[]" "elog_intact H dumps" "\<lambda>ls. ls" "elog_write H dumps"
  for H :: "string \<Rightarrow> string" and dumps :: "pyval \<Rightarrow> string"
proof unfold_locales
  show "elog_intact H dumps []" by (simp add: elog_intact_def elog_verify_def)
next
  fix l and ev :: "string \<times> string \<times> (string \<times> pyval) list \<times> int"
  assume "elog_intact H dumps l"
  moreover obtain actor action details now where ev: "ev = (actor, action, details, now)"
    by (cases ev) auto
  ultimately obtain h e where "elog_append H dumps actor action details now l = Inr (h, l @ [Entry e])"
    "elog_intact H dumps (l @ [Entry e])"
    using elog_append_intact by blast
  then show "elog_intact H dumps (elog_write H dumps ev l)"
    "\<exists>r. elog_write H dumps ev l = l @ [r]"
    by (simp_all add: elog_write_def ev)
qed simp

lemma dict_get_redact:
  assumes "\<not> sensitive k" "dict_get d k = PStr v"
  shows "dict_get (redact_dict d) k = PStr v"
proof -
  have "map_of (redact_dict d) k = map_option redact (map_of d k)" using assms(1)
    by (induction d) (auto simp: redact_dict_def)
  with assms(2) show ?thesis by (simp add: dict_get_def split: option.splits)
qed

lemma not_sensitive_keys [simp]:
  "\<not> sensitive ''idem_key''" "\<not> sensitive ''status''"
  by (simp_all add: sensitive_def SENSITIVE_KEYS_def py_lower_def lower_char_def)

subsection \<open>Facts about the reconciliation\<close>

definition new_hashes :: "string set \<Rightarrow> log_line list \<Rightarrow> string list" where
  "new_hashes existing lines = filter (\<lambda>h. h \<notin> existing) (map e_hash (entries_of lines))"

lemma new_hashes_simps [simp]:
  "new_hashes ex [] = []"
  "new_hashes ex (Corrupt r # ls) = new_hashes ex ls"
  "new_hashes ex (Entry e # ls) = (if e_hash e \<in> ex then new_hashes ex ls else e_hash e # new_hashes ex ls)"
  by (simp_all add: new_hashes_def)

lemma reconcile_loop_Inr:
  assumes "distinct (new_hashes ex lines)" "set (new_hashes ex lines) \<inter> rr_entry_hash ` set rec = {}"
    "audit_intact H rows"
  shows "\<exists>more rec'. reconcile_loop H dumps now ex lines (rows, rec, w)
      = Inr (rows @ more, rec @ rec', w + length (new_hashes ex lines))
    \<and> length more = length (new_hashes ex lines) \<and> map rr_entry_hash rec' = new_hashes ex lines
    \<and> audit_intact H (rows @ more)"
  using assms
proof (induction H dumps now ex lines "(rows, rec, w)" arbitrary: rows rec w rule: reconcile_loop.induct)
  case (3 H dumps now ex e ls rows rec w)
  show ?case
  proof (cases "e_hash e \<in> ex")
    case True
    with 3 show ?thesis by simp
  next
    case False
    let ?a = "append_row H dumps ''emergency_stop'' ''emergency_stop'' (reconcile_details e) now rows"
    let ?r = "\<lparr>rr_entry_hash = e_hash e, rr_seq = e_seq e, rr_reconciled_at = now\<rparr>"
    from False 3(3,4) have fresh: "e_hash e \<notin> rr_entry_hash ` set rec" by simp
    from False 3(3,4) have d: "distinct (new_hashes ex ls)"
      "set (new_hashes ex ls) \<inter> rr_entry_hash ` set (rec @ [?r]) = {}" by auto
    from 3(2) [OF False _ fresh d, of "rows @ [?a]"] append_intact [OF 3(5)]
    obtain more rec' where
      "reconcile_loop H dumps now ex ls (rows @ [?a], rec @ [?r], w + 1)
         = Inr ((rows @ [?a]) @ more, (rec @ [?r]) @ rec', w + 1 + length (new_hashes ex ls))"
      "length more = length (new_hashes ex ls)" "map rr_entry_hash rec' = new_hashes ex ls"
      "audit_intact H ((rows @ [?a]) @ more)" by auto
    then show ?thesis
      using False fresh by (intro exI [of _ "?a # more"] exI [of _ "?r # rec'"]) (simp add: Let_def)
  qed
qed auto

lemma reconcile_loop_known:
  "set (map e_hash (entries_of lines)) \<subseteq> ex \<Longrightarrow> reconcile_loop H dumps now ex lines st = Inr st"
  by (induction H dumps now ex lines st rule: reconcile_loop.induct) auto


subsection \<open>Properties\<close>

text \<open>Every file written only through \<open>append\<close> verifies as intact and holds one entry per
  call: on such a file no append raises, also when the writer is restarted between calls.\<close>

theorem emergency_appends_verify:
  "elog_verify H dumps (fold (elog_write H dumps) evs []) = []
   \<and> length (fold (elog_write H dumps) evs []) = length evs
   \<and> (\<exists>h e. elog_append H dumps actor action details now (fold (elog_write H dumps) evs [])
        = Inr (h, fold (elog_write H dumps) evs [] @ [Entry e]))"
  using emergency_file.run_from_empty [of H dumps evs]
    elog_append_intact [of H dumps "fold (elog_write H dumps) evs []" actor action details now]
  by (auto simp: elog_intact_def)

text \<open>Idempotency of the emergency actions: once an action was logged with its idempotency
  key and status it is found as done, with and without the status, and stays done under any
  later appends.\<close>

theorem logged_action_is_done:
  assumes "elog_intact H dumps lines" "dict_get details ''idem_key'' = PStr k" "dict_get details ''status'' = PStr st"
  shows "\<exists>h lines'. elog_append H dumps actor action details now lines = Inr (h, lines')
    \<and> is_action_done action k None (fold (elog_write H dumps) evs lines')
    \<and> is_action_done action k (Some st) (fold (elog_write H dumps) evs lines')"
proof -
  obtain h e where e: "elog_append H dumps actor action details now lines = Inr (h, lines @ [Entry e])"
    "e_details e = redact_dict details" "e_action e = action" "elog_intact H dumps (lines @ [Entry e])"
    using elog_append_intact [OF assms(1)] by blast
  have d: "done_line action k None (Entry e)" "done_line action k (Some st) (Entry e)"
    using e(2,3) assms(2,3) by (simp_all add: done_line_def dict_get_redact)
  obtain rs where "fold (elog_write H dumps) evs (lines @ [Entry e]) = (lines @ [Entry e]) @ rs"
    using emergency_file.run_extends [OF e(4)] by blast
  with d e(1) show ?thesis by (auto simp: is_action_done_def)
qed

theorem logged_action_is_done_witness:
  "\<exists>h lines'. elog_append (\<lambda>s. s) (\<lambda>v. []) ''cli'' ''market_sell'' [(''idem_key'', PStr ''k1''), (''status'', PStr ''FILLED'')] 5 [] = Inr (h, lines')
    \<and> is_action_done ''market_sell'' ''k1'' None (fold (elog_write (\<lambda>s. s) (\<lambda>v. [])) [] lines')
    \<and> is_action_done ''market_sell'' ''k1'' (Some ''FILLED'') (fold (elog_write (\<lambda>s. s) (\<lambda>v. [])) [] lines')"
  by (rule logged_action_is_done)
    (simp_all add: elog_intact_def elog_verify_def dict_get_def)

text \<open>After a torn write (a last line that is not JSON) every append to the file raises
  \<open>KeyError\<close>, whatever is logged; the action being logged is therefore never recorded.\<close>

theorem torn_line_blocks_append:
  "elog_append H dumps actor action details now (lines @ [Corrupt raw]) = Inl KeyError"
  by (simp add: elog_append_def elog_prev_def)

text \<open>Reconciliation is complete and idempotent: when the hashes of the file's entries are
  distinct, it succeeds, writes one audit row per entry not reconciled before, keeps the audit
  chain intact and the old rows untouched, and an immediate second run writes nothing.\<close>

theorem reconcile_emergency_idempotent:
  assumes "distinct (map e_hash (entries_of lines))" "audit_intact H rows"
  shows "\<exists>n more rec'. reconcile_emergency_log H dumps now lines (rows, rec)
       = Inr ((n, elog_verify H dumps lines), rows @ more, rec @ rec')
     \<and> n = length more \<and> audit_intact H (rows @ more)
     \<and> set (map e_hash (entries_of lines)) \<subseteq> rr_entry_hash ` set (rec @ rec')
     \<and> reconcile_emergency_log H dumps now' lines (rows @ more, rec @ rec')
       = Inr ((0, elog_verify H dumps lines), rows @ more, rec @ rec')"
proof -
  let ?ex = "rr_entry_hash ` set rec"
  have "distinct (new_hashes ?ex lines)" "set (new_hashes ?ex lines) \<inter> ?ex = {}"
    using assms(1) by (auto simp: new_hashes_def)
  from reconcile_loop_Inr [OF this assms(2), of dumps now 0] obtain more rec' where r:
    "reconcile_loop H dumps now ?ex lines (rows, rec, 0) = Inr (rows @ more, rec @ rec', length more)"
    "map rr_entry_hash rec' = new_hashes ?ex lines" "audit_intact H (rows @ more)" by auto
  have "set (new_hashes ?ex lines) = rr_entry_hash ` set rec'"
    unfolding r(2) [symmetric] by simp
  then have "set (map e_hash (entries_of lines)) \<subseteq> rr_entry_hash ` set (rec @ rec')"
    by (auto simp: new_hashes_def)
  with r reconcile_loop_known [OF this, of H dumps now'] show ?thesis
    by (auto simp: reconcile_emergency_log_def Let_def)
qed

theorem reconcile_emergency_idempotent_witness:
  "\<exists>n more rec'. reconcile_emergency_log (\<lambda>s. s) (\<lambda>v. []) 7 (fold (elog_write (\<lambda>s. s) (\<lambda>v. [])) [(''c'', ''sell'', [], 5)] []) ([], [])
       = Inr ((n, elog_verify (\<lambda>s. s) (\<lambda>v. []) (fold (elog_write (\<lambda>s. s) (\<lambda>v. [])) [(''c'', ''sell'', [], 5)] [])), [] @ more, [] @ rec')
     \<and> n = length more"
  using reconcile_emergency_idempotent [of "fold (elog_write (\<lambda>s. s) (\<lambda>v. [])) [(''c'', ''sell'', [], 5)] []" "\<lambda>s. s" "[]" "\<lambda>v. []" 7 "[]" 8]
  by (auto simp: audit_intact_def elog_write_def elog_append_def elog_prev_def Let_def)

end
