(* ===== verification/World.thy ===== *)
theory World
  imports Broker Emergency_Log
begin

text \<open>
  The state the services share and the monad their code is written in.

  The database (\<open>storage/db.py\<close>, schema in \<open>storage/migrations.py\<close>) is a record of tables, each
  the list of its rows in insertion order. A world adds the sequence of requests sent to the
  exchange, the lines of the emergency log file and a step counter. Everything the program does not control is a field of \<open>env\<close>: the
  clock, fresh identifiers, market data, the broker's replies and the credential store, each a
  function of the step at which it is asked, so that a fact proved for all environments holds
  for every sequence of answers. The write queue serialises transactions: \<open>db_write\<close> runs one
  of them, with the database rolled back when it raises.
\<close>

subsection \<open>Tables\<close>

record account_row =
  ac_account_id :: string
  ac_label :: string
  ac_tags :: "string list"
  ac_market :: string
  ac_trading_lock :: string
  ac_encrypted_api_key :: "string option"
  ac_encrypted_secret :: "string option"
  ac_created_at :: int
  ac_updated_at :: int

record policy_row =
  pr_account_id :: string
  pr_max_notional :: "rat option"
  pr_max_aggregate :: "rat option"
  pr_allowed_symbols :: "string list"
  pr_policy_version :: int
  pr_created_at :: int
  pr_updated_at :: int

datatype override_state = RESERVED | APPLIED | RECONCILED

record override_row =
  ov_override_id :: string
  ov_account_id :: string
  ov_policy_version :: int
  ov_idempotency_key :: string
  ov_actor :: string
  ov_reason :: string
  ov_scope :: string
  ov_state :: override_state
  ov_created_at :: int
  ov_expires_at :: int
  ov_applied_at :: "int option"
  ov_consumed_by_idem :: "string option"
  ov_reconciled_at :: "int option"
  ov_reconcile_reason :: "string option"

record order_row =
  o_order_id :: string
  o_account_id :: string
  o_idempotency_key :: string
  o_symbol :: string
  o_side :: side
  o_order_type :: order_type
  o_quantity :: rat
  o_price :: "rat option"
  o_stop_price :: "rat option"
  o_stop_limit_price :: "rat option"
  o_status :: order_status
  o_exchange_order_id :: "string option"
  o_client_order_id :: string
  o_executed_qty :: pyfloat
  o_avg_price :: pyfloat
  o_notional :: rat
  o_reference_price :: rat
  o_equity_snapshot :: rat
  o_error_code :: "errcode option"
  o_created_at :: int
  o_updated_at :: int

record alert_row =
  al_alert_id :: string
  al_definition :: "(string \<times> pyval) list"
  al_state :: string
  al_created_at :: int
  al_updated_at :: int
  al_cooldown_until :: "int option"

record triggered_row =
  tr_alert_id :: string
  tr_trigger_key :: string
  tr_payload :: pyval
  tr_triggered_at :: int

datatype pending_status =
  AWAITING_APPROVAL | APPROVED | EXECUTING | EXECUTED | PREJECTED | RECONCILE_REQUIRED | PEXPIRED

record pending_row =
  pd_order_id :: string
  pd_alert_id :: string
  pd_account_id :: pyval
  pd_symbol :: pyval
  pd_side :: pyval
  pd_order_type :: pyval
  pd_entry :: pyval
  pd_stop_loss :: pyval
  pd_risk_pct :: pyval
  pd_status :: pending_status
  pd_note :: pyval
  pd_created_at :: int
  pd_approved_at :: "int option"
  pd_rejected_at :: "int option"
  pd_executed_order_id :: "string option"
  pd_reject_reason :: "string option"
  pd_execution_started_at :: "int option"
  pd_execution_finished_at :: "int option"
  pd_last_attempt_at :: "int option"
  pd_execution_error_code :: "errcode option"

record db =
  accounts :: "account_row list"
  policies :: "policy_row list"
  overrides :: "override_row list"
  orders :: "order_row list"
  audit_log :: "audit_row list"
  reconciled :: "reconciled_row list"
  alerts :: "alert_row list"
  triggered :: "triggered_row list"
  pending :: "pending_row list"

subsection \<open>The exchange\<close>

record open_order =
  oo_symbol :: string
  oo_order_id :: "string option"
  oo_client_order_id :: "string option"
  oo_side :: string
  oo_quantity :: rat

text \<open>The calls of the \<open>OrderBroker\<close> interface.\<close>

datatype brequest =
    PlaceOrder string string side order_type rat "rat option" string "rat option"
  | PlaceOco string string side rat rat rat rat string
  | QueryOrder string string string
  | QueryOco string string
  | CancelOrder string string string
  | CancelOco string string string
  | CancelAllOpen string string
  | GetAllOpen string
  | GetBalance string
  | GetBalanceDetail string

fun is_place :: "brequest \<Rightarrow> bool" where
  "is_place (PlaceOrder _ _ _ _ _ _ _ _) = True"
| "is_place (PlaceOco _ _ _ _ _ _ _ _) = True"
| "is_place _ = False"

text \<open>The requests that change something on the exchange.\<close>

fun is_mutating :: "brequest \<Rightarrow> bool" where
  "is_mutating (CancelOrder _ _ _) = True"
| "is_mutating (CancelOco _ _ _) = True"
| "is_mutating (CancelAllOpen _ _) = True"
| "is_mutating r = is_place r"

fun req_account :: "brequest \<Rightarrow> string" where
  "req_account (PlaceOrder a _ _ _ _ _ _ _) = a"
| "req_account (PlaceOco a _ _ _ _ _ _ _) = a"
| "req_account (QueryOrder a _ _) = a"
| "req_account (QueryOco a _) = a"
| "req_account (CancelOrder a _ _) = a"
| "req_account (CancelOco a _ _) = a"
| "req_account (CancelAllOpen a _) = a"
| "req_account (GetAllOpen a) = a"
| "req_account (GetBalance a) = a"
| "req_account (GetBalanceDetail a) = a"

subsection \<open>World and environment\<close>

record world =
  w_db :: db
  w_trace :: "brequest list"
  w_elog :: "log_line list"
  w_tick :: nat

record env =
  sha256 :: "string \<Rightarrow> string"
  sha1_hex :: "string \<Rightarrow> string"
  json_dumps :: "pyval \<Rightarrow> string"
  repr_float :: "pyfloat \<Rightarrow> string"
  audit_on :: bool
  default_fee_rate :: rat
  now_at :: "nat \<Rightarrow> int"
  uuid_at :: "nat \<Rightarrow> string"
  market_valid :: "nat \<Rightarrow> string \<Rightarrow> bool res"
  market_price :: "nat \<Rightarrow> string \<Rightarrow> rat option res"
  market_filters :: "nat \<Rightarrow> string \<Rightarrow> symbol_filters option res"
  b_place :: "nat \<Rightarrow> brequest \<Rightarrow> order_result res"
  b_query :: "nat \<Rightarrow> brequest \<Rightarrow> order_result option res"
  b_open_orders :: "nat \<Rightarrow> string \<Rightarrow> open_order list res"
  b_cancel_all :: "nat \<Rightarrow> brequest \<Rightarrow> nat res"
  b_balance :: "nat \<Rightarrow> string \<Rightarrow> (string \<times> rat) list res"
  b_balance_detail :: "nat \<Rightarrow> string \<Rightarrow> (string \<times> rat \<times> rat) list res"
  secret_encrypt :: "nat \<Rightarrow> string \<Rightarrow> string \<Rightarrow> string \<Rightarrow> string option"
  secret_decrypt :: "nat \<Rightarrow> string \<Rightarrow> string \<Rightarrow> string \<Rightarrow> string option"

type_synonym 'a m = "env \<Rightarrow> world \<Rightarrow> 'a res \<times> world"

definition mret :: "'a \<Rightarrow> 'a m" where
  "mret x = (\<lambda>e w. (Inr x, w))"

definition mraise :: "pyexc \<Rightarrow> 'a m" where
  "mraise x = (\<lambda>e w. (Inl x, w))"

definition mbind :: "'a m \<Rightarrow> ('a \<Rightarrow> 'b m) \<Rightarrow> 'b m" where
  "mbind m f = (\<lambda>e w. case m e w of (Inl x, w') \<Rightarrow> (Inl x, w') | (Inr y, w') \<Rightarrow> f y e w')"

text \<open>\<open>mtry m\<close>: run \<open>m\<close> and hand its outcome, exception or value, to the handler code.\<close>

definition mtry :: "'a m \<Rightarrow> ('a res \<Rightarrow> 'b m) \<Rightarrow> 'b m" where
  "mtry m h = (\<lambda>e w. case m e w of (r, w') \<Rightarrow> h r e w')"

definition mlift :: "'a res \<Rightarrow> 'a m" where
  "mlift r = (\<lambda>e w. (r, w))"

definition mguard :: "bool \<Rightarrow> pyexc \<Rightarrow> unit m" where
  "mguard b x = mlift (raise_if b x)"

definition menv :: "(env \<Rightarrow> 'a) \<Rightarrow> 'a m" where
  "menv f = (\<lambda>e w. (Inr (f e), w))"

definition db_read :: "(db \<Rightarrow> 'a) \<Rightarrow> 'a m" where
  "db_read f = (\<lambda>e w. (Inr (f (w_db w)), w))"

definition db_modify :: "(db \<Rightarrow> db) \<Rightarrow> unit m" where
  "db_modify f = (\<lambda>e w. (Inr (), w\<lparr>w_db := f (w_db w)\<rparr>))"

definition db_write :: "'a m \<Rightarrow> 'a m" where
  "db_write m = (\<lambda>e w. case m e w of (Inl x, w') \<Rightarrow> (Inl x, w'\<lparr>w_db := w_db w\<rparr>) | (Inr y, w') \<Rightarrow> (Inr y, w'))"

text \<open>An answer of the environment at the current step.\<close>

definition mask :: "(env \<Rightarrow> nat \<Rightarrow> 'a res) \<Rightarrow> 'a m" where
  "mask f = (\<lambda>e w. (f e (w_tick w), w\<lparr>w_tick := Suc (w_tick w)\<rparr>))"

text \<open>A request to the exchange: recorded, then answered.\<close>

definition msend :: "brequest \<Rightarrow> (env \<Rightarrow> nat \<Rightarrow> 'a res) \<Rightarrow> 'a m" where
  "msend rq f = (\<lambda>e w. (f e (w_tick w), w\<lparr>w_tick := Suc (w_tick w), w_trace := w_trace w @ [rq]\<rparr>))"

definition time_now :: "int m" where
  "time_now = mask (\<lambda>e t. Inr (now_at e t))"

definition uuid4_hex :: "string m" where
  "uuid4_hex = mask (\<lambda>e t. Inr (uuid_at e t))"

fun mmap :: "('a \<Rightarrow> 'b m) \<Rightarrow> 'a list \<Rightarrow> 'b list m" where
  "mmap f [] = mret []"
| "mmap f (x # xs) = mbind (f x) (\<lambda>y. mbind (mmap f xs) (\<lambda>ys. mret (y # ys)))"

fun mfold :: "('a \<Rightarrow> 's \<Rightarrow> 's m) \<Rightarrow> 'a list \<Rightarrow> 's \<Rightarrow> 's m" where
  "mfold f [] s = mret s"
| "mfold f (x # xs) s = mbind (f x s) (mfold f xs)"

text \<open>\<open>self.audit.append_in_connection\<close>, when the service has an audit log.\<close>

definition audit_in_conn :: "string \<Rightarrow> string \<Rightarrow> (string \<times> pyval) list \<Rightarrow> unit m" where
  "audit_in_conn actor action details =
     mbind (menv audit_on) (\<lambda>on.
       if \<not> on then mret ()
       else mbind time_now (\<lambda>now.
            mbind (menv (\<lambda>e. (sha256 e, json_dumps e))) (\<lambda>hd.
              db_modify (\<lambda>d. d\<lparr>audit_log :=
                snd (append_in_connection (fst hd) (snd hd) actor action (PDict details) now (audit_log d))\<rparr>))))"

subsection \<open>The broker interface\<close>

definition broker_place :: "brequest \<Rightarrow> order_result m" where
  "broker_place rq = msend rq (\<lambda>e t. b_place e t rq)"

definition broker_query :: "brequest \<Rightarrow> order_result option m" where
  "broker_query rq = msend rq (\<lambda>e t. b_query e t rq)"

definition broker_open_orders :: "string \<Rightarrow> open_order list m" where
  "broker_open_orders a = msend (GetAllOpen a) (\<lambda>e t. b_open_orders e t a)"

definition broker_cancel_all :: "string \<Rightarrow> string \<Rightarrow> nat m" where
  "broker_cancel_all a s = msend (CancelAllOpen a s) (\<lambda>e t. b_cancel_all e t (CancelAllOpen a s))"

definition broker_balance :: "string \<Rightarrow> (string \<times> rat) list m" where
  "broker_balance a = msend (GetBalance a) (\<lambda>e t. b_balance e t a)"

definition broker_balance_detail :: "string \<Rightarrow> (string \<times> rat \<times> rat) list m" where
  "broker_balance_detail a = msend (GetBalanceDetail a) (\<lambda>e t. b_balance_detail e t a)"

definition m_symbol_valid :: "string \<Rightarrow> bool m" where
  "m_symbol_valid s = mask (\<lambda>e t. market_valid e t s)"

definition m_price :: "string \<Rightarrow> rat option m" where
  "m_price s = mask (\<lambda>e t. market_price e t s)"

definition m_filters :: "string \<Rightarrow> symbol_filters option m" where
  "m_filters s = mask (\<lambda>e t. market_filters e t s)"

subsection \<open>A concrete environment\<close>

text \<open>The environment and the empty world the examples run in: every symbol is valid at price 100
  with permissive filters, the broker fills what it is sent, and 1000 USDT are free.\<close>

definition demo_filters :: symbol_filters where
  "demo_filters = \<lparr>sf_symbol = ''BTCUSDT'', base_asset = ''BTC'', sf_quote_asset = ''USDT'', sf_status = ''TRADING'',
     step_size = Fin 1, min_qty = Fin 1, max_qty = Fin 1000, min_notional = Fin 1, tick_size = Fin 1,
     min_price = Fin 1, max_price = Fin 100000\<rparr>"

definition demo_result :: order_result where
  "demo_result = \<lparr>or_status = FILLED, or_exchange_order_id = Some ''7'', or_executed_qty = Fin 1, or_avg_price = Fin 100\<rparr>"

definition demo_env :: env where
  "demo_env = \<lparr>sha256 = (\<lambda>s. s), sha1_hex = (\<lambda>s. ''0123456789a''), json_dumps = (\<lambda>v. []), repr_float = (\<lambda>f. ''1.0''),
     audit_on = False, default_fee_rate = 1 / 1000, now_at = (\<lambda>t. 100 + int t), uuid_at = (\<lambda>t. replicate (Suc t) (CHR ''u'')),
     market_valid = (\<lambda>t s. Inr True), market_price = (\<lambda>t s. Inr (Some 100)), market_filters = (\<lambda>t s. Inr (Some demo_filters)),
     b_place = (\<lambda>t r. Inr demo_result), b_query = (\<lambda>t r. Inr (Some demo_result)), b_open_orders = (\<lambda>t a. Inr []),
     b_cancel_all = (\<lambda>t r. Inr 0), b_balance = (\<lambda>t a. Inr [(''USDT'', 1000)]),
     b_balance_detail = (\<lambda>t a. Inr [(''USDT'', 1000, 0)]),
     secret_encrypt = (\<lambda>t a f s. Some s), secret_decrypt = (\<lambda>t a f s. Some s)\<rparr>"

definition demo_db :: db where
  "demo_db = \<lparr>accounts = [], policies = [], overrides = [], orders = [], audit_log = [], reconciled = [],
     alerts = [], triggered = [], pending = []\<rparr>"

definition demo_account :: "string \<Rightarrow> string \<Rightarrow> account_row" where
  "demo_account aid lock = \<lparr>ac_account_id = aid, ac_label = ''l'', ac_tags = [], ac_market = ''spot'', ac_trading_lock = lock,
     ac_encrypted_api_key = Some ''k'', ac_encrypted_secret = Some ''s'', ac_created_at = 1, ac_updated_at = 1\<rparr>"

definition demo_world :: "db \<Rightarrow> world" where
  "demo_world d = \<lparr>w_db = d, w_trace = [], w_elog = [], w_tick = 0\<rparr>"

subsection \<open>Weakest preconditions\<close>

lemma demo_env_simps [simp]:
  "sha256 demo_env s = s" "sha1_hex demo_env s = ''0123456789a''" "json_dumps demo_env v = []"
  "repr_float demo_env x = ''1.0''" "audit_on demo_env = False" "default_fee_rate demo_env = 1 / 1000"
  "now_at demo_env t = 100 + int t" "uuid_at demo_env t = replicate (Suc t) (CHR ''u'')"
  "market_valid demo_env t s = Inr True" "market_price demo_env t s = Inr (Some 100)"
  "market_filters demo_env t s = Inr (Some demo_filters)" "b_place demo_env t r = Inr demo_result"
  "b_query demo_env t r = Inr (Some demo_result)" "b_open_orders demo_env t a = Inr []"
  "b_cancel_all demo_env t r = Inr 0" "b_balance demo_env t a = Inr [(''USDT'', 1000)]"
  "b_balance_detail demo_env t a = Inr [(''USDT'', 1000, 0)]" "secret_encrypt demo_env t a f s = Some s"
  "secret_decrypt demo_env t a f s = Some s"
  by (simp_all add: demo_env_def)

lemmas demo_defs = demo_account_def demo_db_def demo_world_def demo_filters_def demo_result_def

lemmas run_defs = mret_def mraise_def mbind_def mtry_def mlift_def mguard_def menv_def db_read_def db_modify_def
  db_write_def mask_def msend_def time_now_def uuid4_hex_def audit_in_conn_def broker_place_def broker_query_def
  broker_open_orders_def broker_cancel_all_def broker_balance_def broker_balance_detail_def m_symbol_valid_def
  m_price_def m_filters_def

text \<open>\<open>wp e m Q w\<close>: running \<open>m\<close> from \<open>w\<close> ends in an outcome and a world that satisfy \<open>Q\<close>. The
  equations compute it through the combinators.\<close>

definition wp :: "env \<Rightarrow> 'a m \<Rightarrow> ('a res \<Rightarrow> world \<Rightarrow> bool) \<Rightarrow> world \<Rightarrow> bool" where
  "wp e m Q w = Q (fst (m e w)) (snd (m e w))"

named_theorems wp_simps "weakest preconditions of the combinators"

lemma wp_mret [wp_simps]: "wp e (mret x) Q w = Q (Inr x) w"
  by (simp add: wp_def mret_def)

lemma wp_mraise [wp_simps]: "wp e (mraise x) Q w = Q (Inl x) w"
  by (simp add: wp_def mraise_def)

lemma wp_mlift [wp_simps]: "wp e (mlift r) Q w = Q r w"
  by (simp add: wp_def mlift_def)

lemma wp_mguard [wp_simps]: "wp e (mguard b x) Q w = (if b then Q (Inl x) w else Q (Inr ()) w)"
  by (simp add: mguard_def wp_mlift raise_if_def)

lemma wp_menv [wp_simps]: "wp e (menv f) Q w = Q (Inr (f e)) w"
  by (simp add: wp_def menv_def)

lemma wp_db_read [wp_simps]: "wp e (db_read f) Q w = Q (Inr (f (w_db w))) w"
  by (simp add: wp_def db_read_def)

lemma wp_db_modify [wp_simps]: "wp e (db_modify f) Q w = Q (Inr ()) (w\<lparr>w_db := f (w_db w)\<rparr>)"
  by (simp add: wp_def db_modify_def)

lemma wp_mask [wp_simps]: "wp e (mask f) Q w = Q (f e (w_tick w)) (w\<lparr>w_tick := Suc (w_tick w)\<rparr>)"
  by (simp add: wp_def mask_def)

lemma wp_msend [wp_simps]:
  "wp e (msend rq f) Q w = Q (f e (w_tick w)) (w\<lparr>w_tick := Suc (w_tick w), w_trace := w_trace w @ [rq]\<rparr>)"
  by (simp add: wp_def msend_def)

lemma wp_mbind:
  "wp e (mbind m f) Q w = wp e m (\<lambda>r w'. case r of Inl x \<Rightarrow> Q (Inl x) w' | Inr y \<Rightarrow> wp e (f y) Q w') w"
  by (simp add: wp_def mbind_def split: prod.splits sum.splits)

lemma wp_mtry: "wp e (mtry m h) Q w = wp e m (\<lambda>r w'. wp e (h r) Q w') w"
  by (simp add: wp_def mtry_def split: prod.splits)

lemma wp_db_write:
  "wp e (db_write m) Q w =
     wp e m (\<lambda>r w'. case r of Inl x \<Rightarrow> Q (Inl x) (w'\<lparr>w_db := w_db w\<rparr>) | Inr y \<Rightarrow> Q (Inr y) w') w"
  by (simp add: wp_def db_write_def split: prod.splits sum.splits)

lemma wp_time_now [wp_simps]: "wp e time_now Q w = Q (Inr (now_at e (w_tick w))) (w\<lparr>w_tick := Suc (w_tick w)\<rparr>)"
  by (simp add: time_now_def wp_mask)

lemma wp_uuid [wp_simps]: "wp e uuid4_hex Q w = Q (Inr (uuid_at e (w_tick w))) (w\<lparr>w_tick := Suc (w_tick w)\<rparr>)"
  by (simp add: uuid4_hex_def wp_mask)

lemmas wp_bind_simps = wp_mbind wp_mtry wp_db_write

lemma wp_mono: "wp e m P w \<Longrightarrow> (\<And>r w'. P r w' \<Longrightarrow> Q r w') \<Longrightarrow> wp e m Q w"
  by (simp add: wp_def)

lemma wp_run: "wp e m Q w \<Longrightarrow> m e w = (r, w') \<Longrightarrow> Q r w'"
  by (simp add: wp_def)

lemma wp_conj: "wp e m P w \<Longrightarrow> wp e m Q w \<Longrightarrow> wp e m (\<lambda>r w'. P r w' \<and> Q r w') w"
  by (simp add: wp_def)

subsection \<open>Relations every step respects\<close>

text \<open>\<open>keeps R m\<close>: whatever the environment, running \<open>m\<close> only moves the world along \<open>R\<close>. For a
  reflexive and transitive \<open>R\<close> it is closed under the combinators, so an operation respects
  \<open>R\<close> when its elementary steps do.\<close>

definition keeps :: "(world \<Rightarrow> world \<Rightarrow> bool) \<Rightarrow> 'a m \<Rightarrow> bool" where
  "keeps R m = (\<forall>e w. R w (snd (m e w)))"

lemma keepsD: "keeps R m \<Longrightarrow> m e w = (r, w') \<Longrightarrow> R w w'"
  unfolding keeps_def by (metis snd_conv)

lemma keeps_wpI: "(\<And>e w. wp e m (\<lambda>r w'. R w w') w) \<Longrightarrow> keeps R m"
  by (simp add: keeps_def wp_def)

lemma keeps_wp: "keeps R m \<Longrightarrow> wp e m (\<lambda>r w'. R w w') w"
  by (simp add: keeps_def wp_def)

text \<open>A relation on worlds that holds between a world and itself, composes and ignores the step
  counter.\<close>

locale flow_relation =
  fixes R :: "world \<Rightarrow> world \<Rightarrow> bool"
  assumes R_refl: "R w w"
    and R_trans: "R w w' \<Longrightarrow> R w' w'' \<Longrightarrow> R w w''"
    and R_tick: "R w (w\<lparr>w_tick := n\<rparr>)"
begin

lemma resp_ret: "keeps R (mret x)"
  by (simp add: keeps_def mret_def R_refl)

lemma resp_raise: "keeps R (mraise x)"
  by (simp add: keeps_def mraise_def R_refl)

lemma resp_lift: "keeps R (mlift r)"
  by (simp add: keeps_def mlift_def R_refl)

lemma resp_guard: "keeps R (mguard b x)"
  by (simp add: mguard_def resp_lift)

lemma resp_env: "keeps R (menv f)"
  by (simp add: keeps_def menv_def R_refl)

lemma resp_read: "keeps R (db_read f)"
  by (simp add: keeps_def db_read_def R_refl)

lemma resp_mask: "keeps R (mask f)"
  by (simp add: keeps_def mask_def R_tick)

lemma resp_bind: "keeps R m \<Longrightarrow> (\<And>x. keeps R (f x)) \<Longrightarrow> keeps R (mbind m f)"
  unfolding keeps_def mbind_def by (auto split: prod.splits sum.splits) (metis R_trans snd_conv)+

lemma resp_try: "keeps R m \<Longrightarrow> (\<And>r. keeps R (h r)) \<Longrightarrow> keeps R (mtry m h)"
  unfolding keeps_def mtry_def by (auto split: prod.splits) (metis R_trans snd_conv)

lemma resp_now: "keeps R time_now"
  by (simp add: time_now_def resp_mask)

lemma resp_uuid: "keeps R uuid4_hex"
  by (simp add: uuid4_hex_def resp_mask)

lemma resp_market: "keeps R (m_symbol_valid s)" "keeps R (m_price s)" "keeps R (m_filters s)"
  by (simp_all add: m_symbol_valid_def m_price_def m_filters_def resp_mask)

lemma resp_mmap: "(\<And>x. x \<in> set xs \<Longrightarrow> keeps R (f x)) \<Longrightarrow> keeps R (mmap f xs)"
  by (induction xs) (auto intro!: resp_bind resp_ret)

lemma resp_mfold: "(\<And>x s. x \<in> set xs \<Longrightarrow> keeps R (f x s)) \<Longrightarrow> keeps R (mfold f xs s)"
  by (induction xs arbitrary: s) (auto intro!: resp_bind resp_ret)

lemmas flow_intros = resp_ret resp_raise resp_lift resp_guard resp_env resp_read resp_mask resp_bind
  resp_try resp_now resp_uuid resp_market resp_mmap resp_mfold

end

text \<open>One that also survives a rollback of the database.\<close>

locale world_relation = flow_relation +
  assumes R_rollback: "R w w' \<Longrightarrow> R w (w'\<lparr>w_db := w_db w\<rparr>)"
begin

lemma resp_write: "keeps R m \<Longrightarrow> keeps R (db_write m)"
  unfolding keeps_def db_write_def by (auto split: prod.splits sum.splits) (metis R_rollback snd_conv)+

lemmas resp_intros = flow_intros resp_write

end

text \<open>Relations that do not look at the audit table: the audit entries of an operation are
  irrelevant to them.\<close>

locale audited_relation = world_relation +
  assumes R_audit: "R w (w\<lparr>w_db := (w_db w)\<lparr>audit_log := l\<rparr>\<rparr>)"
begin

lemma resp_audit: "keeps R (audit_in_conn actor action details)"
proof -
  have "keeps R (db_modify (\<lambda>d. d\<lparr>audit_log := f (audit_log d)\<rparr>))" for f
    by (simp add: keeps_def db_modify_def R_audit)
  then show ?thesis
    unfolding audit_in_conn_def by (auto intro!: resp_intros)
qed

lemmas audited_intros = resp_intros resp_audit

end

text \<open>Relations on the requests sent: they ignore the database.\<close>

locale trace_relation = world_relation +
  assumes R_db: "R w (w\<lparr>w_db := d\<rparr>)"
begin

lemma resp_modify: "keeps R (db_modify f)"
  by (simp add: keeps_def db_modify_def R_db)

end

sublocale trace_relation \<subseteq> audited_relation
  by unfold_locales (rule R_db)

text \<open>Relations on the database: they ignore the requests sent.\<close>

locale db_relation = audited_relation +
  assumes R_trace: "R w (w\<lparr>w_trace := t\<rparr>)"
begin

lemma resp_send: "keeps R (msend rq f)"
  unfolding keeps_def msend_def using R_trace R_tick R_trans by simp blast

lemma resp_broker:
  "keeps R (broker_place rq)" "keeps R (broker_query rq)" "keeps R (broker_open_orders a)"
  "keeps R (broker_cancel_all a s)" "keeps R (broker_balance a)" "keeps R (broker_balance_detail a)"
  by (simp_all add: broker_place_def broker_query_def broker_open_orders_def broker_cancel_all_def
      broker_balance_def broker_balance_detail_def resp_send)

lemmas db_intros = audited_intros resp_broker

end

lemma keeps_if: "(b \<Longrightarrow> keeps R m) \<Longrightarrow> (\<not> b \<Longrightarrow> keeps R n) \<Longrightarrow> keeps R (if b then m else n)"
  by simp

lemma keeps_option:
  "(x = None \<Longrightarrow> keeps R m) \<Longrightarrow> (\<And>y. x = Some y \<Longrightarrow> keeps R (f y)) \<Longrightarrow> keeps R (case x of None \<Rightarrow> m | Some y \<Rightarrow> f y)"
  by (cases x) auto

lemma keeps_sum:
  "(\<And>y. x = Inl y \<Longrightarrow> keeps R (f y)) \<Longrightarrow> (\<And>y. x = Inr y \<Longrightarrow> keeps R (g y)) \<Longrightarrow> keeps R (case x of Inl y \<Rightarrow> f y | Inr y \<Rightarrow> g y)"
  by (cases x) auto

lemma keeps_let: "keeps R (f x) \<Longrightarrow> keeps R (let y = x in f y)"
  by simp

lemma keeps_prod: "(\<And>y z. x = (y, z) \<Longrightarrow> keeps R (f y z)) \<Longrightarrow> keeps R (case x of (y, z) \<Rightarrow> f y z)"
  by (cases x) auto

lemmas keeps_cases = keeps_if keeps_option keeps_sum keeps_let keeps_prod

lemma keeps_mono: "keeps R m \<Longrightarrow> (\<And>w w'. R w w' \<Longrightarrow> S w w') \<Longrightarrow> keeps S m"
  by (auto simp: keeps_def)

subsection \<open>What the services leave alone\<close>

text \<open>\<open>risk_frame\<close>: nothing but the policies, the overrides and the audit table changes, and no
  request is sent. \<open>audit_frame\<close>: nothing but the audit table changes.\<close>

definition risk_frame :: "world \<Rightarrow> world \<Rightarrow> bool" where
  "risk_frame w w' =
     (w_trace w' = w_trace w \<and> accounts (w_db w') = accounts (w_db w) \<and> orders (w_db w') = orders (w_db w)
      \<and> reconciled (w_db w') = reconciled (w_db w) \<and> alerts (w_db w') = alerts (w_db w)
      \<and> triggered (w_db w') = triggered (w_db w) \<and> pending (w_db w') = pending (w_db w))"

definition audit_frame :: "world \<Rightarrow> world \<Rightarrow> bool" where
  "audit_frame w w' =
     (risk_frame w w' \<and> policies (w_db w') = policies (w_db w) \<and> overrides (w_db w') = overrides (w_db w))"

interpretation risk_frame: audited_relation risk_frame
  by unfold_locales (auto simp: risk_frame_def)

interpretation audit_frame: audited_relation audit_frame
  by unfold_locales (auto simp: audit_frame_def risk_frame_def)

lemma wp_audit:
  "(\<And>w'. audit_frame w w' \<Longrightarrow> Q (Inr ()) w') \<Longrightarrow> wp e (audit_in_conn actor action details) Q w"
  by (auto simp: audit_in_conn_def wp_simps wp_mbind audit_frame_def risk_frame_def)

end
