(* ===== verification/Risk_Policy.thy ===== *)
theory Risk_Policy
  imports World
begin

text \<open>
  Risk policies and one-time overrides (\<open>storage/risk_policy.py\<close>): the policy table with its
  version, and the override state machine \<open>reserved \<rightarrow> applied | reconciled\<close>. Amounts and symbol
  lists are validated before they are stored; \<open>allowed_symbols\<close> is stored as JSON and read back
  through \<open>_parse_symbols\<close>.
\<close>

subsection \<open>Validation\<close>

definition SCOPE_NEXT_ORDER :: string where
  "SCOPE_NEXT_ORDER = ''next_order''"

definition DEFAULT_OVERRIDE_TTL_SECONDS :: int where
  "DEFAULT_OVERRIDE_TTL_SECONDS = 24 * 3600"

text \<open>\<open>isinstance(v, str) and v.strip()\<close>, the guard every identifier passes.\<close>

definition req_string :: "pyval \<Rightarrow> string res" where
  "req_string v =
     (case v of
        PStr s \<Rightarrow> if py_strip s = [] then Inl (rasat INVALID_REQUEST) else Inr (py_strip s)
      | _ \<Rightarrow> Inl (rasat INVALID_REQUEST))"

definition symbol_entry :: "pyval \<Rightarrow> string list" where
  "symbol_entry v =
     (case v of
        PStr s \<Rightarrow> (let value = py_upper (py_strip s) in if value = [] then [] else [value])
      | _ \<Rightarrow> [])"

definition parse_symbols :: "pyval \<Rightarrow> string list" where
  "parse_symbols raw = (case raw of PList vs \<Rightarrow> dedup (concat (map symbol_entry vs)) | _ \<Rightarrow> [])"

definition validate_optional_amount :: "pyval \<Rightarrow> rat option res" where
  "validate_optional_amount v =
     (case v of
        PNone \<Rightarrow> Inr None
      | PInt _ \<Rightarrow> rbind (require_finite v) (\<lambda>a. if a \<le> 0 then Inl (rasat INVALID_REQUEST) else Inr (Some a))
      | PFloat _ \<Rightarrow> rbind (require_finite v) (\<lambda>a. if a \<le> 0 then Inl (rasat INVALID_REQUEST) else Inr (Some a))
      | _ \<Rightarrow> Inl (rasat INVALID_REQUEST))"

definition validate_clear_flag :: "pyval \<Rightarrow> bool res" where
  "validate_clear_flag v = (case v of PBool b \<Rightarrow> Inr b | _ \<Rightarrow> Inl (rasat INVALID_REQUEST))"

definition nonblank_string :: "pyval \<Rightarrow> bool" where
  "nonblank_string v = (case v of PStr s \<Rightarrow> py_strip s \<noteq> [] | _ \<Rightarrow> False)"

definition validate_symbols :: "pyval \<Rightarrow> string list res" where
  "validate_symbols v =
     (case v of
        PNone \<Rightarrow> Inr []
      | PList vs \<Rightarrow> if list_all nonblank_string vs then Inr (parse_symbols v) else Inl (rasat INVALID_REQUEST)
      | _ \<Rightarrow> Inl (rasat INVALID_REQUEST))"

definition stored_symbols :: "policy_row \<Rightarrow> string list" where
  "stored_symbols row = parse_symbols (PList (map PStr (pr_allowed_symbols row)))"

definition or_agent :: "string \<Rightarrow> string" where
  "or_agent actor = (if actor = [] then ''mcp-agent'' else actor)"

subsection \<open>Policy\<close>

definition account_exists :: "string \<Rightarrow> db \<Rightarrow> bool" where
  "account_exists aid d = list_ex (\<lambda>a. ac_account_id a = aid) (accounts d)"

definition find_policy :: "string \<Rightarrow> db \<Rightarrow> policy_row option" where
  "find_policy aid d = List.find (\<lambda>p. pr_account_id p = aid) (policies d)"

definition policy_of_row :: "policy_row option \<Rightarrow> string \<Rightarrow> policy" where
  "policy_of_row row aid =
     (case row of
        None \<Rightarrow> \<lparr>pol_account_id = aid, max_notional_per_order = None, max_aggregate_exposure = None,
                allowed_symbols = [], policy_version = 0, configured = False\<rparr>
      | Some r \<Rightarrow> \<lparr>pol_account_id = aid, max_notional_per_order = map_option Fin (pr_max_notional r),
                  max_aggregate_exposure = map_option Fin (pr_max_aggregate r),
                  allowed_symbols = stored_symbols r, policy_version = pr_policy_version r,
                  configured = True\<rparr>)"

definition get_policy :: "pyval \<Rightarrow> policy m" where
  "get_policy aid_v =
     mbind (mlift (req_string aid_v)) (\<lambda>aid.
     mbind (db_read (\<lambda>d. (account_exists aid d, find_policy aid d))) (\<lambda>x.
       if \<not> fst x then mraise (rasat ACCOUNT_NOT_FOUND) else mret (policy_of_row (snd x) aid)))"

text \<open>The reserved overrides of other policy versions, closed one by one; the clock is read
  once.\<close>

definition close_override :: "string \<Rightarrow> int \<Rightarrow> string \<Rightarrow> db \<Rightarrow> db" where
  "close_override oid now reason d =
     d\<lparr>overrides := upd_where (\<lambda>o'. ov_override_id o' = oid)
        (\<lambda>o'. o'\<lparr>ov_state := RECONCILED, ov_reconciled_at := Some now, ov_reconcile_reason := Some reason\<rparr>)
        (overrides d)\<rparr>"

definition reconcile_stale_overrides :: "string \<Rightarrow> int \<Rightarrow> string \<Rightarrow> string \<Rightarrow> unit m" where
  "reconcile_stale_overrides aid keep_version actor reason =
     mbind (db_read (\<lambda>d. map ov_override_id
       (filter (\<lambda>o'. ov_account_id o' = aid \<and> ov_state o' = RESERVED \<and> ov_policy_version o' \<noteq> keep_version) (overrides d)))) (\<lambda>oids.
     mbind time_now (\<lambda>now.
       mfold (\<lambda>oid _.
         mbind (db_modify (close_override oid now reason)) (\<lambda>_.
           audit_in_conn (or_agent actor) ''risk_override_reconciled''
             [(''override_id'', PStr oid), (''account_id'', PStr aid), (''reason'', PStr reason)])) oids ()))"

record policy_result =
  rs_policy :: policy
  rs_changed :: bool

text \<open>The merge of a patch into the stored row: \<open>None\<close> and an empty symbol list keep what is
  stored, clearing is explicit, and the version moves only with a change. The row keeps its
  \<open>updated_at\<close>, which the caller sets.\<close>

definition merge_policy ::
  "policy_row \<Rightarrow> rat option \<Rightarrow> rat option \<Rightarrow> pyval \<Rightarrow> string list \<Rightarrow> bool \<Rightarrow> bool \<Rightarrow> bool \<Rightarrow> policy_row \<times> bool" where
  "merge_policy r max_notional max_aggregate symbols_v symbols clear_notional clear_aggregate clear_symbols =
     (let prev_symbols = stored_symbols r;
          merged_notional = (if clear_notional then None else if max_notional \<noteq> None then max_notional else pr_max_notional r);
          merged_aggregate = (if clear_aggregate then None else if max_aggregate \<noteq> None then max_aggregate else pr_max_aggregate r);
          merged_symbols = (if clear_symbols then [] else if symbols_v \<noteq> PNone \<and> symbols \<noteq> [] then symbols else prev_symbols);
          changed = (merged_notional \<noteq> pr_max_notional r \<or> merged_aggregate \<noteq> pr_max_aggregate r \<or> merged_symbols \<noteq> prev_symbols);
          version = (if changed then pr_policy_version r + 1 else pr_policy_version r)
      in (r\<lparr>pr_max_notional := merged_notional, pr_max_aggregate := merged_aggregate,
            pr_allowed_symbols := merged_symbols, pr_policy_version := version\<rparr>, changed))"

definition update_policy :: "string \<Rightarrow> policy_row \<times> bool \<Rightarrow> (policy_row \<times> bool) m" where
  "update_policy aid rc =
     mbind (if snd rc then time_now else mret (pr_updated_at (fst rc))) (\<lambda>updated_at.
     mbind (db_modify (\<lambda>d. d\<lparr>policies := upd_where (\<lambda>p. pr_account_id p = aid)
          (\<lambda>p. p\<lparr>pr_max_notional := pr_max_notional (fst rc), pr_max_aggregate := pr_max_aggregate (fst rc),
                 pr_allowed_symbols := pr_allowed_symbols (fst rc), pr_policy_version := pr_policy_version (fst rc),
                 pr_updated_at := updated_at\<rparr>) (policies d)\<rparr>)) (\<lambda>_.
       mret ((fst rc)\<lparr>pr_updated_at := updated_at\<rparr>, snd rc)))"

definition insert_policy ::
  "string \<Rightarrow> rat option \<Rightarrow> rat option \<Rightarrow> string list \<Rightarrow> bool \<Rightarrow> bool \<Rightarrow> bool \<Rightarrow> (policy_row \<times> bool) m" where
  "insert_policy aid max_notional max_aggregate symbols clear_notional clear_aggregate clear_symbols =
     mbind time_now (\<lambda>now.
       let row = \<lparr>pr_account_id = aid, pr_max_notional = (if clear_notional then None else max_notional),
                  pr_max_aggregate = (if clear_aggregate then None else max_aggregate),
                  pr_allowed_symbols = (if clear_symbols then [] else symbols),
                  pr_policy_version = 1, pr_created_at = now, pr_updated_at = now\<rparr>
       in mbind (db_modify (\<lambda>d. d\<lparr>policies := policies d @ [row]\<rparr>)) (\<lambda>_. mret (row, True)))"

text \<open>After the row is written: stale overrides are closed, the change is audited, and the new
  policy is returned.\<close>

definition finish_upsert :: "string \<Rightarrow> bool \<Rightarrow> bool \<Rightarrow> bool \<Rightarrow> string \<Rightarrow> policy_row \<times> bool \<Rightarrow> policy_result m" where
  "finish_upsert aid clear_notional clear_aggregate clear_symbols actor rc =
     mbind (if snd rc then reconcile_stale_overrides aid (pr_policy_version (fst rc)) actor ''policy_version_changed'' else mret ()) (\<lambda>_.
     mbind (audit_in_conn (or_agent actor) ''set_risk_policy''
        [(''account_id'', PStr aid), (''policy_version'', PInt (pr_policy_version (fst rc))),
         (''max_notional_per_order'', opt_num (pr_max_notional (fst rc))),
         (''max_aggregate_exposure'', opt_num (pr_max_aggregate (fst rc))),
         (''allowed_symbols'', PList (map PStr (pr_allowed_symbols (fst rc)))),
         (''clear_max_notional'', PBool clear_notional), (''clear_max_exposure'', PBool clear_aggregate),
         (''clear_allowed_symbols'', PBool clear_symbols), (''changed'', PBool (snd rc))]) (\<lambda>_.
       mret \<lparr>rs_policy = \<lparr>pol_account_id = aid, max_notional_per_order = map_option Fin (pr_max_notional (fst rc)),
                max_aggregate_exposure = map_option Fin (pr_max_aggregate (fst rc)),
                allowed_symbols = pr_allowed_symbols (fst rc), policy_version = pr_policy_version (fst rc),
                configured = True\<rparr>,
             rs_changed = snd rc\<rparr>))"

definition upsert_policy ::
  "string \<Rightarrow> rat option \<Rightarrow> rat option \<Rightarrow> pyval \<Rightarrow> string list \<Rightarrow> bool \<Rightarrow> bool \<Rightarrow> bool \<Rightarrow> string \<Rightarrow> policy_result m" where
  "upsert_policy aid max_notional max_aggregate symbols_v symbols clear_notional clear_aggregate clear_symbols actor =
     mbind (db_read (\<lambda>d. (account_exists aid d, find_policy aid d))) (\<lambda>x.
     mbind (mguard (\<not> fst x) (rasat ACCOUNT_NOT_FOUND)) (\<lambda>_.
     mbind (case snd x of
              None \<Rightarrow> insert_policy aid max_notional max_aggregate symbols clear_notional clear_aggregate clear_symbols
            | Some r \<Rightarrow> update_policy aid
                (merge_policy r max_notional max_aggregate symbols_v symbols clear_notional clear_aggregate clear_symbols))
       (finish_upsert aid clear_notional clear_aggregate clear_symbols actor)))"

definition set_risk_policy ::
  "pyval \<Rightarrow> pyval \<Rightarrow> pyval \<Rightarrow> pyval \<Rightarrow> pyval \<Rightarrow> pyval \<Rightarrow> pyval \<Rightarrow> string \<Rightarrow> policy_result m" where
  "set_risk_policy aid_v notional_v aggregate_v symbols_v clear_n_v clear_a_v clear_s_v actor =
     mbind (mlift (req_string aid_v)) (\<lambda>aid.
     mbind (mlift (validate_optional_amount notional_v)) (\<lambda>max_notional.
     mbind (mlift (validate_optional_amount aggregate_v)) (\<lambda>max_aggregate.
     mbind (mlift (validate_symbols symbols_v)) (\<lambda>symbols.
     mbind (mlift (validate_clear_flag clear_n_v)) (\<lambda>clear_notional.
     mbind (mlift (validate_clear_flag clear_a_v)) (\<lambda>clear_aggregate.
     mbind (mlift (validate_clear_flag clear_s_v)) (\<lambda>clear_symbols.
       db_write (upsert_policy aid max_notional max_aggregate symbols_v symbols
         clear_notional clear_aggregate clear_symbols actor))))))))"

subsection \<open>Overrides\<close>

text \<open>\<open>int(x)\<close> of a number: infinities and NaN raise.\<close>

definition int_of_number :: "pyval \<Rightarrow> int res" where
  "int_of_number v =
     (case v of
        PInt n \<Rightarrow> Inr n
      | PBool b \<Rightarrow> Inr (if b then 1 else 0)
      | PFloat (Fin q) \<Rightarrow> Inr (trunc q)
      | PFloat NaN \<Rightarrow> Inl ValueError
      | PFloat _ \<Rightarrow> Inl OverflowError
      | _ \<Rightarrow> Inl (rasat INVALID_REQUEST))"

definition find_override_key :: "string \<Rightarrow> string \<Rightarrow> db \<Rightarrow> override_row option" where
  "find_override_key aid key d = List.find (\<lambda>o'. ov_account_id o' = aid \<and> ov_idempotency_key o' = key) (overrides d)"

definition new_override :: "string \<Rightarrow> string \<Rightarrow> int \<Rightarrow> string \<Rightarrow> string \<Rightarrow> string \<Rightarrow> int \<Rightarrow> int \<Rightarrow> override_row" where
  "new_override oid aid version key actor reason now expires_at =
     \<lparr>ov_override_id = oid, ov_account_id = aid, ov_policy_version = version, ov_idempotency_key = key,
      ov_actor = or_agent actor, ov_reason = reason, ov_scope = SCOPE_NEXT_ORDER, ov_state = RESERVED,
      ov_created_at = now, ov_expires_at = expires_at, ov_applied_at = None, ov_consumed_by_idem = None,
      ov_reconciled_at = None, ov_reconcile_reason = None\<rparr>"

definition insert_override :: "string \<Rightarrow> string \<Rightarrow> string \<Rightarrow> string \<Rightarrow> int \<Rightarrow> int \<Rightarrow> override_row m" where
  "insert_override aid key actor reason now expires_at =
     mbind (db_read (\<lambda>d. (account_exists aid d, find_override_key aid key d, find_policy aid d))) (\<lambda>x.
     mbind (mguard (\<not> fst x) (rasat ACCOUNT_NOT_FOUND)) (\<lambda>_.
       (case fst (snd x) of
          Some existing \<Rightarrow> mret existing
        | None \<Rightarrow>
            let version = (case snd (snd x) of Some p \<Rightarrow> pr_policy_version p | None \<Rightarrow> 0) in
            mbind uuid4_hex (\<lambda>oid.
            mbind (db_read (\<lambda>d. oid \<in> ov_override_id ` set (overrides d))) (\<lambda>clash.
            mbind (mguard clash IntegrityError) (\<lambda>_.
            let row = new_override oid aid version key actor reason now expires_at in
            mbind (db_modify (\<lambda>d. d\<lparr>overrides := overrides d @ [row]\<rparr>)) (\<lambda>_.
            mbind (audit_in_conn (or_agent actor) ''override_risk_policy''
              [(''override_id'', PStr oid), (''account_id'', PStr aid), (''policy_version'', PInt version),
               (''scope'', PStr SCOPE_NEXT_ORDER), (''reason'', PStr reason), (''expires_at'', PInt expires_at)]) (\<lambda>_.
              mret row))))))))"

definition create_override :: "pyval \<Rightarrow> pyval \<Rightarrow> pyval \<Rightarrow> pyval \<Rightarrow> string \<Rightarrow> pyval \<Rightarrow> int \<Rightarrow> override_row m" where
  "create_override aid_v reason_v scope_v key_v actor expires_v ttl_seconds =
     mbind (mlift (req_string aid_v)) (\<lambda>aid.
     mbind (mlift (req_string reason_v)) (\<lambda>reason.
     mbind (mguard (scope_v \<noteq> PStr SCOPE_NEXT_ORDER) (rasat INVALID_REQUEST)) (\<lambda>_.
     mbind (if key_v = PNone then mbind uuid4_hex (\<lambda>u. mret (PStr u)) else mret key_v) (\<lambda>key_v'.
     mbind (mlift (req_string key_v')) (\<lambda>key.
     mbind time_now (\<lambda>now.
     mbind (if expires_v = PNone then mret (now + ttl_seconds) else mlift (int_of_number expires_v)) (\<lambda>expires_at.
     mbind (mguard (expires_at \<le> now) (rasat INVALID_REQUEST)) (\<lambda>_.
       mtry (db_write (insert_override aid key actor reason now expires_at)) (\<lambda>r.
         (case r of
            Inl x \<Rightarrow> mraise (if x = IntegrityError then rasat INVALID_REQUEST else x)
          | Inr row \<Rightarrow> mret row))))))))))"

text \<open>The override an order of the account would use at \<open>now\<close>: the oldest reserved, unexpired one
  of the policy version.\<close>

definition usable :: "string \<Rightarrow> int \<Rightarrow> int \<Rightarrow> override_row \<Rightarrow> bool" where
  "usable aid version now o' =
     (ov_account_id o' = aid \<and> ov_state o' = RESERVED \<and> ov_policy_version o' = version \<and> now < ov_expires_at o')"

definition candidate :: "string \<Rightarrow> int \<Rightarrow> int \<Rightarrow> db \<Rightarrow> override_row option" where
  "candidate aid version now d = first_min ov_created_at (filter (usable aid version now) (overrides d))"

definition apply_override :: "string \<Rightarrow> int \<Rightarrow> string \<Rightarrow> db \<Rightarrow> db" where
  "apply_override oid now idem d =
     d\<lparr>overrides := upd_where (\<lambda>o'. ov_override_id o' = oid \<and> ov_state o' = RESERVED)
        (\<lambda>o'. o'\<lparr>ov_state := APPLIED, ov_applied_at := Some now, ov_consumed_by_idem := Some idem\<rparr>) (overrides d)\<rparr>"

definition consume_tx :: "string \<Rightarrow> int \<Rightarrow> string \<Rightarrow> int \<Rightarrow> override_row option m" where
  "consume_tx aid version idem now =
     mbind (db_read (candidate aid version now)) (\<lambda>c.
       (case c of
          None \<Rightarrow> mret None
        | Some cand \<Rightarrow>
            mbind (db_read (\<lambda>d. count_where (\<lambda>o'. ov_override_id o' = ov_override_id cand \<and> ov_state o' = RESERVED) (overrides d))) (\<lambda>rowcount.
            mbind (db_modify (apply_override (ov_override_id cand) now idem)) (\<lambda>_.
              if rowcount \<noteq> 1 then mret None
              else
                mbind (audit_in_conn ''system'' ''risk_override_applied''
                  [(''override_id'', PStr (ov_override_id cand)), (''account_id'', PStr aid),
                   (''consumed_by_idem'', PStr idem), (''policy_version'', PInt (ov_policy_version cand))]) (\<lambda>_.
                  mret (Some (cand\<lparr>ov_state := APPLIED, ov_applied_at := Some now, ov_consumed_by_idem := Some idem\<rparr>)))))))"

definition consume_override :: "pyval \<Rightarrow> int \<Rightarrow> pyval \<Rightarrow> override_row option m" where
  "consume_override aid_v version idem_v =
     mbind (mlift (req_string aid_v)) (\<lambda>aid.
       (case idem_v of
          PStr idem \<Rightarrow>
            mbind (mguard (py_strip idem = []) (rasat INVALID_REQUEST)) (\<lambda>_.
            mbind time_now (\<lambda>now. db_write (consume_tx aid version idem now)))
        | _ \<Rightarrow> mraise (rasat INVALID_REQUEST)))"

definition get_active_override :: "pyval \<Rightarrow> int \<Rightarrow> override_row option m" where
  "get_active_override aid_v version =
     mbind (mlift (req_string aid_v)) (\<lambda>aid.
     mbind time_now (\<lambda>now. db_read (candidate aid version now)))"

definition reconcile_overrides :: "nat m" where
  "reconcile_overrides =
     mbind time_now (\<lambda>now. db_write (
       mbind (db_read (\<lambda>d. map (\<lambda>o'. (ov_override_id o', ov_account_id o'))
         (filter (\<lambda>o'. ov_state o' = RESERVED \<and> ov_expires_at o' \<le> now) (overrides d)))) (\<lambda>rows.
       mbind (mfold (\<lambda>r _.
         mbind (db_modify (close_override (fst r) now ''expired'')) (\<lambda>_.
           audit_in_conn ''system'' ''risk_override_reconciled''
             [(''override_id'', PStr (fst r)), (''account_id'', PStr (snd r)), (''reason'', PStr ''expired'')])) rows ()) (\<lambda>_.
         mret (length rows)))))"

subsection \<open>Frames\<close>

lemma close_override_frame: "keeps risk_frame (db_modify (close_override oid now reason))"
  by (simp add: keeps_def db_modify_def close_override_def risk_frame_def)

lemma get_policy_frame: "keeps audit_frame (get_policy aid)"
  by (auto simp: get_policy_def intro!: audit_frame.audited_intros)

lemma consume_override_frame: "keeps risk_frame (consume_override aid version idem)"
proof -
  have "keeps risk_frame (db_modify (apply_override oid now i))" for oid now i
    by (simp add: keeps_def db_modify_def apply_override_def risk_frame_def)
  then show ?thesis
    by (cases idem) (auto simp: consume_override_def consume_tx_def split: option.splits
        intro!: risk_frame.audited_intros)
qed

subsection \<open>The life of an override\<close>

text \<open>One step in the life of a row: unchanged, or out of \<open>reserved\<close> for good, its identity kept.\<close>

definition ov_advance :: "override_row \<Rightarrow> override_row \<Rightarrow> bool" where
  "ov_advance r r' =
     (r' = r \<or> (ov_state r = RESERVED \<and> ov_state r' \<noteq> RESERVED \<and> ov_override_id r' = ov_override_id r
        \<and> ov_account_id r' = ov_account_id r \<and> ov_policy_version r' = ov_policy_version r
        \<and> ov_idempotency_key r' = ov_idempotency_key r))"

definition ov_ids :: "world \<Rightarrow> string list" where
  "ov_ids w = map ov_override_id (overrides (w_db w))"

definition ov_evolves :: "world \<Rightarrow> world \<Rightarrow> bool" where
  "ov_evolves w w' =
     (distinct (ov_ids w) \<longrightarrow>
        distinct (ov_ids w')
        \<and> (\<exists>upd new. overrides (w_db w') = upd @ new \<and> list_all2 ov_advance (overrides (w_db w)) upd))"

lemma ov_advance_refl [simp]: "ov_advance r r"
  by (simp add: ov_advance_def)

lemma ov_advance_trans: "ov_advance a b \<Longrightarrow> ov_advance b c \<Longrightarrow> ov_advance a c"
  by (auto simp: ov_advance_def)

lemma ov_advance_id: "ov_advance a b \<Longrightarrow> ov_override_id b = ov_override_id a"
  by (auto simp: ov_advance_def)

lemma list_all2_advance_ids: "list_all2 ov_advance xs ys \<Longrightarrow> map ov_override_id ys = map ov_override_id xs"
  by (induction xs ys rule: list_all2_induct) (auto simp: ov_advance_id)

lemma ov_evolves_same: "overrides (w_db w') = overrides (w_db w) \<Longrightarrow> ov_evolves w w'"
  unfolding ov_evolves_def ov_ids_def
  by (intro impI conjI exI [of _ "overrides (w_db w)"] exI [of _ "[]"]) (auto intro: list_all2_refl)

interpretation override_life: db_relation ov_evolves
proof unfold_locales
  show "ov_evolves w w" for w
    by (simp add: ov_evolves_same)
next
  fix w w' w''
  assume a: "ov_evolves w w'" and b: "ov_evolves w' w''"
  show "ov_evolves w w''"
    unfolding ov_evolves_def
  proof (intro impI)
    assume d: "distinct (ov_ids w)"
    with a obtain upd new where 1: "distinct (ov_ids w')" "overrides (w_db w') = upd @ new"
      "list_all2 ov_advance (overrides (w_db w)) upd" unfolding ov_evolves_def by blast
    with b obtain upd' new' where 2: "distinct (ov_ids w'')" "overrides (w_db w'') = upd' @ new'"
      "list_all2 ov_advance (upd @ new) upd'" unfolding ov_evolves_def by metis
    from 2(3) obtain u1 u2 where 3: "upd' = u1 @ u2" "list_all2 ov_advance upd u1"
      by (auto simp: list_all2_append1)
    have "list_all2 ov_advance (overrides (w_db w)) u1"
      by (rule list_all2_trans [OF ov_advance_trans 1(3) 3(2)])
    with 2 3 show "distinct (ov_ids w'') \<and> (\<exists>upd new. overrides (w_db w'') = upd @ new
        \<and> list_all2 ov_advance (overrides (w_db w)) upd)"
      by (intro conjI exI [of _ u1] exI [of _ "u2 @ new'"]) simp_all
  qed
qed (auto intro: ov_evolves_same)

text \<open>An update of rows that advance keeps the life cycle.\<close>

lemma ov_evolves_upd:
  assumes "overrides (w_db w') = upd_where p f (overrides (w_db w))"
    and "\<And>r. distinct (ov_ids w) \<Longrightarrow> r \<in> set (overrides (w_db w)) \<Longrightarrow> p r \<Longrightarrow> ov_advance r (f r)"
  shows "ov_evolves w w'"
  unfolding ov_evolves_def
proof (intro impI conjI)
  assume d: "distinct (ov_ids w)"
  have l: "list_all2 ov_advance (overrides (w_db w)) (overrides (w_db w'))"
    unfolding assms(1) upd_where_def using assms(2) [OF d]
    by (auto simp: list_all2_conv_all_nth)
  from list_all2_advance_ids [OF l] d show "distinct (ov_ids w')" by (simp add: ov_ids_def)
  from l show "\<exists>upd new. overrides (w_db w') = upd @ new \<and> list_all2 ov_advance (overrides (w_db w)) upd"
    by (intro exI [of _ "overrides (w_db w')"] exI [of _ "[]"]) simp
qed

text \<open>Closing a list of overrides, one transaction step after the other.\<close>

definition closed_row :: "int \<Rightarrow> string \<Rightarrow> override_row \<Rightarrow> override_row" where
  "closed_row now reason r = r\<lparr>ov_state := RECONCILED, ov_reconciled_at := Some now, ov_reconcile_reason := Some reason\<rparr>"

lemma closed_row_simps [simp]:
  "ov_override_id (closed_row now reason r) = ov_override_id r"
  "ov_state (closed_row now reason r) = RECONCILED"
  "closed_row now reason (closed_row now reason r) = closed_row now reason r"
  by (simp_all add: closed_row_def)

lemma upd_where_closed_twice:
  "upd_where (\<lambda>r. ov_override_id r \<in> S) (closed_row now reason) (upd_where (\<lambda>r. ov_override_id r = i) (closed_row now reason) xs)
     = upd_where (\<lambda>r. ov_override_id r \<in> insert i S) (closed_row now reason) xs"
  by (induction xs) auto

lemma wp_close_loop:
  assumes "\<And>x w'. risk_frame w w' \<Longrightarrow>
      overrides (w_db w') = upd_where (\<lambda>r. ov_override_id r \<in> key ` set xs) (closed_row now reason) (overrides (w_db w)) \<Longrightarrow>
      policies (w_db w') = policies (w_db w) \<Longrightarrow> Q (Inr ()) w'"
  shows "wp e (mfold (\<lambda>x _. mbind (db_modify (close_override (key x) now reason)) (\<lambda>_. audit_in_conn actor action (details x))) xs ()) Q w"
  using assms
proof (induction xs arbitrary: w)
  case Nil
  then show ?case by (simp add: wp_simps upd_where_none risk_frame_def)
next
  case (Cons x xs)
  let ?w = "w\<lparr>w_db := close_override (key x) now reason (w_db w)\<rparr>"
  have fr: "risk_frame w ?w" and ovs: "overrides (w_db ?w) = upd_where (\<lambda>r. ov_override_id r = key x) (closed_row now reason) (overrides (w_db w))"
    and pol: "policies (w_db ?w) = policies (w_db w)"
    by (simp_all add: close_override_def risk_frame_def closed_row_def [abs_def])
  have "wp e (mfold (\<lambda>x _. mbind (db_modify (close_override (key x) now reason)) (\<lambda>_. audit_in_conn actor action (details x))) xs ()) Q w1"
    if "audit_frame ?w w1" for w1
  proof (rule Cons.IH)
    fix w'
    assume "risk_frame w1 w'"
      "overrides (w_db w') = upd_where (\<lambda>r. ov_override_id r \<in> key ` set xs) (closed_row now reason) (overrides (w_db w1))"
      "policies (w_db w') = policies (w_db w1)"
    moreover from that ovs have "overrides (w_db w1) = upd_where (\<lambda>r. ov_override_id r = key x) (closed_row now reason) (overrides (w_db w))"
      "policies (w_db w1) = policies (w_db w)" "risk_frame w w1"
      using risk_frame.R_trans [OF fr, of w1] pol by (auto simp: audit_frame_def)
    ultimately show "Q (Inr ()) w'"
      by (intro Cons.prems) (auto simp: upd_where_closed_twice intro: risk_frame.R_trans)
  qed
  then show ?case
    by (simp add: wp_simps wp_mbind) (rule wp_audit, simp)
qed

text \<open>The rows whose identifier was selected are exactly the selected rows.\<close>

lemma selected_ids:
  assumes "distinct (map ov_override_id xs)" "r \<in> set xs" "ov_override_id r \<in> ov_override_id ` set (filter P xs)"
  shows "P r"
proof -
  from assms(3) obtain r' where "r' \<in> set xs" "P r'" "ov_override_id r' = ov_override_id r" by auto
  with assms(1,2) show ?thesis by (metis distinct_map inj_onD)
qed

lemma reserved_closed_advance: "ov_state r = RESERVED \<Longrightarrow> ov_advance r (closed_row now reason r)"
  by (simp add: ov_advance_def closed_row_def)

lemma closing_evolves:
  assumes "overrides (w_db w') = upd_where (\<lambda>r. ov_override_id r \<in> ov_override_id ` set (filter P (overrides (w_db w)))) (closed_row now reason) (overrides (w_db w))"
    and "\<And>r. P r \<Longrightarrow> ov_state r = RESERVED"
  shows "ov_evolves w w'"
  using assms(1)
  by (rule ov_evolves_upd)
    (metis assms(2) ov_ids_def reserved_closed_advance selected_ids)

lemma wp_reconcile_stale:
  assumes "\<And>w'. risk_frame w w' \<Longrightarrow> ov_evolves w w' \<Longrightarrow> policies (w_db w') = policies (w_db w) \<Longrightarrow>
      (\<forall>r\<in>set (overrides (w_db w')). ov_account_id r = aid \<longrightarrow> ov_state r = RESERVED \<longrightarrow> ov_policy_version r = keep) \<Longrightarrow> Q (Inr ()) w'"
  shows "wp e (reconcile_stale_overrides aid keep actor reason) Q w"
proof -
  let ?P = "\<lambda>r. ov_account_id r = aid \<and> ov_state r = RESERVED \<and> ov_policy_version r \<noteq> keep"
  let ?w = "w\<lparr>w_tick := Suc (w_tick w)\<rparr>"
  let ?oids = "map ov_override_id (filter ?P (overrides (w_db w)))"
  have "wp e (mfold (\<lambda>x _. mbind (db_modify (close_override x (now_at e (w_tick w)) reason)) (\<lambda>_. audit_in_conn (or_agent actor)
      ''risk_override_reconciled'' [(''override_id'', PStr x), (''account_id'', PStr aid), (''reason'', PStr reason)])) ?oids ()) Q ?w"
  proof (rule wp_close_loop [where key = "\<lambda>x. x"])
    fix w'
    assume f: "risk_frame ?w w'" and p: "policies (w_db w') = policies (w_db ?w)"
      and o: "overrides (w_db w') = upd_where (\<lambda>r. ov_override_id r \<in> (\<lambda>x. x) ` set ?oids) (closed_row (now_at e (w_tick w)) reason) (overrides (w_db ?w))"
    show "Q (Inr ()) w'"
    proof (rule assms)
      show "risk_frame w w'" using f by (simp add: risk_frame_def)
      show "policies (w_db w') = policies (w_db w)" using p by simp
      show "ov_evolves w w'"
        by (rule closing_evolves [where P = ?P]) (use o in auto)
      show "\<forall>r\<in>set (overrides (w_db w')). ov_account_id r = aid \<longrightarrow> ov_state r = RESERVED \<longrightarrow> ov_policy_version r = keep"
      proof (intro ballI impI)
        fix r
        assume "r \<in> set (overrides (w_db w'))" and r: "ov_account_id r = aid" "ov_state r = RESERVED"
        then obtain x where x: "x \<in> set (overrides (w_db w))"
          "r = (if ov_override_id x \<in> set ?oids then closed_row (now_at e (w_tick w)) reason x else x)"
          by (auto simp: o set_upd_where)
        with r(2) have "ov_override_id x \<notin> set ?oids" "r = x" by (auto split: if_splits)
        with x(1) r show "ov_policy_version r = keep" by force
      qed
    qed
  qed
  then show ?thesis
    by (simp add: reconcile_stale_overrides_def wp_simps wp_mbind)
qed

text \<open>Upserting a policy: the row of the account afterwards, and what happened to its overrides.\<close>

definition policy_for :: "string \<Rightarrow> world \<Rightarrow> policy_row option" where
  "policy_for aid w = find_policy aid (w_db w)"

definition merge_amount :: "bool \<Rightarrow> rat option \<Rightarrow> rat option \<Rightarrow> rat option" where
  "merge_amount clear new old = (if clear then None else if new \<noteq> None then new else old)"

lemma find_policy_upd:
  "find_policy aid (d\<lparr>policies := upd_where (\<lambda>p. pr_account_id p = aid) (\<lambda>p. p\<lparr>pr_max_notional := a, pr_max_aggregate := b,
      pr_allowed_symbols := c, pr_policy_version := v, pr_updated_at := u\<rparr>) (policies d)\<rparr>)
   = map_option (\<lambda>p. p\<lparr>pr_max_notional := a, pr_max_aggregate := b, pr_allowed_symbols := c, pr_policy_version := v,
       pr_updated_at := u\<rparr>) (find_policy aid d)"
  by (auto simp: find_policy_def find_upd_where option.map_comp comp_def dest: find_SomeD intro!: option.map_cong)

text \<open>Stored symbol lists are normal: reading them back changes nothing.\<close>

lemma symbol_entry_norm: "x \<in> set (symbol_entry v) \<Longrightarrow> symbol_entry (PStr x) = [x]"
  by (auto simp: symbol_entry_def Let_def strip_upper split: pyval.splits if_splits)

lemma parse_symbols_norm: "x \<in> set (parse_symbols v) \<Longrightarrow> symbol_entry (PStr x) = [x]"
  by (auto simp: parse_symbols_def dest: symbol_entry_norm split: pyval.splits)

lemma dedup_distinct: "distinct xs \<Longrightarrow> dedup xs = xs"
  using dedup_acc_distinct [of "[]" xs] by (simp add: dedup_def)

lemma parse_symbols_distinct: "distinct (parse_symbols v)"
  by (simp add: parse_symbols_def split: pyval.splits)

lemma parse_symbols_idem: "parse_symbols (PList (map PStr (parse_symbols v))) = parse_symbols v"
proof -
  have "concat (map symbol_entry (map PStr xs)) = xs" if "\<forall>x\<in>set xs. symbol_entry (PStr x) = [x]" for xs
    using that by (induction xs) auto
  then have "concat (map symbol_entry (map PStr (parse_symbols v))) = parse_symbols v"
    using parse_symbols_norm by blast
  then show ?thesis
    by (simp add: parse_symbols_def [of "PList (map PStr (parse_symbols v))"] dedup_distinct parse_symbols_distinct)
qed

lemma validate_symbols_parse: "validate_symbols v = Inr s \<Longrightarrow> s = parse_symbols v"
  by (auto simp: validate_symbols_def parse_symbols_def split: pyval.splits if_splits)

subsection \<open>Consuming an override\<close>

definition applied_row :: "int \<Rightarrow> string \<Rightarrow> override_row \<Rightarrow> override_row" where
  "applied_row now idem r = r\<lparr>ov_state := APPLIED, ov_applied_at := Some now, ov_consumed_by_idem := Some idem\<rparr>"

lemma candidate_SomeD:
  "candidate aid v now d = Some c \<Longrightarrow> c \<in> set (overrides d) \<and> usable aid v now c
     \<and> (\<forall>r\<in>set (overrides d). usable aid v now r \<longrightarrow> ov_created_at c \<le> ov_created_at r)"
  by (auto simp: candidate_def dest: first_min_SomeD first_min_least)

lemma candidate_None: "candidate aid v now d = None \<longleftrightarrow> (\<forall>r\<in>set (overrides d). \<not> usable aid v now r)"
  by (auto simp: candidate_def filter_empty_conv)

lemma wp_consume_override:
  assumes "distinct (ov_ids w)" "req_string aid_v = Inr aid" "py_strip idem \<noteq> []"
    and none: "candidate aid v (now_at e (w_tick w)) (w_db w) = None \<Longrightarrow> Q (Inr None) (w\<lparr>w_tick := Suc (w_tick w)\<rparr>)"
    and some: "\<And>c w'. candidate aid v (now_at e (w_tick w)) (w_db w) = Some c \<Longrightarrow> risk_frame w w' \<Longrightarrow>
        policies (w_db w') = policies (w_db w) \<Longrightarrow>
        overrides (w_db w') = upd_where (\<lambda>r. ov_override_id r = ov_override_id c \<and> ov_state r = RESERVED)
          (applied_row (now_at e (w_tick w)) idem) (overrides (w_db w)) \<Longrightarrow>
        Q (Inr (Some (applied_row (now_at e (w_tick w)) idem c))) w'"
  shows "wp e (consume_override aid_v v (PStr idem)) Q w"
proof (cases "candidate aid v (now_at e (w_tick w)) (w_db w)")
  case None
  with none show ?thesis
    by (simp add: consume_override_def assms(2,3) wp_simps wp_bind_simps consume_tx_def)
next
  case (Some c)
  let ?now = "now_at e (w_tick w)"
  let ?w = "w\<lparr>w_tick := Suc (w_tick w), w_db := apply_override (ov_override_id c) ?now idem (w_db w)\<rparr>"
  from candidate_SomeD [OF Some] have c: "c \<in> set (overrides (w_db w))" "ov_state c = RESERVED"
    by (auto simp: usable_def)
  have n: "count_where (\<lambda>r. ov_override_id r = ov_override_id c \<and> ov_state r = RESERVED) (overrides (w_db w)) = 1"
    by (rule count_where_distinct [where g = ov_override_id]) (use assms(1) c in \<open>auto simp: ov_ids_def\<close>)
  have "wp e (audit_in_conn ''system'' ''risk_override_applied''
      [(''override_id'', PStr (ov_override_id c)), (''account_id'', PStr aid), (''consumed_by_idem'', PStr idem),
       (''policy_version'', PInt (ov_policy_version c))])
      (\<lambda>r w'. case r of Inl x \<Rightarrow> Q (Inl x) (w'\<lparr>w_db := w_db w\<rparr>) | Inr y \<Rightarrow> Q (Inr (Some (applied_row ?now idem c))) w') ?w"
  proof (rule wp_audit)
    fix w'
    assume "audit_frame ?w w'"
    then have "risk_frame w w'" "policies (w_db w') = policies (w_db w)"
      "overrides (w_db w') = upd_where (\<lambda>r. ov_override_id r = ov_override_id c \<and> ov_state r = RESERVED)
          (applied_row ?now idem) (overrides (w_db w))"
      by (auto simp: audit_frame_def risk_frame_def apply_override_def applied_row_def [abs_def])
    from some [OF Some this]
    show "case Inr () of Inl x \<Rightarrow> Q (Inl x) (w'\<lparr>w_db := w_db w\<rparr>) | Inr y \<Rightarrow> Q (Inr (Some (applied_row ?now idem c))) w'"
      by simp
  qed
  then show ?thesis
    by (simp add: consume_override_def assms(2,3) wp_simps wp_bind_simps consume_tx_def Some n applied_row_def
        cong: sum.case_cong)
qed

lemma applied_advance: "ov_state r = RESERVED \<Longrightarrow> ov_advance r (applied_row now idem r)"
  by (simp add: ov_advance_def applied_row_def)

lemma consume_tx_evolves: "keeps ov_evolves (consume_tx aid v idem now)"
proof -
  have "keeps ov_evolves (db_modify (apply_override oid now idem))" for oid now idem
    unfolding keeps_def db_modify_def
    by (auto simp: apply_override_def ov_advance_def intro!: ov_evolves_upd)
  then show ?thesis
    by (auto simp: consume_tx_def split: option.splits intro!: override_life.audited_intros)
qed

lemma consume_override_evolves: "keeps ov_evolves (consume_override aid v idem)"
  by (cases idem) (auto simp: consume_override_def intro!: override_life.audited_intros consume_tx_evolves)

lemma reconcile_overrides_evolves: "keeps ov_evolves reconcile_overrides"
proof (rule keeps_wpI)
  fix e :: env and w :: world
  let ?now = "now_at e (w_tick w)"
  let ?w = "w\<lparr>w_tick := Suc (w_tick w)\<rparr>"
  let ?P = "\<lambda>r. ov_state r = RESERVED \<and> ov_expires_at r \<le> ?now"
  let ?rows = "map (\<lambda>r. (ov_override_id r, ov_account_id r)) (filter ?P (overrides (w_db w)))"
  have "wp e (mfold (\<lambda>r _. mbind (db_modify (close_override (fst r) ?now ''expired'')) (\<lambda>_.
      audit_in_conn ''system'' ''risk_override_reconciled''
        [(''override_id'', PStr (fst r)), (''account_id'', PStr (snd r)), (''reason'', PStr ''expired'')])) ?rows ())
      (\<lambda>r w'. r = Inr () \<and> ov_evolves w w') ?w"
  proof (rule wp_close_loop [where key = fst])
    fix w' :: world
    assume "overrides (w_db w') = upd_where (\<lambda>r. ov_override_id r \<in> fst ` set ?rows) (closed_row ?now ''expired'') (overrides (w_db ?w))"
    then have "overrides (w_db w') = upd_where (\<lambda>r. ov_override_id r \<in> ov_override_id ` set (filter ?P (overrides (w_db w)))) (closed_row ?now ''expired'') (overrides (w_db w))"
      by (simp add: image_image)
    then have "ov_evolves w w'"
      by (rule closing_evolves [where P = ?P]) simp
    then show "Inr () = Inr () \<and> ov_evolves w w'" by simp
  qed
  then show "wp e reconcile_overrides (\<lambda>r w'. ov_evolves w w') w"
    by (simp add: reconcile_overrides_def wp_simps wp_bind_simps) (erule wp_mono, auto simp: wp_mret)
qed

lemma create_override_evolves: "keeps ov_evolves (create_override aid reason scope key actor expires ttl)"
proof -
  have ins: "keeps ov_evolves (insert_override aid key actor reason now expires)" for aid key actor reason now expires
  proof (rule keeps_wpI)
    fix e :: env and w :: world
    have app: "ov_evolves w w'" if "overrides (w_db w') = overrides (w_db w) @ [new_override oid aid v key actor reason now expires]"
      "oid \<notin> ov_override_id ` set (overrides (w_db w))" for oid v w'
      using that unfolding ov_evolves_def ov_ids_def
      by (intro impI conjI exI [of _ "overrides (w_db w)"] exI [of _ "[new_override oid aid v key actor reason now expires]"])
        (auto intro: list_all2_refl simp: new_override_def)
    show "wp e (insert_override aid key actor reason now expires) (\<lambda>r w'. ov_evolves w w') w"
      unfolding insert_override_def
      by (auto simp: wp_simps wp_mbind Let_def ov_evolves_same split: option.splits
          intro!: wp_audit)
        (auto simp: audit_frame_def intro: app)
  qed
  show ?thesis
    by (auto simp: create_override_def split: sum.splits intro!: override_life.audited_intros ins)
qed

lemma upsert_policy_evolves: "keeps ov_evolves (upsert_policy aid mn ma sv s cn ca cs actor)"
proof -
  have st: "keeps ov_evolves (reconcile_stale_overrides aid keep actor reason)" for aid keep actor reason
    by (rule keeps_wpI, rule wp_reconcile_stale)
  have md: "keeps ov_evolves (db_modify (\<lambda>d. d\<lparr>policies := f (policies d)\<rparr>))" for f
    by (simp add: keeps_def db_modify_def ov_evolves_same)
  show ?thesis
    unfolding upsert_policy_def insert_policy_def update_policy_def finish_upsert_def Let_def
    by (auto split: option.splits intro!: override_life.audited_intros st md)
qed

lemma set_risk_policy_evolves: "keeps ov_evolves (set_risk_policy a n g s cn ca cs actor)"
  by (auto simp: set_risk_policy_def intro!: override_life.audited_intros upsert_policy_evolves)

subsection \<open>Setting a policy\<close>

text \<open>What the caller sees of a policy row, without its version.\<close>

definition caps_of :: "policy_row \<Rightarrow> rat option \<times> rat option \<times> string list" where
  "caps_of r = (pr_max_notional r, pr_max_aggregate r, stored_symbols r)"

definition no_stale :: "string \<Rightarrow> int \<Rightarrow> world \<Rightarrow> bool" where
  "no_stale aid v w = (\<forall>r\<in>set (overrides (w_db w)). ov_account_id r = aid \<longrightarrow> ov_state r = RESERVED \<longrightarrow> ov_policy_version r = v)"

lemma merge_policy_facts:
  assumes "merge_policy r mn ma symbols_v (parse_symbols symbols_v) cn ca cs = (r', ch)"
  shows "caps_of r' = (merge_amount cn mn (pr_max_notional r), merge_amount ca ma (pr_max_aggregate r),
          if cs then [] else if parse_symbols symbols_v \<noteq> [] then parse_symbols symbols_v else stored_symbols r)"
    "stored_symbols r' = pr_allowed_symbols r'"
    "pr_policy_version r' = (if ch then pr_policy_version r + 1 else pr_policy_version r)"
    "ch = (caps_of r' \<noteq> caps_of r)"
proof -
  define s where "s = (if cs then [] else if symbols_v \<noteq> PNone \<and> parse_symbols symbols_v \<noteq> [] then parse_symbols symbols_v else stored_symbols r)"
  have s_alt: "s = (if cs then [] else if parse_symbols symbols_v \<noteq> [] then parse_symbols symbols_v else stored_symbols r)"
    by (auto simp: s_def parse_symbols_def)
  define C where "C = (merge_amount cn mn (pr_max_notional r) \<noteq> pr_max_notional r
        \<or> merge_amount ca ma (pr_max_aggregate r) \<noteq> pr_max_aggregate r \<or> s \<noteq> stored_symbols r)"
  have "merge_policy r mn ma symbols_v (parse_symbols symbols_v) cn ca cs =
     (r\<lparr>pr_max_notional := merge_amount cn mn (pr_max_notional r), pr_max_aggregate := merge_amount ca ma (pr_max_aggregate r),
      pr_allowed_symbols := s, pr_policy_version := (if C then pr_policy_version r + 1 else pr_policy_version r)\<rparr>, C)"
    unfolding merge_policy_def Let_def merge_amount_def s_def C_def ..
  with assms have r': "r' = r\<lparr>pr_max_notional := merge_amount cn mn (pr_max_notional r), pr_max_aggregate := merge_amount ca ma (pr_max_aggregate r),
      pr_allowed_symbols := s, pr_policy_version := (if C then pr_policy_version r + 1 else pr_policy_version r)\<rparr>"
    and ch: "ch = C" by (metis prod.inject)+
  have st: "stored_symbols r' = s"
    unfolding r' stored_symbols_def s_def
    by (simp add: parse_symbols_idem) (simp add: parse_symbols_def dedup_def)
  show "stored_symbols r' = pr_allowed_symbols r'" using st r' by simp
  show "caps_of r' = (merge_amount cn mn (pr_max_notional r), merge_amount ca ma (pr_max_aggregate r),
          if cs then [] else if parse_symbols symbols_v \<noteq> [] then parse_symbols symbols_v else stored_symbols r)"
    unfolding caps_of_def st s_alt by (simp add: r')
  show "pr_policy_version r' = (if ch then pr_policy_version r + 1 else pr_policy_version r)" unfolding ch by (simp add: r')
  show "ch = (caps_of r' \<noteq> caps_of r)" unfolding caps_of_def st ch by (simp add: C_def) (simp add: r')
qed

lemma wp_finish_upsert:
  assumes "\<And>res w'. rs_policy res = \<lparr>pol_account_id = aid, max_notional_per_order = map_option Fin (pr_max_notional r'),
        max_aggregate_exposure = map_option Fin (pr_max_aggregate r'), allowed_symbols = pr_allowed_symbols r',
        policy_version = pr_policy_version r', configured = True\<rparr> \<Longrightarrow> rs_changed res = ch \<Longrightarrow>
      risk_frame w w' \<Longrightarrow> policies (w_db w') = policies (w_db w) \<Longrightarrow>
      (ch \<Longrightarrow> no_stale aid (pr_policy_version r') w') \<Longrightarrow> Q (Inr res) w'"
  shows "wp e (finish_upsert aid cn ca cs actor (r', ch)) Q w"
proof -
  let ?res = "\<lparr>rs_policy = \<lparr>pol_account_id = aid, max_notional_per_order = map_option Fin (pr_max_notional r'),
      max_aggregate_exposure = map_option Fin (pr_max_aggregate r'), allowed_symbols = pr_allowed_symbols r',
      policy_version = pr_policy_version r', configured = True\<rparr>, rs_changed = ch\<rparr>"
  have aud: "wp e (mbind (audit_in_conn (or_agent actor) ''set_risk_policy'' ds) (\<lambda>_. mret ?res)) Q w2"
    if "risk_frame w w2" "policies (w_db w2) = policies (w_db w)" "ch \<Longrightarrow> no_stale aid (pr_policy_version r') w2" for w2 ds
    unfolding wp_mbind
  proof (rule wp_audit)
    fix w3
    assume a: "audit_frame w2 w3"
    have "Q (Inr ?res) w3"
    proof (rule assms)
      show "risk_frame w w3" using that(1) a by (auto simp: audit_frame_def intro: risk_frame.R_trans)
      show "policies (w_db w3) = policies (w_db w)" using that(2) a by (simp add: audit_frame_def)
      show "ch \<Longrightarrow> no_stale aid (pr_policy_version r') w3" using that(3) a by (simp add: no_stale_def audit_frame_def)
    qed simp_all
    then show "case Inr () of Inl x \<Rightarrow> Q (Inl x) w3 | Inr y \<Rightarrow> wp e (mret ?res) Q w3"
      by (simp add: wp_mret)
  qed
  show ?thesis
  proof (cases ch)
    case True
    have "wp e (reconcile_stale_overrides aid (pr_policy_version r') actor ''policy_version_changed'')
        (\<lambda>r w2. case r of Inl x \<Rightarrow> Q (Inl x) w2
           | Inr y \<Rightarrow> wp e (mbind (audit_in_conn (or_agent actor) ''set_risk_policy'' ds) (\<lambda>_. mret ?res)) Q w2) w" for ds
      by (rule wp_reconcile_stale) (simp only: sum.case, rule aud, simp_all add: no_stale_def)
    then show ?thesis
      unfolding finish_upsert_def fst_conv snd_conv
      by (subst wp_mbind) (simp only: True if_True)
  next
    case False
    show ?thesis
      unfolding finish_upsert_def fst_conv snd_conv if_not_P [OF False] wp_mbind [where m = "mret ()"] wp_mret sum.case
      by (rule aud) (use False in \<open>simp_all add: risk_frame.R_refl\<close>)
  qed
qed

lemma wp_upsert_existing:
  assumes "find_policy aid (w_db w) = Some r" "account_exists aid (w_db w)"
    and fin: "\<And>res r' w'. find_policy aid (w_db w') = Some r' \<Longrightarrow> rs_policy res = policy_of_row (Some r') aid \<Longrightarrow>
       caps_of r' = (merge_amount cn mn (pr_max_notional r), merge_amount ca ma (pr_max_aggregate r),
          if cs then [] else if parse_symbols symbols_v \<noteq> [] then parse_symbols symbols_v else stored_symbols r) \<Longrightarrow>
       pr_policy_version r' = (if rs_changed res then pr_policy_version r + 1 else pr_policy_version r) \<Longrightarrow>
       rs_changed res = (caps_of r' \<noteq> caps_of r) \<Longrightarrow>
       (rs_changed res \<Longrightarrow> no_stale aid (pr_policy_version r') w') \<Longrightarrow> risk_frame w w' \<Longrightarrow> Q (Inr res) w'"
  shows "wp e (upsert_policy aid mn ma symbols_v (parse_symbols symbols_v) cn ca cs actor) Q w"
proof -
  obtain r1 ch where m: "merge_policy r mn ma symbols_v (parse_symbols symbols_v) cn ca cs = (r1, ch)" by fastforce
  note mf = merge_policy_facts [OF m]
  have same: "pr_account_id r1 = pr_account_id r" "pr_created_at r1 = pr_created_at r"
    using m by (auto simp: merge_policy_def Let_def)
  let ?d = "\<lambda>u. (w_db w)\<lparr>policies := upd_where (\<lambda>p. pr_account_id p = aid)
          (\<lambda>p. p\<lparr>pr_max_notional := pr_max_notional r1, pr_max_aggregate := pr_max_aggregate r1,
                 pr_allowed_symbols := pr_allowed_symbols r1, pr_policy_version := pr_policy_version r1,
                 pr_updated_at := u\<rparr>) (policies (w_db w))\<rparr>"
  let ?r2 = "\<lambda>u. r1\<lparr>pr_updated_at := u\<rparr>"
  have fp: "find_policy aid (?d u) = Some (?r2 u)" for u
    using assms(1) same by (simp add: find_policy_upd)
  have st: "stored_symbols (?r2 u) = pr_allowed_symbols r1" "caps_of (?r2 u) = caps_of r1" for u
    using mf(2) by (simp_all add: stored_symbols_def caps_of_def)
  have tail: "wp e (finish_upsert aid cn ca cs actor (?r2 u, ch)) Q w1"
    if "w_db w1 = ?d u" "w_trace w1 = w_trace w" for u w1
  proof (rule wp_finish_upsert)
    fix res :: policy_result and w' :: world
    assume res: "rs_policy res = \<lparr>pol_account_id = aid, max_notional_per_order = map_option Fin (pr_max_notional (?r2 u)),
        max_aggregate_exposure = map_option Fin (pr_max_aggregate (?r2 u)), allowed_symbols = pr_allowed_symbols (?r2 u),
        policy_version = pr_policy_version (?r2 u), configured = True\<rparr>" "rs_changed res = ch"
      and w': "risk_frame w1 w'" "policies (w_db w') = policies (w_db w1)" "ch \<Longrightarrow> no_stale aid (pr_policy_version (?r2 u)) w'"
    show "Q (Inr res) w'"
    proof (rule fin)
      show "find_policy aid (w_db w') = Some (?r2 u)"
        using fp [of u] w'(2) that(1) by (simp add: find_policy_def)
      show "risk_frame w w'" using w'(1) that by (simp add: risk_frame_def)
    qed (use res w'(3) mf st in \<open>simp_all add: policy_of_row_def\<close>)
  qed
  have "wp e (update_policy aid (r1, ch)) (\<lambda>x w1. \<exists>u. x = Inr (?r2 u, ch) \<and> w_db w1 = ?d u \<and> w_trace w1 = w_trace w) w"
    by (cases ch)
      (auto simp: update_policy_def wp_mbind wp_simps
        intro: exI [of _ "now_at e (w_tick w)"] exI [of _ "pr_updated_at r1"])
  then have "wp e (update_policy aid (r1, ch)) (\<lambda>x w1. case x of Inl y \<Rightarrow> Q (Inl y) w1 | Inr y \<Rightarrow> wp e (finish_upsert aid cn ca cs actor y) Q w1) w"
    by (rule wp_mono) (auto intro: tail)
  then show ?thesis
    by (simp add: upsert_policy_def wp_mbind wp_simps assms(1,2) m)
qed

subsection \<open>Properties\<close>

text \<open>The override state machine. Whatever the environment answers, every operation of the
  service (setting a policy, creating, consuming and reconciling overrides) keeps each
  existing override as it is or moves it once out of \<open>reserved\<close>; an applied or reconciled
  override never changes again, none disappears, and identifiers stay unique.\<close>

theorem override_life_cycle:
  "keeps ov_evolves (set_risk_policy a n g s cn ca cs actor)
   \<and> keeps ov_evolves (create_override a reason scope key actor expires ttl)
   \<and> keeps ov_evolves (consume_override a v idem)
   \<and> keeps ov_evolves reconcile_overrides"
  by (simp add: set_risk_policy_evolves create_override_evolves consume_override_evolves reconcile_overrides_evolves)


lemma py_strip_nonspace [simp]: "\<not> is_space c \<Longrightarrow> py_strip [c] = [c]"
  by (simp add: py_strip_def)


text \<open>Setting a policy on a configured account merges the patch (an omitted amount or an empty
  list keeps the stored value, clearing is explicit), raises the version by one exactly when the
  effective policy changes, stores what it returns, and after a change leaves no reserved
  override of an older version: none can later lift a cap it was not granted for.\<close>

theorem set_risk_policy_versions:
  assumes "set_risk_policy (PStr a) n g s (PBool cn) (PBool ca) (PBool cs) actor e w = (Inr res, w')"
    and "find_policy (py_strip a) (w_db w) = Some r"
  shows "\<exists>r' mn ma. validate_optional_amount n = Inr mn \<and> validate_optional_amount g = Inr ma
     \<and> find_policy (py_strip a) (w_db w') = Some r' \<and> rs_policy res = policy_of_row (Some r') (py_strip a)
     \<and> caps_of r' = (merge_amount cn mn (pr_max_notional r), merge_amount ca ma (pr_max_aggregate r),
          if cs then [] else if parse_symbols s \<noteq> [] then parse_symbols s else stored_symbols r)
     \<and> (rs_changed res \<longleftrightarrow> caps_of r' \<noteq> caps_of r)
     \<and> pr_policy_version r' = (if rs_changed res then pr_policy_version r + 1 else pr_policy_version r)
     \<and> (rs_changed res \<longrightarrow> no_stale (py_strip a) (pr_policy_version r') w')"
proof -
  let ?aid = "py_strip a"
  from assms(1) obtain mn ma where v: "req_string (PStr a) = Inr ?aid" "validate_optional_amount n = Inr mn"
    "validate_optional_amount g = Inr ma" "validate_symbols s = Inr (parse_symbols s)"
    and run: "db_write (upsert_policy ?aid mn ma s (parse_symbols s) cn ca cs actor) e w = (Inr res, w')"
    by (auto simp: set_risk_policy_def mbind_def mlift_def req_string_def validate_clear_flag_def
        dest: validate_symbols_parse split: sum.splits if_splits)
  from run have ex: "account_exists ?aid (w_db w)"
    by (auto simp: db_write_def upsert_policy_def run_defs raise_if_def split: prod.splits sum.splits if_splits)
  let ?Q = "\<lambda>x w'. \<forall>res. x = Inr res \<longrightarrow> (\<exists>r'. find_policy ?aid (w_db w') = Some r' \<and> rs_policy res = policy_of_row (Some r') ?aid
     \<and> caps_of r' = (merge_amount cn mn (pr_max_notional r), merge_amount ca ma (pr_max_aggregate r),
          if cs then [] else if parse_symbols s \<noteq> [] then parse_symbols s else stored_symbols r)
     \<and> (rs_changed res \<longleftrightarrow> caps_of r' \<noteq> caps_of r)
     \<and> pr_policy_version r' = (if rs_changed res then pr_policy_version r + 1 else pr_policy_version r)
     \<and> (rs_changed res \<longrightarrow> no_stale ?aid (pr_policy_version r') w'))"
  have "wp e (upsert_policy ?aid mn ma s (parse_symbols s) cn ca cs actor) ?Q w"
    by (rule wp_upsert_existing [OF assms(2) ex]) blast
  then have "wp e (db_write (upsert_policy ?aid mn ma s (parse_symbols s) cn ca cs actor)) ?Q w"
    unfolding wp_db_write by (rule wp_mono) (auto split: sum.splits)
  from wp_run [OF this run] v show ?thesis by blast
qed

theorem set_risk_policy_versions_witness:
  "\<exists>res w' r'. set_risk_policy (PStr ''a'') (PFloat (Fin 50)) PNone PNone (PBool False) (PBool False) (PBool False) ''u'' demo_env
      (demo_world (demo_db\<lparr>accounts := [demo_account ''a'' ''paper''], policies := [\<lparr>pr_account_id = ''a'', pr_max_notional = Some 10,
         pr_max_aggregate = None, pr_allowed_symbols = [], pr_policy_version = 3, pr_created_at = 1, pr_updated_at = 1\<rparr>]\<rparr>)) = (Inr res, w')
    \<and> find_policy ''a'' (w_db w') = Some r' \<and> rs_changed res \<and> pr_policy_version r' = 4"
proof -
  let ?r = "\<lparr>pr_account_id = ''a'', pr_max_notional = Some 10, pr_max_aggregate = None, pr_allowed_symbols = [],
    pr_policy_version = 3, pr_created_at = 1, pr_updated_at = 1\<rparr>"
  let ?w = "demo_world (demo_db\<lparr>accounts := [demo_account ''a'' ''paper''], policies := [?r]\<rparr>)"
  let ?run = "set_risk_policy (PStr ''a'') (PFloat (Fin 50)) PNone PNone (PBool False) (PBool False) (PBool False) ''u'' demo_env ?w"
  have "\<exists>res. fst ?run = Inr res \<and> rs_changed res"
    by (simp add: set_risk_policy_def upsert_policy_def update_policy_def merge_policy_def finish_upsert_def
        reconcile_stale_overrides_def validate_optional_amount_def validate_symbols_def validate_clear_flag_def req_string_def
        find_policy_def account_exists_def stored_symbols_def parse_symbols_def run_defs demo_defs is_space_def)
  then obtain res where res: "?run = (Inr res, snd ?run)" "rs_changed res" by (metis prod.collapse)
  have "find_policy (py_strip ''a'') (w_db ?w) = Some ?r"
    by (simp add: find_policy_def demo_defs is_space_def)
  from set_risk_policy_versions [OF res(1) this] res show ?thesis by (auto simp: is_space_def)
qed

lemma insert_override_existing:
  assumes "find_override_key aid key (w_db w) = Some row" "account_exists aid (w_db w)"
  shows "insert_override aid key actor reason now expires_at e w = (Inr row, w)"
  using assms by (simp add: insert_override_def run_defs)

lemma wp_insert_override:
  assumes "\<And>row w'. find_override_key aid key (w_db w') = Some row \<Longrightarrow> account_exists aid (w_db w') \<Longrightarrow> Q (Inr row) w'"
    "\<And>x w'. Q (Inl x) w'"
  shows "wp e (insert_override aid key actor reason now expires_at) Q w"
  unfolding insert_override_def
  using assms
  by (auto simp: wp_simps wp_mbind Let_def split: option.splits intro!: wp_audit)
    (auto simp: audit_frame_def risk_frame_def find_override_key_def find_append new_override_def account_exists_def
      intro!: assms(1))

text \<open>Creating an override is idempotent on the account and the idempotency key: repeating a
  successful call with the same key, at any later time on the same tables and even with another
  reason, returns the same override and changes nothing in the database.\<close>

theorem create_override_idempotent:
  assumes "create_override (PStr a) (PStr reason) (PStr SCOPE_NEXT_ORDER) (PStr k) actor PNone ttl e w = (Inr row, w')"
    and "w_db w2 = w_db w'" "0 < ttl" "py_strip reason2 \<noteq> []"
  shows "\<exists>w3. create_override (PStr a) (PStr reason2) (PStr SCOPE_NEXT_ORDER) (PStr k) actor2 PNone ttl e2 w2 = (Inr row, w3)
     \<and> w_db w3 = w_db w2"
proof -
  from assms(1) have v: "py_strip a \<noteq> []" "py_strip k \<noteq> []"
    by (auto simp: create_override_def req_string_def run_defs raise_if_def split: if_splits)
  have "wp e (create_override (PStr a) (PStr reason) (PStr SCOPE_NEXT_ORDER) (PStr k) actor PNone ttl)
     (\<lambda>r w'. \<forall>row. r = Inr row \<longrightarrow> find_override_key (py_strip a) (py_strip k) (w_db w') = Some row
        \<and> account_exists (py_strip a) (w_db w')) w"
    unfolding create_override_def req_string_def
    by (auto simp: wp_simps wp_bind_simps v split: sum.splits intro!: wp_insert_override)
  from wp_run [OF this assms(1)] have f: "find_override_key (py_strip a) (py_strip k) (w_db w2) = Some row"
    "account_exists (py_strip a) (w_db w2)" using assms(2) by auto
  show ?thesis
    using f v assms(3,4)
    by (simp add: create_override_def req_string_def mbind_def mlift_def mguard_def mtry_def db_write_def
        mret_def time_now_def mask_def insert_override_existing)
qed

theorem create_override_idempotent_witness:
  "\<exists>row w' w3. create_override (PStr ''a'') (PStr ''r'') (PStr SCOPE_NEXT_ORDER) (PStr ''k'') ''u'' PNone 60 demo_env
      (demo_world (demo_db\<lparr>accounts := [demo_account ''a'' ''paper'']\<rparr>)) = (Inr row, w')
    \<and> create_override (PStr ''a'') (PStr ''s'') (PStr SCOPE_NEXT_ORDER) (PStr ''k'') ''v'' PNone 60 demo_env w' = (Inr row, w3)
    \<and> w_db w3 = w_db w'"
proof -
  let ?w = "demo_world (demo_db\<lparr>accounts := [demo_account ''a'' ''paper'']\<rparr>)"
  let ?run = "create_override (PStr ''a'') (PStr ''r'') (PStr SCOPE_NEXT_ORDER) (PStr ''k'') ''u'' PNone 60 demo_env ?w"
  have "\<exists>row. fst ?run = Inr row"
    by (simp add: create_override_def insert_override_def req_string_def find_override_key_def find_policy_def
        account_exists_def run_defs demo_defs is_space_def Let_def)
  then obtain row where "?run = (Inr row, snd ?run)" by (metis prod.collapse)
  from create_override_idempotent [OF this refl, of "''s''" "''v''" demo_env] this
  show ?thesis by (auto simp: is_space_def)
qed

end
