(* ===== verification/Accounts.thy ===== *)
theory Accounts
  imports Risk_Policy "HOL-Library.List_Lexorder" "HOL-Library.Char_ord"
begin

text \<open>
  Account records (\<open>storage/accounts.py\<close>): creation, listing, guarded removal, the trading lock
  and the lookups the order service uses. The credential store answers through the environment;
  its best-effort clean-up calls, which touch nothing the database holds, are not modelled.
\<close>

subsection \<open>Validation\<close>

definition MAX_LABEL_LENGTH :: nat where
  "MAX_LABEL_LENGTH = 200"

definition validate_label :: "pyval \<Rightarrow> string res" where
  "validate_label v =
     (case v of
        PStr s \<Rightarrow>
          (let normalized = py_strip s in
           if normalized = [] then Inl (rasat INVALID_REQUEST)
           else if MAX_LABEL_LENGTH < length normalized then Inl (rasat INVALID_REQUEST)
           else Inr normalized)
      | _ \<Rightarrow> Inl (rasat INVALID_REQUEST))"

definition is_str :: "pyval \<Rightarrow> bool" where
  "is_str v = (case v of PStr _ \<Rightarrow> True | _ \<Rightarrow> False)"

definition str_of :: "pyval \<Rightarrow> string" where
  "str_of v = (case v of PStr s \<Rightarrow> s | _ \<Rightarrow> [])"

definition validate_tags :: "pyval \<Rightarrow> string list res" where
  "validate_tags v =
     (case v of
        PNone \<Rightarrow> Inr []
      | PList vs \<Rightarrow>
          (if \<not> list_all is_str vs then Inl (rasat INVALID_REQUEST)
           else let values = map (\<lambda>t. py_strip (str_of t)) vs in
             if [] \<in> set values then Inl (rasat INVALID_REQUEST) else Inr (dedup values))
      | _ \<Rightarrow> Inl (rasat INVALID_REQUEST))"

definition validate_credentials :: "pyval \<Rightarrow> pyval \<Rightarrow> (string \<times> string) option res" where
  "validate_credentials api_key api_secret =
     (if api_key = PNone \<and> api_secret = PNone then Inr None
      else (case (api_key, api_secret) of
              (PStr k, PStr s) \<Rightarrow> if k = [] \<or> s = [] then Inl (rasat INVALID_REQUEST) else Inr (Some (k, s))
            | _ \<Rightarrow> Inl (rasat INVALID_REQUEST)))"

subsection \<open>Public view\<close>

record account =
  account_id :: string
  label :: string
  tags :: "string list"
  market :: string
  trading_lock :: string
  credentials_configured :: bool
  created_at :: int
  updated_at :: int

definition has_blob :: "string option \<Rightarrow> bool" where
  "has_blob b = (case b of None \<Rightarrow> False | Some s \<Rightarrow> s \<noteq> [])"

definition row_configured :: "account_row \<Rightarrow> bool" where
  "row_configured row = (has_blob (ac_encrypted_api_key row) \<and> has_blob (ac_encrypted_secret row))"

text \<open>\<open>read_only\<close> and \<open>mode\<close> are functions of \<open>credentials_configured\<close> and left out.\<close>

definition public_account :: "account_row \<Rightarrow> account" where
  "public_account row =
     \<lparr>account_id = ac_account_id row, label = ac_label row, tags = ac_tags row, market = ac_market row,
      trading_lock = ac_trading_lock row, credentials_configured = row_configured row,
      created_at = ac_created_at row, updated_at = ac_updated_at row\<rparr>"

subsection \<open>Operations\<close>

definition find_account :: "string \<Rightarrow> db \<Rightarrow> account_row option" where
  "find_account aid d = List.find (\<lambda>a. ac_account_id a = aid) (accounts d)"

datatype removal_reason =
  TradingLockReal | OpenOrders nat | ActivePending nat | RiskPolicyRows nat | RiskOverrideRows nat

definition ACTIVE_ORDER_STATUSES :: "order_status list" where
  "ACTIVE_ORDER_STATUSES = [NEW, PARTIALLY_FILLED, UNKNOWN]"

definition PENDING_ACTIVE_STATUSES :: "pending_status list" where
  "PENDING_ACTIVE_STATUSES = [AWAITING_APPROVAL, APPROVED, EXECUTING, RECONCILE_REQUIRED]"

definition PENDING_TERMINAL_STATUSES :: "pending_status list" where
  "PENDING_TERMINAL_STATUSES = [EXECUTED, PREJECTED, PEXPIRED]"

text \<open>The state \<open>RECONCILE_REQUIRED\<close> that the code also lists for orders is never written to the
  orders table and is not an order status of the model.\<close>

definition removal_reasons :: "db \<Rightarrow> string \<Rightarrow> account_row \<Rightarrow> removal_reason list" where
  "removal_reasons d aid row =
     (let open_orders = count_where (\<lambda>r. o_account_id r = aid \<and> o_status r \<in> set ACTIVE_ORDER_STATUSES) (orders d);
          active_pending = count_where (\<lambda>p. pd_account_id p = PStr aid \<and> pd_status p \<in> set PENDING_ACTIVE_STATUSES) (pending d);
          policy_rows = count_where (\<lambda>p. pr_account_id p = aid) (policies d);
          override_rows = count_where (\<lambda>r. ov_account_id r = aid) (overrides d)
      in (if ac_trading_lock row = ''real'' then [TradingLockReal] else [])
         @ (if 0 < open_orders then [OpenOrders open_orders] else [])
         @ (if 0 < active_pending then [ActivePending active_pending] else [])
         @ (if 0 < policy_rows then [RiskPolicyRows policy_rows] else [])
         @ (if 0 < override_rows then [RiskOverrideRows override_rows] else []))"

text \<open>\<open>secret_store.encrypt\<close> of the two fields; a failure of either is \<open>None\<close>.\<close>

definition encrypt_pair :: "string \<Rightarrow> string \<times> string \<Rightarrow> (string \<times> string) option m" where
  "encrypt_pair aid ks =
     mbind (mask (\<lambda>e t. Inr (secret_encrypt e t aid ''api_key'' (fst ks)))) (\<lambda>k.
       (case k of
          None \<Rightarrow> mret None
        | Some k' \<Rightarrow>
            mbind (mask (\<lambda>e t. Inr (secret_encrypt e t aid ''api_secret'' (snd ks)))) (\<lambda>s.
              mret (map_option (\<lambda>s'. (k', s')) s))))"

text \<open>The transaction that inserts the row; \<open>account_id\<close> is unique.\<close>

definition store_account :: "account_row \<Rightarrow> bool \<Rightarrow> string \<Rightarrow> account m" where
  "store_account row conf actor =
     mtry (db_write (
        mbind (db_read (\<lambda>d. account_exists (ac_account_id row) d)) (\<lambda>clash.
        mbind (mguard clash IntegrityError) (\<lambda>_.
        mbind (db_modify (\<lambda>d. d\<lparr>accounts := accounts d @ [row]\<rparr>)) (\<lambda>_.
          audit_in_conn (or_agent actor) ''add_account''
            [(''account_id'', PStr (ac_account_id row)), (''label'', PStr (ac_label row)), (''market'', PStr ''spot''),
             (''tags'', PList (map PStr (ac_tags row))), (''credentials_configured'', PBool conf)])))))
      (\<lambda>r. case r of
             Inl x \<Rightarrow> mraise (if x = IntegrityError then rasat ACCOUNT_EXISTS else x)
           | Inr _ \<Rightarrow> mret ((public_account row)\<lparr>credentials_configured := conf\<rparr>))"

definition add_account :: "pyval \<Rightarrow> pyval \<Rightarrow> pyval \<Rightarrow> pyval \<Rightarrow> pyval \<Rightarrow> string \<Rightarrow> account m" where
  "add_account label_v key_v secret_v tags_v market_v actor =
     mbind (mlift (validate_label label_v)) (\<lambda>lab.
     mbind (mlift (validate_tags tags_v)) (\<lambda>tgs.
     mbind (mlift (validate_credentials key_v secret_v)) (\<lambda>creds.
     mbind (mguard (market_v \<noteq> PStr ''spot'') (rasat INVALID_REQUEST)) (\<lambda>_.
     mbind uuid4_hex (\<lambda>aid.
     mbind (case creds of
              None \<Rightarrow> mret (Some (None, None))
            | Some ks \<Rightarrow> mbind (encrypt_pair aid ks) (\<lambda>r. mret (map_option (\<lambda>p. (Some (fst p), Some (snd p))) r))) (\<lambda>enc.
       (case enc of
          None \<Rightarrow> mraise (rasat CREDENTIAL_STORE_UNAVAILABLE)
        | Some blobs \<Rightarrow>
            mbind time_now (\<lambda>now.
              store_account
                \<lparr>ac_account_id = aid, ac_label = lab, ac_tags = tgs, ac_market = ''spot'', ac_trading_lock = ''paper'',
                 ac_encrypted_api_key = fst blobs, ac_encrypted_secret = snd blobs,
                 ac_created_at = now, ac_updated_at = now\<rparr>
                (fst blobs \<noteq> None \<and> snd blobs \<noteq> None) actor))))))))"

text \<open>\<open>ORDER BY created_at DESC, account_id\<close>\<close>

definition list_accounts :: "account list m" where
  "list_accounts =
     db_read (\<lambda>d. map public_account (sort_key (\<lambda>a. - ac_created_at a) (sort_key ac_account_id (accounts d))))"

datatype removal = NotFound | Refused "removal_reason list" | Removed bool

definition remove_tx :: "string \<Rightarrow> string \<Rightarrow> removal m" where
  "remove_tx aid actor =
     mbind (db_read (find_account aid)) (\<lambda>found.
       (case found of
          None \<Rightarrow> mret NotFound
        | Some row \<Rightarrow>
            mbind (db_read (\<lambda>d. removal_reasons d aid row)) (\<lambda>reasons.
              if reasons \<noteq> [] then
                mbind (audit_in_conn (or_agent actor) ''remove_account_refused''
                  [(''account_id'', PStr aid), (''label'', PStr (ac_label row)), (''reasons'', PInt (int (length reasons)))]) (\<lambda>_.
                  mret (Refused reasons))
              else
                mbind (db_modify (\<lambda>d. d\<lparr>accounts := filter (\<lambda>a. ac_account_id a \<noteq> aid) (accounts d)\<rparr>)) (\<lambda>_.
                mbind (audit_in_conn (or_agent actor) ''remove_account'' [(''account_id'', PStr aid), (''label'', PStr (ac_label row))]) (\<lambda>_.
                  mret (Removed (\<not> row_configured row)))))))"

definition remove_account :: "pyval \<Rightarrow> string \<Rightarrow> bool m" where
  "remove_account aid_v actor =
     mbind (mlift (req_string aid_v)) (\<lambda>aid.
     mbind (db_write (remove_tx aid actor)) (\<lambda>r.
       (case r of
          NotFound \<Rightarrow> mraise (rasat ACCOUNT_NOT_FOUND)
        | Refused _ \<Rightarrow> mraise (rasat ACCOUNT_IN_USE)
        | Removed ro \<Rightarrow> mret ro)))"

definition set_lock :: "string \<Rightarrow> string \<Rightarrow> int \<Rightarrow> db \<Rightarrow> db" where
  "set_lock aid lock now d =
     d\<lparr>accounts := upd_where (\<lambda>a. ac_account_id a = aid) (\<lambda>a. a\<lparr>ac_trading_lock := lock, ac_updated_at := now\<rparr>) (accounts d)\<rparr>"

text \<open>The result is \<open>already_real\<close>, \<open>already_paper\<close> respectively.\<close>

definition enable_real_trading :: "pyval \<Rightarrow> string \<Rightarrow> bool m" where
  "enable_real_trading aid_v actor =
     mbind (mlift (req_string aid_v)) (\<lambda>aid. db_write (
     mbind (db_read (find_account aid)) (\<lambda>found.
       (case found of
          None \<Rightarrow> mraise (rasat ACCOUNT_NOT_FOUND)
        | Some row \<Rightarrow>
            mbind (mguard (\<not> row_configured row) (rasat ACCOUNT_NO_CREDENTIALS)) (\<lambda>_.
            let already_real = (ac_trading_lock row = ''real'') in
            if already_real then mret True
            else
              mbind time_now (\<lambda>now.
              mbind (db_modify (set_lock aid ''real'' now)) (\<lambda>_.
              mbind (audit_in_conn (or_agent actor) ''enable_real_trading'' [(''account_id'', PStr aid), (''trading_lock'', PStr ''real'')]) (\<lambda>_.
                mret False)))))))) "

definition disable_real_trading :: "pyval \<Rightarrow> string \<Rightarrow> bool m" where
  "disable_real_trading aid_v actor =
     mbind (mlift (req_string aid_v)) (\<lambda>aid. db_write (
     mbind (db_read (find_account aid)) (\<lambda>found.
       (case found of
          None \<Rightarrow> mraise (rasat ACCOUNT_NOT_FOUND)
        | Some row \<Rightarrow>
            let already_paper = (ac_trading_lock row \<noteq> ''real'') in
            if already_paper then mret True
            else
              mbind time_now (\<lambda>now.
              mbind (db_modify (set_lock aid ''paper'' now)) (\<lambda>_.
              mbind (audit_in_conn (or_agent actor) ''disable_real_trading'' [(''account_id'', PStr aid), (''trading_lock'', PStr ''paper'')]) (\<lambda>_.
                mret False)))))))"

definition get_account :: "string \<Rightarrow> account m" where
  "get_account aid =
     mbind (db_read (find_account aid)) (\<lambda>found.
       (case found of None \<Rightarrow> mraise (rasat ACCOUNT_NOT_FOUND) | Some row \<Rightarrow> mret (public_account row)))"

definition decrypt_field :: "string \<Rightarrow> string \<Rightarrow> string option \<Rightarrow> string m" where
  "decrypt_field aid field blob =
     mbind (mask (\<lambda>e t. Inr (secret_decrypt e t aid field (case blob of Some b \<Rightarrow> b | None \<Rightarrow> [])))) (\<lambda>r.
       (case r of None \<Rightarrow> mraise (rasat CREDENTIAL_DECRYPT_FAILED) | Some s \<Rightarrow> mret s))"

definition get_credentials :: "string \<Rightarrow> (string \<times> string) m" where
  "get_credentials aid =
     mbind (db_read (find_account aid)) (\<lambda>found.
       (case found of
          None \<Rightarrow> mraise (rasat ACCOUNT_NOT_FOUND)
        | Some row \<Rightarrow>
            mbind (mguard (\<not> row_configured row) (rasat ACCOUNT_NO_CREDENTIALS)) (\<lambda>_.
            mbind (decrypt_field aid ''api_key'' (ac_encrypted_api_key row)) (\<lambda>k.
            mbind (decrypt_field aid ''api_secret'' (ac_encrypted_secret row)) (\<lambda>s.
              mret (k, s))))))"

subsection \<open>Facts\<close>

text \<open>The account operations change the accounts and the audit table only.\<close>

definition account_frame :: "world \<Rightarrow> world \<Rightarrow> bool" where
  "account_frame w w' =
     (w_trace w' = w_trace w \<and> policies (w_db w') = policies (w_db w) \<and> overrides (w_db w') = overrides (w_db w)
      \<and> orders (w_db w') = orders (w_db w) \<and> reconciled (w_db w') = reconciled (w_db w)
      \<and> alerts (w_db w') = alerts (w_db w) \<and> triggered (w_db w') = triggered (w_db w)
      \<and> pending (w_db w') = pending (w_db w))"

interpretation account_frame: audited_relation account_frame
  by unfold_locales (auto simp: account_frame_def)

lemma accounts_modify_frame:
  "(\<And>d. policies (g d) = policies d \<and> overrides (g d) = overrides d \<and> orders (g d) = orders d
      \<and> reconciled (g d) = reconciled d \<and> alerts (g d) = alerts d \<and> triggered (g d) = triggered d \<and> pending (g d) = pending d)
   \<Longrightarrow> keeps account_frame (db_modify g)"
  by (simp add: keeps_def db_modify_def account_frame_def)

lemma keeps_removal:
  "keeps R a \<Longrightarrow> (\<And>x. keeps R (f x)) \<Longrightarrow> (\<And>x. keeps R (g x)) \<Longrightarrow>
   keeps R (case r of NotFound \<Rightarrow> a | Refused x \<Rightarrow> f x | Removed x \<Rightarrow> g x)"
  by (cases r) auto

lemma add_account_frame: "keeps account_frame (add_account l k s t m actor)"
  unfolding add_account_def encrypt_pair_def store_account_def
  by (rule account_frame.audited_intros keeps_cases | rule accounts_modify_frame, simp (no_asm))+

lemma remove_account_frame: "keeps account_frame (remove_account a actor)"
  unfolding remove_account_def remove_tx_def
  by (rule account_frame.audited_intros keeps_cases keeps_removal | rule accounts_modify_frame, simp (no_asm))+

lemma enable_real_trading_frame: "keeps account_frame (enable_real_trading a actor)"
  unfolding enable_real_trading_def
  by (rule account_frame.audited_intros keeps_cases | rule accounts_modify_frame, simp (no_asm) add: set_lock_def)+

lemma disable_real_trading_frame: "keeps account_frame (disable_real_trading a actor)"
  unfolding disable_real_trading_def
  by (rule account_frame.audited_intros keeps_cases | rule accounts_modify_frame, simp (no_asm) add: set_lock_def)+

lemma account_reads_frame:
  "keeps audit_frame (get_account aid)" "keeps audit_frame (get_credentials aid)" "keeps audit_frame list_accounts"
  unfolding get_account_def get_credentials_def decrypt_field_def list_accounts_def
  by (rule audit_frame.audited_intros keeps_cases)+

lemma removal_reasons_Nil:
  "removal_reasons d aid row = [] \<longleftrightarrow>
     ac_trading_lock row \<noteq> ''real''
     \<and> (\<forall>r\<in>set (orders d). o_account_id r = aid \<longrightarrow> o_status r \<notin> set ACTIVE_ORDER_STATUSES)
     \<and> (\<forall>p\<in>set (pending d). pd_account_id p = PStr aid \<longrightarrow> pd_status p \<notin> set PENDING_ACTIVE_STATUSES)
     \<and> (\<forall>p\<in>set (policies d). pr_account_id p \<noteq> aid)
     \<and> (\<forall>r\<in>set (overrides d). ov_account_id r \<noteq> aid)"
  by (auto simp: removal_reasons_def Let_def count_where_pos)

text \<open>Real trading needs credentials; identifiers are unique.\<close>

definition accounts_inv :: "world \<Rightarrow> bool" where
  "accounts_inv w =
     (distinct (map ac_account_id (accounts (w_db w)))
      \<and> (\<forall>a\<in>set (accounts (w_db w)). ac_trading_lock a = ''real'' \<longrightarrow> row_configured a))"

definition keeps_accounts :: "world \<Rightarrow> world \<Rightarrow> bool" where
  "keeps_accounts w w' = (accounts_inv w \<longrightarrow> accounts_inv w')"

lemma keeps_accounts_same: "accounts (w_db w') = accounts (w_db w) \<Longrightarrow> keeps_accounts w w'"
  by (simp add: keeps_accounts_def accounts_inv_def)

interpretation accounts_inv: db_relation keeps_accounts
proof unfold_locales
  show "keeps_accounts w w' \<Longrightarrow> keeps_accounts w' w'' \<Longrightarrow> keeps_accounts w w''" for w w' w''
    by (simp add: keeps_accounts_def)
qed (simp_all add: keeps_accounts_same)

lemma audit_frame_accounts: "audit_frame w w' \<Longrightarrow> accounts (w_db w') = accounts (w_db w)"
  by (simp add: audit_frame_def risk_frame_def)

lemma wp_remove_tx:
  "wp e (remove_tx aid actor) (\<lambda>r w'. account_frame w w' \<and>
     (case r of
        Inr NotFound \<Rightarrow> find_account aid (w_db w) = None \<and> accounts (w_db w') = accounts (w_db w)
      | Inr (Refused rs) \<Rightarrow> rs \<noteq> [] \<and> accounts (w_db w') = accounts (w_db w)
      | Inr (Removed _) \<Rightarrow> (\<exists>row. find_account aid (w_db w) = Some row \<and> removal_reasons (w_db w) aid row = [])
          \<and> accounts (w_db w') = filter (\<lambda>a. ac_account_id a \<noteq> aid) (accounts (w_db w))
      | Inl _ \<Rightarrow> accounts (w_db w') = accounts (w_db w))) w"
  unfolding remove_tx_def
  by (auto simp: wp_simps wp_mbind account_frame.R_refl split: option.splits intro!: wp_audit)
    (auto simp: audit_frame_def risk_frame_def account_frame_def)

lemma find_account_id: "find_account aid d = Some row \<Longrightarrow> row \<in> set (accounts d) \<and> ac_account_id row = aid"
  by (auto simp: find_account_def dest: find_SomeD)

lemma set_lock_inv:
  assumes "accounts_inv w" "find_account aid (w_db w) = Some row" "lock = ''real'' \<Longrightarrow> row_configured row"
    and "accounts (w_db w') = accounts (set_lock aid lock now (w_db w))"
  shows "accounts_inv w'"
proof -
  have d: "distinct (map ac_account_id (accounts (w_db w)))" using assms(1) by (simp add: accounts_inv_def)
  have one: "a = row" if "a \<in> set (accounts (w_db w))" "ac_account_id a = aid" for a
    using that find_account_id [OF assms(2)] d by (auto simp: distinct_map dest: inj_onD)
  have conf: "row_configured (a\<lparr>ac_trading_lock := l, ac_updated_at := t\<rparr>) = row_configured a" for a l t
    by (simp add: row_configured_def)
  show ?thesis
    unfolding accounts_inv_def assms(4) set_lock_def
    using d assms(1,3) one
    by (auto simp: map_upd_where set_upd_where conf accounts_inv_def split: if_splits)
qed

lemma wp_enable:
  "wp e (enable_real_trading a actor) (\<lambda>r w'.
     (\<forall>x. r = Inl x \<longrightarrow> accounts (w_db w') = accounts (w_db w)) \<and>
     (\<forall>b. r = Inr b \<longrightarrow> (\<exists>aid row now. req_string a = Inr aid \<and> find_account aid (w_db w) = Some row \<and> row_configured row
        \<and> b = (ac_trading_lock row = ''real'')
        \<and> accounts (w_db w') = (if b then accounts (w_db w) else accounts (set_lock aid ''real'' now (w_db w)))))) w"
proof (cases "req_string a")
  case (Inr aid)
  show ?thesis
  proof (cases "find_account aid (w_db w)")
    case (Some row)
    with Inr show ?thesis
      by (cases "row_configured row"; cases "ac_trading_lock row = ''real''")
        (auto simp: enable_real_trading_def wp_simps wp_bind_simps Let_def intro!: wp_audit dest!: audit_frame_accounts)
  qed (simp add: Inr enable_real_trading_def wp_simps wp_bind_simps)
qed (simp add: enable_real_trading_def wp_simps wp_bind_simps)

lemma wp_disable:
  "wp e (disable_real_trading a actor) (\<lambda>r w'.
     (\<forall>x. r = Inl x \<longrightarrow> accounts (w_db w') = accounts (w_db w)) \<and>
     (\<forall>b. r = Inr b \<longrightarrow> (\<exists>aid row now. req_string a = Inr aid \<and> find_account aid (w_db w) = Some row
        \<and> b = (ac_trading_lock row \<noteq> ''real'')
        \<and> accounts (w_db w') = (if b then accounts (w_db w) else accounts (set_lock aid ''paper'' now (w_db w)))))) w"
proof (cases "req_string a")
  case (Inr aid)
  show ?thesis
  proof (cases "find_account aid (w_db w)")
    case (Some row)
    with Inr show ?thesis
      by (cases "ac_trading_lock row = ''real''")
        (auto simp: disable_real_trading_def wp_simps wp_bind_simps Let_def intro!: wp_audit dest!: audit_frame_accounts)
  qed (simp add: Inr disable_real_trading_def wp_simps wp_bind_simps)
qed (simp add: disable_real_trading_def wp_simps wp_bind_simps)

text \<open>The lock after a flip.\<close>

lemma find_account_set_lock:
  "find_account aid d = Some row \<Longrightarrow> accounts (w_db w') = accounts (set_lock aid lock now d) \<Longrightarrow>
   find_account aid (w_db w') = Some (row\<lparr>ac_trading_lock := lock, ac_updated_at := now\<rparr>)"
  by (auto simp: find_account_def set_lock_def find_upd_where dest: find_SomeD)

lemma lock_flip_inv:
  assumes "accounts_inv w" "find_account aid (w_db w) = Some row" "lock = ''real'' \<Longrightarrow> row_configured row"
    and "accounts (w_db w') = (if b then accounts (w_db w) else accounts (set_lock aid lock now (w_db w)))"
  shows "accounts_inv w'"
proof (cases b)
  case True
  with assms(1,4) show ?thesis by (simp add: accounts_inv_def)
next
  case False
  with assms show ?thesis by (auto intro: set_lock_inv)
qed

lemma enable_inv: "keeps keeps_accounts (enable_real_trading a actor)"
proof (rule keeps_wpI, rule wp_mono [OF wp_enable])
  fix r :: "bool res" and e :: env and w w' :: world
  assume q: "(\<forall>x. r = Inl x \<longrightarrow> accounts (w_db w') = accounts (w_db w)) \<and>
     (\<forall>b. r = Inr b \<longrightarrow> (\<exists>aid row now. req_string a = Inr aid \<and> find_account aid (w_db w) = Some row \<and> row_configured row
        \<and> b = (ac_trading_lock row = ''real'')
        \<and> accounts (w_db w') = (if b then accounts (w_db w) else accounts (set_lock aid ''real'' now (w_db w)))))"
  show "keeps_accounts w w'"
  proof (cases r)
    case (Inl x)
    with q have "accounts (w_db w') = accounts (w_db w)" by blast
    then show ?thesis by (rule keeps_accounts_same)
  next
    case (Inr b)
    with q obtain aid row now where f: "find_account aid (w_db w) = Some row" "row_configured row"
      and acc: "accounts (w_db w') = (if b then accounts (w_db w) else accounts (set_lock aid ''real'' now (w_db w)))" by blast
    show ?thesis
      unfolding keeps_accounts_def by (intro impI lock_flip_inv [OF _ f(1) _ acc]) (simp_all add: f(2))
  qed
qed

lemma disable_inv: "keeps keeps_accounts (disable_real_trading a actor)"
proof (rule keeps_wpI, rule wp_mono [OF wp_disable])
  fix r :: "bool res" and e :: env and w w' :: world
  assume q: "(\<forall>x. r = Inl x \<longrightarrow> accounts (w_db w') = accounts (w_db w)) \<and>
     (\<forall>b. r = Inr b \<longrightarrow> (\<exists>aid row now. req_string a = Inr aid \<and> find_account aid (w_db w) = Some row
        \<and> b = (ac_trading_lock row \<noteq> ''real'')
        \<and> accounts (w_db w') = (if b then accounts (w_db w) else accounts (set_lock aid ''paper'' now (w_db w)))))"
  show "keeps_accounts w w'"
  proof (cases r)
    case (Inl x)
    with q have "accounts (w_db w') = accounts (w_db w)" by blast
    then show ?thesis by (rule keeps_accounts_same)
  next
    case (Inr b)
    with q obtain aid row now where f: "find_account aid (w_db w) = Some row"
      and acc: "accounts (w_db w') = (if b then accounts (w_db w) else accounts (set_lock aid ''paper'' now (w_db w)))" by blast
    show ?thesis
      unfolding keeps_accounts_def by (intro impI lock_flip_inv [OF _ f _ acc]) simp_all
  qed
qed

lemma wp_remove_account:
  "wp e (remove_account a actor) (\<lambda>r w'. account_frame w w' \<and>
     (\<forall>x. r = Inl x \<longrightarrow> accounts (w_db w') = accounts (w_db w)) \<and>
     (\<forall>b. r = Inr b \<longrightarrow> (\<exists>aid row. req_string a = Inr aid \<and> find_account aid (w_db w) = Some row
        \<and> removal_reasons (w_db w) aid row = []
        \<and> accounts (w_db w') = filter (\<lambda>a. ac_account_id a \<noteq> aid) (accounts (w_db w))))) w"
proof (cases "req_string a")
  case (Inl x)
  then show ?thesis by (simp add: remove_account_def wp_simps wp_bind_simps account_frame.R_refl)
next
  case (Inr aid)
  show ?thesis
    unfolding remove_account_def wp_bind_simps wp_mlift Inr sum.case
    by (rule wp_mono [OF wp_remove_tx])
      (auto simp: wp_simps account_frame_def split: sum.splits removal.splits)
qed

lemma remove_inv: "keeps keeps_accounts (remove_account a actor)"
proof (rule keeps_wpI, rule wp_mono [OF wp_remove_account])
  fix r :: "bool res" and e :: env and w w' :: world
  assume q: "account_frame w w' \<and> (\<forall>x. r = Inl x \<longrightarrow> accounts (w_db w') = accounts (w_db w)) \<and>
     (\<forall>b. r = Inr b \<longrightarrow> (\<exists>aid row. req_string a = Inr aid \<and> find_account aid (w_db w) = Some row
        \<and> removal_reasons (w_db w) aid row = []
        \<and> accounts (w_db w') = filter (\<lambda>a. ac_account_id a \<noteq> aid) (accounts (w_db w))))"
  show "keeps_accounts w w'"
  proof (cases r)
    case (Inl x)
    with q have "accounts (w_db w') = accounts (w_db w)" by blast
    then show ?thesis by (rule keeps_accounts_same)
  next
    case (Inr b)
    with q obtain aid where "accounts (w_db w') = filter (\<lambda>a. ac_account_id a \<noteq> aid) (accounts (w_db w))" by blast
    then show ?thesis
      by (simp add: keeps_accounts_def accounts_inv_def distinct_map_filter)
  qed
qed

lemma wp_store_account:
  assumes "accounts (w_db w1) = accounts (w_db w)" "ac_trading_lock row = ''paper''"
  shows "wp e (store_account row conf actor) (\<lambda>r w'.
     (\<forall>x. r = Inl x \<longrightarrow> accounts (w_db w') = accounts (w_db w)) \<and>
     (\<forall>a. r = Inr a \<longrightarrow> (\<exists>row. accounts (w_db w') = accounts (w_db w) @ [row] \<and> ac_account_id row = account_id a
        \<and> \<not> account_exists (account_id a) (w_db w) \<and> ac_trading_lock row = ''paper'' \<and> trading_lock a = ''paper''))) w1"
  using assms by (cases "account_exists (ac_account_id row) (w_db w1)")
    (auto simp: store_account_def wp_simps wp_bind_simps account_exists_def public_account_def
      intro!: wp_audit dest!: audit_frame_accounts)

lemma wp_add_account:
  "wp e (add_account l k s t m actor) (\<lambda>r w'.
     (\<forall>x. r = Inl x \<longrightarrow> accounts (w_db w') = accounts (w_db w)) \<and>
     (\<forall>a. r = Inr a \<longrightarrow> (\<exists>row. accounts (w_db w') = accounts (w_db w) @ [row] \<and> ac_account_id row = account_id a
        \<and> \<not> account_exists (account_id a) (w_db w) \<and> ac_trading_lock row = ''paper'' \<and> trading_lock a = ''paper''))) w"
  unfolding add_account_def encrypt_pair_def
  by (simp add: wp_simps wp_mbind wp_store_account [simplified] split: sum.split option.split)

lemma add_inv: "keeps keeps_accounts (add_account l k s t m actor)"
proof (rule keeps_wpI, rule wp_mono [OF wp_add_account])
  fix r :: "account res" and e :: env and w w' :: world
  assume q: "(\<forall>x. r = Inl x \<longrightarrow> accounts (w_db w') = accounts (w_db w)) \<and>
     (\<forall>a. r = Inr a \<longrightarrow> (\<exists>row. accounts (w_db w') = accounts (w_db w) @ [row] \<and> ac_account_id row = account_id a
        \<and> \<not> account_exists (account_id a) (w_db w) \<and> ac_trading_lock row = ''paper'' \<and> trading_lock a = ''paper''))"
  show "keeps_accounts w w'"
  proof (cases r)
    case (Inl x)
    with q have "accounts (w_db w') = accounts (w_db w)" by blast
    then show ?thesis by (rule keeps_accounts_same)
  next
    case (Inr a)
    with q obtain row where "accounts (w_db w') = accounts (w_db w) @ [row]" "ac_account_id row = account_id a"
      "\<not> account_exists (account_id a) (w_db w)" "ac_trading_lock row = ''paper''" by blast
    then show ?thesis
      by (auto simp: keeps_accounts_def accounts_inv_def account_exists_def list_ex_iff)
  qed
qed

subsection \<open>Properties\<close>

text \<open>Every operation of the account service keeps the account invariant: identifiers are
  unique and an account can trade for real only if it has credentials. A new account is
  always a paper account.\<close>

theorem accounts_invariant_kept:
  "keeps keeps_accounts (add_account l k s t m actor) \<and> keeps keeps_accounts (remove_account a actor)
   \<and> keeps keeps_accounts (enable_real_trading a actor) \<and> keeps keeps_accounts (disable_real_trading a actor)
   \<and> wp e (add_account l k s t m actor) (\<lambda>r w'. case r of Inl _ \<Rightarrow> accounts (w_db w') = accounts (w_db w)
       | Inr acc \<Rightarrow> trading_lock acc = ''paper''
           \<and> (\<exists>row. accounts (w_db w') = accounts (w_db w) @ [row] \<and> ac_trading_lock row = ''paper'')) w"
  by (simp add: add_inv remove_inv enable_inv disable_inv, rule wp_mono [OF wp_add_account])
    (auto split: sum.splits)

text \<open>C37: Removing an account fails closed: whatever the outcome nothing but the accounts and the
  audit table changes; an error leaves every account in place; and success means that the
  account existed, was not locked to real trading, and had no open or uncertain order, no
  active pending order, no risk policy and no override, and that exactly its row is gone.\<close>

theorem remove_account_guarded:
  "wp e (remove_account (PStr a) actor) (\<lambda>r w'. account_frame w w' \<and>
     (case r of
        Inl _ \<Rightarrow> accounts (w_db w') = accounts (w_db w)
      | Inr _ \<Rightarrow>
          (\<exists>row. find_account (py_strip a) (w_db w) = Some row \<and> ac_trading_lock row \<noteq> ''real'')
          \<and> filter (\<lambda>r. o_account_id r = py_strip a \<and> o_status r \<in> {NEW, PARTIALLY_FILLED, UNKNOWN}) (orders (w_db w)) = []
          \<and> filter (\<lambda>p. pd_account_id p = PStr (py_strip a) \<and> pd_status p \<notin> {EXECUTED, PREJECTED, PEXPIRED}) (pending (w_db w)) = []
          \<and> filter (\<lambda>p. pr_account_id p = py_strip a) (policies (w_db w)) = []
          \<and> filter (\<lambda>r. ov_account_id r = py_strip a) (overrides (w_db w)) = []
          \<and> accounts (w_db w') = filter (\<lambda>x. ac_account_id x \<noteq> py_strip a) (accounts (w_db w)))) w"
proof (rule wp_mono [OF wp_remove_account])
  have pst: "st \<notin> set PENDING_ACTIVE_STATUSES \<longleftrightarrow> st \<in> {EXECUTED, PREJECTED, PEXPIRED}" for st
    by (cases st) (auto simp: PENDING_ACTIVE_STATUSES_def)
  have aid: "aid = py_strip a" if "req_string (PStr a) = Inr aid" for aid
    using that by (simp add: req_string_def split: if_splits)
  fix r :: "bool res" and w' :: world
  assume q: "account_frame w w' \<and> (\<forall>x. r = Inl x \<longrightarrow> accounts (w_db w') = accounts (w_db w)) \<and>
     (\<forall>b. r = Inr b \<longrightarrow> (\<exists>aid row. req_string (PStr a) = Inr aid \<and> find_account aid (w_db w) = Some row
        \<and> removal_reasons (w_db w) aid row = []
        \<and> accounts (w_db w') = filter (\<lambda>a. ac_account_id a \<noteq> aid) (accounts (w_db w))))"
  show "account_frame w w' \<and>
     (case r of
        Inl _ \<Rightarrow> accounts (w_db w') = accounts (w_db w)
      | Inr _ \<Rightarrow>
          (\<exists>row. find_account (py_strip a) (w_db w) = Some row \<and> ac_trading_lock row \<noteq> ''real'')
          \<and> filter (\<lambda>r. o_account_id r = py_strip a \<and> o_status r \<in> {NEW, PARTIALLY_FILLED, UNKNOWN}) (orders (w_db w)) = []
          \<and> filter (\<lambda>p. pd_account_id p = PStr (py_strip a) \<and> pd_status p \<notin> {EXECUTED, PREJECTED, PEXPIRED}) (pending (w_db w)) = []
          \<and> filter (\<lambda>p. pr_account_id p = py_strip a) (policies (w_db w)) = []
          \<and> filter (\<lambda>r. ov_account_id r = py_strip a) (overrides (w_db w)) = []
          \<and> accounts (w_db w') = filter (\<lambda>x. ac_account_id x \<noteq> py_strip a) (accounts (w_db w)))"
  proof (cases r)
    case (Inl x)
    with q show ?thesis by simp
  next
    case (Inr b)
    with q obtain aid row where "req_string (PStr a) = Inr aid" "find_account aid (w_db w) = Some row"
        "removal_reasons (w_db w) aid row = []"
        "accounts (w_db w') = filter (\<lambda>a. ac_account_id a \<noteq> aid) (accounts (w_db w))" by blast
    with Inr q show ?thesis
      unfolding removal_reasons_Nil pst
      by (auto simp: filter_empty_conv ACTIVE_ORDER_STATUSES_def dest!: aid)
  qed
qed

text \<open>The trading lock: after a successful \<open>enable_real_trading\<close> the account is real and has
  credentials, after a successful \<open>disable_real_trading\<close> it is not real; an account without
  credentials can never be enabled; a failed call changes no account.\<close>

theorem trading_lock_flips:
  "wp e (enable_real_trading (PStr a) actor) (\<lambda>r w'. case r of
       Inl _ \<Rightarrow> accounts (w_db w') = accounts (w_db w)
     | Inr _ \<Rightarrow> (\<exists>row. find_account (py_strip a) (w_db w') = Some row \<and> ac_trading_lock row = ''real'' \<and> row_configured row)) w
   \<and> wp e (disable_real_trading (PStr a) actor) (\<lambda>r w'. case r of
       Inl _ \<Rightarrow> accounts (w_db w') = accounts (w_db w)
     | Inr _ \<Rightarrow> (\<exists>row. find_account (py_strip a) (w_db w') = Some row \<and> ac_trading_lock row \<noteq> ''real'')) w"
proof -
  have aid: "aid = py_strip a" if "req_string (PStr a) = Inr aid" for aid
    using that by (simp add: req_string_def split: if_splits)
  have conf: "row_configured (r\<lparr>ac_trading_lock := l, ac_updated_at := t\<rparr>) = row_configured r" for r l t
    by (simp add: row_configured_def)
  have flip: "\<exists>row'. find_account x (w_db w') = Some row' \<and> row_configured row' = row_configured row
      \<and> ac_trading_lock row' = (if b then ac_trading_lock row else lock)"
    if "find_account x (w_db w) = Some row"
      "accounts (w_db w') = (if b then accounts (w_db w) else accounts (set_lock x lock now (w_db w)))" for x row w' b lock now
  proof (cases b)
    case True
    with that show ?thesis by (simp add: find_account_def)
  next
    case False
    with that have "find_account x (w_db w') = Some (row\<lparr>ac_trading_lock := lock, ac_updated_at := now\<rparr>)"
      by (intro find_account_set_lock) simp_all
    with False show ?thesis by (simp add: conf)
  qed
  show ?thesis
  proof
    show "wp e (enable_real_trading (PStr a) actor) (\<lambda>r w'. case r of
       Inl _ \<Rightarrow> accounts (w_db w') = accounts (w_db w)
     | Inr _ \<Rightarrow> (\<exists>row. find_account (py_strip a) (w_db w') = Some row \<and> ac_trading_lock row = ''real'' \<and> row_configured row)) w"
    proof (rule wp_mono [OF wp_enable])
      fix r :: "bool res" and w' :: world
      assume q: "(\<forall>x. r = Inl x \<longrightarrow> accounts (w_db w') = accounts (w_db w)) \<and>
       (\<forall>b. r = Inr b \<longrightarrow> (\<exists>aid row now. req_string (PStr a) = Inr aid \<and> find_account aid (w_db w) = Some row \<and> row_configured row
          \<and> b = (ac_trading_lock row = ''real'')
          \<and> accounts (w_db w') = (if b then accounts (w_db w) else accounts (set_lock aid ''real'' now (w_db w)))))"
      show "case r of Inl _ \<Rightarrow> accounts (w_db w') = accounts (w_db w)
        | Inr _ \<Rightarrow> (\<exists>row. find_account (py_strip a) (w_db w') = Some row \<and> ac_trading_lock row = ''real'' \<and> row_configured row)"
      proof (cases r)
        case (Inr b)
        with q obtain x row now where x: "req_string (PStr a) = Inr x" "find_account x (w_db w) = Some row"
          "row_configured row" "b = (ac_trading_lock row = ''real'')"
          "accounts (w_db w') = (if b then accounts (w_db w) else accounts (set_lock x ''real'' now (w_db w)))" by blast
        from flip [OF x(2,5)] obtain row' where "find_account x (w_db w') = Some row'" "row_configured row' = row_configured row"
          "ac_trading_lock row' = (if b then ac_trading_lock row else ''real'')" by blast
        with Inr x(3,4) aid [OF x(1)] show ?thesis by simp
      qed (use q in simp)
    qed
    show "wp e (disable_real_trading (PStr a) actor) (\<lambda>r w'. case r of
       Inl _ \<Rightarrow> accounts (w_db w') = accounts (w_db w)
     | Inr _ \<Rightarrow> (\<exists>row. find_account (py_strip a) (w_db w') = Some row \<and> ac_trading_lock row \<noteq> ''real'')) w"
    proof (rule wp_mono [OF wp_disable])
      fix r :: "bool res" and w' :: world
      assume q: "(\<forall>x. r = Inl x \<longrightarrow> accounts (w_db w') = accounts (w_db w)) \<and>
       (\<forall>b. r = Inr b \<longrightarrow> (\<exists>aid row now. req_string (PStr a) = Inr aid \<and> find_account aid (w_db w) = Some row
          \<and> b = (ac_trading_lock row \<noteq> ''real'')
          \<and> accounts (w_db w') = (if b then accounts (w_db w) else accounts (set_lock aid ''paper'' now (w_db w)))))"
      show "case r of Inl _ \<Rightarrow> accounts (w_db w') = accounts (w_db w)
        | Inr _ \<Rightarrow> (\<exists>row. find_account (py_strip a) (w_db w') = Some row \<and> ac_trading_lock row \<noteq> ''real'')"
      proof (cases r)
        case (Inr b)
        with q obtain x row now where x: "req_string (PStr a) = Inr x" "find_account x (w_db w) = Some row"
          "b = (ac_trading_lock row \<noteq> ''real'')"
          "accounts (w_db w') = (if b then accounts (w_db w) else accounts (set_lock x ''paper'' now (w_db w)))" by blast
        from flip [OF x(2,4)] obtain row' where "find_account x (w_db w') = Some row'"
          "ac_trading_lock row' = (if b then ac_trading_lock row else ''paper'')" by blast
        with Inr x(3) aid [OF x(1)] show ?thesis by simp
      qed (use q in simp)
    qed
  qed
qed

end
