(* ===== verification/Orders.thy ===== *)
theory Orders
  imports Accounts
begin

text \<open>
  The order service (\<open>OrderService\<close> of \<open>storage/orders.py\<close>): target resolution, exposure, the
  order table, sizing-based and direct execution, OCO orders, reconciliation after a timeout,
  on a retry and at start-up. The per-account lock serialises the calls for one account; a
  call is one run of its definition. The row \<open>order\<close> the code passes around is an \<open>order_row\<close>.
\<close>

subsection \<open>Inputs and targets\<close>

text \<open>\<open>_require_number\<close> and \<open>_require_string\<close>.\<close>

definition require_number :: "pyval \<Rightarrow> rat res" where
  "require_number v =
     (case v of
        PNone \<Rightarrow> Inl (rasat INVALID_REQUEST)
      | PBool _ \<Rightarrow> Inl (rasat INVALID_REQUEST)
      | _ \<Rightarrow>
          (case py_float v of
             Inl e \<Rightarrow> if e = TypeError \<or> e = ValueError then Inl (rasat INVALID_REQUEST) else Inl e
           | Inr (Fin q) \<Rightarrow> Inr q
           | Inr _ \<Rightarrow> Inl (rasat INVALID_REQUEST)))"

definition require_number_opt :: "pyval \<Rightarrow> rat option res" where
  "require_number_opt v = (if v = PNone then Inr None else rbind (require_number v) (\<lambda>q. Inr (Some q)))"

text \<open>The items of \<open>account_ids or []\<close>; iterating a string yields its characters, a dictionary its
  keys, and another value cannot be iterated.\<close>

definition iter_items :: "pyval \<Rightarrow> pyval list res" where
  "iter_items v =
     (if \<not> truthy v then Inr []
      else (case v of
              PList vs \<Rightarrow> Inr vs
            | PStr s \<Rightarrow> Inr (map (\<lambda>c. PStr [c]) s)
            | PDict d \<Rightarrow> Inr (map (\<lambda>kv. PStr (fst kv)) d)
            | _ \<Rightarrow> Inl TypeError))"

text \<open>\<open>str(v)\<close>, as far as an account id or a tag can be equal to it: the text of a float, list or
  dictionary names no account and no tag.\<close>

definition py_str :: "pyval \<Rightarrow> string" where
  "py_str v =
     (case v of
        PStr s \<Rightarrow> s
      | PInt n \<Rightarrow> int_str n
      | PBool b \<Rightarrow> if b then ''True'' else ''False''
      | PNone \<Rightarrow> ''None''
      | _ \<Rightarrow> [])"

definition resolve_targets :: "pyval \<Rightarrow> pyval \<Rightarrow> account list m" where
  "resolve_targets ids_v tags_v =
     mbind (mguard (\<not> truthy ids_v \<and> \<not> truthy tags_v) (rasat INVALID_REQUEST)) (\<lambda>_.
     mbind (mlift (iter_items ids_v)) (\<lambda>ids.
     mbind (mlift (iter_items tags_v)) (\<lambda>tgs.
     let id_set = map (\<lambda>a. py_strip (py_str a)) (filter truthy ids);
         tag_list = map (\<lambda>t. py_strip (py_str t)) (filter truthy tgs)
     in mbind list_accounts (\<lambda>accs.
        mbind (mguard (list_ex (\<lambda>a. \<not> list_ex (\<lambda>acc. account_id acc = a) accs) id_set) (rasat ACCOUNT_NOT_FOUND)) (\<lambda>_.
          mret (filter (\<lambda>acc. account_id acc \<in> set id_set \<or> list_ex (\<lambda>t. t \<in> set (tags acc)) tag_list) accs))))))"

subsection \<open>Exposure and balances\<close>

text \<open>The statuses that count towards exposure; \<open>UNKNOWN\<close> is assumed to be filled.\<close>

definition live_status :: "order_status \<Rightarrow> bool" where
  "live_status st = (st = NEW \<or> st = PARTIALLY_FILLED \<or> st = UNKNOWN)"

definition open_order_notional :: "string \<Rightarrow> db \<Rightarrow> rat" where
  "open_order_notional aid d =
     sum_list (map o_notional (filter (\<lambda>r. o_account_id r = aid \<and> live_status (o_status r)) (orders d)))"

definition held_value_step :: "string \<Rightarrow> string \<times> rat \<Rightarrow> rat \<Rightarrow> rat m" where
  "held_value_step quote_asset af held =
     (if fst af = quote_asset then mret held
      else if snd af \<le> 0 then mret held
      else mbind (m_price (fst af @ quote_asset)) (\<lambda>p.
        (case p of None \<Rightarrow> mraise (rasat STALE_DATA) | Some price \<Rightarrow> mret (held + snd af * price))))"

definition current_exposure :: "string \<Rightarrow> string \<Rightarrow> rat m" where
  "current_exposure aid quote_asset =
     mbind (db_read (open_order_notional aid)) (\<lambda>open_notional.
     mbind (broker_balance aid) (\<lambda>balances.
     mbind (mfold (held_value_step quote_asset) balances 0) (\<lambda>held.
       mret (open_notional + held))))"

definition equity_step :: "string \<Rightarrow> string \<times> rat \<Rightarrow> rat \<Rightarrow> rat m" where
  "equity_step quote_asset af equity =
     (if fst af = quote_asset then mret (equity + snd af)
      else mbind (m_price (fst af @ quote_asset)) (\<lambda>p.
        mret (case p of None \<Rightarrow> equity | Some price \<Rightarrow> equity + snd af * price)))"

definition equity_from_balances :: "(string \<times> rat) list \<Rightarrow> string \<Rightarrow> rat m" where
  "equity_from_balances balances quote_asset = mfold (equity_step quote_asset) balances 0"

definition balance_of :: "(string \<times> rat) list \<Rightarrow> string \<Rightarrow> rat" where
  "balance_of balances asset = (case map_of balances asset of Some q \<Rightarrow> q | None \<Rightarrow> 0)"

definition check_available_balance ::
  "(string \<times> rat) list \<Rightarrow> string \<Rightarrow> string \<Rightarrow> string \<Rightarrow> rat \<Rightarrow> rat \<Rightarrow> rat \<Rightarrow> unit res" where
  "check_available_balance balances sd base quote quantity notional fee =
     (let side_norm = side_or_buy sd in
      if side_norm = ''BUY'' then raise_if (balance_of balances quote < notional + fee) (rasat INSUFFICIENT_BALANCE)
      else if side_norm = ''SELL'' then raise_if (balance_of balances base < quantity) (rasat INSUFFICIENT_BALANCE)
      else Inl (rasat INVALID_REQUEST))"

subsection \<open>The order table\<close>

definition insert_order ::
  "string \<Rightarrow> string \<Rightarrow> string \<Rightarrow> side \<Rightarrow> order_type \<Rightarrow> rat \<Rightarrow> rat option \<Rightarrow> rat \<Rightarrow> rat \<Rightarrow> rat \<Rightarrow> order_status \<Rightarrow> string
     \<Rightarrow> rat option \<Rightarrow> rat option \<Rightarrow> order_row m" where
  "insert_order aid idem symbol sd ot qty price notional refp equity st cid stop_price stop_limit_price =
     mbind time_now (\<lambda>now.
     mbind uuid4_hex (\<lambda>oid.
     mbind (db_read (\<lambda>d. list_ex (\<lambda>r. o_order_id r = oid \<or> o_account_id r = aid \<and> o_idempotency_key r = idem) (orders d))) (\<lambda>clash.
     mbind (mguard clash IntegrityError) (\<lambda>_.
     let row = \<lparr>o_order_id = oid, o_account_id = aid, o_idempotency_key = idem, o_symbol = symbol, o_side = sd,
                o_order_type = ot, o_quantity = qty, o_price = price, o_stop_price = stop_price,
                o_stop_limit_price = stop_limit_price, o_status = st, o_exchange_order_id = None,
                o_client_order_id = cid, o_executed_qty = Fin 0, o_avg_price = Fin 0, o_notional = notional,
                o_reference_price = refp, o_equity_snapshot = equity, o_error_code = None,
                o_created_at = now, o_updated_at = now\<rparr>
     in mbind (db_modify (\<lambda>d. d\<lparr>orders := orders d @ [row]\<rparr>)) (\<lambda>_. mret row)))))"

definition update_order :: "string \<Rightarrow> (order_row \<Rightarrow> order_row) \<Rightarrow> unit m" where
  "update_order oid f =
     mbind time_now (\<lambda>now.
       db_modify (\<lambda>d. d\<lparr>orders := upd_where (\<lambda>r. o_order_id r = oid) (\<lambda>r. (f r)\<lparr>o_updated_at := now\<rparr>) (orders d)\<rparr>))"

definition set_result :: "order_result \<Rightarrow> order_row \<Rightarrow> order_row" where
  "set_result res r = r\<lparr>o_status := or_status res, o_exchange_order_id := or_exchange_order_id res,
     o_executed_qty := or_executed_qty res, o_avg_price := or_avg_price res\<rparr>"

definition set_error :: "order_status \<Rightarrow> errcode \<Rightarrow> order_row \<Rightarrow> order_row" where
  "set_error st c r = r\<lparr>o_status := st, o_error_code := Some c\<rparr>"

definition load_order :: "string \<Rightarrow> string \<Rightarrow> db \<Rightarrow> order_row option" where
  "load_order aid idem d = List.find (\<lambda>r. o_account_id r = aid \<and> o_idempotency_key r = idem) (orders d)"

text \<open>\<open>idempotency_key LIKE 'close-%'\<close>, which ignores the case of ASCII letters.\<close>

definition is_close_key :: "string \<Rightarrow> bool" where
  "is_close_key key = (py_lower (take 6 key) = ''close-'')"

definition load_open_close :: "string \<Rightarrow> string \<Rightarrow> db \<Rightarrow> order_row option" where
  "load_open_close aid symbol d =
     first_min (\<lambda>r. - o_created_at r)
       (filter (\<lambda>r. o_account_id r = aid \<and> o_symbol r = symbol \<and> o_side r = SELL \<and> is_close_key (o_idempotency_key r)
                   \<and> live_status (o_status r)) (orders d))"

record order_view =
  vw_account_id :: string
  vw_status :: order_status
  vw_symbol :: string
  vw_side :: side
  vw_order_type :: order_type
  vw_quantity :: rat
  vw_price :: "rat option"
  vw_stop_price :: "rat option"
  vw_stop_limit_price :: "rat option"
  vw_notional :: rat
  vw_order_id :: string
  vw_exchange_order_id :: "string option"
  vw_executed_qty :: pyfloat
  vw_avg_price :: pyfloat
  vw_equity_snapshot :: rat
  vw_position_size :: "rat option"
  vw_error :: "errcode option"

definition order_to_result :: "order_row \<Rightarrow> rat option \<Rightarrow> errcode option \<Rightarrow> order_view" where
  "order_to_result r position_size err =
     \<lparr>vw_account_id = o_account_id r, vw_status = o_status r, vw_symbol = o_symbol r, vw_side = o_side r,
      vw_order_type = o_order_type r, vw_quantity = o_quantity r, vw_price = o_price r, vw_stop_price = o_stop_price r,
      vw_stop_limit_price = o_stop_limit_price r, vw_notional = o_notional r, vw_order_id = o_order_id r,
      vw_exchange_order_id = o_exchange_order_id r, vw_executed_qty = o_executed_qty r, vw_avg_price = o_avg_price r,
      vw_equity_snapshot = o_equity_snapshot r, vw_position_size = position_size, vw_error = err\<rparr>"

subsection \<open>Guards\<close>

definition is_real :: "account \<Rightarrow> bool m" where
  "is_real acc =
     (if trading_lock acc \<noteq> ''real'' then mret False
      else mbind (get_credentials (account_id acc)) (\<lambda>_. mret True))"

definition check_symbol_and_price :: "string \<Rightarrow> rat m" where
  "check_symbol_and_price symbol =
     mbind (m_symbol_valid symbol) (\<lambda>valid.
     mbind (mguard (\<not> valid) (rasat INVALID_SYMBOL)) (\<lambda>_.
     mbind (m_price symbol) (\<lambda>p.
     mbind (mlift (check_price_fresh (if p \<noteq> None then Some FRESHNESS_FRESH else None))) (\<lambda>_.
       (case p of None \<Rightarrow> mraise (rasat STALE_DATA) | Some price \<Rightarrow> mret price)))))"

definition accuracy_preflight :: "string \<Rightarrow> string \<Rightarrow> rat \<Rightarrow> rat \<Rightarrow> unit m" where
  "accuracy_preflight symbol sd entry stop_loss =
     mbind (check_symbol_and_price symbol) (\<lambda>_. mlift (check_stop_direction sd entry stop_loss))"

definition require_filters :: "string \<Rightarrow> symbol_filters m" where
  "require_filters symbol =
     mbind (m_filters symbol) (\<lambda>f.
       (case f of None \<Rightarrow> mraise (rasat FILTER_VIOLATION) | Some flt' \<Rightarrow> mret flt'))"

definition enforce_caps_or_override :: "account \<Rightarrow> policy \<Rightarrow> string \<Rightarrow> rat \<Rightarrow> rat \<Rightarrow> string \<Rightarrow> unit m" where
  "enforce_caps_or_override acc pol symbol notional exposure_after idem =
     (case enforce_policy_caps (PStr symbol) (PFloat (Fin notional)) pol (PFloat (Fin exposure_after)) of
        Inr _ \<Rightarrow> mret ()
      | Inl x \<Rightarrow>
          if exc_code x \<noteq> RISK_LIMIT_EXCEEDED \<and> exc_code x \<noteq> SYMBOL_NOT_ALLOWED then mraise x
          else mbind (consume_override (PStr (account_id acc)) (policy_version pol) (PStr idem)) (\<lambda>ov.
            (case ov of None \<Rightarrow> mraise x | Some _ \<Rightarrow> mret ())))"

subsection \<open>Sending and reconciling\<close>

text \<open>The query that finds an order on the exchange: an OCO is known by its list.\<close>

definition query_for :: "string \<Rightarrow> string \<Rightarrow> order_type \<Rightarrow> string \<Rightarrow> brequest" where
  "query_for aid symbol ot cid = (if ot = OCO then QueryOco aid cid else QueryOrder aid symbol cid)"

text \<open>\<open>try: found = await broker.query\<dots> except RasatError: found = None\<close>\<close>

definition query_or_none :: "brequest \<Rightarrow> order_result option m" where
  "query_or_none rq =
     mtry (broker_query rq) (\<lambda>r.
       (case r of Inl x \<Rightarrow> if is_rasat x then mret None else mraise x | Inr v \<Rightarrow> mret v))"

definition reconcile_after_timeout :: "account \<Rightarrow> order_row \<Rightarrow> string \<Rightarrow> string \<Rightarrow> string \<Rightarrow> order_view m" where
  "reconcile_after_timeout acc order symbol cid actor =
     mbind (query_or_none (query_for (account_id acc) symbol (o_order_type order) cid)) (\<lambda>found.
       (case found of
          Some f \<Rightarrow>
            mbind (db_write (
              mbind (update_order (o_order_id order) (set_result f)) (\<lambda>_.
                audit_in_conn actor ''order_reconciled''
                  [(''account_id'', PStr (account_id acc)), (''order_id'', PStr (o_order_id order)), (''symbol'', PStr symbol),
                   (''status'', PStr (status_name (or_status f))), (''exchange_order_id'', opt_str (or_exchange_order_id f))]))) (\<lambda>_.
              mret (order_to_result (set_result f order) None None))
        | None \<Rightarrow>
            mbind (db_write (
              mbind (update_order (o_order_id order) (set_error UNKNOWN ORDER_UNKNOWN)) (\<lambda>_.
                audit_in_conn actor ''order_unknown''
                  [(''account_id'', PStr (account_id acc)), (''order_id'', PStr (o_order_id order)), (''symbol'', PStr symbol)]))) (\<lambda>_.
              mret (order_to_result (set_error UNKNOWN ORDER_UNKNOWN order) None (Some ORDER_UNKNOWN)))))"

definition handle_existing :: "account \<Rightarrow> order_row \<Rightarrow> order_view m" where
  "handle_existing acc existing =
     (if \<not> live_status (o_status existing) then mret (order_to_result existing None None)
      else if trading_lock acc \<noteq> ''real'' then mret (order_to_result existing None None)
      else
        mbind (query_or_none (query_for (account_id acc) (o_symbol existing) (o_order_type existing) (o_client_order_id existing))) (\<lambda>found.
          (case found of
             None \<Rightarrow> mret (order_to_result existing None None)
           | Some f \<Rightarrow>
               mbind (db_write (
                 mbind (update_order (o_order_id existing) (set_result f)) (\<lambda>_.
                   audit_in_conn ''system'' ''order_reconciled''
                     [(''account_id'', PStr (account_id acc)), (''order_id'', PStr (o_order_id existing)),
                      (''status'', PStr (status_name (or_status f)))]))) (\<lambda>_.
                 mret (order_to_result (set_result f existing) None None)))))"

text \<open>The outcome of a submission: a timeout (of either kind) is reconciled, another canonical
  error is recorded, any other exception escapes, a result is stored. \<open>after_fill\<close> is the row
  the caller reports and \<open>extra\<close> the further details it audits.\<close>

definition record_outcome ::
  "account \<Rightarrow> order_row \<Rightarrow> string \<Rightarrow> string \<Rightarrow> string \<Rightarrow> string \<Rightarrow> (order_result \<Rightarrow> order_row)
     \<Rightarrow> (order_result \<Rightarrow> (string \<times> pyval) list) \<Rightarrow> rat \<Rightarrow> order_result res \<Rightarrow> order_view m" where
  "record_outcome acc order symbol cid actor action after_fill extra qty outcome =
     (case outcome of
        Inl x \<Rightarrow>
          (if x = AsyncTimeout \<or> (is_rasat x \<and> exc_code x = TIMEOUT) then reconcile_after_timeout acc order symbol cid actor
           else if \<not> is_rasat x then mraise x
           else
             let st = (if exc_code x = ORDER_REJECTED then REJECTED else UNKNOWN) in
             mbind (db_write (
               mbind (update_order (o_order_id order) (set_error st (exc_code x))) (\<lambda>_.
                 audit_in_conn actor (action @ ''_failed'')
                   [(''account_id'', PStr (account_id acc)), (''order_id'', PStr (o_order_id order)), (''symbol'', PStr symbol),
                    (''error_code'', PStr (code_name (exc_code x)))]))) (\<lambda>_.
               mret (order_to_result (set_error st (exc_code x) order) (Some qty) None)))
      | Inr res \<Rightarrow>
          mbind (db_write (
            mbind (update_order (o_order_id order) (set_result res)) (\<lambda>_.
              audit_in_conn actor action
                ([(''account_id'', PStr (account_id acc)), (''order_id'', PStr (o_order_id order)), (''symbol'', PStr symbol),
                  (''side'', PStr (side_name (o_side order))), (''quantity'', PFloat (Fin qty))] @ extra res)))) (\<lambda>_.
            mret (order_to_result (after_fill res) (Some qty) None)))"

definition place_and_record ::
  "account \<Rightarrow> bool \<Rightarrow> string \<Rightarrow> side \<Rightarrow> order_type \<Rightarrow> pyfloat \<Rightarrow> rat option \<Rightarrow> rat \<Rightarrow> rat \<Rightarrow> string \<Rightarrow> rat \<Rightarrow> string \<Rightarrow> rat option
     \<Rightarrow> order_view m" where
  "place_and_record acc rl symbol sd ot qty_f price notional refp idem equity actor stop_price =
     mbind (mlift (validate_execution_order
       \<lparr>r_side = PStr (side_name sd), r_order_type = PStr (order_type_name ot), r_quantity = PFloat qty_f,
        r_price = opt_num price, r_stop_price = opt_num stop_price, r_stop_limit_price = PNone,
        r_filters = None, r_market_price = PFloat (Fin refp)\<rparr>)) (\<lambda>v.
     mbind (menv (\<lambda>e. to_client_order_id (sha1_hex e) idem)) (\<lambda>cid.
     let qty = v_quantity v in
     if \<not> rl then
       mbind (db_write (
         mbind (insert_order (account_id acc) idem symbol sd ot qty price notional refp equity PAPER cid stop_price None) (\<lambda>order.
         mbind (audit_in_conn actor ''place_order_paper''
           [(''account_id'', PStr (account_id acc)), (''order_id'', PStr (o_order_id order)), (''symbol'', PStr symbol),
            (''side'', PStr (side_name sd)), (''quantity'', PFloat (Fin qty)), (''notional'', PFloat (Fin notional)),
            (''stop_price'', opt_num stop_price)]) (\<lambda>_.
           mret order)))) (\<lambda>order. mret (order_to_result order (Some qty) None))
     else
       mbind (db_write (insert_order (account_id acc) idem symbol sd ot qty price notional refp equity NEW cid stop_price None)) (\<lambda>order.
         mtry (broker_place (PlaceOrder (account_id acc) symbol sd ot qty price cid stop_price))
           (record_outcome acc order symbol cid actor ''place_order'' (\<lambda>res. set_result res order)
             (\<lambda>res. [(''status'', PStr (status_name (or_status res))), (''exchange_order_id'', opt_str (or_exchange_order_id res))]) qty))))"

subsection \<open>Execution for one account\<close>

definition QUOTE :: string where
  "QUOTE = ''USDT''"

definition execute_one_sized ::
  "account \<Rightarrow> string \<Rightarrow> string \<Rightarrow> rat \<Rightarrow> rat \<Rightarrow> rat \<Rightarrow> string \<Rightarrow> order_type \<Rightarrow> string \<Rightarrow> order_view m" where
  "execute_one_sized acc symbol sd entry stop_loss risk_pct idem ot actor =
     mbind (db_read (load_order (account_id acc) idem)) (\<lambda>existing.
       (case existing of
          Some row \<Rightarrow> handle_existing acc row
        | None \<Rightarrow>
            mbind (is_real acc) (\<lambda>rl.
            mbind (accuracy_preflight symbol sd entry stop_loss) (\<lambda>_.
            mbind (m_price symbol) (\<lambda>price_o.
            mbind (broker_balance (account_id acc)) (\<lambda>balances.
            mbind (equity_from_balances balances QUOTE) (\<lambda>equity.
            mbind (require_filters symbol) (\<lambda>filters.
            let sizing_balance = (if side_or_buy sd = ''BUY'' then balance_of balances QUOTE else equity) in
            mbind (mguard (sizing_balance \<le> 0) (rasat INSUFFICIENT_BALANCE)) (\<lambda>_.
            mbind (menv default_fee_rate) (\<lambda>fee_rate.
            mbind (mlift (calculate_position_size (PStr symbol) (PFloat (Fin sizing_balance)) (PFloat (Fin risk_pct))
                     (PFloat (Fin entry)) (PFloat (Fin stop_loss)) filters sd (PFloat (Fin fee_rate)))) (\<lambda>sized.
            mbind (mlift (case price_o of None \<Rightarrow> Inl TypeError | Some p \<Rightarrow> Inr p)) (\<lambda>price.
            mbind (mlift (validate_execution_order
                \<lparr>r_side = PStr sd, r_order_type = PStr (order_type_name ot), r_quantity = PFloat (sz_quantity sized),
                 r_price = (if ot = LIMIT \<or> ot = STOP_LOSS_LIMIT then PFloat (Fin entry) else PNone),
                 r_stop_price = (if ot = STOP_LOSS_LIMIT then PFloat (Fin stop_loss) else PNone),
                 r_stop_limit_price = PNone, r_filters = Some filters, r_market_price = PFloat (Fin price)\<rparr>)) (\<lambda>v.
            let quantity = v_quantity v; notional = quantity * price in
            mbind (mlift (check_available_balance balances (py_upper sd) (base_asset filters) QUOTE quantity notional
                     (notional * fee_rate))) (\<lambda>_.
            mbind (get_policy (PStr (account_id acc))) (\<lambda>pol.
            mbind (current_exposure (account_id acc) QUOTE) (\<lambda>exposure.
            mbind (enforce_caps_or_override acc pol symbol notional (exposure + notional) idem) (\<lambda>_.
              place_and_record acc rl symbol (v_side v) (v_order_type v) (sz_quantity sized) (Some entry) notional price
                idem equity actor (if v_order_type v = STOP_LOSS_LIMIT then Some stop_loss else None))))))))))))))))))"

definition execute_one_direct ::
  "string \<Rightarrow> string \<Rightarrow> side \<Rightarrow> order_type \<Rightarrow> rat \<Rightarrow> rat option \<Rightarrow> string \<Rightarrow> string \<Rightarrow> rat option \<Rightarrow> order_view m" where
  "execute_one_direct aid symbol sd ot quantity price idem actor stop_price =
     mbind (get_account aid) (\<lambda>acc.
     mbind (db_read (load_order aid idem)) (\<lambda>existing.
       (case existing of
          Some row \<Rightarrow> handle_existing acc row
        | None \<Rightarrow>
            mbind (is_real acc) (\<lambda>rl.
            mbind (check_symbol_and_price symbol) (\<lambda>mprice.
            mbind (require_filters symbol) (\<lambda>filters.
            mbind (mlift (validate_execution_order
                \<lparr>r_side = PStr (side_name sd), r_order_type = PStr (order_type_name ot), r_quantity = PFloat (Fin quantity),
                 r_price = opt_num price, r_stop_price = opt_num stop_price, r_stop_limit_price = PNone,
                 r_filters = Some filters, r_market_price = PFloat (Fin mprice)\<rparr>)) (\<lambda>v.
            mbind (mlift (case v_notional v of None \<Rightarrow> Inl TypeError | Some n \<Rightarrow> Inr n)) (\<lambda>notional.
            mbind (broker_balance aid) (\<lambda>balances.
            mbind (menv default_fee_rate) (\<lambda>fee_rate.
            mbind (mlift (check_available_balance balances (side_name (v_side v)) (base_asset filters) QUOTE (v_quantity v) notional
                     (notional * fee_rate))) (\<lambda>_.
            mbind (get_policy (PStr aid)) (\<lambda>pol.
            mbind (current_exposure aid QUOTE) (\<lambda>exposure.
            mbind (enforce_caps_or_override acc pol symbol notional (exposure + notional) idem) (\<lambda>_.
            mbind (equity_from_balances balances QUOTE) (\<lambda>equity.
              place_and_record acc rl symbol (v_side v) (v_order_type v) (Fin (v_quantity v)) (v_price v) notional mprice
                idem equity actor (v_stop_price v)))))))))))))))) "

definition execute_oco_direct ::
  "string \<Rightarrow> string \<Rightarrow> side \<Rightarrow> rat \<Rightarrow> rat \<Rightarrow> rat \<Rightarrow> rat \<Rightarrow> string \<Rightarrow> string \<Rightarrow> order_view m" where
  "execute_oco_direct aid symbol sd quantity price stop_price stop_limit_price idem actor =
     mbind (get_account aid) (\<lambda>acc.
     mbind (db_read (load_order aid idem)) (\<lambda>existing.
       (case existing of
          Some row \<Rightarrow> handle_existing acc row
        | None \<Rightarrow>
            mbind (is_real acc) (\<lambda>rl.
            mbind (check_symbol_and_price symbol) (\<lambda>mprice.
            mbind (require_filters symbol) (\<lambda>filters.
            mbind (mlift (validate_execution_order
                \<lparr>r_side = PStr (side_name sd), r_order_type = PStr (order_type_name OCO), r_quantity = PFloat (Fin quantity),
                 r_price = PFloat (Fin price), r_stop_price = PFloat (Fin stop_price),
                 r_stop_limit_price = PFloat (Fin stop_limit_price),
                 r_filters = Some filters, r_market_price = PFloat (Fin mprice)\<rparr>)) (\<lambda>v.
            mbind (mlift (case v_notional v of None \<Rightarrow> Inl TypeError | Some n \<Rightarrow> Inr n)) (\<lambda>notional.
            mbind (broker_balance aid) (\<lambda>balances.
            mbind (menv default_fee_rate) (\<lambda>fee_rate.
            mbind (mlift (check_available_balance balances (side_name (v_side v)) (base_asset filters) QUOTE quantity notional
                     (notional * fee_rate))) (\<lambda>_.
            mbind (get_policy (PStr aid)) (\<lambda>pol.
            mbind (current_exposure aid QUOTE) (\<lambda>exposure.
            mbind (enforce_caps_or_override acc pol symbol notional (exposure + notional) idem) (\<lambda>_.
            mbind (equity_from_balances balances QUOTE) (\<lambda>equity.
            mbind (menv (\<lambda>e. to_client_order_id (sha1_hex e) idem)) (\<lambda>cid.
              if \<not> rl then
                mbind (db_write (
                  mbind (insert_order aid idem symbol (v_side v) OCO quantity (Some price) notional mprice equity PAPER cid
                           (Some stop_price) (Some stop_limit_price)) (\<lambda>order.
                  mbind (audit_in_conn actor ''place_oco_paper''
                    [(''account_id'', PStr aid), (''order_id'', PStr (o_order_id order)), (''symbol'', PStr symbol),
                     (''side'', PStr (side_name (v_side v))), (''quantity'', PFloat (Fin quantity)), (''price'', PFloat (Fin price)),
                     (''stop_price'', PFloat (Fin stop_price)), (''stop_limit_price'', PFloat (Fin stop_limit_price))]) (\<lambda>_.
                    mret order)))) (\<lambda>order. mret (order_to_result order (Some quantity) None))
              else
                mbind (db_write (insert_order aid idem symbol (v_side v) OCO quantity (Some price) notional mprice equity NEW cid
                                   (Some stop_price) (Some stop_limit_price))) (\<lambda>order.
                  mtry (broker_place (PlaceOco aid symbol (v_side v) quantity price stop_price stop_limit_price cid))
                    (record_outcome acc order symbol cid actor ''place_oco'' (\<lambda>res. order)
                      (\<lambda>res. [(''price'', PFloat (Fin price)), (''stop_price'', PFloat (Fin stop_price)),
                         (''stop_limit_price'', PFloat (Fin stop_limit_price))]) quantity))))))))))))))))))"

subsection \<open>Public operations\<close>

datatype exec_result = Executed order_view | ExecFailed string order_status errcode

definition exec_status :: "exec_result \<Rightarrow> order_status" where
  "exec_status r = (case r of Executed v \<Rightarrow> vw_status v | ExecFailed _ st _ \<Rightarrow> st)"

record exec_summary =
  es_results :: "exec_result list"
  es_succeeded :: nat
  es_failed :: nat

definition execute_on_accounts ::
  "pyval \<Rightarrow> pyval \<Rightarrow> pyval \<Rightarrow> pyval \<Rightarrow> pyval \<Rightarrow> pyval \<Rightarrow> pyval \<Rightarrow> pyval \<Rightarrow> pyval \<Rightarrow> string \<Rightarrow> exec_summary m" where
  "execute_on_accounts ids_v tags_v symbol_v side_v entry_v stop_v risk_v key_v type_v actor =
     mbind (mlift (req_string key_v)) (\<lambda>idem.
     mbind (mlift (req_string symbol_v)) (\<lambda>symbol.
     mbind (mlift (req_string side_v)) (\<lambda>sd.
     mbind (mlift (require_number entry_v)) (\<lambda>entry.
     mbind (mlift (require_number stop_v)) (\<lambda>stop_loss.
     mbind (mlift (require_number risk_v)) (\<lambda>risk_pct.
     mbind (mlift (normalize_order_type type_v)) (\<lambda>ot.
     mbind (resolve_targets ids_v tags_v) (\<lambda>targets.
     mbind (mmap (\<lambda>acc.
         mtry (execute_one_sized acc symbol sd entry stop_loss risk_pct idem ot (or_agent actor)) (\<lambda>r.
           (case r of
              Inr v \<Rightarrow> mret (Executed v)
            | Inl x \<Rightarrow> mret (ExecFailed (account_id acc) (if is_rasat x then REJECTED else UNKNOWN) (exc_code x))))) targets) (\<lambda>results.
       let succeeded = length (filter (\<lambda>r. exec_status r \<noteq> REJECTED \<and> exec_status r \<noteq> UNKNOWN) results) in
       mret \<lparr>es_results = results, es_succeeded = succeeded, es_failed = length results - succeeded\<rparr>)))))))))"

definition place_order :: "pyval \<Rightarrow> pyval \<Rightarrow> pyval \<Rightarrow> pyval \<Rightarrow> pyval \<Rightarrow> pyval \<Rightarrow> pyval \<Rightarrow> pyval \<Rightarrow> string \<Rightarrow> order_view m" where
  "place_order aid_v symbol_v side_v type_v qty_v price_v stop_v key_v actor =
     mbind (mlift (req_string aid_v)) (\<lambda>aid.
     mbind (mlift (req_string key_v)) (\<lambda>idem.
     mbind (mlift (req_string symbol_v)) (\<lambda>symbol.
     mbind (mlift (req_string side_v)) (\<lambda>sd.
     mbind (mlift (require_number qty_v)) (\<lambda>quantity.
     mbind (mlift (require_number_opt price_v)) (\<lambda>price.
     mbind (mlift (require_number_opt stop_v)) (\<lambda>stop_price.
     mbind (mlift (validate_execution_order
       \<lparr>r_side = PStr sd, r_order_type = type_v, r_quantity = PFloat (Fin quantity), r_price = opt_num price,
        r_stop_price = opt_num stop_price, r_stop_limit_price = PNone, r_filters = None, r_market_price = PNone\<rparr>)) (\<lambda>v.
       execute_one_direct aid symbol (v_side v) (v_order_type v) quantity price idem (or_agent actor) stop_price))))))))"

definition place_oco_order :: "pyval \<Rightarrow> pyval \<Rightarrow> pyval \<Rightarrow> pyval \<Rightarrow> pyval \<Rightarrow> pyval \<Rightarrow> pyval \<Rightarrow> pyval \<Rightarrow> string \<Rightarrow> order_view m" where
  "place_oco_order aid_v symbol_v side_v qty_v price_v stop_v stop_limit_v key_v actor =
     mbind (mlift (req_string aid_v)) (\<lambda>aid.
     mbind (mlift (req_string key_v)) (\<lambda>idem.
     mbind (mlift (req_string symbol_v)) (\<lambda>symbol.
     mbind (mlift (req_string side_v)) (\<lambda>sd.
     mbind (mlift (require_number qty_v)) (\<lambda>quantity.
     mbind (mlift (require_number price_v)) (\<lambda>price.
     mbind (mlift (require_number stop_v)) (\<lambda>stop_price.
     mbind (mlift (require_number stop_limit_v)) (\<lambda>stop_limit_price.
     mbind (mlift (validate_execution_order
       \<lparr>r_side = PStr sd, r_order_type = PStr (order_type_name OCO), r_quantity = PFloat (Fin quantity),
        r_price = PFloat (Fin price), r_stop_price = PFloat (Fin stop_price),
        r_stop_limit_price = PFloat (Fin stop_limit_price), r_filters = None, r_market_price = PNone\<rparr>)) (\<lambda>v.
       execute_oco_direct aid symbol (v_side v) quantity price stop_price stop_limit_price idem (or_agent actor))))))))))"

subsection \<open>Start-up reconciliation\<close>

fun feq :: "pyfloat \<Rightarrow> pyfloat \<Rightarrow> bool" where
  "feq NaN _ = False"
| "feq a b = (a = b)"

record recon_state =
  rc_reconciled :: nat
  rc_unchanged :: nat
  rc_errors :: "(string \<times> errcode) list"

definition reconcile_one :: "order_row \<Rightarrow> recon_state \<Rightarrow> recon_state m" where
  "reconcile_one order st =
     mtry (broker_query (query_for (o_account_id order) (o_symbol order) (o_order_type order) (o_client_order_id order))) (\<lambda>r.
       (case r of
          Inl x \<Rightarrow>
            (if is_rasat x then mret (st\<lparr>rc_errors := rc_errors st @ [(o_order_id order, exc_code x)]\<rparr>) else mraise x)
        | Inr found \<Rightarrow>
            (if found = None \<or> map_option or_status found = Some UNKNOWN then
               mbind (db_write (
                 mbind (update_order (o_order_id order) (set_error UNKNOWN ORDER_UNKNOWN)) (\<lambda>_.
                   audit_in_conn ''system'' ''order_reconciled_unknown''
                     [(''account_id'', PStr (o_account_id order)), (''order_id'', PStr (o_order_id order)), (''symbol'', PStr (o_symbol order))]))) (\<lambda>_.
                 mret (st\<lparr>rc_reconciled := rc_reconciled st + 1\<rparr>))
             else
               (case found of
                  None \<Rightarrow> mret st
                | Some f \<Rightarrow>
                    if or_status f = o_status order \<and> or_exchange_order_id f = o_exchange_order_id order
                       \<and> feq (or_executed_qty f) (o_executed_qty order) \<and> feq (or_avg_price f) (o_avg_price order)
                    then mret (st\<lparr>rc_unchanged := rc_unchanged st + 1\<rparr>)
                    else
                      mbind (db_write (
                        mbind (update_order (o_order_id order) (set_result f)) (\<lambda>_.
                          audit_in_conn ''system'' ''order_reconciled''
                            [(''account_id'', PStr (o_account_id order)), (''order_id'', PStr (o_order_id order)), (''symbol'', PStr (o_symbol order)),
                             (''status'', PStr (status_name (or_status f))), (''executed_qty'', PFloat (or_executed_qty f)),
                             (''avg_price'', PFloat (or_avg_price f))]))) (\<lambda>_.
                        mret (st\<lparr>rc_reconciled := rc_reconciled st + 1\<rparr>))))))"

definition reconcile_open_orders :: "(nat \<times> recon_state) m" where
  "reconcile_open_orders =
     mbind list_accounts (\<lambda>accs.
       let account_ids = map account_id (filter (\<lambda>a. trading_lock a = ''real'') accs) in
       if account_ids = [] then mret (0, \<lparr>rc_reconciled = 0, rc_unchanged = 0, rc_errors = []\<rparr>)
       else
         mbind (db_read (\<lambda>d. filter (\<lambda>r. o_account_id r \<in> set account_ids \<and> live_status (o_status r)) (orders d))) (\<lambda>stuck.
         mbind (mfold reconcile_one stuck \<lparr>rc_reconciled = 0, rc_unchanged = 0, rc_errors = []\<rparr>) (\<lambda>st.
           mret (length stuck, st))))"

subsection \<open>Requests sent\<close>

definition places :: "world \<Rightarrow> brequest list" where
  "places w = filter is_place (w_trace w)"

definition no_place :: "world \<Rightarrow> world \<Rightarrow> bool" where
  "no_place w w' = (places w' = places w)"

text \<open>\<open>quiet\<close>: the database is untouched and no order is placed.\<close>

definition quiet :: "world \<Rightarrow> world \<Rightarrow> bool" where
  "quiet w w' = (w_db w' = w_db w \<and> places w' = places w)"

interpretation no_place: trace_relation no_place
  by unfold_locales (auto simp: no_place_def places_def)

interpretation quiet: world_relation quiet
  by unfold_locales (auto simp: quiet_def places_def)

lemma quiet_send: "\<not> is_place rq \<Longrightarrow> keeps quiet (msend rq f)"
  by (simp add: keeps_def msend_def quiet_def places_def)

lemma quiet_broker:
  "keeps quiet (broker_open_orders a)" "keeps quiet (broker_cancel_all a s)" "keeps quiet (broker_balance a)"
  "keeps quiet (broker_balance_detail a)" "\<not> is_place rq \<Longrightarrow> keeps quiet (broker_query rq)"
  by (simp_all add: broker_open_orders_def broker_cancel_all_def broker_balance_def broker_balance_detail_def
      broker_query_def quiet_send)

lemma quiet_no_place: "keeps quiet m \<Longrightarrow> keeps no_place m"
  by (erule keeps_mono) (simp add: quiet_def no_place_def)

lemmas quiet_rules = quiet.resp_intros quiet_broker keeps_cases

lemma query_for_not_place [simp]: "\<not> is_place (query_for aid symbol ot cid)"
  by (simp add: query_for_def)

lemma get_account_quiet: "keeps quiet (get_account aid)"
  unfolding get_account_def by (rule quiet_rules)+

lemma list_accounts_quiet: "keeps quiet list_accounts"
  unfolding list_accounts_def by (rule quiet_rules)+

lemma get_credentials_quiet: "keeps quiet (get_credentials aid)"
  unfolding get_credentials_def decrypt_field_def by (rule quiet_rules)+

lemma is_real_quiet: "keeps quiet (is_real acc)"
  unfolding is_real_def by (rule quiet_rules get_credentials_quiet)+

lemma check_symbol_and_price_quiet: "keeps quiet (check_symbol_and_price symbol)"
  unfolding check_symbol_and_price_def by (rule quiet_rules)+

lemma accuracy_preflight_quiet: "keeps quiet (accuracy_preflight symbol sd entry stop)"
  unfolding accuracy_preflight_def by (rule quiet_rules check_symbol_and_price_quiet)+

lemma require_filters_quiet: "keeps quiet (require_filters symbol)"
  unfolding require_filters_def by (rule quiet_rules)+

lemma get_policy_quiet: "keeps quiet (get_policy aid)"
  unfolding get_policy_def by (rule quiet_rules)+

lemma current_exposure_quiet: "keeps quiet (current_exposure aid q)"
  unfolding current_exposure_def held_value_step_def by (rule quiet_rules)+

lemma equity_quiet: "keeps quiet (equity_from_balances b q)"
  unfolding equity_from_balances_def equity_step_def by (rule quiet_rules)+

lemma query_or_none_quiet: "\<not> is_place rq \<Longrightarrow> keeps quiet (query_or_none rq)"
  unfolding query_or_none_def by (rule quiet_rules | assumption)+

lemma resolve_targets_quiet: "keeps quiet (resolve_targets i t)"
  unfolding resolve_targets_def by (rule quiet_rules list_accounts_quiet)+

lemmas quiet_ops = get_account_quiet list_accounts_quiet get_credentials_quiet is_real_quiet check_symbol_and_price_quiet
  accuracy_preflight_quiet require_filters_quiet get_policy_quiet current_exposure_quiet equity_quiet resolve_targets_quiet

lemmas no_place_rules = no_place.audited_intros no_place.resp_modify keeps_cases

lemma reconcile_after_timeout_no_place: "keeps no_place (reconcile_after_timeout acc order symbol cid actor)"
  unfolding reconcile_after_timeout_def update_order_def
  by (rule no_place_rules quiet_no_place [OF query_or_none_quiet] query_for_not_place)+

lemma handle_existing_no_place: "keeps no_place (handle_existing acc row)"
  unfolding handle_existing_def update_order_def
  by (rule no_place_rules quiet_no_place [OF query_or_none_quiet] query_for_not_place)+

lemma record_outcome_no_place: "keeps no_place (record_outcome acc order symbol cid actor action af ex qty outcome)"
  unfolding record_outcome_def update_order_def
  by (rule no_place_rules reconcile_after_timeout_no_place)+

lemma insert_order_no_place: "keeps no_place (insert_order a b c d ee f g h i j k l mm n)"
  unfolding insert_order_def by (rule no_place_rules)+

lemma consume_override_no_place: "keeps no_place (consume_override a v i)"
  by (rule keeps_mono [OF consume_override_frame]) (simp add: risk_frame_def no_place_def places_def)

lemma reconcile_one_no_place: "keeps no_place (reconcile_one order st)"
  unfolding reconcile_one_def update_order_def
  by (rule no_place_rules quiet_no_place [OF quiet_broker(5)] query_for_not_place)+

lemma reconcile_open_orders_no_place: "keeps no_place reconcile_open_orders"
  unfolding reconcile_open_orders_def
  by (rule no_place_rules reconcile_one_no_place quiet_no_place [OF list_accounts_quiet])+

subsection \<open>The order table only grows\<close>

text \<open>What an order is: fixed when its row is written.\<close>

definition same_terms :: "order_row \<Rightarrow> order_row \<Rightarrow> bool" where
  "same_terms r r' =
     (o_order_id r' = o_order_id r \<and> o_account_id r' = o_account_id r \<and> o_idempotency_key r' = o_idempotency_key r
      \<and> o_symbol r' = o_symbol r \<and> o_side r' = o_side r \<and> o_order_type r' = o_order_type r \<and> o_quantity r' = o_quantity r
      \<and> o_price r' = o_price r \<and> o_stop_price r' = o_stop_price r \<and> o_stop_limit_price r' = o_stop_limit_price r
      \<and> o_client_order_id r' = o_client_order_id r \<and> o_notional r' = o_notional r
      \<and> o_reference_price r' = o_reference_price r \<and> o_equity_snapshot r' = o_equity_snapshot r
      \<and> o_created_at r' = o_created_at r)"

definition order_keys :: "world \<Rightarrow> (string \<times> string) list" where
  "order_keys w = map (\<lambda>r. (o_account_id r, o_idempotency_key r)) (orders (w_db w))"

definition orders_evolve :: "world \<Rightarrow> world \<Rightarrow> bool" where
  "orders_evolve w w' =
     ((\<exists>upd new. orders (w_db w') = upd @ new \<and> list_all2 same_terms (orders (w_db w)) upd)
      \<and> (distinct (order_keys w) \<longrightarrow> distinct (order_keys w')))"

lemma same_terms_refl [simp]: "same_terms r r"
  by (simp add: same_terms_def)

lemma same_terms_trans: "same_terms a b \<Longrightarrow> same_terms b c \<Longrightarrow> same_terms a c"
  by (simp add: same_terms_def)

lemma orders_evolve_same: "orders (w_db w') = orders (w_db w) \<Longrightarrow> orders_evolve w w'"
  unfolding orders_evolve_def order_keys_def
  by (intro conjI exI [of _ "orders (w_db w)"] exI [of _ "[]"]) (auto intro: list_all2_refl)

interpretation orders_evolve: db_relation orders_evolve
proof unfold_locales
  fix w w' w''
  assume a: "orders_evolve w w'" and b: "orders_evolve w' w''"
  from a obtain upd new where 1: "orders (w_db w') = upd @ new" "list_all2 same_terms (orders (w_db w)) upd"
    by (auto simp: orders_evolve_def)
  from b 1 obtain upd' new' where 2: "orders (w_db w'') = upd' @ new'" "list_all2 same_terms (upd @ new) upd'"
    by (auto simp: orders_evolve_def)
  from 2(2) obtain u1 u2 where 3: "upd' = u1 @ u2" "list_all2 same_terms upd u1"
    by (auto simp: list_all2_append1)
  have "list_all2 same_terms (orders (w_db w)) u1"
    by (rule list_all2_trans [OF same_terms_trans 1(2) 3(2)])
  with 2 3 have "\<exists>upd new. orders (w_db w'') = upd @ new \<and> list_all2 same_terms (orders (w_db w)) upd"
    by (intro exI [of _ u1] exI [of _ "u2 @ new'"]) simp
  with a b show "orders_evolve w w''" by (auto simp: orders_evolve_def)
qed (simp_all add: orders_evolve_same)

text \<open>Updates that the code makes: status and fill fields.\<close>

definition keeps_terms :: "(order_row \<Rightarrow> order_row) \<Rightarrow> bool" where
  "keeps_terms f = (\<forall>r. same_terms r (f r))"

lemma keeps_terms_set [simp]: "keeps_terms (set_result f)" "keeps_terms (set_error st c)" "keeps_terms (\<lambda>r. r\<lparr>o_status := st\<rparr>)"
  by (simp_all add: keeps_terms_def set_result_def set_error_def same_terms_def)

lemma orders_evolve_upd:
  assumes "keeps_terms f" "orders (w_db w') = upd_where p (\<lambda>r. (f r)\<lparr>o_updated_at := now\<rparr>) (orders (w_db w))"
  shows "orders_evolve w w'"
proof -
  have st: "same_terms r ((f r)\<lparr>o_updated_at := now\<rparr>)" for r
    using assms(1) by (simp add: keeps_terms_def same_terms_def)
  have l: "list_all2 same_terms (orders (w_db w)) (orders (w_db w'))"
    unfolding assms(2) upd_where_def by (simp add: list_all2_conv_all_nth st)
  have "order_keys w' = order_keys w"
    unfolding order_keys_def assms(2) by (rule map_upd_where) (use st in \<open>auto simp: same_terms_def\<close>)
  with l show ?thesis
    unfolding orders_evolve_def by (metis append_Nil2)
qed

lemma update_order_evolves: "keeps_terms f \<Longrightarrow> keeps orders_evolve (update_order oid f)"
  by (rule keeps_wpI) (auto simp: update_order_def wp_simps wp_mbind intro!: orders_evolve_upd)

lemma insert_order_evolves: "keeps orders_evolve (insert_order a b c d ee f g h i j k l mm n)"
proof (rule keeps_wpI)
  fix e :: env and w :: world
  have app: "orders_evolve w w'" if "orders (w_db w') = orders (w_db w) @ [row]" "(o_account_id row, o_idempotency_key row) \<notin> set (order_keys w)"
    for w' row
    using that unfolding orders_evolve_def
    by (intro conjI exI [of _ "orders (w_db w)"] exI [of _ "[row]"]) (auto intro: list_all2_refl simp: order_keys_def)
  show "wp e (insert_order a b c d ee f g h i j k l mm n) (\<lambda>r w'. orders_evolve w w') w"
    unfolding insert_order_def
    by (auto simp: wp_simps wp_mbind Let_def list_ex_iff intro: orders_evolve_same)
      (rule app, auto simp: order_keys_def)
qed

lemmas evolve_rules = orders_evolve.db_intros keeps_cases update_order_evolves insert_order_evolves keeps_terms_set

lemma quiet_evolves: "keeps quiet m \<Longrightarrow> keeps orders_evolve m"
  by (erule keeps_mono) (simp add: quiet_def orders_evolve_same)

lemma query_or_none_evolves: "keeps orders_evolve (query_or_none rq)"
  unfolding query_or_none_def by (rule evolve_rules)+

lemma reconcile_after_timeout_evolves: "keeps orders_evolve (reconcile_after_timeout acc order symbol cid actor)"
  unfolding reconcile_after_timeout_def by (rule evolve_rules query_or_none_evolves)+

lemma handle_existing_evolves: "keeps orders_evolve (handle_existing acc row)"
  unfolding handle_existing_def by (rule evolve_rules query_or_none_evolves)+

lemma record_outcome_evolves: "keeps orders_evolve (record_outcome acc order symbol cid actor action af ex qty outcome)"
  unfolding record_outcome_def by (rule evolve_rules reconcile_after_timeout_evolves)+

lemma place_and_record_evolves: "keeps orders_evolve (place_and_record acc rl symbol sd ot q p n rp idem eq actor sp)"
  unfolding place_and_record_def by (rule evolve_rules record_outcome_evolves)+

lemma consume_override_orders: "keeps orders_evolve (consume_override a v i)"
  by (rule keeps_mono [OF consume_override_frame]) (simp add: risk_frame_def orders_evolve_same)

lemma enforce_caps_evolves: "keeps orders_evolve (enforce_caps_or_override acc pol symbol n x idem)"
  unfolding enforce_caps_or_override_def by (rule evolve_rules consume_override_orders)+

lemma execute_one_sized_evolves: "keeps orders_evolve (execute_one_sized acc symbol sd entry stop risk idem ot actor)"
  unfolding execute_one_sized_def
  by (rule evolve_rules handle_existing_evolves quiet_ops [THEN quiet_evolves] place_and_record_evolves enforce_caps_evolves)+

lemma execute_one_direct_evolves: "keeps orders_evolve (execute_one_direct aid symbol sd ot q p idem actor sp)"
  unfolding execute_one_direct_def
  by (rule evolve_rules handle_existing_evolves quiet_ops [THEN quiet_evolves] place_and_record_evolves enforce_caps_evolves)+

lemma execute_oco_direct_evolves: "keeps orders_evolve (execute_oco_direct aid symbol sd q p sp slp idem actor)"
  unfolding execute_oco_direct_def
  by (rule evolve_rules handle_existing_evolves quiet_ops [THEN quiet_evolves] record_outcome_evolves enforce_caps_evolves)+

lemma place_order_evolves: "keeps orders_evolve (place_order a b c d ee f g h actor)"
  unfolding place_order_def by (rule evolve_rules execute_one_direct_evolves)+

lemma place_oco_order_evolves: "keeps orders_evolve (place_oco_order a b c d ee f g h actor)"
  unfolding place_oco_order_def by (rule evolve_rules execute_oco_direct_evolves)+

lemma execute_on_accounts_evolves: "keeps orders_evolve (execute_on_accounts a b c d ee f g h i actor)"
  unfolding execute_on_accounts_def by (rule evolve_rules execute_one_sized_evolves quiet_ops [THEN quiet_evolves])+

lemma reconcile_one_evolves: "keeps orders_evolve (reconcile_one order st)"
  unfolding reconcile_one_def by (rule evolve_rules)+

lemma reconcile_open_orders_evolves: "keeps orders_evolve reconcile_open_orders"
  unfolding reconcile_open_orders_def by (rule evolve_rules reconcile_one_evolves quiet_ops [THEN quiet_evolves])+

end
