(* ===== verification/Order_Safety.thy ===== *)
theory Order_Safety
  imports Orders
begin

text \<open>
  The guarantees of order execution: at most one submission per account and idempotency key,
  only for real accounts, only after the balance and policy gates, recorded before it is sent,
  and reported as it is stored.
\<close>

definition demo_order :: "string \<Rightarrow> string \<Rightarrow> order_status \<Rightarrow> order_row" where
  "demo_order aid idem st = \<lparr>o_order_id = ''u'' @ idem, o_account_id = aid, o_idempotency_key = idem, o_symbol = ''BTCUSDT'', o_side = SELL,
     o_order_type = MARKET, o_quantity = 1, o_price = None, o_stop_price = None, o_stop_limit_price = None, o_status = st,
     o_exchange_order_id = None, o_client_order_id = idem, o_executed_qty = Fin 0, o_avg_price = Fin 0, o_notional = 100,
     o_reference_price = 100, o_equity_snapshot = 1000, o_error_code = None, o_created_at = 1, o_updated_at = 1\<rparr>"

subsection \<open>Reasoning through quiet steps\<close>

lemma wp_bind_quiet:
  assumes "keeps quiet m" "quiet w0 w"
    and "\<And>x w'. quiet w0 w' \<Longrightarrow> Q (Inl x) w'"
    and "\<And>y w'. m e w = (Inr y, w') \<Longrightarrow> quiet w0 w' \<Longrightarrow> wp e (f y) Q w'"
  shows "wp e (mbind m f) Q w"
proof -
  obtain r w' where r: "m e w = (r, w')" by fastforce
  with assms(1) have "quiet w w'" by (rule keepsD)
  with assms(2) have q: "quiet w0 w'" by (rule quiet.R_trans)
  show ?thesis
    using r q assms(3,4) by (cases r) (simp_all add: wp_def mbind_def)
qed

lemma mlift_Inr: "mlift r e w = (Inr y, w') \<longleftrightarrow> r = Inr y \<and> w' = w"
  by (auto simp: mlift_def)

lemma menv_Inr: "menv f e w = (Inr y, w') \<longleftrightarrow> y = f e \<and> w' = w"
  by (auto simp: menv_def)

lemma db_read_Inr: "db_read f e w = (Inr y, w') \<longleftrightarrow> y = f (w_db w) \<and> w' = w"
  by (auto simp: db_read_def)

lemma get_account_Inr: "get_account aid e w = (Inr acc, w') \<Longrightarrow> \<exists>row. find_account aid (w_db w) = Some row \<and> acc = public_account row"
  by (auto simp: get_account_def run_defs split: option.splits)

lemma is_real_True:
  "is_real acc e w = (Inr True, w') \<Longrightarrow>
     trading_lock acc = ''real'' \<and> (\<exists>row. find_account (account_id acc) (w_db w) = Some row \<and> row_configured row)"
  by (auto simp: is_real_def get_credentials_def run_defs raise_if_def split: if_splits option.splits prod.splits sum.splits)

lemma broker_balance_Inr: "broker_balance aid e w = (Inr bs, w') \<Longrightarrow> \<exists>t. b_balance e t aid = Inr bs"
  by (auto simp: broker_balance_def msend_def)

lemma require_filters_Inr: "require_filters symbol e w = (Inr f, w') \<Longrightarrow> \<exists>t. market_filters e t symbol = Inr (Some f)"
  by (auto simp: require_filters_def run_defs split: sum.splits option.splits)

lemma get_policy_Inr:
  "get_policy (PStr aid) e w = (Inr pol, w') \<Longrightarrow> pol = policy_of_row (find_policy (py_strip aid) (w_db w)) (py_strip aid)"
  by (auto simp: get_policy_def req_string_def run_defs split: if_splits)

lemma current_exposure_Inr:
  assumes "current_exposure aid q e w = (Inr x, w')"
  shows "\<exists>held. x = open_order_notional aid (w_db w) + held"
  by (rule exI [of _ "x - open_order_notional aid (w_db w)"]) simp

subsection \<open>The gates\<close>

definition override_used :: "string \<Rightarrow> string \<Rightarrow> world \<Rightarrow> bool" where
  "override_used aid idem w =
     (\<exists>r\<in>set (overrides (w_db w)). ov_account_id r = aid \<and> ov_state r = APPLIED \<and> ov_consumed_by_idem r = Some idem)"

lemma consume_some_used:
  "wp e (consume_override (PStr aid) v (PStr idem)) (\<lambda>r w'. \<forall>c. r = Inr (Some c) \<longrightarrow> override_used (py_strip aid) idem w') w"
proof (cases "py_strip aid = [] \<or> py_strip idem = []")
  case True
  then show ?thesis by (auto simp: consume_override_def req_string_def wp_simps wp_mbind)
next
  case False
  let ?now = "now_at e (w_tick w)"
  show ?thesis
  proof (cases "candidate (py_strip aid) v ?now (w_db w)")
    case None
    with False show ?thesis
      by (simp add: consume_override_def req_string_def consume_tx_def wp_simps wp_bind_simps)
  next
    case (Some c)
    from candidate_SomeD [OF Some] have c: "c \<in> set (overrides (w_db w))" "ov_state c = RESERVED" "ov_account_id c = py_strip aid"
      by (auto simp: usable_def)
    let ?c = "c\<lparr>ov_state := APPLIED, ov_applied_at := Some ?now, ov_consumed_by_idem := Some idem\<rparr>"
    have m: "?c \<in> set (overrides (apply_override (ov_override_id c) ?now idem (w_db w)))"
      using c by (auto simp: apply_override_def set_upd_where intro!: image_eqI [of _ _ c])
    have u: "override_used (py_strip aid) idem w'"
      if "overrides (w_db w') = overrides (apply_override (ov_override_id c) ?now idem (w_db w))" for w'
      unfolding override_used_def that using m c by (intro bexI [of _ ?c]) simp_all
    show ?thesis
      using False Some
      by (auto simp: consume_override_def req_string_def consume_tx_def wp_simps wp_bind_simps audit_frame_def
          intro!: wp_audit u)
  qed
qed

lemma wp_enforce_caps:
  assumes "py_strip (account_id acc) = account_id acc"
  shows "wp e (enforce_caps_or_override acc pol symbol n x idem) (\<lambda>r w'. risk_frame w w'
     \<and> (r = Inr () \<longrightarrow> caps_ok symbol n pol x \<or> override_used (account_id acc) idem w')) w"
proof (cases "enforce_policy_caps (PStr symbol) (PFloat (Fin n)) pol (PFloat (Fin x))")
  case (Inr u)
  then have "caps_ok symbol n pol x" by (simp add: enforce_policy_caps_ok)
  with Inr show ?thesis by (simp add: enforce_caps_or_override_def wp_simps risk_frame.R_refl)
next
  case (Inl ex)
  have "wp e (consume_override (PStr (account_id acc)) (policy_version pol) (PStr idem))
      (\<lambda>r w'. risk_frame w w' \<and> (\<forall>c. r = Inr (Some c) \<longrightarrow> override_used (account_id acc) idem w')) w"
    using wp_conj [OF keeps_wp [OF consume_override_frame] consume_some_used [of e "account_id acc" "policy_version pol" idem w]] assms by simp
  then have "wp e (mbind (consume_override (PStr (account_id acc)) (policy_version pol) (PStr idem))
      (\<lambda>ov. case ov of None \<Rightarrow> mraise ex | Some _ \<Rightarrow> mret ())) (\<lambda>r w'. risk_frame w w'
     \<and> (r = Inr () \<longrightarrow> override_used (account_id acc) idem w')) w"
    unfolding wp_mbind by (rule wp_mono) (auto simp: wp_simps split: sum.splits option.splits)
  with Inl show ?thesis
    by (auto simp: enforce_caps_or_override_def wp_simps risk_frame.R_refl elim: wp_mono)
qed

lemma available_BUY:
  "check_available_balance bs (side_name BUY) base quote q n fee = Inr () \<Longrightarrow> n + fee \<le> balance_of bs quote"
  by (simp add: check_available_balance_def side_or_buy_def py_upper_def upper_char_def Let_def)

lemma available_SELL:
  "check_available_balance bs (side_name SELL) base quote q n fee = Inr () \<Longrightarrow> q \<le> balance_of bs base"
  by (simp add: check_available_balance_def side_or_buy_def py_upper_def upper_char_def Let_def)

subsection \<open>Inserting and updating a row\<close>

text \<open>Nothing but the orders and the audit table changes.\<close>

definition orders_frame :: "world \<Rightarrow> world \<Rightarrow> bool" where
  "orders_frame w w' =
     (accounts (w_db w') = accounts (w_db w) \<and> policies (w_db w') = policies (w_db w)
      \<and> overrides (w_db w') = overrides (w_db w) \<and> reconciled (w_db w') = reconciled (w_db w)
      \<and> alerts (w_db w') = alerts (w_db w) \<and> triggered (w_db w') = triggered (w_db w)
      \<and> pending (w_db w') = pending (w_db w))"

interpretation orders_frame: db_relation orders_frame
  by unfold_locales (simp_all add: orders_frame_def)

lemma update_order_frame: "keeps orders_frame (update_order oid f)"
  by (rule keeps_wpI) (simp add: update_order_def wp_simps wp_mbind orders_frame_def)

lemma insert_order_frame: "keeps orders_frame (insert_order a b c d ee f g h i j k l mm n)"
  by (rule keeps_wpI) (auto simp: insert_order_def wp_simps wp_mbind orders_frame_def Let_def)

lemmas oframe_rules = orders_frame.db_intros keeps_cases update_order_frame insert_order_frame

lemma record_outcome_frame: "keeps orders_frame (record_outcome acc order symbol cid actor action af ex qty outcome)"
  unfolding record_outcome_def reconcile_after_timeout_def query_or_none_def by (rule oframe_rules)+

lemma place_and_record_frame: "keeps orders_frame (place_and_record acc rl symbol sd ot q p n rp idem eq actor sp)"
  unfolding place_and_record_def by (rule oframe_rules record_outcome_frame)+

lemma load_order_evolves:
  assumes "load_order aid idem (w_db w) = Some row" "orders_evolve w w'"
  shows "\<exists>row'. load_order aid idem (w_db w') = Some row' \<and> same_terms row row'"
proof -
  from assms(2) obtain upd new where u: "orders (w_db w') = upd @ new" "list_all2 same_terms (orders (w_db w)) upd"
    by (auto simp: orders_evolve_def)
  have "\<exists>row'. List.find (\<lambda>r. o_account_id r = aid \<and> o_idempotency_key r = idem) ys = Some row' \<and> same_terms row row'"
    if "list_all2 same_terms xs ys" "List.find (\<lambda>r. o_account_id r = aid \<and> o_idempotency_key r = idem) xs = Some row" for xs ys
    using that by (induction xs ys rule: list_all2_induct) (auto simp: same_terms_def split: if_splits)
  from this [OF u(2)] assms(1) u(1) show ?thesis by (auto simp: load_order_def find_append)
qed

lemma wp_insert_order:
  assumes "\<And>x w'. w_db w' = w_db w \<Longrightarrow> w_trace w' = w_trace w \<Longrightarrow> Q (Inl x) w'"
    and "\<And>row w'. w_trace w' = w_trace w \<Longrightarrow> orders (w_db w') = orders (w_db w) @ [row] \<Longrightarrow>
       o_order_id row \<notin> o_order_id ` set (orders (w_db w)) \<Longrightarrow>
       load_order aid idem (w_db w) = None \<Longrightarrow> load_order aid idem (w_db w') = Some row \<Longrightarrow>
       o_account_id row = aid \<Longrightarrow> o_idempotency_key row = idem \<Longrightarrow> o_symbol row = symbol \<Longrightarrow> o_side row = sd \<Longrightarrow>
       o_order_type row = ot \<Longrightarrow> o_quantity row = q \<Longrightarrow> o_price row = p \<Longrightarrow> o_notional row = n \<Longrightarrow> o_status row = st \<Longrightarrow>
       o_client_order_id row = cid \<Longrightarrow> o_stop_price row = sp \<Longrightarrow> o_stop_limit_price row = slp \<Longrightarrow>
       orders_frame w w' \<Longrightarrow> Q (Inr row) w'"
  shows "wp e (insert_order aid idem symbol sd ot q p n rp eq st cid sp slp) Q w"
proof -
  let ?oid = "uuid_at e (Suc (w_tick w))"
  show ?thesis
  proof (cases "list_ex (\<lambda>r. o_order_id r = ?oid \<or> o_account_id r = aid \<and> o_idempotency_key r = idem) (orders (w_db w))")
    case True
    then show ?thesis
      by (simp add: insert_order_def wp_simps wp_mbind assms(1))
  next
    case False
    then have n: "load_order aid idem (w_db w) = None" "?oid \<notin> o_order_id ` set (orders (w_db w))"
      by (auto simp: load_order_def find_None_iff list_ex_iff)
    then have l: "load_order aid idem ((w_db w)\<lparr>orders := orders (w_db w) @ [row]\<rparr>) = Some row"
      if "o_account_id row = aid" "o_idempotency_key row = idem" for row
      using that by (simp add: load_order_def find_append)
    show ?thesis
      unfolding insert_order_def
      using False n by (simp add: wp_simps wp_mbind Let_def) (rule assms(2), simp_all add: l orders_frame_def)
  qed
qed

subsection \<open>One submission\<close>

text \<open>The request carries the terms of the row.\<close>

fun carries :: "order_row \<Rightarrow> brequest \<Rightarrow> bool" where
  "carries r (PlaceOrder a s sd ot q p cid sp) =
     (a = o_account_id r \<and> s = o_symbol r \<and> sd = o_side r \<and> ot = o_order_type r \<and> q = o_quantity r \<and> p = o_price r
      \<and> cid = o_client_order_id r \<and> sp = o_stop_price r)"
| "carries r (PlaceOco a s sd q p sp slp cid) =
     (a = o_account_id r \<and> s = o_symbol r \<and> sd = o_side r \<and> o_order_type r = OCO \<and> q = o_quantity r \<and> o_price r = Some p
      \<and> o_stop_price r = Some sp \<and> o_stop_limit_price r = Some slp \<and> cid = o_client_order_id r)"
| "carries r _ = False"

text \<open>Exactly one order was sent, for a key that had no row, and its row is in the table.\<close>

definition submitted :: "string \<Rightarrow> string \<Rightarrow> string \<Rightarrow> side \<Rightarrow> rat \<Rightarrow> rat \<Rightarrow> world \<Rightarrow> world \<Rightarrow> bool" where
  "submitted aid idem symbol sd q n w w' =
     (\<exists>rq row. places w' = places w @ [rq] \<and> carries row rq \<and> o_symbol row = symbol \<and> o_side row = sd
        \<and> o_quantity row = q \<and> o_notional row = n
        \<and> load_order aid idem (w_db w) = None \<and> load_order aid idem (w_db w') = Some row)"

lemma carries_terms: "same_terms r r' \<Longrightarrow> carries r rq \<Longrightarrow> carries r' rq"
  by (cases rq) (auto simp: same_terms_def)

lemma carries_place: "carries r rq \<Longrightarrow> is_place rq"
  by (cases rq) auto

lemma wp_submit:
  assumes "\<And>row. o_account_id row = aid \<Longrightarrow> o_symbol row = symbol \<Longrightarrow> o_side row = sd \<Longrightarrow> o_order_type row = ot \<Longrightarrow>
      o_quantity row = q \<Longrightarrow> o_price row = p \<Longrightarrow> o_client_order_id row = cid \<Longrightarrow> o_stop_price row = sp \<Longrightarrow>
      o_stop_limit_price row = slp \<Longrightarrow> carries row rq"
  shows "wp e (mbind (db_write (insert_order aid idem symbol sd ot q p n rp eq NEW cid sp slp)) (\<lambda>order.
       mtry (broker_place rq) (record_outcome acc order symbol cid actor action (af order) (ex order) q)))
     (\<lambda>r w'. orders_frame w w' \<and> (places w' = places w \<or> submitted aid idem symbol sd q n w w')) w"
  unfolding wp_mbind wp_db_write
proof (rule wp_insert_order, goal_cases)
  case (1 x w')
  then show ?case by (simp add: orders_frame_def places_def)
next
  case (2 row w1)
  then have c: "carries row rq" by (intro assms) simp_all
  let ?w2 = "w1\<lparr>w_tick := Suc (w_tick w1), w_trace := w_trace w1 @ [rq]\<rparr>"
  let ?m = "record_outcome acc row symbol cid actor action (af row) (ex row) q (b_place e (w_tick w1) rq)"
  have "wp e ?m (\<lambda>r w'. orders_frame w w' \<and> submitted aid idem symbol sd q n w w') ?w2"
  proof (rule wp_mono [OF wp_conj [OF wp_conj [OF keeps_wp [OF record_outcome_frame] keeps_wp [OF record_outcome_no_place]]
        keeps_wp [OF record_outcome_evolves]]])
    fix r :: "order_view res" and w' :: world
    assume a: "(orders_frame ?w2 w' \<and> no_place ?w2 w') \<and> orders_evolve ?w2 w'"
    then have pl: "places w' = places w @ [rq]"
      using 2(1) carries_place [OF c] by (simp add: no_place_def places_def)
    from 2(5) have "load_order aid idem (w_db ?w2) = Some row" by simp
    with a obtain row' where r': "load_order aid idem (w_db w') = Some row'" "same_terms row row'"
      using load_order_evolves by blast
    have "orders_frame w w'"
      using a 2(18) by (auto simp: orders_frame_def)
    moreover have "submitted aid idem symbol sd q n w w'"
      unfolding submitted_def
      by (rule exI [of _ rq], rule exI [of _ row']) (use pl r' carries_terms [OF r'(2) c] 2 in \<open>simp add: same_terms_def\<close>)
    ultimately show "orders_frame w w' \<and> submitted aid idem symbol sd q n w w'" by blast
  qed
  then show ?case
    by (auto simp: broker_place_def wp_mtry wp_simps elim: wp_mono)
qed

lemma wp_paper_no_place:
  "wp e (mbind (db_write (mbind (insert_order a b c d ee f g h i j k l mm n) (\<lambda>order. mbind (audit_in_conn x y (z order)) (\<lambda>_. mret order))))
      (\<lambda>order. mret (v order))) (\<lambda>r w'. orders_frame w w' \<and> places w' = places w) w"
proof -
  let ?m = "mbind (db_write (mbind (insert_order a b c d ee f g h i j k l mm n) (\<lambda>order. mbind (audit_in_conn x y (z order)) (\<lambda>_. mret order))))
      (\<lambda>order. mret (v order))"
  have 1: "keeps orders_frame ?m" by (rule oframe_rules)+
  have 2: "keeps no_place ?m" by (rule no_place_rules insert_order_no_place)+
  show ?thesis
    using wp_conj [OF keeps_wp [OF 1] keeps_wp [OF 2]] by (simp add: no_place_def)
qed

lemma wp_place_and_record:
  "wp e (place_and_record acc rl symbol sd ot (Fin q) p n rp idem eq actor sp)
     (\<lambda>r w'. orders_frame w w' \<and> (places w' = places w \<or> (rl \<and> submitted (account_id acc) idem symbol sd q n w w'))) w"
proof (cases "validate_execution_order
       \<lparr>r_side = PStr (side_name sd), r_order_type = PStr (order_type_name ot), r_quantity = PFloat (Fin q),
        r_price = opt_num p, r_stop_price = opt_num sp, r_stop_limit_price = PNone,
        r_filters = None, r_market_price = PFloat (Fin rp)\<rparr>")
  case (Inl x)
  then show ?thesis by (simp add: place_and_record_def wp_mbind wp_simps orders_frame.R_refl)
next
  case (Inr v)
  then have "require_positive (PFloat (Fin q)) = Inr (v_quantity v)"
    by (auto elim!: validate_execution_order_E)
  then have q: "v_quantity v = q" by (auto split: if_splits)
  show ?thesis
  proof (cases rl)
    case True
    show ?thesis
      unfolding place_and_record_def Inr
      by (simp add: wp_mbind [of e "mlift _"] wp_mbind [of e "menv _"] wp_simps q True)
        (rule wp_mono [OF wp_submit], auto)
  next
    case False
    show ?thesis
      unfolding place_and_record_def Inr
      by (simp add: wp_mbind [of e "mlift _"] wp_mbind [of e "menv _"] wp_simps q False)
        (rule wp_mono [OF wp_paper_no_place], auto)
  qed
qed

subsection \<open>The gates before a submission\<close>

text \<open>The policy in force allows the order on top of the exposure read just before, or an override
  of the account is spent on this very key.\<close>

definition policy_gate :: "env \<Rightarrow> string \<Rightarrow> string \<Rightarrow> string \<Rightarrow> rat \<Rightarrow> world \<Rightarrow> world \<Rightarrow> bool" where
  "policy_gate e aid idem symbol n w w' =
     (override_used aid idem w'
      \<or> (\<exists>w1 w2 x. quiet w w1 \<and> current_exposure aid QUOTE e w1 = (Inr x, w2)
          \<and> caps_ok symbol n (policy_of_row (find_policy aid (w_db w)) aid) (x + n)))"

text \<open>The exchange filters of the symbol accept the quantity and a balance the broker reported covers
  the order, with its fee.\<close>

definition funded :: "env \<Rightarrow> string \<Rightarrow> string \<Rightarrow> side \<Rightarrow> rat \<Rightarrow> rat \<Rightarrow> bool" where
  "funded e aid symbol sd q n =
     (\<exists>t t' bs f. b_balance e t aid = Inr bs \<and> market_filters e t' symbol = Inr (Some f) \<and> lot_ok f q
        \<and> (case sd of BUY \<Rightarrow> n + n * default_fee_rate e \<le> balance_of bs QUOTE | SELL \<Rightarrow> q \<le> balance_of bs (base_asset f)))"

definition gated :: "env \<Rightarrow> account \<Rightarrow> string \<Rightarrow> string \<Rightarrow> world \<Rightarrow> world \<Rightarrow> bool" where
  "gated e acc symbol idem w w' =
     (trading_lock acc = ''real'' \<and> (\<exists>row. find_account (account_id acc) (w_db w) = Some row \<and> row_configured row)
      \<and> (\<exists>sd q n. submitted (account_id acc) idem symbol sd q n w w' \<and> funded e (account_id acc) symbol sd q n
           \<and> policy_gate e (account_id acc) idem symbol n w w'))"

definition sends_gated :: "env \<Rightarrow> account \<Rightarrow> string \<Rightarrow> string \<Rightarrow> world \<Rightarrow> world \<Rightarrow> bool" where
  "sends_gated e acc symbol idem w w' = (places w' = places w \<or> gated e acc symbol idem w w')"

lemma wp_gate:
  assumes q: "quiet w0 w" and s: "py_strip (account_id acc) = account_id acc"
    and err: "\<And>x w'. places w' = places w0 \<Longrightarrow> Q (Inl x) w'"
    and ok: "\<And>w'. orders (w_db w') = orders (w_db w0) \<Longrightarrow> places w' = places w0 \<Longrightarrow>
       policy_gate e (account_id acc) idem symbol n w0 w' \<Longrightarrow> wp e (k ()) Q w'"
  shows "wp e (mbind (get_policy (PStr (account_id acc))) (\<lambda>pol.
       mbind (current_exposure (account_id acc) QUOTE) (\<lambda>x.
       mbind (enforce_caps_or_override acc pol symbol n (x + n) idem) k))) Q w"
proof (rule wp_bind_quiet [OF get_policy_quiet q], goal_cases)
  case (1 x w')
  then show ?case by (simp add: err quiet_def)
next
  case (2 pol w1)
  from get_policy_Inr [OF 2(1)] s q have pol: "pol = policy_of_row (find_policy (account_id acc) (w_db w0)) (account_id acc)"
    by (simp add: quiet_def)
  show ?case
  proof (rule wp_bind_quiet [OF current_exposure_quiet 2(2)], goal_cases)
    case (1 x w')
    then show ?case by (simp add: err quiet_def)
  next
    case (2 x w2)
    show ?case
      unfolding wp_mbind
    proof (rule wp_mono [OF wp_enforce_caps [OF s]])
      fix r :: "unit res" and w3 :: world
      assume a: "risk_frame w2 w3 \<and> (r = Inr () \<longrightarrow> caps_ok symbol n pol (x + n) \<or> override_used (account_id acc) idem w3)"
      with 2(2) have pl: "places w3 = places w0" by (simp add: risk_frame_def quiet_def places_def)
      have fr: "orders (w_db w3) = orders (w_db w0)" using a 2(2) by (simp add: risk_frame_def quiet_def)
      have "policy_gate e (account_id acc) idem symbol n w0 w3" if "r = Inr ()"
        using a that 2(1) \<open>quiet w0 w1\<close> unfolding policy_gate_def pol [symmetric] by blast
      with pl fr show "case r of Inl x \<Rightarrow> Q (Inl x) w3 | Inr y \<Rightarrow> wp e (k y) Q w3"
        by (cases r) (auto intro: err ok)
    qed
  qed
qed

text \<open>Joining the gates and the submission.\<close>

lemma gatedI:
  assumes "trading_lock acc = ''real''" "find_account (account_id acc) (w_db w0) = Some row" "row_configured row"
    and "funded e (account_id acc) symbol sd q n"
    and fr: "orders (w_db w) = orders (w_db w0)" and pl: "places w = places w0"
    and gate: "policy_gate e (account_id acc) idem symbol n w0 w"
    and "submitted (account_id acc) idem symbol sd q n w w'" and of: "orders_frame w w'"
  shows "gated e acc symbol idem w0 w'"
proof -
  have "policy_gate e (account_id acc) idem symbol n w0 w'"
    using gate of by (auto simp: policy_gate_def override_used_def orders_frame_def)
  moreover have "submitted (account_id acc) idem symbol sd q n w0 w'"
    using assms(8) fr pl by (auto simp: submitted_def risk_frame_def load_order_def)
  ultimately show ?thesis using assms(1-4) unfolding gated_def by blast
qed

lemma sends_gatedI:
  assumes rl: "rl \<Longrightarrow> trading_lock acc = ''real'' \<and> (\<exists>row. find_account (account_id acc) (w_db w0) = Some row \<and> row_configured row)"
    and "funded e (account_id acc) symbol sd q n" "orders (w_db w) = orders (w_db w0)" "places w = places w0"
    and "policy_gate e (account_id acc) idem symbol n w0 w"
    and "orders_frame w w' \<and> (places w' = places w \<or> rl \<and> submitted (account_id acc) idem symbol sd q n w w')"
  shows "sends_gated e acc symbol idem w0 w'"
proof (cases "places w' = places w")
  case True
  with assms(4) show ?thesis by (simp add: sends_gated_def)
next
  case False
  with assms(6) rl obtain row where "trading_lock acc = ''real''" "find_account (account_id acc) (w_db w0) = Some row" "row_configured row"
    "submitted (account_id acc) idem symbol sd q n w w'" "orders_frame w w'" by blast
  with gatedI [OF this(1-3) assms(2-5)] show ?thesis by (simp add: sends_gated_def)
qed

lemma sends_gated_quiet: "quiet w0 w \<Longrightarrow> sends_gated e acc symbol idem w0 w"
  by (simp add: sends_gated_def quiet_def)

lemma fundedI:
  assumes "b_balance e t aid = Inr bs" "market_filters e t' symbol = Inr (Some f)" "lot_ok f q"
    and "check_available_balance bs (side_name sd) (base_asset f) QUOTE q n (n * default_fee_rate e) = Inr ()"
  shows "funded e aid symbol sd q n"
  using assms(4) unfolding funded_def
  by (intro exI [of _ t] exI [of _ t'] exI [of _ bs] exI [of _ f])
    (cases sd; use assms(1-3) in \<open>auto dest: available_BUY [simplified] available_SELL [simplified]\<close>)

subsection \<open>The executors\<close>

lemma wp_step:
  assumes "keeps quiet m" "quiet w0 w"
    and "\<And>y w'. m e w = (Inr y, w') \<Longrightarrow> quiet w0 w' \<Longrightarrow> wp e (f y) (\<lambda>r w'. sends_gated e acc symbol idem w0 w') w'"
  shows "wp e (mbind m f) (\<lambda>r w'. sends_gated e acc symbol idem w0 w') w"
  by (rule wp_bind_quiet [OF assms(1,2) sends_gated_quiet assms(3)])

text \<open>An existing row: nothing is sent.\<close>

lemma wp_existing: "quiet w0 w \<Longrightarrow> wp e (handle_existing acc row) (\<lambda>r w'. sends_gated e acc' symbol idem w0 w') w"
  by (rule wp_mono [OF keeps_wp [OF handle_existing_no_place]]) (simp add: sends_gated_def no_place_def quiet_def)

text \<open>Past the lock: what is known of a real account.\<close>

lemma is_real_known:
  assumes "is_real acc e w = (Inr rl, w')" "quiet w0 w"
  shows "rl \<Longrightarrow> trading_lock acc = ''real'' \<and> (\<exists>row. find_account (account_id acc) (w_db w0) = Some row \<and> row_configured row)"
  using is_real_True [of acc e w w'] assms by (simp add: quiet_def)

lemma wp_place_gated:
  assumes "rl \<Longrightarrow> trading_lock acc = ''real'' \<and> (\<exists>row. find_account (account_id acc) (w_db w0) = Some row \<and> row_configured row)"
    and "funded e (account_id acc) symbol sd q n" "orders (w_db w) = orders (w_db w0)" "places w = places w0"
    and "policy_gate e (account_id acc) idem symbol n w0 w"
  shows "wp e (place_and_record acc rl symbol sd ot (Fin q) p n rp idem eq actor sp)
     (\<lambda>r w'. sends_gated e acc symbol idem w0 w') w"
  using wp_mono [OF wp_place_and_record sends_gatedI [OF assms]] .

lemma gate_equity:
  assumes "\<And>y w'. orders (w_db w') = orders (w_db w0) \<Longrightarrow> places w' = places w0 \<Longrightarrow> policy_gate e aid idem symbol n w0 w' \<Longrightarrow>
      wp e (k y) (\<lambda>r w'. sends_gated e acc symbol' idem' w0 w') w'"
    and "orders (w_db w) = orders (w_db w0)" "places w = places w0" "policy_gate e aid idem symbol n w0 w"
  shows "wp e (mbind (equity_from_balances bs quote) k) (\<lambda>r w'. sends_gated e acc symbol' idem' w0 w') w"
proof (rule wp_bind_quiet [OF equity_quiet quiet.R_refl], goal_cases)
  case (1 x w')
  with assms(3) show ?case by (simp add: sends_gated_def quiet_def)
next
  case (2 y w')
  with assms(2-4) show ?case by (intro assms(1)) (simp_all add: quiet_def policy_gate_def override_used_def)
qed

lemma wp_execute_one_direct:
  assumes aid: "account_id (public_account arow) = aid" and "py_strip aid = aid" "find_account aid (w_db w0) = Some arow"
  shows "wp e (execute_one_direct aid symbol sd ot q p idem actor sp) (\<lambda>r w'. sends_gated e (public_account arow) symbol idem w0 w') w0"
  unfolding execute_one_direct_def
  apply (rule wp_step [OF get_account_quiet quiet.R_refl])
  apply (rule wp_step [OF quiet.resp_read], assumption)
  apply (split option.split, intro conjI impI allI)
   prefer 2 apply (erule wp_existing)
  apply (rule wp_step [OF is_real_quiet], assumption)
  apply (rule wp_step [OF check_symbol_and_price_quiet], assumption)
  apply (rule wp_step [OF require_filters_quiet], assumption)
  apply (rule wp_step [OF quiet.resp_lift], assumption)
  apply (rule wp_step [OF quiet.resp_lift], assumption)
  apply (rule wp_step [OF quiet_broker(3)], assumption)
  apply (rule wp_step [OF quiet.resp_env], assumption)
  apply (rule wp_step [OF quiet.resp_lift], assumption)
  subgoal premises prems for acc w1 ex w2 rl w3 mp w4 f w5 v w6 n w7 bs w8 fr w9 u w10
  proof -
    have [simp]: "acc = public_account arow" using get_account_Inr [OF prems(1)] assms(3) by auto
    have v: "validate_execution_order \<lparr>r_side = PStr (side_name sd), r_order_type = PStr (order_type_name ot), r_quantity = PFloat (Fin q),
       r_price = opt_num p, r_stop_price = opt_num sp, r_stop_limit_price = PNone, r_filters = Some f, r_market_price = PFloat (Fin mp)\<rparr> = Inr v"
      using prems by (simp add: mlift_Inr)
    obtain t t' where "b_balance e t aid = Inr bs" "market_filters e t' symbol = Inr (Some f)"
      using broker_balance_Inr require_filters_Inr prems by meson
    then have fu: "funded e aid symbol (v_side v) (v_quantity v) n"
      by (rule fundedI) (use validate_execution_order_Inr(4) [OF v] prems in \<open>simp_all add: mlift_Inr menv_Inr\<close>)
    note rl = is_real_known [OF \<open>is_real acc e w2 = (Inr rl, w3)\<close> \<open>quiet w0 w2\<close>]
    show ?thesis
      unfolding \<open>acc = _\<close>
      by (rule wp_gate [of w0 w10 "public_account arow" _ e idem symbol n, unfolded aid, OF \<open>quiet w0 w10\<close> assms(2)])
        (simp add: sends_gated_def,
         rule gate_equity, rule wp_place_gated [where acc = "public_account arow", unfolded aid], use rl fu in \<open>simp_all add: aid\<close>)
  qed
  done

lemma wp_execute_oco_direct:
  assumes aid: "account_id (public_account arow) = aid" and "py_strip aid = aid" "find_account aid (w_db w0) = Some arow"
  shows "wp e (execute_oco_direct aid symbol sd q p sp slp idem actor) (\<lambda>r w'. sends_gated e (public_account arow) symbol idem w0 w') w0"
  unfolding execute_oco_direct_def
  apply (rule wp_step [OF get_account_quiet quiet.R_refl])
  apply (rule wp_step [OF quiet.resp_read], assumption)
  apply (split option.split, intro conjI impI allI)
   prefer 2 apply (erule wp_existing)
  apply (rule wp_step [OF is_real_quiet], assumption)
  apply (rule wp_step [OF check_symbol_and_price_quiet], assumption)
  apply (rule wp_step [OF require_filters_quiet], assumption)
  apply (rule wp_step [OF quiet.resp_lift], assumption)
  apply (rule wp_step [OF quiet.resp_lift], assumption)
  apply (rule wp_step [OF quiet_broker(3)], assumption)
  apply (rule wp_step [OF quiet.resp_env], assumption)
  apply (rule wp_step [OF quiet.resp_lift], assumption)
  subgoal premises prems for acc w1 ex w2 rl w3 mp w4 f w5 v w6 n w7 bs w8 fr w9 u w10
  proof -
    have [simp]: "acc = public_account arow" using get_account_Inr [OF prems(1)] assms(3) by auto
    have v: "validate_execution_order \<lparr>r_side = PStr (side_name sd), r_order_type = PStr (order_type_name OCO), r_quantity = PFloat (Fin q),
       r_price = PFloat (Fin p), r_stop_price = PFloat (Fin sp), r_stop_limit_price = PFloat (Fin slp), r_filters = Some f,
       r_market_price = PFloat (Fin mp)\<rparr> = Inr v"
      using prems by (simp add: mlift_Inr)
    then have q: "v_quantity v = q" by (auto elim!: validate_execution_order_E split: if_splits)
    obtain t t' where "b_balance e t aid = Inr bs" "market_filters e t' symbol = Inr (Some f)"
      using broker_balance_Inr require_filters_Inr prems by meson
    then have fu: "funded e aid symbol (v_side v) q n"
      by (rule fundedI) (use validate_execution_order_Inr(4) [OF v] prems q in \<open>simp_all add: mlift_Inr menv_Inr\<close>)
    note rl = is_real_known [OF \<open>is_real acc e w2 = (Inr rl, w3)\<close> \<open>quiet w0 w2\<close>]
    have sg: "sends_gated e (public_account arow) symbol idem w0 w'"
      if "orders_frame w w' \<and> (places w' = places w \<or> submitted aid idem symbol (v_side v) q n w w')" rl
        "orders (w_db w) = orders (w_db w0)" "places w = places w0" "policy_gate e aid idem symbol n w0 w" for w w'
      by (rule sends_gatedI [where acc = "public_account arow" and rl = rl, unfolded aid, OF rl [unfolded \<open>acc = _\<close> aid] fu that(3-5)])
        (use that(1,2) in blast)+
    show ?thesis
      unfolding \<open>acc = _\<close>
      apply (rule wp_gate [of w0 w10 "public_account arow" _ e idem symbol n, unfolded aid, OF \<open>quiet w0 w10\<close> assms(2)])
       apply (simp add: sends_gated_def)
      apply (rule gate_equity [of w0 e aid idem symbol n])
         apply (simp add: wp_mbind [of e "menv _"] wp_simps)
         apply (intro conjI impI)
          apply (rule wp_mono [OF wp_paper_no_place], simp add: sends_gated_def)
         apply (rule wp_mono [OF wp_submit], simp)
         apply (erule (4) sg)
        apply simp_all
      done
  qed
  done

lemma require_positive_PFloat: "require_positive (PFloat x) = Inr q \<Longrightarrow> x = Fin q"
  by (cases x) (auto simp: require_positive_def require_finite_def split: if_splits)

lemma checked_side:
  assumes "normalize_side (PStr sd) = Inr d" "check_available_balance bs (py_upper sd) base quote q n fee = Inr ()"
  shows "py_upper sd = side_name d"
proof -
  from assms(1) have n: "sd \<noteq> []" "py_upper (py_strip sd) = side_name d"
    by (auto simp: normalize_side_def py_strip_def map_of_SIDES split: if_splits option.splits)
  from assms(2) n(1) have "py_upper (py_upper sd) = ''BUY'' \<or> py_upper (py_upper sd) = ''SELL''"
    by (auto simp: check_available_balance_def side_or_buy_def py_upper_def Let_def split: if_splits)
  then have u: "py_upper sd = ''BUY'' \<or> py_upper sd = ''SELL''" by simp
  then have "py_strip (py_upper sd) = py_upper sd" by (auto simp: py_strip_def is_space_def)
  with n(2) show ?thesis by (simp add: strip_upper)
qed

lemma wp_execute_one_sized:
  assumes "py_strip (account_id acc) = account_id acc"
  shows "wp e (execute_one_sized acc symbol sd entry stop risk idem ot actor) (\<lambda>r w'. sends_gated e acc symbol idem w0 w') w0"
  unfolding execute_one_sized_def Let_def
  apply (rule wp_step [OF quiet.resp_read quiet.R_refl])
  apply (split option.split, intro conjI impI allI)
   prefer 2 apply (erule wp_existing)
  apply (rule wp_step [OF is_real_quiet], assumption)
  apply (rule wp_step [OF accuracy_preflight_quiet], assumption)
  apply (rule wp_step [OF quiet.resp_market(2)], assumption)
  apply (rule wp_step [OF quiet_broker(3)], assumption)
  apply (rule wp_step [OF equity_quiet], assumption)
  apply (rule wp_step [OF require_filters_quiet], assumption)
  apply (rule wp_step [OF quiet.resp_guard], assumption)
  apply (rule wp_step [OF quiet.resp_env], assumption)
  apply (rule wp_step [OF quiet.resp_lift], assumption)
  apply (rule wp_step [OF quiet.resp_lift], assumption)
  apply (rule wp_step [OF quiet.resp_lift], assumption)
  apply (rule wp_step [OF quiet.resp_lift], assumption)
  subgoal premises prems for ex w1 rl w2 u1 w3 po w4 bs w5 equity w6 f w7 u2 w8 fr w9 sized w10 price w11 v w12 u3 w13
  proof -
    let ?r = "\<lparr>r_side = PStr sd, r_order_type = PStr (order_type_name ot), r_quantity = PFloat (sz_quantity sized),
       r_price = (if ot = LIMIT \<or> ot = STOP_LOSS_LIMIT then PFloat (Fin entry) else PNone),
       r_stop_price = (if ot = STOP_LOSS_LIMIT then PFloat (Fin stop) else PNone),
       r_stop_limit_price = PNone, r_filters = Some f, r_market_price = PFloat (Fin price)\<rparr>"
    have v: "validate_execution_order ?r = Inr v" using prems by (simp add: mlift_Inr)
    then have q: "sz_quantity sized = Fin (v_quantity v)" and sd1: "normalize_side (PStr sd) = Inr (v_side v)"
      by (auto elim!: validate_execution_order_E dest: require_positive_PFloat)
    have sd: "py_upper sd = side_name (v_side v)"
      using checked_side [OF sd1, of bs "base_asset f" QUOTE "v_quantity v" "v_quantity v * price" "v_quantity v * price * fr"] prems
      by (simp add: mlift_Inr)
    obtain t t' where t: "b_balance e t (account_id acc) = Inr bs" "market_filters e t' symbol = Inr (Some f)"
      using broker_balance_Inr require_filters_Inr prems by meson
    have fu: "funded e (account_id acc) symbol (v_side v) (v_quantity v) (v_quantity v * price)"
      using fundedI [OF t] validate_execution_order_Inr(4) [OF v] prems sd
      by (simp add: mlift_Inr menv_Inr)
    note rl = is_real_known [OF \<open>is_real acc e w1 = (Inr rl, w2)\<close> \<open>quiet w0 w1\<close>]
    show ?thesis
      by (rule wp_gate [OF \<open>quiet w0 w13\<close> assms])
        (simp add: sends_gated_def, unfold q, rule wp_place_gated, use rl fu in simp_all)
  qed
  done

lemma find_account_public_id: "find_account aid d = Some row \<Longrightarrow> account_id (public_account row) = aid"
  by (auto simp: find_account_def public_account_def find_Some_iff)

text \<open>A gated call: nothing is sent, or one order of a registered account after all the gates.\<close>

definition call_gated :: "env \<Rightarrow> pyval \<Rightarrow> pyval \<Rightarrow> pyval \<Rightarrow> world \<Rightarrow> world \<Rightarrow> bool" where
  "call_gated e aid_v symbol_v key_v w w' =
     (places w' = places w
      \<or> (\<exists>aid symbol idem arow. req_string aid_v = Inr aid \<and> req_string symbol_v = Inr symbol \<and> req_string key_v = Inr idem
          \<and> find_account aid (w_db w) = Some arow \<and> gated e (public_account arow) symbol idem w w'))"

lemma req_string_stripped: "req_string v = Inr s \<Longrightarrow> py_strip s = s"
  by (auto simp: req_string_def split: pyval.splits if_splits)

lemma no_account_raises:
  "find_account aid (w_db w) = None \<Longrightarrow> wp e (mbind (get_account aid) f) (\<lambda>r w'. w' = w) w"
  by (simp add: wp_def get_account_def run_defs)

lemma call_gatedI:
  assumes "req_string aid_v = Inr aid" "req_string symbol_v = Inr symbol" "req_string key_v = Inr idem"
    and none: "find_account aid (w_db w) = None \<Longrightarrow> wp e m (\<lambda>r w'. w' = w) w"
    and some: "\<And>a. find_account aid (w_db w) = Some a \<Longrightarrow> wp e m (\<lambda>r w'. sends_gated e (public_account a) symbol idem w w') w"
  shows "wp e m (\<lambda>r w'. call_gated e aid_v symbol_v key_v w w') w"
proof (cases "find_account aid (w_db w)")
  case None
  show ?thesis by (rule wp_mono [OF none [OF None]]) (simp add: call_gated_def)
next
  case (Some a)
  show ?thesis
    by (rule wp_mono [OF some [OF Some]]) (use Some assms(1-3) in \<open>auto simp: call_gated_def sends_gated_def\<close>)
qed

lemma call_gated_direct:
  assumes "req_string aid_v = Inr aid" "req_string symbol_v = Inr symbol" "req_string key_v = Inr idem"
  shows "wp e (execute_one_direct aid symbol sd ot q p idem actor sp) (\<lambda>r w'. call_gated e aid_v symbol_v key_v w w') w"
    and "wp e (execute_oco_direct aid symbol sd q p' sp' slp idem actor) (\<lambda>r w'. call_gated e aid_v symbol_v key_v w w') w"
proof -
  note s = req_string_stripped [OF assms(1)]
  show "wp e (execute_one_direct aid symbol sd ot q p idem actor sp) (\<lambda>r w'. call_gated e aid_v symbol_v key_v w w') w"
    by (rule call_gatedI [OF assms], unfold execute_one_direct_def, erule no_account_raises, fold execute_one_direct_def,
        rule wp_execute_one_direct [OF find_account_public_id s])
  show "wp e (execute_oco_direct aid symbol sd q p' sp' slp idem actor) (\<lambda>r w'. call_gated e aid_v symbol_v key_v w w') w"
    by (rule call_gatedI [OF assms], unfold execute_oco_direct_def, erule no_account_raises, fold execute_oco_direct_def,
        rule wp_execute_oco_direct [OF find_account_public_id s])
qed

text \<open>Inputs are checked one after the other; a rejected one changes nothing.\<close>

lemma wp_input:
  assumes "Q (Inl undefined) w" "\<And>x. Q (Inl x) w = Q (Inl undefined) w" "\<And>y. r = Inr y \<Longrightarrow> wp e (f y) Q w"
  shows "wp e (mbind (mlift r) f) Q w"
  using assms by (cases r) (simp_all add: wp_mbind wp_simps)

lemma call_gated_refl: "call_gated e a s k w w"
  by (simp add: call_gated_def)

lemma place_order_call_gated: "wp e (place_order a s sd t q p sp k actor) (\<lambda>r w'. call_gated e a s k w w') w"
  unfolding place_order_def
  by (rule wp_input [of "\<lambda>r w'. call_gated e a s k w w'", OF call_gated_refl refl])+ (rule call_gated_direct)

lemma place_oco_call_gated: "wp e (place_oco_order a s sd q p sp slp k actor) (\<lambda>r w'. call_gated e a s k w w') w"
  unfolding place_oco_order_def
  by (rule wp_input [of "\<lambda>r w'. call_gated e a s k w w'", OF call_gated_refl refl])+ (rule call_gated_direct)

text \<open>C2: Direct orders are gated. Whatever the inputs, the environment and the state,
  \<open>place_order\<close> and \<open>place_oco_order\<close> send either no order or exactly one, and they send one only
  for a registered account whose lock is \<open>real\<close> and whose credentials are stored, for an
  idempotency key that had no row, with the row of the order in the table afterwards and carrying
  the very terms that were sent, after a balance reported by the broker covered it (with the fee
  for a buy) and the lot filter accepted its quantity, and only when the policy in force admits
  it on top of the exposure just read, unless an override of that account was spent on this key.\<close>

theorem direct_orders_gated:
  "wp e (place_order a s sd t q p sp k actor) (\<lambda>r w'. call_gated e a s k w w') w
   \<and> wp e (place_oco_order a s sd q p sp slp k actor) (\<lambda>r w'. call_gated e a s k w w') w"
  by (rule conjI [OF place_order_call_gated place_oco_call_gated])

text \<open>A retry never sends: when a row for the account and the idempotency key exists, a call of
  \<open>place_order\<close>, \<open>place_oco_order\<close> or the sizing executor with that key places no order, whatever
  the state of that row and the other arguments.\<close>

theorem retry_never_sends:
  assumes "req_string a = Inr aid" "req_string k = Inr idem" "load_order aid idem (w_db w) = Some row"
    and "account_id acc = aid"
  shows "wp e (place_order a s sd t q p sp k actor) (\<lambda>r w'. places w' = places w) w
     \<and> wp e (place_oco_order a s sd q p sp slp k actor) (\<lambda>r w'. places w' = places w) w
     \<and> wp e (execute_one_sized acc symbol side entry stop risk idem ot actor) (\<lambda>r w'. places w' = places w) w"
proof -
  have n: "places w' = places w" if "call_gated e a s k w w'" for w'
    using that assms find_account_public_id by (auto simp: call_gated_def gated_def submitted_def)
  have sz: "places w' = places w" if "sends_gated e acc symbol idem w w'" for w'
    using that assms by (auto simp: sends_gated_def gated_def submitted_def)
  have 3: "wp e (execute_one_sized acc symbol side entry stop risk idem ot actor) (\<lambda>r w'. sends_gated e acc symbol idem w w') w"
    by (rule wp_execute_one_sized) (use assms(1,4) req_string_stripped in blast)
  show ?thesis
    by (intro conjI wp_mono [OF place_order_call_gated n] wp_mono [OF place_oco_call_gated n] wp_mono [OF 3 sz])
qed

theorem retry_never_sends_witness:
  "load_order ''a'' ''k'' (w_db (demo_world (demo_db\<lparr>accounts := [demo_account ''a'' ''real''], orders := [demo_order ''a'' ''k'' UNKNOWN]\<rparr>)))
     = Some (demo_order ''a'' ''k'' UNKNOWN)
   \<and> wp demo_env (place_order (PStr ''a'') (PStr ''BTCUSDT'') (PStr ''BUY'') (PStr ''MARKET'') (PInt 1) PNone PNone (PStr ''k'') [])
       (\<lambda>r w'. places w' = [])
       (demo_world (demo_db\<lparr>accounts := [demo_account ''a'' ''real''], orders := [demo_order ''a'' ''k'' UNKNOWN]\<rparr>))"
proof -
  let ?w = "demo_world (demo_db\<lparr>accounts := [demo_account ''a'' ''real''], orders := [demo_order ''a'' ''k'' UNKNOWN]\<rparr>)"
  have 1: "load_order ''a'' ''k'' (w_db ?w) = Some (demo_order ''a'' ''k'' UNKNOWN)"
    by (simp add: load_order_def demo_order_def demo_defs)
  have 2: "account_id (public_account (demo_account ''a'' ''real'')) = ''a''" by (simp add: public_account_def demo_defs)
  have 3: "req_string (PStr ''a'') = Inr ''a''" "req_string (PStr ''k'') = Inr ''k''"
    by (simp_all add: req_string_def py_strip_def is_space_def)
  have "places ?w = []" by (simp add: places_def demo_defs)
  with retry_never_sends [OF 3 1 2, THEN conjunct1] 1 show ?thesis by metis
qed

subsection \<open>A timeout is reconciled, not repeated\<close>

definition is_timeout :: "pyexc \<Rightarrow> bool" where
  "is_timeout x = (x = AsyncTimeout \<or> is_rasat x \<and> exc_code x = TIMEOUT)"

text \<open>The view a caller gets is the row of the key in the table.\<close>

definition reported :: "string \<Rightarrow> string \<Rightarrow> order_view res \<Rightarrow> world \<Rightarrow> bool" where
  "reported aid idem r w' = (\<forall>v. r = Inr v \<longrightarrow> (\<exists>row ps err. load_order aid idem (w_db w') = Some row \<and> v = order_to_result row ps err))"

lemma load_order_upd:
  assumes "load_order aid idem d = Some row" "keeps_terms f"
  shows "load_order aid idem (d\<lparr>orders := upd_where (\<lambda>r. o_order_id r = o_order_id row) (\<lambda>r. (f r)\<lparr>o_updated_at := now\<rparr>) (orders d)\<rparr>)
     = Some ((f row)\<lparr>o_updated_at := now\<rparr>)"
proof -
  have "o_account_id ((f r)\<lparr>o_updated_at := now\<rparr>) = o_account_id r"
    "o_idempotency_key ((f r)\<lparr>o_updated_at := now\<rparr>) = o_idempotency_key r" for r
    using assms(2) by (simp_all add: keeps_terms_def same_terms_def)
  with assms(1) show ?thesis
    unfolding load_order_def by (simp add: find_upd_where)
qed

lemma order_to_result_updated [simp]: "order_to_result (r\<lparr>o_updated_at := now\<rparr>) ps err = order_to_result r ps err"
  by (simp add: order_to_result_def)

lemma wp_update_reported:
  assumes "load_order aid idem (w_db w) = Some row" "keeps_terms f"
  shows "wp e (mbind (db_write (mbind (update_order (o_order_id row) f) (\<lambda>_. audit_in_conn actor action details)))
      (\<lambda>_. mret (order_to_result (f row) ps err))) (reported aid idem) w"
proof -
  have "wp e (audit_in_conn actor action details) (\<lambda>r w'. case r of Inl x \<Rightarrow> True | Inr y \<Rightarrow> reported aid idem (Inr (order_to_result (f row) ps err)) w') w1"
    if "load_order aid idem (w_db w1) = Some ((f row)\<lparr>o_updated_at := now\<rparr>)" for w1 now
  proof (rule wp_audit)
    fix w' assume "audit_frame w1 w'"
    then have "load_order aid idem (w_db w') = Some ((f row)\<lparr>o_updated_at := now\<rparr>)"
      using that by (simp add: audit_frame_def risk_frame_def load_order_def)
    then show "case Inr () of Inl x \<Rightarrow> True | Inr y \<Rightarrow> reported aid idem (Inr (order_to_result (f row) ps err)) w'"
      by (auto simp: reported_def intro: order_to_result_updated [symmetric])
  qed
  note audited = this
  show ?thesis
    unfolding wp_mbind wp_db_write update_order_def
    by (simp add: wp_mbind wp_simps, rule wp_mono [OF audited [of _ "now_at e (w_tick w)"]])
      (auto simp: load_order_upd [OF assms] reported_def wp_simps split: sum.splits)
qed

lemma reported_Inl [simp]: "reported aid idem (Inl x) w"
  by (simp add: reported_def)

lemma wp_bind_reported:
  assumes "keeps quiet m" "quiet w0 w"
    and "\<And>y w'. m e w = (Inr y, w') \<Longrightarrow> quiet w0 w' \<Longrightarrow> wp e (f y) (reported aid idem) w'"
  shows "wp e (mbind m f) (reported aid idem) w"
  by (rule wp_bind_quiet [OF assms(1,2) _ assms(3)]) simp_all

lemma quiet_load: "quiet w w' \<Longrightarrow> load_order aid idem (w_db w') = load_order aid idem (w_db w)"
  by (simp add: quiet_def)

lemma handle_existing_reported:
  assumes "load_order aid idem (w_db w) = Some row"
  shows "wp e (handle_existing acc row) (reported aid idem) w"
proof -
  have r: "reported aid idem (Inr (order_to_result row None None)) w'" if "load_order aid idem (w_db w') = Some row" for w'
    using that by (auto simp: reported_def)
  show ?thesis
    unfolding handle_existing_def
    apply (split if_split, intro conjI impI, simp add: wp_simps r assms)
    apply (split if_split, intro conjI impI, simp add: wp_simps r assms)
    apply (rule wp_bind_reported [OF query_or_none_quiet quiet.R_refl], simp)
    apply (split option.split, intro conjI impI allI, simp add: wp_simps r assms quiet_load)
    apply (rule wp_update_reported, simp_all add: assms quiet_load)
    done
qed

lemma reconcile_reported:
  assumes "load_order aid idem (w_db w) = Some row"
  shows "wp e (reconcile_after_timeout acc row symbol cid actor) (reported aid idem) w"
  unfolding reconcile_after_timeout_def
  apply (rule wp_bind_reported [OF query_or_none_quiet quiet.R_refl], simp)
  apply (split option.split, intro conjI impI allI)
   apply (rule wp_update_reported, simp_all add: assms quiet_load)
  apply (rule wp_update_reported, simp_all add: assms quiet_load)
  done

lemma record_outcome_reported:
  assumes "load_order aid idem (w_db w) = Some row"
  shows "wp e (record_outcome acc row symbol cid actor action (\<lambda>res. set_result res row) ex q outcome) (reported aid idem) w"
proof (cases outcome)
  case (Inl x)
  then show ?thesis
    unfolding record_outcome_def Let_def sum.case
    by (auto simp: wp_simps intro: reconcile_reported wp_update_reported assms)
next
  case (Inr res)
  then show ?thesis
    unfolding record_outcome_def sum.case by (auto intro: wp_update_reported assms)
qed

lemma insert_reported:
  assumes "\<And>row w'. load_order aid idem (w_db w') = Some row \<Longrightarrow> wp e (k row) (reported aid idem) w'"
  shows "wp e (mbind (db_write (insert_order aid idem symbol sd ot q p n rp eq st cid sp slp)) k) (reported aid idem) w"
  unfolding wp_mbind wp_db_write by (rule wp_insert_order) (simp_all add: assms)

lemma place_and_record_reported:
  "wp e (place_and_record acc rl symbol sd ot q p n rp idem eq actor sp) (reported (account_id acc) idem) w"
proof -
  have paper: "wp e (mbind (db_write (mbind (insert_order aid idem symbol sd ot q' p n rp eq PAPER cid sp slp)
       (\<lambda>order. mbind (audit_in_conn x y (z order)) (\<lambda>_. mret order)))) (\<lambda>order. mret (order_to_result order ps None)))
     (reported aid idem) w" for aid q' cid slp x y z ps w
    unfolding wp_mbind wp_db_write
    by (rule wp_insert_order, simp, simp, rule wp_audit)
      (auto simp: wp_simps reported_def audit_frame_def risk_frame_def load_order_def)
  show ?thesis
    unfolding place_and_record_def Let_def
    by (rule wp_bind_reported [OF quiet.resp_lift quiet.R_refl], rule wp_bind_reported [OF quiet.resp_env], assumption)
      (auto simp: paper broker_place_def wp_mtry wp_simps intro!: insert_reported record_outcome_reported)
qed

lemma enforce_caps_orders:
  assumes "\<And>w'. orders (w_db w') = orders (w_db w) \<Longrightarrow> wp e (k ()) (reported aid idem) w'"
  shows "wp e (mbind (enforce_caps_or_override acc pol symbol n x idem') k) (reported aid idem) w"
proof -
  have "keeps risk_frame (enforce_caps_or_override acc pol symbol n x idem')"
    unfolding enforce_caps_or_override_def by (rule risk_frame.audited_intros keeps_cases consume_override_frame)+
  from wp_mono [OF keeps_wp [OF this]] show ?thesis
    unfolding wp_mbind by (rule wp_mono) (use assms in \<open>auto simp: risk_frame_def split: sum.splits\<close>)
qed

lemma execute_one_direct_reported:
  assumes "\<And>a. find_account aid (w_db w) = Some a \<Longrightarrow> account_id (public_account a) = aid"
  shows "wp e (execute_one_direct aid symbol sd ot q p idem actor sp) (reported aid idem) w"
  unfolding execute_one_direct_def
  apply (rule wp_bind_reported [OF get_account_quiet quiet.R_refl])
  apply (rule wp_bind_reported [OF quiet.resp_read], assumption)
  apply (split option.split, intro conjI impI allI)
   prefer 2 apply (rule handle_existing_reported, simp add: db_read_Inr)
  apply (rule wp_bind_reported [OF is_real_quiet], assumption)
  apply (rule wp_bind_reported [OF check_symbol_and_price_quiet], assumption)
  apply (rule wp_bind_reported [OF require_filters_quiet], assumption)
  apply (rule wp_bind_reported [OF quiet.resp_lift], assumption)
  apply (rule wp_bind_reported [OF quiet.resp_lift], assumption)
  apply (rule wp_bind_reported [OF quiet_broker(3)], assumption)
  apply (rule wp_bind_reported [OF quiet.resp_env], assumption)
  apply (rule wp_bind_reported [OF quiet.resp_lift], assumption)
  apply (rule wp_bind_reported [OF get_policy_quiet], assumption)
  apply (rule wp_bind_reported [OF current_exposure_quiet], assumption)
  apply (rule enforce_caps_orders)
  apply (rule wp_bind_reported [OF equity_quiet quiet.R_refl])
  subgoal premises prems for acc
  proof -
    from get_account_Inr [OF prems(1)] assms have "account_id acc = aid" by auto
    with place_and_record_reported [of e acc] show ?thesis by simp
  qed
  done

text \<open>What \<open>place_order\<close> reports is what it stored: when the call returns, the idempotency key
  has a row and the returned view is the view of that row, on every path (a fresh fill, a paper
  fill, a rejection, a timeout reconciled or left unknown, a retry that re-queries).\<close>

theorem place_order_reports_row:
  "wp e (place_order a s sd t q p sp k actor)
     (\<lambda>r w'. case (r, req_string a, req_string k) of
        (Inr v, Inr aid, Inr idem) \<Rightarrow>
          \<exists>row ps err. load_order aid idem (w_db w') = Some row \<and> v = order_to_result row ps err
      | (Inr v, _, _) \<Rightarrow> False | (Inl x, _, _) \<Rightarrow> True) w"
proof (cases "\<exists>aid idem. req_string a = Inr aid \<and> req_string k = Inr idem")
  case True
  then obtain aid idem where i: "req_string a = Inr aid" "req_string k = Inr idem" by blast
  have "wp e (place_order a s sd t q p sp k actor) (reported aid idem) w"
    unfolding place_order_def i
    by (rule wp_input [of "reported aid idem", OF reported_Inl], simp)+ (simp add: execute_one_direct_reported find_account_public_id)
  then show ?thesis
    by (rule wp_mono) (auto simp: reported_def i split: sum.splits)
next
  case False
  then obtain x where "req_string a = Inl x \<or> req_string k = Inl x" by (metis sumE)
  then show ?thesis
    unfolding place_order_def by (cases "req_string a") (auto simp: wp_mbind wp_simps)
qed



text \<open>The view that an OCO submission returns is stale. The exchange accepts the OCO and the stored
  row gets its list id and status, but the returned view is built from the row as it was
  inserted: it says \<open>NEW\<close> and carries no exchange id.\<close>

theorem oco_view_is_stale:
  "case place_oco_order (PStr ''a'') (PStr ''BTCUSDT'') (PStr ''BUY'') (PInt 1) (PInt 90) (PInt 110) (PInt 120) (PStr ''k'') []
       demo_env (demo_world (demo_db\<lparr>accounts := [demo_account ''a'' ''real'']\<rparr>)) of
     (Inr v, w') \<Rightarrow> vw_status v = NEW \<and> vw_exchange_order_id v = None
        \<and> map_option (\<lambda>r. (o_status r, o_exchange_order_id r)) (load_order ''a'' ''k'' (w_db w')) = Some (FILLED, Some ''7'')
   | _ \<Rightarrow> False"
  by code_simp

end
