(* ===== verification/Submission_Log.thy ===== *)
theory Submission_Log
  imports Order_Safety
begin

text \<open>
  The order table as a log of submissions: every order that was ever sent has its own row, with
  the terms that were sent and a key of its own. All the operations of the order service keep
  it, so no key is ever sent twice.
\<close>

definition row_key :: "order_row \<Rightarrow> string \<times> string" where
  "row_key r = (o_account_id r, o_idempotency_key r)"

definition logged :: "world \<Rightarrow> bool" where
  "logged w = (\<exists>rows. list_all2 carries rows (places w) \<and> distinct (map row_key rows) \<and> set rows \<subseteq> set (orders (w_db w)))"

definition log_kept :: "world \<Rightarrow> world \<Rightarrow> bool" where
  "log_kept w w' = (orders_evolve w w' \<and> (logged w \<longrightarrow> logged w'))"

subsection \<open>Steps that keep the log\<close>

lemma evolve_member:
  assumes "orders_evolve w w'" "r \<in> set (orders (w_db w))"
  shows "\<exists>r'\<in>set (orders (w_db w')). same_terms r r'"
proof -
  from assms(1) obtain upd new where u: "orders (w_db w') = upd @ new" "list_all2 same_terms (orders (w_db w)) upd"
    by (auto simp: orders_evolve_def)
  from assms(2) obtain i where "i < length (orders (w_db w))" "orders (w_db w) ! i = r" by (auto simp: in_set_conv_nth)
  with u(2) have "upd ! i \<in> set upd" "same_terms r (upd ! i)" by (auto simp: list_all2_conv_all_nth)
  with u(1) show ?thesis by auto
qed

lemma evolve_rows:
  assumes "orders_evolve w w'" "set rows \<subseteq> set (orders (w_db w))"
  shows "\<exists>rows'. list_all2 same_terms rows rows' \<and> set rows' \<subseteq> set (orders (w_db w'))"
  using assms(2)
proof (induction rows)
  case (Cons r rows)
  then obtain rows' where rows': "list_all2 same_terms rows rows'" "set rows' \<subseteq> set (orders (w_db w'))" by auto
  from Cons.prems evolve_member [OF assms(1)] obtain r' where "r' \<in> set (orders (w_db w'))" "same_terms r r'" by auto
  with rows' show ?case by (intro exI [of _ "r' # rows'"]) simp
qed simp

lemma same_terms_keys: "list_all2 same_terms rows rows' \<Longrightarrow> map row_key rows' = map row_key rows"
  by (induction rows rows' rule: list_all2_induct) (auto simp: same_terms_def row_key_def)

lemma same_terms_carries:
  "list_all2 same_terms rows rows' \<Longrightarrow> list_all2 carries rows rqs \<Longrightarrow> list_all2 carries rows' rqs"
  by (induction rows rows' arbitrary: rqs rule: list_all2_induct) (auto simp: list_all2_Cons1 intro: carries_terms)

lemma log_kept_silent:
  assumes "orders_evolve w w'" "places w' = places w"
  shows "log_kept w w'"
proof -
  have "logged w'" if "logged w"
  proof -
    from that obtain rows where rows: "list_all2 carries rows (places w)" "distinct (map row_key rows)" "set rows \<subseteq> set (orders (w_db w))"
      by (auto simp: logged_def)
    from evolve_rows [OF assms(1) rows(3)] obtain rows' where rows': "list_all2 same_terms rows rows'" "set rows' \<subseteq> set (orders (w_db w'))" by blast
    from same_terms_carries [OF rows'(1) rows(1)] same_terms_keys [OF rows'(1)] rows(2) rows'(2) assms(2)
    show ?thesis by (auto simp: logged_def)
  qed
  with assms(1) show ?thesis by (simp add: log_kept_def)
qed

lemma log_kept_submitted:
  assumes "orders_evolve w w'" "submitted aid idem symbol sd q n w w'"
  shows "log_kept w w'"
proof -
  from assms(2) obtain rq row where s: "places w' = places w @ [rq]" "carries row rq"
      "load_order aid idem (w_db w) = None" "load_order aid idem (w_db w') = Some row"
    by (auto simp: submitted_def)
  from find_SomeD [OF s(4) [unfolded load_order_def]] have row: "row \<in> set (orders (w_db w'))" "row_key row = (aid, idem)"
    by (auto simp: row_key_def)
  have "logged w'" if "logged w"
  proof -
    from that obtain rows where rows: "list_all2 carries rows (places w)" "distinct (map row_key rows)" "set rows \<subseteq> set (orders (w_db w))"
      by (auto simp: logged_def)
    from evolve_rows [OF assms(1) rows(3)] obtain rows' where rows': "list_all2 same_terms rows rows'" "set rows' \<subseteq> set (orders (w_db w'))" by blast
    have "row_key row \<notin> set (map row_key rows)"
      using rows(3) s(3) row(2) by (auto simp: load_order_def find_None_iff row_key_def)
    with rows(2) have "distinct (map row_key (rows' @ [row]))"
      using same_terms_keys [OF rows'(1)] by (simp del: set_map)
    moreover have "list_all2 carries (rows' @ [row]) (places w')"
      using same_terms_carries [OF rows'(1) rows(1)] s(1,2) by (simp add: list_all2_appendI)
    ultimately show ?thesis unfolding logged_def using rows'(2) row(1) by (intro exI [of _ "rows' @ [row]"]) simp
  qed
  with assms(1) show ?thesis by (simp add: log_kept_def)
qed

interpretation log_kept: flow_relation log_kept
proof unfold_locales
  show "log_kept w w'" if "log_kept w w1" "log_kept w1 w'" for w w1 w'
    using that orders_evolve.R_trans by (auto simp: log_kept_def)
qed (auto intro!: log_kept_silent simp: orders_evolve.R_refl orders_evolve.R_tick places_def)

lemma silent_keeps: "keeps orders_evolve m \<Longrightarrow> keeps no_place m \<Longrightarrow> keeps log_kept m"
  unfolding keeps_def by (auto simp: no_place_def intro: log_kept_silent)

lemma quiet_keeps: "keeps quiet m \<Longrightarrow> keeps log_kept m"
  by (intro silent_keeps quiet_evolves quiet_no_place)

lemma place_and_record_log: "keeps log_kept (place_and_record acc rl symbol sd ot q p n rp idem eq actor sp)"
proof (cases q)
  case (Fin x)
  have "wp e (place_and_record acc rl symbol sd ot (Fin x) p n rp idem eq actor sp) (\<lambda>r w'. log_kept w w') w" for e w
    by (rule wp_mono [OF wp_conj [OF wp_place_and_record keeps_wp [OF place_and_record_evolves]]])
      (auto intro: log_kept_silent log_kept_submitted)
  with Fin show ?thesis by (auto intro: keeps_wpI)
qed (auto simp: place_and_record_def validate_execution_order_def require_positive_def require_finite_def rbind_def
      keeps_def mbind_def mlift_def log_kept.R_refl)

lemma enforce_caps_no_place: "keeps no_place (enforce_caps_or_override acc pol symbol n x idem)"
  unfolding enforce_caps_or_override_def by (rule no_place_rules consume_override_no_place)+

lemmas log_ops = quiet_ops [THEN quiet_keeps] quiet_broker(1-4) [THEN quiet_keeps] place_and_record_log
  silent_keeps [OF enforce_caps_evolves enforce_caps_no_place]
  silent_keeps [OF handle_existing_evolves handle_existing_no_place]
  silent_keeps [OF reconcile_open_orders_evolves reconcile_open_orders_no_place]

lemmas log_rules = log_kept.flow_intros keeps_cases log_ops

lemma execute_one_sized_log: "keeps log_kept (execute_one_sized acc symbol sd entry stop risk idem ot actor)"
  unfolding execute_one_sized_def by (rule log_rules)+

lemma execute_one_direct_log: "keeps log_kept (execute_one_direct aid symbol sd ot q p idem actor sp)"
  unfolding execute_one_direct_def by (rule log_rules)+

lemma paper_row_log:
  "keeps log_kept (mbind (db_write (mbind (insert_order a b c d ee f g h i j k l mm n) (\<lambda>order. mbind (audit_in_conn x y (z order)) (\<lambda>_. mret order))))
      (\<lambda>order. mret (v order)))"
  by (rule silent_keeps; (rule evolve_rules no_place_rules insert_order_no_place)+)

lemma submit_log:
  assumes "\<And>row. o_account_id row = aid \<Longrightarrow> o_symbol row = symbol \<Longrightarrow> o_side row = sd \<Longrightarrow> o_order_type row = ot \<Longrightarrow>
      o_quantity row = q \<Longrightarrow> o_price row = p \<Longrightarrow> o_client_order_id row = cid \<Longrightarrow> o_stop_price row = sp \<Longrightarrow>
      o_stop_limit_price row = slp \<Longrightarrow> carries row rq"
  shows "keeps log_kept (mbind (db_write (insert_order aid idem symbol sd ot q p n rp eq NEW cid sp slp)) (\<lambda>order.
       mtry (broker_place rq) (record_outcome acc order symbol cid actor action (af order) (ex order) q)))"
    (is "keeps _ ?m")
proof (rule keeps_wpI)
  fix e :: env and w :: world
  have ev: "keeps orders_evolve ?m" by (rule evolve_rules record_outcome_evolves)+
  show "wp e ?m (\<lambda>r w'. log_kept w w') w"
    by (rule wp_mono [OF wp_conj [OF wp_submit keeps_wp [OF ev]]])
      (auto intro: assms log_kept_silent log_kept_submitted)
qed

lemma execute_oco_direct_log: "keeps log_kept (execute_oco_direct aid symbol sd q p sp slp idem actor)"
  unfolding execute_oco_direct_def
  by (rule paper_row_log submit_log log_rules | simp)+

lemma place_order_log: "keeps log_kept (place_order a b c d ee f g h actor)"
  unfolding place_order_def by (rule log_rules execute_one_direct_log)+

lemma place_oco_order_log: "keeps log_kept (place_oco_order a b c d ee f g h actor)"
  unfolding place_oco_order_def by (rule log_rules execute_oco_direct_log)+

lemma execute_on_accounts_log: "keeps log_kept (execute_on_accounts a b c d ee f g h i actor)"
  unfolding execute_on_accounts_def by (rule log_rules execute_one_sized_log)+

end
