(* ===== verification/Kill_Switch.thy ===== *)
theory Kill_Switch
  imports Submission_Log
begin

text \<open>
  The kill switch (\<open>close_all_positions\<close> and \<open>_close_one\<close> of \<open>storage/orders.py\<close>): cancel every
  open order of the account, on the exchange and in the table, then sell the held base assets at
  the market. The nested functions of \<open>_close_one\<close> are definitions of their own; what they
  accumulate is the record \<open>close_acc\<close>. A cancellation is answered like a query.
\<close>

subsection \<open>Accumulators and results\<close>

record cancel_error =
  ce_symbol :: string
  ce_order_id :: "string option"
  ce_client_order_id :: "string option"
  ce_code :: errcode

datatype sale =
    Sold string rat order_status string
  | Skipped string

record close_acc =
  ca_cancelled :: "string list"
  ca_errors :: "cancel_error list"
  ca_sold :: "sale list"

record close_view =
  cv_account_id :: string
  cv_closed :: bool
  cv_simulated :: bool
  cv_acc :: close_acc

datatype close_result = CloseView close_view | CloseFailed string errcode

definition sale_filled :: "sale \<Rightarrow> bool" where
  "sale_filled s = (case s of Sold _ _ st _ \<Rightarrow> st = FILLED | Skipped _ \<Rightarrow> False)"

definition note_cancelled :: "string \<Rightarrow> close_acc \<Rightarrow> close_acc" where
  "note_cancelled symbol a = (if symbol \<in> set (ca_cancelled a) then a else a\<lparr>ca_cancelled := ca_cancelled a @ [symbol]\<rparr>)"

definition note_error :: "string \<Rightarrow> order_row option \<Rightarrow> string \<Rightarrow> errcode \<Rightarrow> close_acc \<Rightarrow> close_acc" where
  "note_error symbol order cid c a =
     a\<lparr>ca_errors := ca_errors a @ [\<lparr>ce_symbol = symbol, ce_order_id = map_option o_order_id order, ce_client_order_id = Some cid, ce_code = c\<rparr>]\<rparr>"

text \<open>\<open>if isinstance(exc, asyncio.TimeoutError): exc = RasatError(ErrorCode.TIMEOUT, \<dots>)\<close>\<close>

definition timeout_code :: "pyexc \<Rightarrow> errcode" where
  "timeout_code x = (if x = AsyncTimeout then TIMEOUT else exc_code x)"

definition caught :: "pyexc \<Rightarrow> bool" where
  "caught x = (is_rasat x \<or> x = AsyncTimeout)"

subsection \<open>Cancelling\<close>

definition query_safe :: "brequest \<Rightarrow> (errcode + order_result option) m" where
  "query_safe rq =
     mtry (broker_query rq) (\<lambda>r.
       (case r of
          Inr v \<Rightarrow> mret (Inr v)
        | Inl x \<Rightarrow> if x = AsyncTimeout then mret (Inl TIMEOUT) else if is_rasat x then mret (Inr None) else mraise x))"

definition write_cancel :: "string \<Rightarrow> string \<Rightarrow> order_row \<Rightarrow> unit m" where
  "write_cancel aid actor order =
     db_write (mbind (update_order (o_order_id order) (\<lambda>r. r\<lparr>o_status := CANCELED\<rparr>)) (\<lambda>_.
       audit_in_conn actor ''order_canceled''
         [(''account_id'', PStr aid), (''order_id'', PStr (o_order_id order)), (''symbol'', PStr (o_symbol order)),
          (''client_order_id'', PStr (o_client_order_id order))]))"

definition write_unknown :: "string \<Rightarrow> string \<Rightarrow> order_row \<Rightarrow> errcode \<Rightarrow> unit m" where
  "write_unknown aid actor order c =
     db_write (mbind (update_order (o_order_id order) (set_error UNKNOWN c)) (\<lambda>_.
       audit_in_conn actor ''order_cancel_failed''
         [(''account_id'', PStr aid), (''order_id'', PStr (o_order_id order)), (''symbol'', PStr (o_symbol order)),
          (''error_code'', PStr (code_name c))]))"

definition write_sync :: "string \<Rightarrow> string \<Rightarrow> order_row \<Rightarrow> order_result \<Rightarrow> unit m" where
  "write_sync aid actor order f =
     db_write (mbind (update_order (o_order_id order) (set_result f)) (\<lambda>_.
       audit_in_conn actor ''order_reconciled''
         [(''account_id'', PStr aid), (''order_id'', PStr (o_order_id order)), (''symbol'', PStr (o_symbol order)),
          (''status'', PStr (status_name (or_status f)))]))"

text \<open>\<open>if order is not None: await self.db.write(\<dots>)\<close>\<close>

definition for_local :: "order_row option \<Rightarrow> (order_row \<Rightarrow> unit m) \<Rightarrow> unit m" where
  "for_local order w = (case order of None \<Rightarrow> mret () | Some r \<Rightarrow> w r)"

definition cancel_unknown :: "string \<Rightarrow> string \<Rightarrow> string \<Rightarrow> string \<Rightarrow> order_row option \<Rightarrow> errcode \<Rightarrow> close_acc \<Rightarrow> close_acc m" where
  "cancel_unknown aid actor cid symbol order c a =
     mbind (for_local order (\<lambda>r. write_unknown aid actor r c)) (\<lambda>_. mret (note_error symbol order cid c a))"

definition cancel_done :: "string \<Rightarrow> string \<Rightarrow> string \<Rightarrow> order_row option \<Rightarrow> close_acc \<Rightarrow> close_acc m" where
  "cancel_done aid actor symbol order a =
     mbind (for_local order (write_cancel aid actor)) (\<lambda>_. mret (note_cancelled symbol a))"

definition is_oco :: "order_row option \<Rightarrow> bool" where
  "is_oco order = (map_option o_order_type order = Some OCO)"

definition cancel_one :: "string \<Rightarrow> string \<Rightarrow> string \<Rightarrow> string \<Rightarrow> order_row option \<Rightarrow> close_acc \<Rightarrow> close_acc m" where
  "cancel_one aid actor cid symbol order a =
     mtry (broker_query (if is_oco order then CancelOco aid symbol cid else CancelOrder aid symbol cid)) (\<lambda>res.
       (case res of
          Inl x \<Rightarrow> if caught x then cancel_unknown aid actor cid symbol order (timeout_code x) a else mraise x
        | Inr None \<Rightarrow>
            mbind (query_safe (query_for aid symbol (if is_oco order then OCO else MARKET) cid)) (\<lambda>found.
              (case found of
                 Inl c \<Rightarrow> cancel_unknown aid actor cid symbol order c a
               | Inr None \<Rightarrow> cancel_done aid actor symbol order a
               | Inr (Some f) \<Rightarrow>
                   (if live_status (or_status f) then cancel_unknown aid actor cid symbol order ORDER_UNKNOWN a
                    else mbind (for_local order (\<lambda>r. write_sync aid actor r f)) (\<lambda>_.
                      mret (if or_status f = CANCELED then note_cancelled symbol a else a)))))
        | Inr (Some f) \<Rightarrow>
            (if or_status f = CANCELED then cancel_done aid actor symbol order a
             else if live_status (or_status f) then cancel_unknown aid actor cid symbol order ORDER_RECONCILE_REQUIRED a
             else mbind (for_local order (\<lambda>r. write_sync aid actor r f)) (\<lambda>_. mret a))))"

text \<open>The client id of an exchange order; the empty string counts as none.\<close>

definition oo_cid :: "open_order \<Rightarrow> string option" where
  "oo_cid ex = (case oo_client_order_id ex of Some c \<Rightarrow> if c = [] then None else Some c | None \<Rightarrow> None)"

text \<open>Local open orders by client id, then the exchange orders the table does not know.\<close>

definition cancel_targets :: "order_row list \<Rightarrow> open_order list \<Rightarrow> (string \<times> string \<times> order_row option) list" where
  "cancel_targets open_orders exchange_open =
     (let local = fold (\<lambda>r d. dict_put d (o_client_order_id r) (o_symbol r, Some r)) open_orders [];
          remote = fold (\<lambda>ex d. case oo_cid ex of None \<Rightarrow> d | Some c \<Rightarrow> dict_put d c (oo_symbol ex, None)) exchange_open []
      in local @ filter (\<lambda>t. fst t \<notin> set (map fst local)) remote)"

text \<open>An exchange order without a client id: cancel everything of its symbol.\<close>

definition bulk_cancel :: "string \<Rightarrow> string \<Rightarrow> open_order \<Rightarrow> close_acc \<Rightarrow> close_acc m" where
  "bulk_cancel aid actor ex a =
     (if oo_cid ex \<noteq> None \<or> oo_symbol ex = [] then mret a
      else
        let details = [(''account_id'', PStr aid), (''order_id'', opt_str (oo_order_id ex)), (''symbol'', PStr (oo_symbol ex))];
            scope = (''scope'', PStr ''exchange_open_order_without_client_id'')
        in mtry (mbind (broker_cancel_all aid (oo_symbol ex)) (\<lambda>_.
              db_write (audit_in_conn actor ''order_canceled'' (details @ [(''client_order_id'', PNone), scope])))) (\<lambda>r.
             (case r of
                Inr _ \<Rightarrow> mret (note_cancelled (oo_symbol ex) a)
              | Inl x \<Rightarrow>
                  if \<not> caught x then mraise x
                  else mbind (db_write (audit_in_conn actor ''order_cancel_failed''
                           (details @ [(''error_code'', PStr (code_name (timeout_code x))), scope]))) (\<lambda>_.
                    mret (a\<lparr>ca_errors := ca_errors a
                      @ [\<lparr>ce_symbol = oo_symbol ex, ce_order_id = oo_order_id ex, ce_client_order_id = None, ce_code = timeout_code x\<rparr>]\<rparr>)))))"

definition cancel_target :: "string \<Rightarrow> string \<Rightarrow> bool \<Rightarrow> string \<times> string \<times> order_row option \<Rightarrow> close_acc \<Rightarrow> close_acc m" where
  "cancel_target aid actor rl t a =
     (case t of (cid, symbol, order) \<Rightarrow>
        if symbol = [] then mret a
        else if rl then cancel_one aid actor cid symbol order a
        else (case order of None \<Rightarrow> mret a | Some r \<Rightarrow> cancel_done aid actor symbol (Some r) a))"

subsection \<open>Selling\<close>

text \<open>\<open>f"close-{account_id}-{symbol}-{qty}-{run_nonce}"\<close>\<close>

definition close_key :: "(pyfloat \<Rightarrow> string) \<Rightarrow> string \<Rightarrow> string \<Rightarrow> pyfloat \<Rightarrow> string \<Rightarrow> string" where
  "close_key rf aid symbol qty nonce = ''close-'' @ aid @ ''-'' @ symbol @ ''-'' @ rf qty @ ''-'' @ nonce"

text \<open>The notional that goes with a quantity that is not finite is irrelevant: the validator of
  \<open>place_and_record\<close> rejects the quantity.\<close>

definition finite_or_zero :: "pyfloat \<Rightarrow> rat" where
  "finite_or_zero x = (case x of Fin q \<Rightarrow> q | _ \<Rightarrow> 0)"

definition note_sold :: "sale \<Rightarrow> close_acc \<Rightarrow> close_acc" where
  "note_sold s a = a\<lparr>ca_sold := ca_sold a @ [s]\<rparr>"

definition new_sale :: "account \<Rightarrow> string \<Rightarrow> string \<Rightarrow> string \<Rightarrow> pyfloat \<Rightarrow> rat \<Rightarrow> close_acc \<Rightarrow> close_acc m" where
  "new_sale acc actor nonce symbol qty price a =
     mbind (menv (\<lambda>e. close_key (repr_float e) (account_id acc) symbol qty nonce)) (\<lambda>idem.
     mbind (place_and_record acc True symbol SELL MARKET qty None (finite_or_zero qty * price) price idem 0 actor None) (\<lambda>v.
       mret (note_sold (Sold symbol (vw_quantity v) (vw_status v) (vw_order_id v)) a)))"

definition sell_asset :: "account \<Rightarrow> string \<Rightarrow> string \<Rightarrow> string \<times> rat \<Rightarrow> close_acc \<Rightarrow> close_acc m" where
  "sell_asset acc actor nonce af a =
     (if fst af = QUOTE \<or> snd af \<le> 0 then mret a
      else
        let symbol = fst af @ QUOTE in
        mbind (m_symbol_valid symbol) (\<lambda>valid.
          if \<not> valid then mret a
          else mbind (m_price symbol) (\<lambda>price_o.
            (case price_o of
               None \<Rightarrow> mret (note_sold (Skipped symbol) a)
             | Some price \<Rightarrow>
                 mbind (m_filters symbol) (\<lambda>filters_o.
                   (case filters_o of
                      None \<Rightarrow> mret (note_sold (Skipped symbol) a)
                    | Some filters \<Rightarrow>
                        mbind (mlift (round_down_to_step (snd af) (step_size filters))) (\<lambda>qty.
                          if flt qty (min_qty filters) then mret (note_sold (Skipped symbol) a)
                          else mbind (db_read (load_open_close (account_id acc) symbol)) (\<lambda>open_close.
                            (case open_close of
                               None \<Rightarrow> new_sale acc actor nonce symbol qty price a
                             | Some oc \<Rightarrow>
                                 mbind (query_or_none (QueryOrder (account_id acc) symbol (o_client_order_id oc))) (\<lambda>found.
                                   (case found of
                                      None \<Rightarrow> new_sale acc actor nonce symbol qty price a
                                    | Some f \<Rightarrow>
                                        mbind (db_write (update_order (o_order_id oc) (set_result f))) (\<lambda>_.
                                          if live_status (or_status f) \<or> or_status f = FILLED
                                          then mret (note_sold (Sold symbol (o_quantity oc) (or_status f) (o_order_id oc)) a)
                                          else new_sale acc actor nonce symbol qty price a)))))))))))) "

subsection \<open>One account, all accounts\<close>

definition open_rows :: "string \<Rightarrow> db \<Rightarrow> order_row list" where
  "open_rows aid d = filter (\<lambda>r. o_account_id r = aid \<and> (o_status r = NEW \<or> o_status r = PARTIALLY_FILLED)) (orders d)"

definition close_one :: "account \<Rightarrow> string \<Rightarrow> close_view m" where
  "close_one acc actor =
     (let aid = account_id acc in
      mbind (is_real acc) (\<lambda>rl.
      mbind (db_read (open_rows aid)) (\<lambda>open_orders.
      mbind (if rl then broker_open_orders aid else mret []) (\<lambda>exchange_open.
      mbind (mfold (bulk_cancel aid actor) exchange_open \<lparr>ca_cancelled = [], ca_errors = [], ca_sold = []\<rparr>) (\<lambda>a1.
      mbind (mfold (cancel_target aid actor rl) (cancel_targets open_orders exchange_open) a1) (\<lambda>a2.
        if \<not> rl then mret \<lparr>cv_account_id = aid, cv_closed = False, cv_simulated = True, cv_acc = a2\<rparr>
        else
          mbind uuid4_hex (\<lambda>u.
          mbind (broker_balance aid) (\<lambda>balances.
          mbind (mfold (sell_asset acc actor (take 12 u)) balances a2) (\<lambda>a3.
            mret \<lparr>cv_account_id = aid, cv_closed = (ca_errors a3 = [] \<and> list_all sale_filled (ca_sold a3)),
                  cv_simulated = False, cv_acc = a3\<rparr>)))))))))"

record close_summary =
  cs_results :: "close_result list"
  cs_closed :: nat
  cs_failed :: nat

definition result_closed :: "close_result \<Rightarrow> bool" where
  "result_closed r = (case r of CloseView v \<Rightarrow> cv_closed v | CloseFailed _ _ \<Rightarrow> False)"

definition close_all_positions :: "pyval \<Rightarrow> string \<Rightarrow> close_summary m" where
  "close_all_positions aid_v actor =
     mbind (mlift (req_string aid_v)) (\<lambda>aid.
     mbind (if aid = ''all'' then list_accounts else mbind (get_account aid) (\<lambda>acc. mret [acc])) (\<lambda>accs.
     mbind (mmap (\<lambda>acc.
         mtry (close_one acc (or_agent actor)) (\<lambda>r.
           (case r of
              Inr v \<Rightarrow> mret (CloseView v)
            | Inl x \<Rightarrow> mret (CloseFailed (account_id acc) (exc_code x))))) accs) (\<lambda>results.
       let closed = length (filter result_closed results) in
       mret \<lparr>cs_results = results, cs_closed = closed, cs_failed = length results - closed\<rparr>)))"

subsection \<open>Cancelling sends no order and keeps the table a log\<close>

lemma write_evolves: "keeps orders_evolve (write_cancel aid actor order)" "keeps orders_evolve (write_unknown aid actor order c)"
  "keeps orders_evolve (write_sync aid actor order f)"
  unfolding write_cancel_def write_unknown_def write_sync_def by (rule evolve_rules)+

lemma update_order_no_place: "keeps no_place (update_order oid f)"
  unfolding update_order_def by (rule no_place_rules)+

lemma write_no_place: "keeps no_place (write_cancel aid actor order)" "keeps no_place (write_unknown aid actor order c)"
  "keeps no_place (write_sync aid actor order f)"
  unfolding write_cancel_def write_unknown_def write_sync_def by (rule no_place_rules update_order_no_place)+

lemmas write_silent =
  silent_keeps [OF write_evolves(1) write_no_place(1)] silent_keeps [OF write_evolves(2) write_no_place(2)]
  silent_keeps [OF write_evolves(3) write_no_place(3)]

lemma query_safe_quiet: "\<not> is_place rq \<Longrightarrow> keeps quiet (query_safe rq)"
  unfolding query_safe_def by (rule quiet_rules | assumption)+

lemma audit_log_kept: "keeps log_kept (db_write (audit_in_conn actor action details))"
  by (rule silent_keeps; (rule evolve_rules no_place_rules)+)

lemma sync_log: "keeps log_kept (db_write (update_order oid (set_result f)))"
  by (rule silent_keeps; (rule evolve_rules no_place_rules update_order_no_place)+)

lemma cancel_one_log: "keeps log_kept (cancel_one aid actor cid symbol order a)"
  unfolding cancel_one_def cancel_unknown_def cancel_done_def for_local_def
  by (rule log_rules write_silent quiet_keeps [OF query_safe_quiet] quiet_keeps [OF quiet_broker(5)] query_for_not_place | simp)+

lemma bulk_cancel_log: "keeps log_kept (bulk_cancel aid actor ex a)"
  unfolding bulk_cancel_def by (rule log_rules audit_log_kept)+

lemma cancel_target_log: "keeps log_kept (cancel_target aid actor rl t a)"
  unfolding cancel_target_def cancel_done_def for_local_def by (rule log_rules cancel_one_log write_silent)+

lemma new_sale_log: "keeps log_kept (new_sale acc actor nonce symbol qty price a)"
  unfolding new_sale_def by (rule log_rules)+

lemma sell_asset_log: "keeps log_kept (sell_asset acc actor nonce af a)"
  unfolding sell_asset_def
  by (rule log_rules new_sale_log sync_log quiet_keeps [OF query_or_none_quiet] | simp)+

lemma close_one_log: "keeps log_kept (close_one acc actor)"
  unfolding close_one_def by (rule log_rules bulk_cancel_log cancel_target_log sell_asset_log)+

lemma close_all_positions_log: "keeps log_kept (close_all_positions aid actor)"
  unfolding close_all_positions_def by (rule log_rules close_one_log)+

subsection \<open>What a closed account means\<close>

fun sale_symbol :: "sale \<Rightarrow> string" where
  "sale_symbol (Sold symbol _ _ _) = symbol"
| "sale_symbol (Skipped symbol) = symbol"

text \<open>The asset needs no sale, its pair is not traded, or the list of sales has an entry for it.\<close>

definition disposed :: "env \<Rightarrow> sale list \<Rightarrow> string \<times> rat \<Rightarrow> bool" where
  "disposed e sold af =
     (fst af = QUOTE \<or> snd af \<le> 0 \<or> (\<exists>t. market_valid e t (fst af @ QUOTE) = Inr False)
      \<or> (\<exists>s\<in>set sold. sale_symbol s = fst af @ QUOTE))"

lemma disposed_mono: "disposed e xs af \<Longrightarrow> set xs \<subseteq> set ys \<Longrightarrow> disposed e ys af"
  by (auto simp: disposed_def)

definition sale_step :: "env \<Rightarrow> string \<times> rat \<Rightarrow> close_acc \<Rightarrow> close_acc res \<Rightarrow> bool" where
  "sale_step e af a r =
     (\<forall>a'. r = Inr a' \<longrightarrow> disposed e (ca_sold a') af \<and> set (ca_sold a) \<subseteq> set (ca_sold a') \<and> ca_errors a' = ca_errors a)"

lemma sale_step_Inl [simp]: "sale_step e af a (Inl x)"
  by (simp add: sale_step_def)

lemma sale_step_sold: "sale_symbol s = fst af @ QUOTE \<Longrightarrow> sale_step e af a (Inr (note_sold s a))"
  by (auto simp: sale_step_def disposed_def note_sold_def)

lemma wp_sale_bind:
  assumes "\<And>y w'. m e w = (Inr y, w') \<Longrightarrow> wp e (k y) (\<lambda>r w'. sale_step e af a r) w'"
  shows "wp e (mbind m k) (\<lambda>r w'. sale_step e af a r) w"
  using assms by (auto simp: wp_def mbind_def split: prod.splits sum.splits)

lemma new_sale_step: "symbol = fst af @ QUOTE \<Longrightarrow> wp e (new_sale acc actor nonce symbol qty price a) (\<lambda>r w'. sale_step e af a r) w"
  unfolding new_sale_def by (intro wp_sale_bind) (simp add: wp_simps sale_step_sold)

lemma sell_asset_step: "wp e (sell_asset acc actor nonce af a) (\<lambda>r w'. sale_step e af a r) w"
proof (cases "fst af = QUOTE \<or> snd af \<le> 0")
  case True
  then show ?thesis by (auto simp: sell_asset_def wp_simps sale_step_def disposed_def)
next
  case False
  note keep = sale_step_sold wp_simps
  have "wp e (m_symbol_valid (fst af @ QUOTE)) (\<lambda>r w'. \<forall>b. r = Inr b \<longrightarrow> (b \<or> disposed e (ca_sold a) af)) w"
    by (auto simp: m_symbol_valid_def wp_simps disposed_def)
  then have v: "b \<or> disposed e (ca_sold a) af" if "m_symbol_valid (fst af @ QUOTE) e w = (Inr b, w')" for b w'
    using that by (auto simp: wp_def)
  show ?thesis
    unfolding sell_asset_def Let_def using False
    apply (simp, intro wp_sale_bind)
    apply (split if_split, intro conjI impI)
     apply (use v in \<open>auto simp: wp_simps sale_step_def\<close>)[1]
    apply (intro wp_sale_bind, split option.split, intro conjI impI allI, simp add: keep)
    apply (intro wp_sale_bind, split option.split, intro conjI impI allI, simp add: keep)
    apply (intro wp_sale_bind, split if_split, intro conjI impI, simp add: keep)
    apply (intro wp_sale_bind, split option.split, intro conjI impI allI, rule new_sale_step, simp)
    apply (intro wp_sale_bind, split option.split, intro conjI impI allI, rule new_sale_step, simp)
    apply (intro wp_sale_bind, split if_split, intro conjI impI, simp add: keep, rule new_sale_step, simp)
    done
qed

lemma sell_all_step:
  "wp e (mfold (sell_asset acc actor nonce) bs a)
     (\<lambda>r w'. \<forall>a'. r = Inr a' \<longrightarrow> (\<forall>af\<in>set bs. disposed e (ca_sold a') af) \<and> set (ca_sold a) \<subseteq> set (ca_sold a') \<and> ca_errors a' = ca_errors a) w"
proof (induction bs arbitrary: a w)
  case Nil
  then show ?case by (simp add: wp_simps)
next
  case (Cons b bs)
  show ?case
    unfolding mfold.simps wp_mbind
  proof (rule wp_mono [OF sell_asset_step])
    fix r :: "close_acc res" and w' :: world
    assume s: "sale_step e b a r"
    show "case r of Inl x \<Rightarrow> \<forall>a'. Inl x = Inr a' \<longrightarrow> (\<forall>af\<in>set (b # bs). disposed e (ca_sold a') af) \<and> set (ca_sold a) \<subseteq> set (ca_sold a') \<and> ca_errors a' = ca_errors a
      | Inr a1 \<Rightarrow> wp e (mfold (sell_asset acc actor nonce) bs a1)
          (\<lambda>r w'. \<forall>a'. r = Inr a' \<longrightarrow> (\<forall>af\<in>set (b # bs). disposed e (ca_sold a') af) \<and> set (ca_sold a) \<subseteq> set (ca_sold a') \<and> ca_errors a' = ca_errors a) w'"
    proof (cases r)
      case (Inr a1)
      with s have a1: "disposed e (ca_sold a1) b" "set (ca_sold a) \<subseteq> set (ca_sold a1)" "ca_errors a1 = ca_errors a"
        by (auto simp: sale_step_def)
      show ?thesis
        unfolding Inr sum.case
        by (rule wp_mono [OF Cons.IH]) (use a1 disposed_mono in fastforce)
    qed simp
  qed
qed

text \<open>Closed: a real account, without a failed cancellation, and every asset the broker reported is in
  the quote currency, empty, not traded against it, or sold by an order reported \<open>FILLED\<close>.\<close>

definition settled :: "env \<Rightarrow> sale list \<Rightarrow> string \<times> rat \<Rightarrow> bool" where
  "settled e sold af =
     (fst af = QUOTE \<or> snd af \<le> 0 \<or> (\<exists>t. market_valid e t (fst af @ QUOTE) = Inr False)
      \<or> (\<exists>q oid. Sold (fst af @ QUOTE) q FILLED oid \<in> set sold))"

definition closed_out :: "env \<Rightarrow> account \<Rightarrow> close_view \<Rightarrow> bool" where
  "closed_out e acc v =
     (trading_lock acc = ''real'' \<and> \<not> cv_simulated v \<and> ca_errors (cv_acc v) = []
      \<and> (\<exists>t bs. b_balance e t (account_id acc) = Inr bs \<and> list_all (settled e (ca_sold (cv_acc v))) bs))"

lemma disposed_filled:
  assumes "disposed e sold af" "list_all sale_filled sold"
  shows "settled e sold af"
proof -
  have "\<exists>q oid. s = Sold (sale_symbol s) q FILLED oid" if "s \<in> set sold" for s
  proof -
    from that assms(2) have "sale_filled s" by (auto simp: list_all_iff)
    then show ?thesis by (cases s) (auto simp: sale_filled_def)
  qed
  with assms(1) show ?thesis unfolding disposed_def settled_def by metis
qed

lemma wp_bind_any:
  assumes "\<And>y w'. m e w = (Inr y, w') \<Longrightarrow> wp e (k y) Q w'" "\<And>x w'. Q (Inl x) w'"
  shows "wp e (mbind m k) Q w"
  using assms by (auto simp: wp_def mbind_def split: prod.splits sum.splits)

lemma close_one_closed: "wp e (close_one acc actor) (\<lambda>r w'. \<forall>v. r = Inr v \<longrightarrow> cv_closed v \<longrightarrow> closed_out e acc v) w"
  unfolding close_one_def Let_def
  apply (rule wp_bind_any, rule wp_bind_any, rule wp_bind_any, rule wp_bind_any, rule wp_bind_any)
       apply (split if_split, intro conjI impI, simp add: wp_simps)
       apply (rule wp_bind_any, rule wp_bind_any)
  subgoal premises prems for rl w1 rows w2 exch w3 a1 w4 a2 w5 u w6 bs w7
  proof -
    from prems have "trading_lock acc = ''real''" by (auto simp: is_real_def mret_def split: if_splits)
    moreover from broker_balance_Inr prems obtain t where "b_balance e t (account_id acc) = Inr bs" by meson
    ultimately have c: "closed_out e acc \<lparr>cv_account_id = i, cv_closed = c, cv_simulated = False, cv_acc = a3\<rparr>"
      if "\<forall>af\<in>set bs. disposed e (ca_sold a3) af" "ca_errors a3 = []" "list_all sale_filled (ca_sold a3)" for i c a3
      using that(1,2) disposed_filled [OF _ that(3)] unfolding closed_out_def
      by (auto simp: list_all_iff intro!: exI [of _ t] exI [of _ bs])
    show ?thesis
      unfolding wp_mbind
    proof (rule wp_mono [OF sell_all_step])
      fix r :: "close_acc res" and w' :: world
      assume h: "\<forall>a'. r = Inr a' \<longrightarrow> (\<forall>af\<in>set bs. disposed e (ca_sold a') af) \<and> set (ca_sold a2) \<subseteq> set (ca_sold a') \<and> ca_errors a' = ca_errors a2"
      show "case r of Inl x \<Rightarrow> \<forall>v. Inl x = Inr v \<longrightarrow> cv_closed v \<longrightarrow> closed_out e acc v
        | Inr a3 \<Rightarrow> wp e (mret \<lparr>cv_account_id = account_id acc, cv_closed = (ca_errors a3 = [] \<and> list_all sale_filled (ca_sold a3)),
            cv_simulated = False, cv_acc = a3\<rparr>) (\<lambda>r w'. \<forall>v. r = Inr v \<longrightarrow> cv_closed v \<longrightarrow> closed_out e acc v) w'"
      proof (cases r)
        case (Inr a3)
        with h have "\<forall>af\<in>set bs. disposed e (ca_sold a3) af" by blast
        from c [OF this] show ?thesis by (simp add: Inr wp_mret)
      qed simp
    qed
  qed
  by simp_all

subsection \<open>Paper accounts\<close>

definition no_send :: "world \<Rightarrow> world \<Rightarrow> bool" where
  "no_send w w' = (w_trace w' = w_trace w)"

interpretation no_send: trace_relation no_send
  by unfold_locales (auto simp: no_send_def)

lemma close_paper:
  assumes "trading_lock acc \<noteq> ''real''"
  shows "wp e (close_one acc actor) (\<lambda>r w'. no_send w w' \<and> (case r of Inl x \<Rightarrow> True | Inr v \<Rightarrow> \<not> cv_closed v \<and> cv_simulated v)) w"
proof -
  have step: "keeps no_send (cancel_target aid actor False t a)" for aid t a
    unfolding cancel_target_def cancel_done_def for_local_def write_cancel_def update_order_def
    by (simp only: if_False option.case, (rule no_send.audited_intros no_send.resp_modify keeps_cases)+)
  have fold: "keeps no_send (mfold (cancel_target aid actor False) ts a)" for aid ts a
    by (rule no_send.resp_mfold) (rule step)
  show ?thesis
    using assms
    by (simp add: close_one_def is_real_def Let_def wp_mbind wp_simps)
      (rule wp_mono [OF keeps_wp [OF fold]], auto simp: wp_simps split: sum.splits)
qed

subsection \<open>A cancellation and its row\<close>

lemma wp_write_row:
  assumes "load_order aid idem (w_db w) = Some row" "keeps_terms f"
    and "\<And>row' w'. load_order aid idem (w_db w') = Some row' \<Longrightarrow> o_status row' = o_status (f row) \<Longrightarrow> Q (Inr ()) w'"
  shows "wp e (db_write (mbind (update_order (o_order_id row) f) (\<lambda>_. audit_in_conn actor action details))) Q w"
proof -
  let ?row = "(f row)\<lparr>o_updated_at := now_at e (w_tick w)\<rparr>"
  have q: "Q (Inr ()) w'" if "audit_frame w1 w'" "load_order aid idem (w_db w1) = Some ?row" for w1 w'
    by (rule assms(3) [of w' ?row]) (use that in \<open>simp_all add: load_order_def audit_frame_def risk_frame_def\<close>)
  show ?thesis
    unfolding wp_db_write wp_mbind update_order_def
    by (simp add: wp_mbind wp_simps, rule wp_audit, simp, erule q) (simp add: load_order_upd [OF assms(1,2)])
qed

definition row_after :: "string \<Rightarrow> string \<Rightarrow> close_acc \<Rightarrow> close_acc res \<Rightarrow> world \<Rightarrow> bool" where
  "row_after aid idem a r w' =
     (case r of
        Inl x \<Rightarrow> True
      | Inr a' \<Rightarrow>
          (\<exists>row'. load_order aid idem (w_db w') = Some row'
             \<and> (if ca_errors a' = ca_errors a then \<not> live_status (o_status row') else o_status row' = UNKNOWN)))"

lemma cancel_one_row:
  assumes "load_order aid' idem (w_db w) = Some row"
  shows "wp e (cancel_one aid actor cid symbol (Some row) a) (row_after aid' idem a) w"
proof -
  have un: "wp e (cancel_unknown aid actor cid symbol (Some row) c a) (row_after aid' idem a) w'"
    if "load_order aid' idem (w_db w') = Some row" for c w'
    unfolding cancel_unknown_def for_local_def write_unknown_def wp_mbind option.case
    by (rule wp_write_row [OF that]) (auto simp: wp_simps row_after_def note_error_def set_error_def)
  have dn: "wp e (cancel_done aid actor symbol (Some row) a) (row_after aid' idem a) w'"
    if "load_order aid' idem (w_db w') = Some row" for w'
    unfolding cancel_done_def for_local_def write_cancel_def wp_mbind option.case
    by (rule wp_write_row [OF that]) (auto simp: wp_simps row_after_def note_cancelled_def live_status_def)
  have sy: "wp e (mbind (for_local (Some row) (\<lambda>r. write_sync aid actor r f)) (\<lambda>_. mret a')) (row_after aid' idem a) w'"
    if "load_order aid' idem (w_db w') = Some row" "\<not> live_status (or_status f)" "ca_errors a' = ca_errors a" for f a' w'
    unfolding for_local_def write_sync_def wp_mbind option.case
    by (rule wp_write_row [OF that(1)]) (use that in \<open>auto simp: wp_simps row_after_def set_result_def\<close>)
  have top: "wp e (mbind (query_safe rq) k) (row_after aid' idem a) w'"
    if "\<And>r w'. load_order aid' idem (w_db w') = Some row \<Longrightarrow> wp e (k r) (row_after aid' idem a) w'"
      "load_order aid' idem (w_db w') = Some row" "\<not> is_place rq" for rq k w'
    by (rule wp_bind_quiet [OF query_safe_quiet [OF that(3)] quiet.R_refl])
      (simp add: row_after_def, rule that(1), simp add: quiet_load that(2))
  have "load_order aid' idem (w_db w') = Some row"
    if "w_db w' = w_db w" for w' using that assms by simp
  note ld = this
  show ?thesis
    unfolding cancel_one_def broker_query_def wp_mtry wp_msend
    apply (split sum.split, intro conjI allI impI)
     apply (simp add: wp_simps ld un row_after_def [of _ _ _ "Inl _"])
    apply (split option.split, intro conjI allI impI)
     apply (rule top)
       apply (split sum.split, intro conjI allI impI, erule un)
       apply (split option.split, intro conjI allI impI, erule dn)
       apply (split if_split, intro conjI impI, erule un, erule sy, assumption, simp add: note_cancelled_def)
      apply (simp add: ld)
     apply simp
    apply (auto intro!: un dn sy simp: ld)
    done
qed

subsection \<open>Properties\<close>



text \<open>The kill switch on a paper account stays local: it sends nothing to the exchange, whatever
  rows the account has, and its result is marked as simulated and not closed.\<close>

theorem paper_close_is_local:
  assumes "trading_lock acc \<noteq> ''real''"
  shows "wp e (close_one acc actor)
     (\<lambda>r w'. w_trace w' = w_trace w \<and> (case r of Inl x \<Rightarrow> True | Inr v \<Rightarrow> \<not> cv_closed v \<and> cv_simulated v)) w"
  using close_paper [OF assms] by (simp add: no_send_def)

theorem paper_close_is_local_witness:
  "wp demo_env (close_one (public_account (demo_account ''a'' ''paper'')) [])
     (\<lambda>r w'. w_trace w' = [] \<and> (case r of Inl x \<Rightarrow> True | Inr v \<Rightarrow> \<not> cv_closed v \<and> cv_simulated v))
     (demo_world (demo_db\<lparr>orders := [demo_order ''a'' ''k'' NEW]\<rparr>))"
proof -
  have "trading_lock (public_account (demo_account ''a'' ''paper'')) \<noteq> ''real''" by (simp add: public_account_def demo_defs)
  from paper_close_is_local [OF this, of demo_env "[]" "demo_world (demo_db\<lparr>orders := [demo_order ''a'' ''k'' NEW]\<rparr>)"]
  show ?thesis by (simp add: demo_world_def)
qed



text \<open>Two places where the kill switch does not do what its comments promise. A close order that
  is still in flight is sold a second time when the lookup of its state fails with a canonical
  error (the comments rule out a blind duplicate sell); and an order that the exchange no longer
  lists is recorded as \<open>CANCELED\<close>, without an error, when the lookup that should tell whether it
  was filled fails.\<close>

theorem kill_switch_trusts_failed_lookups:
  "(let e = demo_env\<lparr>b_balance := \<lambda>t a. Inr [(''BTC'', 2)], b_query := \<lambda>t r. Inl (rasat RATE_LIMITED)\<rparr>;
        w = demo_world (demo_db\<lparr>accounts := [demo_account ''a'' ''real''], orders := [demo_order ''a'' ''close-1'' UNKNOWN]\<rparr>)
    in case close_all_positions (PStr ''a'') [] e w of
         (Inr s, w') \<Rightarrow> length (places w') = 1 \<and> length (orders (w_db w')) = 2
       | _ \<Rightarrow> False)
   \<and> (let e = demo_env\<lparr>b_query := \<lambda>t r. case r of CancelOrder _ _ _ \<Rightarrow> Inr None | _ \<Rightarrow> Inl (rasat RATE_LIMITED)\<rparr>;
          w = demo_world (demo_db\<lparr>accounts := [demo_account ''a'' ''real''], orders := [demo_order ''a'' ''k'' NEW]\<rparr>)
      in case close_all_positions (PStr ''a'') [] e w of
           (Inr s, w') \<Rightarrow> map o_status (orders (w_db w')) = [CANCELED] \<and> cs_closed s = 1
         | _ \<Rightarrow> False)"
  by code_simp

end
