(* ===== verification/Service.thy ===== *)
theory Service
  imports Kill_Switch
begin

text \<open>
  The trading services over one database: which relations between worlds the order service
  respects, given how it uses the account and the risk-policy service, and which tables the
  other services leave alone.
\<close>

subsection \<open>Relations that do not look at the order table\<close>

text \<open>What the order service relies on for a relation on the other tables: it ignores the order
  table and consuming an override respects it. All its operations then respect it.\<close>

locale orders_client = db_relation +
  assumes R_orders: "R w (w\<lparr>w_db := (w_db w)\<lparr>orders := os\<rparr>\<rparr>)"
    and resp_consume: "keeps R (consume_override a v i)"
begin

lemma resp_modify_orders: "keeps R (db_modify (\<lambda>d. d\<lparr>orders := f (orders d)\<rparr>))"
  by (simp add: keeps_def db_modify_def R_orders)

lemma resp_update: "keeps R (update_order oid f)"
  unfolding update_order_def by (rule resp_bind resp_now resp_modify_orders)+

lemma resp_insert: "keeps R (insert_order a b c d ee f g h i j k l mm n)"
  unfolding insert_order_def Let_def by (rule audited_intros resp_modify_orders)+

lemma resp_reads:
  "keeps R (get_account aid)" "keeps R list_accounts" "keeps R (get_credentials aid)" "keeps R (get_policy p)"
  unfolding get_account_def list_accounts_def get_credentials_def decrypt_field_def get_policy_def
  by (rule db_intros keeps_cases)+

lemmas base = db_intros keeps_cases resp_update resp_insert resp_reads resp_consume

lemma resp_small:
  "keeps R (is_real acc)" "keeps R (check_symbol_and_price symbol)" "keeps R (require_filters symbol)"
  "keeps R (current_exposure aid q)" "keeps R (equity_from_balances b q)" "keeps R (query_or_none rq)"
  "keeps R (query_safe rq)" "keeps R (resolve_targets ids tgs)" "keeps R (enforce_caps_or_override acc pol symbol n x idem)"
  unfolding is_real_def check_symbol_and_price_def require_filters_def current_exposure_def held_value_step_def
    equity_from_balances_def equity_step_def query_or_none_def query_safe_def resolve_targets_def enforce_caps_or_override_def
  by (rule base)+

lemma resp_outcome:
  "keeps R (reconcile_after_timeout acc order symbol cid actor)" "keeps R (handle_existing acc row)"
  unfolding reconcile_after_timeout_def handle_existing_def by (rule base resp_small)+

lemma resp_record: "keeps R (record_outcome acc order symbol cid actor action af ex qty outcome)"
  unfolding record_outcome_def by (rule base resp_outcome)+

lemma resp_place_and_record: "keeps R (place_and_record acc rl symbol sd ot q p n rp idem eq actor sp)"
  unfolding place_and_record_def by (rule base resp_record)+

lemma resp_executors:
  "keeps R (execute_one_sized acc symbol s entry stop risk idem ot actor)"
  "keeps R (execute_one_direct aid symbol sd ot q p idem actor sp)"
  "keeps R (execute_oco_direct aid symbol sd q' p' sp' slp idem actor)"
  unfolding execute_one_sized_def execute_one_direct_def execute_oco_direct_def accuracy_preflight_def
  by (rule base resp_small resp_outcome resp_record resp_place_and_record)+

lemma resp_close_one: "keeps R (close_one acc actor)"
  unfolding close_one_def bulk_cancel_def cancel_target_def cancel_one_def cancel_unknown_def cancel_done_def for_local_def
    write_cancel_def write_unknown_def write_sync_def sell_asset_def new_sale_def
  by (rule base resp_small resp_place_and_record)+

lemma resp_order_service:
  "keeps R (place_order a b c d ee f g h actor)" "keeps R (place_oco_order a b c d' ee f g h actor)"
  "keeps R (execute_on_accounts a b c d'' ee f g h i actor)" "keeps R reconcile_open_orders"
  "keeps R (close_all_positions a actor)"
  unfolding place_order_def place_oco_order_def execute_on_accounts_def reconcile_open_orders_def reconcile_one_def
    close_all_positions_def
  by (rule base resp_small resp_executors resp_close_one)+

end

interpretation accounts_client: orders_client keeps_accounts
proof unfold_locales
  show "keeps keeps_accounts (consume_override a v i)" for a v i
    by (rule keeps_mono [OF consume_override_frame]) (auto simp: risk_frame_def intro: keeps_accounts_same)
qed (simp add: keeps_accounts_same)

interpretation override_client: orders_client ov_evolves
  by unfold_locales (simp_all add: ov_evolves_same consume_override_evolves)

subsection \<open>The risk service leaves the other tables alone\<close>

lemma risk_modify_frame:
  "(\<And>d. accounts (g d) = accounts d \<and> orders (g d) = orders d \<and> reconciled (g d) = reconciled d \<and> alerts (g d) = alerts d
      \<and> triggered (g d) = triggered d \<and> pending (g d) = pending d)
   \<Longrightarrow> keeps risk_frame (db_modify g)"
  by (simp add: keeps_def db_modify_def risk_frame_def)

lemma risk_service_frame:
  "keeps risk_frame (set_risk_policy a n g s cn ca cs actor)"
  "keeps risk_frame (create_override a reason scope key actor expires ttl)" "keeps risk_frame reconcile_overrides"
  unfolding set_risk_policy_def upsert_policy_def insert_policy_def update_policy_def finish_upsert_def
    reconcile_stale_overrides_def create_override_def insert_override_def reconcile_overrides_def
  by (rule risk_frame.audited_intros keeps_cases close_override_frame | rule risk_modify_frame, simp (no_asm))+

lemma other_services_log:
  "keeps account_frame m \<Longrightarrow> keeps log_kept m" "keeps risk_frame m \<Longrightarrow> keeps log_kept m"
  by (erule keeps_mono, rule log_kept_silent, auto simp: account_frame_def risk_frame_def places_def intro: orders_evolve_same)+

lemma risk_frame_accounts: "keeps risk_frame m \<Longrightarrow> keeps keeps_accounts m"
  by (erule keeps_mono) (simp add: risk_frame_def keeps_accounts_same)

lemma account_frame_overrides: "keeps account_frame m \<Longrightarrow> keeps ov_evolves m"
  by (erule keeps_mono) (simp add: account_frame_def ov_evolves_same)

end
