(* ===== verification/Pending.thy ===== *)
theory Pending
  imports Service
begin

text \<open>
  Orders that wait for approval: the state machine of \<open>pending_orders\<close> in \<open>pa/alarms.py\<close> (every
  transition is a compare-and-set on the status) and the approval handler of
  \<open>daemon/handlers.py\<close>, which claims the record, runs the order service and records the outcome.
\<close>

subsection \<open>Rows\<close>

definition find_pending :: "string \<Rightarrow> db \<Rightarrow> pending_row option" where
  "find_pending oid d = List.find (\<lambda>p. pd_order_id p = oid) (pending d)"

text \<open>\<open>UPDATE pending_orders SET \<dots> WHERE order_id=? AND status=?\<close>; the result tells whether a row
  matched.\<close>

definition cas_pending :: "string \<Rightarrow> pending_status \<Rightarrow> (pending_row \<Rightarrow> pending_row) \<Rightarrow> bool m" where
  "cas_pending oid st f =
     mbind (db_read (\<lambda>d. list_ex (\<lambda>p. pd_order_id p = oid \<and> pd_status p = st) (pending d))) (\<lambda>hit.
     mbind (db_modify (\<lambda>d. d\<lparr>pending := upd_where (\<lambda>p. pd_order_id p = oid \<and> pd_status p = st) f (pending d)\<rparr>)) (\<lambda>_.
       mret hit))"

text \<open>No row matched: the order does not exist or is in another state.\<close>

definition require_hit :: "string \<Rightarrow> bool \<Rightarrow> unit m" where
  "require_hit oid hit =
     (if hit then mret ()
      else mbind (db_read (find_pending oid)) (\<lambda>row. mraise (rasat (if row = None then NOT_FOUND else INVALID_REQUEST))))"

definition transition :: "string \<Rightarrow> pending_status \<Rightarrow> (pending_row \<Rightarrow> pending_row) \<Rightarrow> unit m" where
  "transition oid st f = mbind (cas_pending oid st f) (require_hit oid)"

subsection \<open>Transitions\<close>

definition approve_pending_order :: "string \<Rightarrow> unit m" where
  "approve_pending_order oid =
     mbind time_now (\<lambda>now.
       db_write (transition oid AWAITING_APPROVAL (\<lambda>p. p\<lparr>pd_status := APPROVED, pd_approved_at := Some now\<rparr>)))"

definition reject_pending_order :: "string \<Rightarrow> string option \<Rightarrow> unit m" where
  "reject_pending_order oid reason =
     mbind time_now (\<lambda>now.
       db_write (transition oid AWAITING_APPROVAL
         (\<lambda>p. p\<lparr>pd_status := PREJECTED, pd_rejected_at := Some now, pd_reject_reason := reason\<rparr>)))"

definition claim_row :: "int \<Rightarrow> pending_row \<Rightarrow> pending_row" where
  "claim_row now p =
     p\<lparr>pd_status := EXECUTING, pd_execution_started_at := Some now, pd_last_attempt_at := Some now, pd_execution_error_code := None\<rparr>"

definition approve_and_claim_pending_execution :: "string \<Rightarrow> unit m" where
  "approve_and_claim_pending_execution oid =
     mbind time_now (\<lambda>now.
       db_write (
         mbind (transition oid AWAITING_APPROVAL (\<lambda>p. p\<lparr>pd_status := APPROVED, pd_approved_at := Some now\<rparr>)) (\<lambda>_.
         mbind (cas_pending oid APPROVED (claim_row now)) (\<lambda>hit.
           mguard (\<not> hit) (rasat INTERNAL_ERROR)))))"

definition complete_pending_execution :: "string \<Rightarrow> string option \<Rightarrow> unit m" where
  "complete_pending_execution oid executed_order_id =
     mbind time_now (\<lambda>now.
       db_write (transition oid EXECUTING
         (\<lambda>p. p\<lparr>pd_status := EXECUTED, pd_executed_order_id := executed_order_id, pd_execution_finished_at := Some now,
               pd_last_attempt_at := Some now\<rparr>)))"

definition fail_pending_execution :: "string \<Rightarrow> pending_status \<Rightarrow> errcode \<Rightarrow> unit m" where
  "fail_pending_execution oid st c =
     mbind (mguard (st \<noteq> PREJECTED \<and> st \<noteq> RECONCILE_REQUIRED) (rasat INVALID_REQUEST)) (\<lambda>_.
     mbind time_now (\<lambda>now.
       db_write (transition oid EXECUTING
         (\<lambda>p. p\<lparr>pd_status := st, pd_execution_error_code := Some c, pd_execution_finished_at := Some now,
               pd_last_attempt_at := Some now\<rparr>))))"

definition pending_order :: "string \<Rightarrow> pending_row m" where
  "pending_order oid =
     mbind (db_read (find_pending oid)) (\<lambda>row. (case row of None \<Rightarrow> mraise (rasat NOT_FOUND) | Some p \<Rightarrow> mret p))"

definition fill_pending_entry :: "string \<Rightarrow> rat \<Rightarrow> unit m" where
  "fill_pending_entry oid entry =
     db_write (db_modify (\<lambda>d. d\<lparr>pending := upd_where (\<lambda>p. pd_order_id p = oid) (\<lambda>p. p\<lparr>pd_entry := PFloat (Fin entry)\<rparr>) (pending d)\<rparr>))"

definition get_pending_orders :: "pending_status option \<Rightarrow> int \<Rightarrow> pending_row list m" where
  "get_pending_orders status limit =
     mbind (mguard (\<not> (1 \<le> limit \<and> limit \<le> 500)) (rasat INVALID_REQUEST)) (\<lambda>_.
       db_read (\<lambda>d. take (nat limit)
         (sort_key (\<lambda>p. - pd_created_at p) (filter (\<lambda>p. status = None \<or> status = Some (pd_status p)) (pending d)))))"

subsection \<open>Execution inputs\<close>

text \<open>A number that is not a boolean, as a finite rational within a bound.\<close>

definition number_within :: "pyval \<Rightarrow> (rat \<Rightarrow> bool) \<Rightarrow> unit res" where
  "number_within v ok =
     (case v of
        PInt _ \<Rightarrow> rbind (py_float v) (\<lambda>x. raise_if (\<not> (case x of Fin q \<Rightarrow> ok q | _ \<Rightarrow> False)) (rasat INVALID_REQUEST))
      | PFloat x \<Rightarrow> raise_if (\<not> (case x of Fin q \<Rightarrow> ok q | _ \<Rightarrow> False)) (rasat INVALID_REQUEST)
      | _ \<Rightarrow> Inl (rasat INVALID_REQUEST))"

text \<open>\<open>(order_type or "market").lower()\<close>: only text has \<open>lower\<close>.\<close>

definition lower_or_market :: "pyval \<Rightarrow> string res" where
  "lower_or_market v =
     (if \<not> truthy v then Inr ''market'' else (case v of PStr s \<Rightarrow> Inr (py_lower s) | _ \<Rightarrow> Inl OtherException))"

definition validate_execution_inputs :: "pyval \<Rightarrow> pyval \<Rightarrow> pyval \<Rightarrow> pyval \<Rightarrow> unit res" where
  "validate_execution_inputs risk_pct entry stop_loss order_type =
     rbind (number_within risk_pct (\<lambda>q. 0 < q \<and> q \<le> 1)) (\<lambda>_.
     rbind (riter (\<lambda>v. if v = PNone then Inr () else number_within v (\<lambda>q. 0 < q)) [entry, stop_loss]) (\<lambda>_.
     rbind (lower_or_market order_type) (\<lambda>ot.
       raise_if (ot = ''limit'' \<and> entry = PNone) (rasat INVALID_REQUEST))))"

subsection \<open>The approval handler\<close>

definition PENDING_TRANSIENT_ERRORS :: "errcode list" where
  "PENDING_TRANSIENT_ERRORS = [TIMEOUT, STALE_DATA, RATE_LIMITED, ORDER_UNKNOWN, ORDER_RECONCILE_REQUIRED]"

definition failure_state :: "errcode \<Rightarrow> pending_status" where
  "failure_state c = (if c \<in> set PENDING_TRANSIENT_ERRORS then RECONCILE_REQUIRED else PREJECTED)"

text \<open>The market price of a symbol; only text names one.\<close>

definition current_market_price :: "pyval \<Rightarrow> rat option m" where
  "current_market_price symbol = (case symbol of PStr s \<Rightarrow> m_price s | _ \<Rightarrow> mret None)"

definition fill_entry :: "string \<Rightarrow> pending_row \<Rightarrow> pyval m" where
  "fill_entry oid rec =
     (let order_type = (if truthy (pd_order_type rec) then pd_order_type rec else PStr ''market'') in
      if py_lower (py_str order_type) = ''market'' \<and> pd_entry rec = PNone then
        mbind (current_market_price (pd_symbol rec)) (\<lambda>p.
          (case p of
             None \<Rightarrow> mraise (rasat STALE_DATA)
           | Some price \<Rightarrow> mbind (fill_pending_entry oid price) (\<lambda>_. mret (PFloat (Fin price)))))
      else mret (pd_entry rec))"

fun result_error :: "exec_result \<Rightarrow> errcode option" where
  "result_error (Executed v) = vw_error v"
| "result_error (ExecFailed _ _ c) = Some c"

definition truthy_id :: "string option \<Rightarrow> string option" where
  "truthy_id x = (if x = Some [] then None else x)"

definition executed_id :: "exec_result \<Rightarrow> string option" where
  "executed_id r =
     (case r of
        Executed v \<Rightarrow> (case truthy_id (vw_exchange_order_id v) of Some i \<Rightarrow> Some i | None \<Rightarrow> truthy_id (Some (vw_order_id v)))
      | ExecFailed _ _ _ \<Rightarrow> None)"

definition fail_and_raise :: "string \<Rightarrow> pending_status \<Rightarrow> errcode \<Rightarrow> pyexc \<Rightarrow> 'a m" where
  "fail_and_raise oid st c x = mbind (fail_pending_execution oid st c) (\<lambda>_. mraise x)"

definition settle_result :: "string \<Rightarrow> exec_result \<Rightarrow> string m" where
  "settle_result oid r =
     (let st = exec_status r in
      if st = FILLED \<or> st = PAPER then
        (case executed_id r of
           None \<Rightarrow> fail_and_raise oid RECONCILE_REQUIRED ORDER_UNKNOWN (rasat ORDER_RECONCILE_REQUIRED)
         | Some i \<Rightarrow> mbind (complete_pending_execution oid (Some i)) (\<lambda>_. mret i))
      else if st = REJECTED \<or> st = CANCELED \<or> st = EXPIRED then
        (let c = (case result_error r of Some c \<Rightarrow> c | None \<Rightarrow> if st = EXPIRED then ORDER_EXPIRED else ORDER_REJECTED)
         in fail_and_raise oid (failure_state c) c (rasat c))
      else
        (let c = (case result_error r of Some c \<Rightarrow> c | None \<Rightarrow> ORDER_UNKNOWN)
         in fail_and_raise oid RECONCILE_REQUIRED c (rasat ORDER_RECONCILE_REQUIRED)))"

definition execute_pending :: "string \<Rightarrow> pending_row \<Rightarrow> pyval \<Rightarrow> string \<Rightarrow> string m" where
  "execute_pending oid rec entry actor =
     mtry (execute_on_accounts (PList [pd_account_id rec]) PNone (pd_symbol rec) (pd_side rec) entry (pd_stop_loss rec)
             (pd_risk_pct rec) (PStr (''pending:'' @ oid))
             (if truthy (pd_order_type rec) then pd_order_type rec else PStr ''MARKET'') actor) (\<lambda>r.
       (case r of
          Inl x \<Rightarrow>
            (if is_rasat x then fail_and_raise oid (failure_state (exc_code x)) (exc_code x) x
             else fail_and_raise oid RECONCILE_REQUIRED INTERNAL_ERROR x)
        | Inr s \<Rightarrow>
            (case es_results s of
               [] \<Rightarrow> fail_and_raise oid RECONCILE_REQUIRED ORDER_UNKNOWN (rasat ORDER_RECONCILE_REQUIRED)
             | res # _ \<Rightarrow> settle_result oid res)))"

definition approve_pending_order_handler :: "string \<Rightarrow> string \<Rightarrow> string m" where
  "approve_pending_order_handler oid actor =
     mbind (pending_order oid) (\<lambda>rec.
     mbind (mguard (pd_status rec \<noteq> AWAITING_APPROVAL) (rasat INVALID_REQUEST)) (\<lambda>_.
     mbind (fill_entry oid rec) (\<lambda>entry.
     mbind (mlift (validate_execution_inputs (pd_risk_pct rec) entry (pd_stop_loss rec) (pd_order_type rec))) (\<lambda>_.
     mbind (mguard (pd_stop_loss rec = PNone) (rasat INVALID_REQUEST)) (\<lambda>_.
     mbind (approve_and_claim_pending_execution oid) (\<lambda>_.
       execute_pending oid rec entry actor))))))"

subsection \<open>Recovery after a restart\<close>

record recovery =
  rv_matched :: nat
  rv_completed :: nat
  rv_failed :: nat
  rv_untouched :: nat

text \<open>The order of a pending record, as the query of \<open>reconcile_pending_executions\<close> finds it: an
  account id that is not text matches no row.\<close>

definition match_order :: "string \<Rightarrow> pyval \<Rightarrow> db \<Rightarrow> order_row option" where
  "match_order oid acc d = (case acc of PStr a \<Rightarrow> load_order a (''pending:'' @ oid) d | _ \<Rightarrow> None)"

definition recover_one :: "int \<Rightarrow> int \<Rightarrow> pending_row \<Rightarrow> recovery \<Rightarrow> recovery m" where
  "recover_one now stale_after rec s =
     (let oid = pd_order_id rec in
      mbind (db_read (match_order oid (pd_account_id rec))) (\<lambda>order.
        (case order of
           Some o' \<Rightarrow>
             (let s = s\<lparr>rv_matched := rv_matched s + 1\<rparr> in
              if o_status o' = FILLED \<or> o_status o' = PAPER then
                mbind (complete_pending_execution oid (o_exchange_order_id o')) (\<lambda>_. mret (s\<lparr>rv_completed := rv_completed s + 1\<rparr>))
              else if o_status o' = REJECTED \<or> o_status o' = CANCELED \<or> o_status o' = EXPIRED then
                mbind (fail_pending_execution oid PREJECTED ORDER_REJECTED) (\<lambda>_. mret (s\<lparr>rv_failed := rv_failed s + 1\<rparr>))
              else
                mbind (fail_pending_execution oid RECONCILE_REQUIRED ORDER_UNKNOWN) (\<lambda>_. mret (s\<lparr>rv_failed := rv_failed s + 1\<rparr>)))
         | None \<Rightarrow>
             (case pd_execution_started_at rec of
                Some started \<Rightarrow>
                  if now - started > stale_after then
                    mbind (fail_pending_execution oid RECONCILE_REQUIRED ORDER_UNKNOWN) (\<lambda>_. mret (s\<lparr>rv_failed := rv_failed s + 1\<rparr>))
                  else mret (s\<lparr>rv_untouched := rv_untouched s + 1\<rparr>)
              | None \<Rightarrow> mret (s\<lparr>rv_untouched := rv_untouched s + 1\<rparr>)))))"

definition reconcile_pending_executions :: "int \<Rightarrow> (nat \<times> recovery) m" where
  "reconcile_pending_executions stale_after =
     mbind time_now (\<lambda>now.
     mbind (db_read (\<lambda>d. filter (\<lambda>p. pd_status p = EXECUTING) (pending d))) (\<lambda>records.
     mbind (mfold (recover_one now stale_after) records \<lparr>rv_matched = 0, rv_completed = 0, rv_failed = 0, rv_untouched = 0\<rparr>) (\<lambda>s.
       mret (length records, s))))"

definition demo_pending :: "string \<Rightarrow> pending_status \<Rightarrow> pending_row" where
  "demo_pending oid st = \<lparr>pd_order_id = oid, pd_alert_id = ''al'', pd_account_id = PStr ''a'', pd_symbol = PStr ''BTCUSDT'',
     pd_side = PStr ''BUY'', pd_order_type = PStr ''market'', pd_entry = PNone, pd_stop_loss = PFloat (Fin 90), pd_risk_pct = PFloat (Fin (1 / 50)),
     pd_status = st, pd_note = PNone, pd_created_at = 1, pd_approved_at = None, pd_rejected_at = None, pd_executed_order_id = None,
     pd_reject_reason = None, pd_execution_started_at = None, pd_execution_finished_at = None, pd_last_attempt_at = None,
     pd_execution_error_code = None\<rparr>"

subsection \<open>The states only move forward\<close>

fun pd_rank :: "pending_status \<Rightarrow> nat" where
  "pd_rank AWAITING_APPROVAL = 0"
| "pd_rank APPROVED = 1"
| "pd_rank EXECUTING = 2"
| "pd_rank _ = 3"

text \<open>The record but for its entry price, which the approval may fill in.\<close>

definition pd_core :: "pending_row \<Rightarrow> pending_row" where
  "pd_core p = p\<lparr>pd_entry := PNone\<rparr>"

definition pd_advance :: "pending_row \<Rightarrow> pending_row \<Rightarrow> bool" where
  "pd_advance p p' =
     (pd_order_id p' = pd_order_id p \<and> pd_alert_id p' = pd_alert_id p \<and> pd_account_id p' = pd_account_id p
      \<and> pd_symbol p' = pd_symbol p \<and> pd_side p' = pd_side p \<and> pd_order_type p' = pd_order_type p
      \<and> pd_stop_loss p' = pd_stop_loss p \<and> pd_risk_pct p' = pd_risk_pct p \<and> pd_note p' = pd_note p \<and> pd_created_at p' = pd_created_at p
      \<and> (pd_core p' = pd_core p \<or> pd_rank (pd_status p) < pd_rank (pd_status p')))"

definition pending_evolve :: "world \<Rightarrow> world \<Rightarrow> bool" where
  "pending_evolve w w' =
     (\<exists>upd new. pending (w_db w') = upd @ new \<and> list_all2 pd_advance (pending (w_db w)) upd)"

lemma pd_advance_refl [simp]: "pd_advance p p"
  by (simp add: pd_advance_def)

lemma pd_core_status: "pd_core p' = pd_core p \<Longrightarrow> pd_status p' = pd_status p"
  by (cases p; cases p') (simp add: pd_core_def)

lemma pd_advance_trans: "pd_advance a b \<Longrightarrow> pd_advance b c \<Longrightarrow> pd_advance a c"
  by (auto simp: pd_advance_def dest: pd_core_status)

lemma pending_evolve_same: "pending (w_db w') = pending (w_db w) \<Longrightarrow> pending_evolve w w'"
  unfolding pending_evolve_def
  by (intro exI [of _ "pending (w_db w)"] exI [of _ "[]"]) (auto intro: list_all2_refl)

lemma pending_evolve_upd:
  assumes "\<And>p. q p \<Longrightarrow> pd_advance p (f p)"
  shows "pending_evolve w (w\<lparr>w_db := (w_db w)\<lparr>pending := upd_where q f (pending (w_db w))\<rparr>\<rparr>)"
  unfolding pending_evolve_def
  by (intro exI [of _ "upd_where q f (pending (w_db w))"] exI [of _ "[]"])
    (auto simp: upd_where_def list_all2_conv_all_nth assms)

interpretation pending_evolve: db_relation pending_evolve
proof unfold_locales
  fix w w' w''
  assume "pending_evolve w w'" "pending_evolve w' w''"
  then obtain upd new upd' new' where 1: "pending (w_db w') = upd @ new" "list_all2 pd_advance (pending (w_db w)) upd"
    and 2: "pending (w_db w'') = upd' @ new'" "list_all2 pd_advance (upd @ new) upd'"
    by (auto simp: pending_evolve_def)
  from 2(2) obtain u1 u2 where u: "upd' = u1 @ u2" "list_all2 pd_advance upd u1"
    by (auto simp: list_all2_append1)
  have "list_all2 pd_advance (pending (w_db w)) u1"
    by (rule list_all2_trans [OF pd_advance_trans 1(2) u(2)])
  with 2(1) u(1) show "pending_evolve w w''"
    unfolding pending_evolve_def by (intro exI [of _ u1] exI [of _ "u2 @ new'"]) simp
qed (simp_all add: pending_evolve_same)

interpretation pending_client: orders_client pending_evolve
proof unfold_locales
  show "keeps pending_evolve (consume_override a v i)" for a v i
    by (rule keeps_mono [OF consume_override_frame]) (simp add: risk_frame_def pending_evolve_same)
qed (simp add: pending_evolve_same)

lemma cas_evolves:
  assumes "\<And>p. pd_status p = st \<Longrightarrow> pd_advance p (f p)"
  shows "keeps pending_evolve (cas_pending oid st f)"
proof -
  have "keeps pending_evolve (db_modify (\<lambda>d. d\<lparr>pending := upd_where (\<lambda>p. pd_order_id p = oid \<and> pd_status p = st) f (pending d)\<rparr>))"
    unfolding keeps_def db_modify_def by (auto intro!: pending_evolve_upd assms)
  then show ?thesis unfolding cas_pending_def by (intro pending_evolve.resp_intros)
qed

lemmas pe_rules = pending_evolve.db_intros keeps_cases

lemma transition_evolves:
  "(\<And>p. pd_status p = st \<Longrightarrow> pd_advance p (f p)) \<Longrightarrow> keeps pending_evolve (transition oid st f)"
  unfolding transition_def require_hit_def by (rule pe_rules cas_evolves | assumption)+

lemma advance_claims:
  "pd_status p = AWAITING_APPROVAL \<Longrightarrow> pd_advance p (p\<lparr>pd_status := APPROVED, pd_approved_at := t\<rparr>)"
  "pd_status p = AWAITING_APPROVAL \<Longrightarrow> pd_advance p (p\<lparr>pd_status := PREJECTED, pd_rejected_at := t, pd_reject_reason := r\<rparr>)"
  "pd_status p = APPROVED \<Longrightarrow> pd_advance p (claim_row now p)"
  "pd_status p = EXECUTING \<Longrightarrow> pd_advance p (p\<lparr>pd_status := EXECUTED, pd_executed_order_id := i, pd_execution_finished_at := t, pd_last_attempt_at := t\<rparr>)"
  "pd_status p = EXECUTING \<Longrightarrow> st = PREJECTED \<or> st = RECONCILE_REQUIRED \<Longrightarrow>
     pd_advance p (p\<lparr>pd_status := st, pd_execution_error_code := c, pd_execution_finished_at := t, pd_last_attempt_at := t\<rparr>)"
  by (auto simp: pd_advance_def claim_row_def)

lemma approve_evolves: "keeps pending_evolve (approve_pending_order oid)"
  unfolding approve_pending_order_def by (rule pe_rules transition_evolves advance_claims | assumption)+

lemma reject_evolves: "keeps pending_evolve (reject_pending_order oid reason)"
  unfolding reject_pending_order_def by (rule pe_rules transition_evolves advance_claims | assumption)+

lemma claim_evolves: "keeps pending_evolve (approve_and_claim_pending_execution oid)"
  unfolding approve_and_claim_pending_execution_def by (rule pe_rules transition_evolves cas_evolves advance_claims | assumption)+

lemma complete_evolves: "keeps pending_evolve (complete_pending_execution oid i)"
  unfolding complete_pending_execution_def by (rule pe_rules transition_evolves advance_claims | assumption)+

lemma fail_evolves: "keeps pending_evolve (fail_pending_execution oid st c)"
proof (cases "st = PREJECTED \<or> st = RECONCILE_REQUIRED")
  case True
  then show ?thesis
    unfolding fail_pending_execution_def by (intro pe_rules transition_evolves advance_claims) auto
next
  case False
  then show ?thesis
    by (simp add: fail_pending_execution_def keeps_def mbind_def mguard_def mlift_def raise_if_def pending_evolve.R_refl)
qed

lemma fill_evolves: "keeps pending_evolve (fill_pending_entry oid entry)"
proof -
  have "keeps pending_evolve (db_modify (\<lambda>d. d\<lparr>pending := upd_where (\<lambda>p. pd_order_id p = oid) (\<lambda>p. p\<lparr>pd_entry := PFloat (Fin entry)\<rparr>) (pending d)\<rparr>))"
    unfolding keeps_def db_modify_def by (auto intro!: pending_evolve_upd simp: pd_advance_def pd_core_def)
  then show ?thesis unfolding fill_pending_entry_def by (rule pending_evolve.resp_write)
qed

lemmas pending_ops = approve_evolves reject_evolves claim_evolves complete_evolves fail_evolves fill_evolves

lemma handler_evolves: "keeps pending_evolve (approve_pending_order_handler oid actor)"
  unfolding approve_pending_order_handler_def pending_order_def fill_entry_def current_market_price_def execute_pending_def
    settle_result_def fail_and_raise_def
  by (rule pe_rules pending_ops pending_client.resp_order_service | split pyval.split exec_result.split list.split, intro conjI allI impI)+

lemma recover_one_evolves: "keeps pending_evolve (recover_one now stale rec s)"
  unfolding recover_one_def by (rule pe_rules pending_ops)+

lemma recovery_evolves: "keeps pending_evolve (reconcile_pending_executions stale)"
  unfolding reconcile_pending_executions_def by (rule pe_rules recover_one_evolves)+

subsection \<open>What the other tables see\<close>

text \<open>The alarm service writes only its own tables and never talks to the exchange.\<close>

definition alarm_frame :: "world \<Rightarrow> world \<Rightarrow> bool" where
  "alarm_frame w w' =
     (w_trace w' = w_trace w \<and> accounts (w_db w') = accounts (w_db w) \<and> policies (w_db w') = policies (w_db w)
      \<and> overrides (w_db w') = overrides (w_db w) \<and> orders (w_db w') = orders (w_db w) \<and> reconciled (w_db w') = reconciled (w_db w)
      \<and> audit_log (w_db w') = audit_log (w_db w))"

interpretation alarm_frame: world_relation alarm_frame
  by unfold_locales (auto simp: alarm_frame_def)

text \<open>The operations on pending orders write that table only.\<close>

definition pending_frame :: "world \<Rightarrow> world \<Rightarrow> bool" where
  "pending_frame w w' = (alarm_frame w w' \<and> alerts (w_db w') = alerts (w_db w) \<and> triggered (w_db w') = triggered (w_db w))"

interpretation pending_frame: world_relation pending_frame
  by unfold_locales (auto simp: pending_frame_def alarm_frame_def)

lemma pending_modify_frame: "keeps pending_frame (db_modify (\<lambda>d. d\<lparr>pending := f (pending d)\<rparr>))"
  by (simp add: keeps_def db_modify_def pending_frame_def alarm_frame_def)

lemma pending_ops_frame:
  "keeps pending_frame (approve_pending_order oid)" "keeps pending_frame (reject_pending_order oid reason)"
  "keeps pending_frame (approve_and_claim_pending_execution oid)" "keeps pending_frame (complete_pending_execution oid i)"
  "keeps pending_frame (fail_pending_execution oid st c)" "keeps pending_frame (fill_pending_entry oid entry)"
  unfolding approve_pending_order_def reject_pending_order_def approve_and_claim_pending_execution_def
    complete_pending_execution_def fail_pending_execution_def fill_pending_entry_def transition_def cas_pending_def require_hit_def
  by (rule pending_frame.resp_intros keeps_cases pending_modify_frame)+

text \<open>What the approval relies on: the relation ignores the table of pending orders and the
  execution respects it.\<close>

locale approval_client = flow_relation +
  assumes R_pending: "pending_frame w w' \<Longrightarrow> R w w'"
    and resp_execute: "keeps R (execute_on_accounts a b c d ee f g h i actor)"
begin

lemma resp_pending: "keeps pending_frame m \<Longrightarrow> keeps R m"
  by (erule keeps_mono) (rule R_pending)

lemmas rules = flow_intros keeps_cases resp_execute pending_ops_frame [THEN resp_pending]

lemma resp_settle: "keeps R (settle_result oid r)" "keeps R (fill_entry oid rec)"
  unfolding settle_result_def fail_and_raise_def fill_entry_def current_market_price_def
  by (rule rules | split pyval.split, intro conjI allI impI)+

lemma resp_approval:
  "keeps R (approve_pending_order_handler oid actor)" "keeps R (reject_pending_order oid reason)"
  "keeps R (reconcile_pending_executions stale)"
  unfolding approve_pending_order_handler_def pending_order_def execute_pending_def fail_and_raise_def
    reconcile_pending_executions_def recover_one_def
  by (rule rules resp_settle | split list.split, intro conjI allI impI)+

end

interpretation log_approval: approval_client log_kept
  by unfold_locales (auto simp: pending_frame_def alarm_frame_def places_def execute_on_accounts_log intro!: log_kept_silent orders_evolve_same)

interpretation accounts_approval: approval_client keeps_accounts
  by unfold_locales (auto simp: pending_frame_def alarm_frame_def accounts_client.resp_order_service intro!: keeps_accounts_same)

interpretation override_approval: approval_client ov_evolves
  by unfold_locales (auto simp: pending_frame_def alarm_frame_def override_client.resp_order_service intro!: ov_evolves_same)

subsection \<open>What an approval leaves behind\<close>

lemma find_pending_upd:
  assumes "find_pending oid d = Some p" "\<And>x. pd_order_id (f x) = pd_order_id x"
  shows "find_pending oid (d\<lparr>pending := upd_where q f (pending d)\<rparr>) = Some (if q p then f p else p)"
  using assms unfolding find_pending_def by (simp add: find_upd_where)

lemma find_pending_id: "find_pending oid d = Some p \<Longrightarrow> pd_order_id p = oid"
  by (auto simp: find_pending_def find_Some_iff)

lemma find_pending_hit:
  "find_pending oid d = Some p \<Longrightarrow> pd_status p = st \<Longrightarrow> list_ex (\<lambda>x. pd_order_id x = oid \<and> pd_status x = st) (pending d)"
  by (auto simp: find_pending_def list_ex_iff dest!: find_SomeD)

lemma wp_transition:
  assumes "find_pending oid (w_db w) = Some p" "pd_status p = st" "\<And>x. pd_order_id (f x) = pd_order_id x"
    and "\<And>w'. find_pending oid (w_db w') = Some (f p) \<Longrightarrow> w_trace w' = w_trace w \<Longrightarrow> Q (Inr ()) w'"
  shows "wp e (transition oid st f) Q w"
  using find_pending_upd [OF assms(1,3), of "\<lambda>x. pd_order_id x = oid \<and> pd_status x = st"] find_pending_hit [OF assms(1,2)]
    find_pending_id [OF assms(1)] assms(2)
  by (simp add: transition_def cas_pending_def require_hit_def wp_mbind wp_simps assms(4))

lemma wp_fail:
  assumes "find_pending oid (w_db w) = Some p" "pd_status p = EXECUTING" "st = PREJECTED \<or> st = RECONCILE_REQUIRED"
    and "\<And>p' w'. find_pending oid (w_db w') = Some p' \<Longrightarrow> pd_status p' = st \<Longrightarrow> pd_executed_order_id p' = pd_executed_order_id p \<Longrightarrow> Q (Inl x) w'"
  shows "wp e (fail_and_raise oid st c x) Q w"
  unfolding fail_and_raise_def fail_pending_execution_def wp_mbind wp_db_write
  using assms(3) by (auto simp: wp_simps intro!: wp_transition [OF _ assms(2)] assms(4) simp: assms(1))

lemma wp_complete:
  assumes "find_pending oid (w_db w) = Some p" "pd_status p = EXECUTING"
    and "\<And>p' w'. find_pending oid (w_db w') = Some p' \<Longrightarrow> pd_status p' = EXECUTED \<Longrightarrow> pd_executed_order_id p' = i \<Longrightarrow> Q (Inr ()) w'"
  shows "wp e (complete_pending_execution oid i) Q w"
  unfolding complete_pending_execution_def wp_mbind wp_db_write
  by (auto simp: wp_simps intro!: wp_transition [OF _ assms(2)] assms(3) simp: assms(1))

text \<open>Settled: executed with the id that is returned, or failed without one.\<close>

definition settled_as :: "string \<Rightarrow> string option \<Rightarrow> string res \<Rightarrow> world \<Rightarrow> bool" where
  "settled_as oid old r w' =
     (\<exists>p'. find_pending oid (w_db w') = Some p'
        \<and> (case r of
             Inr i \<Rightarrow> pd_status p' = EXECUTED \<and> pd_executed_order_id p' = Some i \<and> i \<noteq> []
           | Inl x \<Rightarrow> (pd_status p' = PREJECTED \<or> pd_status p' = RECONCILE_REQUIRED) \<and> pd_executed_order_id p' = old))"

lemma executed_id_nonempty: "executed_id r = Some i \<Longrightarrow> i \<noteq> []"
  by (auto simp: executed_id_def truthy_id_def split: exec_result.splits option.splits if_splits)

lemma failure_state_cases: "failure_state c = PREJECTED \<or> failure_state c = RECONCILE_REQUIRED"
  by (simp add: failure_state_def)

lemma settle_result_settles:
  assumes "find_pending oid (w_db w) = Some p" "pd_status p = EXECUTING"
  shows "wp e (settle_result oid r) (settled_as oid (pd_executed_order_id p)) w"
proof -
  have f: "wp e (fail_and_raise oid st c x) (settled_as oid (pd_executed_order_id p)) w"
    if "st = PREJECTED \<or> st = RECONCILE_REQUIRED" for st c x
    by (rule wp_fail [OF assms that]) (use that in \<open>auto simp: settled_as_def\<close>)
  have c: "wp e (mbind (complete_pending_execution oid (Some i)) (\<lambda>_. mret i)) (settled_as oid (pd_executed_order_id p)) w"
    if "executed_id r = Some i" for i
    unfolding wp_mbind
    by (rule wp_complete [OF assms]) (auto simp: wp_simps settled_as_def executed_id_nonempty [OF that])
  show ?thesis
    unfolding settle_result_def Let_def
    by (auto intro!: f c failure_state_cases split: option.splits)
qed

definition pending_same :: "world \<Rightarrow> world \<Rightarrow> bool" where
  "pending_same w w' = (pending (w_db w') = pending (w_db w))"

interpretation pending_same: db_relation pending_same
  by unfold_locales (auto simp: pending_same_def)

interpretation pending_same_client: orders_client pending_same
proof unfold_locales
  show "keeps pending_same (consume_override a v i)" for a v i
    by (rule keeps_mono [OF consume_override_frame]) (simp add: risk_frame_def pending_same_def)
qed (simp add: pending_same_def)

lemma execute_pending_settles:
  assumes "find_pending oid (w_db w) = Some p" "pd_status p = EXECUTING"
  shows "wp e (execute_pending oid rec entry actor) (settled_as oid (pd_executed_order_id p)) w"
  unfolding execute_pending_def wp_mtry
proof (rule wp_mono [OF keeps_wp [OF pending_same_client.resp_order_service(3)]])
  fix r :: "exec_summary res" and w' :: world
  assume "pending_same w w'"
  then have p: "find_pending oid (w_db w') = Some p" using assms(1) by (simp add: pending_same_def find_pending_def)
  have f: "wp e (fail_and_raise oid st c x) (settled_as oid (pd_executed_order_id p)) w'"
    if "st = PREJECTED \<or> st = RECONCILE_REQUIRED" for st c x
    by (rule wp_fail [OF p assms(2) that]) (use that in \<open>auto simp: settled_as_def\<close>)
  show "wp e (case r of
          Inl x \<Rightarrow>
            (if is_rasat x then fail_and_raise oid (failure_state (exc_code x)) (exc_code x) x
             else fail_and_raise oid RECONCILE_REQUIRED INTERNAL_ERROR x)
        | Inr s \<Rightarrow>
            (case es_results s of
               [] \<Rightarrow> fail_and_raise oid RECONCILE_REQUIRED ORDER_UNKNOWN (rasat ORDER_RECONCILE_REQUIRED)
             | res # _ \<Rightarrow> settle_result oid res)) (settled_as oid (pd_executed_order_id p)) w'"
    by (auto split: sum.splits list.splits intro!: f failure_state_cases settle_result_settles [OF p assms(2)])
qed

lemma wp_claim:
  assumes "find_pending oid (w_db w) = Some p" "pd_status p = AWAITING_APPROVAL"
    and "\<And>p' w'. find_pending oid (w_db w') = Some p' \<Longrightarrow> pd_status p' = EXECUTING \<Longrightarrow> pd_executed_order_id p' = pd_executed_order_id p
      \<Longrightarrow> w_trace w' = w_trace w \<Longrightarrow> Q (Inr ()) w'"
  shows "wp e (approve_and_claim_pending_execution oid) Q w"
proof -
  have claim: "wp e (mbind (cas_pending oid APPROVED (claim_row now)) (\<lambda>hit. mguard (\<not> hit) (rasat INTERNAL_ERROR)))
      (\<lambda>r w'. case r of Inl x \<Rightarrow> Q (Inl x) (w'\<lparr>w_db := d\<rparr>) | Inr y \<Rightarrow> Q (Inr y) w') w1"
    if "find_pending oid (w_db w1) = Some p1" "pd_status p1 = APPROVED" "w_trace w1 = w_trace w"
      "pd_executed_order_id p1 = pd_executed_order_id p" for now d w1 p1
    using find_pending_upd [OF that(1), of "claim_row now" "\<lambda>x. pd_order_id x = oid \<and> pd_status x = APPROVED"]
      find_pending_hit [OF that(1,2)] find_pending_id [OF that(1)] that
    by (simp add: cas_pending_def wp_mbind wp_simps)
      (rule assms(3) [where p' = "claim_row now p1"], simp_all add: claim_row_def)
  show ?thesis
    unfolding approve_and_claim_pending_execution_def wp_mbind [of e time_now] wp_db_write wp_mbind [of e "transition _ _ _"]
    by (simp add: wp_time_now, rule wp_transition [OF _ assms(2)], simp add: assms(1), simp, simp only: sum.case)
      (rule claim, assumption, simp_all)
qed

lemma fill_entry_kept:
  assumes "find_pending oid (w_db w) = Some p"
  shows "wp e (fill_entry oid rec) (\<lambda>r w'. w_trace w' = w_trace w
     \<and> (\<exists>p'. find_pending oid (w_db w') = Some p' \<and> pd_core p' = pd_core p)) w"
proof -
  have "\<exists>p'. find_pending oid (d\<lparr>pending := upd_where (\<lambda>p. pd_order_id p = oid) (\<lambda>p. p\<lparr>pd_entry := x\<rparr>) (pending d)\<rparr>) = Some p' \<and> pd_core p' = pd_core p"
    if "find_pending oid d = Some p" for d x
    using find_pending_upd [OF that, of "\<lambda>p. p\<lparr>pd_entry := x\<rparr>" "\<lambda>p. pd_order_id p = oid"] by (auto simp: pd_core_def)
  with assms show ?thesis
    by (auto simp: fill_entry_def current_market_price_def m_price_def fill_pending_entry_def wp_mbind wp_db_write wp_simps Let_def
        split: pyval.splits sum.splits option.splits)
qed

lemma pd_core_executed: "pd_core p' = pd_core p \<Longrightarrow> pd_executed_order_id p' = pd_executed_order_id p"
  by (cases p; cases p') (simp add: pd_core_def)

definition approval_outcome :: "string \<Rightarrow> pending_row \<Rightarrow> world \<Rightarrow> string res \<Rightarrow> world \<Rightarrow> bool" where
  "approval_outcome oid p w r w' =
     (\<exists>p'. find_pending oid (w_db w') = Some p'
        \<and> (case r of
             Inr i \<Rightarrow> pd_status p' = EXECUTED \<and> pd_executed_order_id p' = Some i \<and> i \<noteq> []
           | Inl x \<Rightarrow>
               pd_status p' = AWAITING_APPROVAL \<and> w_trace w' = w_trace w
               \<or> (pd_status p' = PREJECTED \<or> pd_status p' = RECONCILE_REQUIRED) \<and> pd_executed_order_id p' = pd_executed_order_id p))"

lemma settled_outcome: "settled_as oid (pd_executed_order_id p) r w' \<Longrightarrow> approval_outcome oid p w r w'"
  by (auto simp: settled_as_def approval_outcome_def split: sum.splits)

lemma claimed_outcome:
  assumes "find_pending oid (w_db w1) = Some p1" "pd_core p1 = pd_core p" "pd_status p = AWAITING_APPROVAL"
  shows "wp e (mbind (approve_and_claim_pending_execution oid) (\<lambda>_. execute_pending oid p entry actor)) (approval_outcome oid p w) w1"
proof -
  have p1: "pd_status p1 = AWAITING_APPROVAL" "pd_executed_order_id p1 = pd_executed_order_id p"
    using assms(2,3) pd_core_status pd_core_executed by metis+
  show ?thesis
    unfolding wp_mbind
  proof (rule wp_claim [OF assms(1) p1(1)])
    fix p' :: pending_row and w' :: world
    assume p': "find_pending oid (w_db w') = Some p'" "pd_status p' = EXECUTING" "pd_executed_order_id p' = pd_executed_order_id p1"
    show "case Inr () of Inl x \<Rightarrow> approval_outcome oid p w (Inl x) w' | Inr y \<Rightarrow> wp e (execute_pending oid p entry actor) (approval_outcome oid p w) w'"
      unfolding sum.case
      by (rule wp_mono [OF execute_pending_settles [OF p'(1,2)]]) (simp add: settled_outcome p' p1)
  qed
qed

lemma preflight_outcome:
  "find_pending oid (w_db w1) = Some p1 \<Longrightarrow> pd_core p1 = pd_core p \<Longrightarrow> pd_status p = AWAITING_APPROVAL \<Longrightarrow> w_trace w1 = w_trace w
   \<Longrightarrow> approval_outcome oid p w (Inl x) w1"
  by (drule pd_core_status) (simp add: approval_outcome_def)

lemma approval_settles_core:
  assumes "find_pending oid (w_db w) = Some p"
  shows "wp e (approve_pending_order_handler oid actor)
     (\<lambda>r w'. if pd_status p \<noteq> AWAITING_APPROVAL then r = Inl (rasat INVALID_REQUEST) \<and> w' = w else approval_outcome oid p w r w') w"
proof (cases "pd_status p = AWAITING_APPROVAL")
  case False
  with assms show ?thesis by (simp add: approve_pending_order_handler_def pending_order_def wp_mbind wp_simps)
next
  case True
  have "wp e (mbind (fill_entry oid p) (\<lambda>entry.
     mbind (mlift (validate_execution_inputs (pd_risk_pct p) entry (pd_stop_loss p) (pd_order_type p))) (\<lambda>_.
     mbind (mguard (pd_stop_loss p = PNone) (rasat INVALID_REQUEST)) (\<lambda>_.
     mbind (approve_and_claim_pending_execution oid) (\<lambda>_.
       execute_pending oid p entry actor))))) (approval_outcome oid p w) w"
    unfolding wp_mbind [of e "fill_entry _ _"]
  proof (rule wp_mono [OF fill_entry_kept [OF assms]])
    fix r :: "pyval res" and w1 :: world
    assume "w_trace w1 = w_trace w \<and> (\<exists>p'. find_pending oid (w_db w1) = Some p' \<and> pd_core p' = pd_core p)"
    then obtain p1 where p1: "find_pending oid (w_db w1) = Some p1" "pd_core p1 = pd_core p" "w_trace w1 = w_trace w" by blast
    show "case r of Inl x \<Rightarrow> approval_outcome oid p w (Inl x) w1 | Inr entry \<Rightarrow> wp e (
       mbind (mlift (validate_execution_inputs (pd_risk_pct p) entry (pd_stop_loss p) (pd_order_type p))) (\<lambda>_.
       mbind (mguard (pd_stop_loss p = PNone) (rasat INVALID_REQUEST)) (\<lambda>_.
       mbind (approve_and_claim_pending_execution oid) (\<lambda>_.
         execute_pending oid p entry actor)))) (approval_outcome oid p w) w1"
      unfolding wp_mbind [of e "mlift _"] wp_mbind [of e "mguard _ _"] wp_mlift wp_mguard
      using preflight_outcome [OF p1(1,2) True p1(3)] claimed_outcome [OF p1(1,2) True] by (auto split: sum.splits)
  qed
  with True assms show ?thesis
    by (simp add: approve_pending_order_handler_def pending_order_def wp_mbind [of e "mbind _ _"] wp_mbind [of e "db_read _"]
        wp_mbind [of e "mguard _ _"] wp_simps)
qed

text \<open>C6: Approving a pending order settles it. An order that is not awaiting approval is refused and
  nothing happens. Otherwise either a check before the claim fails, and the order still awaits
  approval and nothing was sent; or the record is claimed and then, whatever the order service
  and the exchange do, ends as executed with the order id that is returned, or as rejected or
  to be reconciled with the error raised and no order id. It is never left approved or executing.\<close>

theorem approval_settles:
  assumes "find_pending oid (w_db w) = Some p"
  shows "wp e (approve_pending_order_handler oid actor)
     (\<lambda>r w'. if pd_status p \<noteq> AWAITING_APPROVAL then r = Inl (rasat INVALID_REQUEST) \<and> w' = w else approval_outcome oid p w r w') w"
  by (rule approval_settles_core [OF assms])

theorem approval_settles_witness:
  "\<exists>w p. find_pending ''p'' (w_db w) = Some p \<and> pd_status p = AWAITING_APPROVAL
     \<and> wp demo_env (approve_pending_order_handler ''p'' []) (\<lambda>r w'. places w' \<noteq> [] \<and> approval_outcome ''p'' p w r w') w"
proof -
  let ?p = "demo_pending ''p'' AWAITING_APPROVAL"
  let ?w = "demo_world (demo_db\<lparr>accounts := [demo_account ''a'' ''real''], pending := [?p]\<rparr>)"
  have f: "find_pending ''p'' (w_db ?w) = Some ?p" "pd_status ?p = AWAITING_APPROVAL" by code_simp+
  have "places (snd (approve_pending_order_handler ''p'' [] demo_env ?w)) \<noteq> []" by code_simp
  with approval_settles [OF f(1), of demo_env "[]"] f
  have "wp demo_env (approve_pending_order_handler ''p'' []) (\<lambda>r w'. places w' \<noteq> [] \<and> approval_outcome ''p'' ?p ?w r w') ?w"
    by (simp add: wp_def)
  with f show ?thesis by blast
qed

text \<open>C7: A pending order is executed at most once. After an approval that sent anything to the
  exchange, every further approval of the same order is refused, whatever the environment, and
  changes nothing.\<close>

theorem approval_runs_once:
  assumes "approve_pending_order_handler oid actor e w = (r, w1)" "w_trace w1 \<noteq> w_trace w"
  shows "approve_pending_order_handler oid actor' e' w1 = (Inl (rasat INVALID_REQUEST), w1)"
proof (cases "find_pending oid (w_db w)")
  case None
  then have "w1 = w" using assms(1) by (simp add: approve_pending_order_handler_def pending_order_def run_defs)
  with assms(2) show ?thesis by simp
next
  case (Some p)
  from wp_run [OF approval_settles_core [OF Some] assms(1)] assms(2)
  obtain p' where p': "find_pending oid (w_db w1) = Some p'" "pd_status p' \<noteq> AWAITING_APPROVAL"
    by (cases r) (auto simp: approval_outcome_def split: if_splits)
  from approval_settles_core [OF p'(1), of e' actor'] p'(2) show ?thesis
    by (simp add: wp_def prod_eq_iff)
qed

theorem approval_runs_once_witness:
  "\<exists>w r w1. approve_pending_order_handler ''p'' [] demo_env w = (r, w1) \<and> w_trace w1 \<noteq> w_trace w
     \<and> approve_pending_order_handler ''p'' [] demo_env w1 = (Inl (rasat INVALID_REQUEST), w1)"
proof -
  let ?w = "demo_world (demo_db\<lparr>accounts := [demo_account ''a'' ''real''], pending := [demo_pending ''p'' AWAITING_APPROVAL]\<rparr>)"
  let ?r = "approve_pending_order_handler ''p'' [] demo_env ?w"
  have t: "w_trace (snd ?r) \<noteq> w_trace ?w" by code_simp
  have s: "?r = (fst ?r, snd ?r)" by simp
  from approval_runs_once [OF s t, of "[]" demo_env] s t show ?thesis by blast
qed

text \<open>The pending-order state machine. Whatever the environment answers, every operation (approve,
  reject, claim, complete, fail, the approval handler and the recovery) keeps each record, apart
  from the entry price that an approval fills in, or moves it forward along awaiting, approved,
  executing and a final state; in particular executed, rejected and to-be-reconciled records
  never change again, and the terms of an order stay those of the alert.\<close>

theorem pending_states_advance:
  "keeps pending_evolve (approve_pending_order oid) \<and> keeps pending_evolve (reject_pending_order oid reason)
   \<and> keeps pending_evolve (approve_and_claim_pending_execution oid) \<and> keeps pending_evolve (complete_pending_execution oid i)
   \<and> keeps pending_evolve (fail_pending_execution oid st c) \<and> keeps pending_evolve (approve_pending_order_handler oid actor)
   \<and> keeps pending_evolve (reconcile_pending_executions stale)"
  by (intro conjI pending_ops handler_evolves recovery_evolves)

subsection \<open>Recovery\<close>

text \<open>A claimed record that the recovery decides: its order is in the table, or the claim is stale.\<close>

definition decidable :: "int \<Rightarrow> int \<Rightarrow> db \<Rightarrow> pending_row \<Rightarrow> bool" where
  "decidable now stale d p =
     (match_order (pd_order_id p) (pd_account_id p) d \<noteq> None
      \<or> (case pd_execution_started_at p of Some s \<Rightarrow> now - s > stale | None \<Rightarrow> False))"

definition same_orders :: "db \<Rightarrow> db \<Rightarrow> bool" where
  "same_orders d d' = (orders d' = orders d)"

lemma decidable_same: "orders d' = orders d \<Longrightarrow> decidable now stale d' p = decidable now stale d p"
  by (simp add: decidable_def match_order_def load_order_def split: pyval.splits)

text \<open>One record: a decidable one leaves \<open>executing\<close>, nothing else changes.\<close>

definition recovered :: "int \<Rightarrow> int \<Rightarrow> pending_row \<Rightarrow> world \<Rightarrow> recovery res \<Rightarrow> world \<Rightarrow> bool" where
  "recovered now stale rec w r w' =
     ((\<exists>s'. r = Inr s') \<and> orders (w_db w') = orders (w_db w)
      \<and> (\<exists>f. (\<forall>p. pd_order_id (f p) = pd_order_id p \<and> pd_status (f p) \<noteq> EXECUTING)
          \<and> pending (w_db w') = (if decidable now stale (w_db w) rec
               then upd_where (\<lambda>p. pd_order_id p = pd_order_id rec \<and> pd_status p = EXECUTING) f (pending (w_db w))
               else pending (w_db w))))"

lemma wp_transition_exact:
  assumes "rec \<in> set (pending (w_db w))" "pd_status rec = EXECUTING" "\<And>p. pd_order_id (f p) = pd_order_id p \<and> pd_status (f p) \<noteq> EXECUTING"
    and "decidable now stale (w_db w0) rec" "pending (w_db w) = pending (w_db w0)" "orders (w_db w) = orders (w_db w0)"
  shows "wp e (db_write (transition (pd_order_id rec) EXECUTING f)) (\<lambda>r w'. case r of
       Inl x \<Rightarrow> recovered now stale rec w0 (Inl x) w' | Inr y \<Rightarrow> wp e (mret s') (recovered now stale rec w0) w') w"
proof -
  have "list_ex (\<lambda>p. pd_order_id p = pd_order_id rec \<and> pd_status p = EXECUTING) (pending (w_db w))"
    using assms(1,2) by (auto simp: list_ex_iff)
  with assms(3-6) show ?thesis
    by (auto simp: transition_def cas_pending_def require_hit_def recovered_def wp_bind_simps wp_simps intro!: exI [of _ f])
qed

lemma recover_one_recovers:
  assumes "rec \<in> set (pending (w_db w))" "pd_status rec = EXECUTING"
  shows "wp e (recover_one now stale rec s) (recovered now stale rec w) w"
proof -
  have c: "wp e (mbind (complete_pending_execution (pd_order_id rec) i) (\<lambda>_. mret s')) (recovered now stale rec w) w"
    if "decidable now stale (w_db w) rec" for i s'
    using that assms
    by (simp add: complete_pending_execution_def wp_mbind wp_time_now) (rule wp_transition_exact, simp_all)
  have f: "wp e (mbind (fail_pending_execution (pd_order_id rec) st c) (\<lambda>_. mret s')) (recovered now stale rec w) w"
    if "decidable now stale (w_db w) rec" "st = PREJECTED \<or> st = RECONCILE_REQUIRED" for st c s'
    using that assms
    by (simp add: fail_pending_execution_def wp_mbind wp_time_now wp_mguard) (intro impI conjI wp_transition_exact, auto)
  have n: "recovered now stale rec w (Inr s') w" if "\<not> decidable now stale (w_db w) rec" for s'
    using that by (auto simp: recovered_def intro!: exI [of _ "\<lambda>p. p\<lparr>pd_status := APPROVED\<rparr>"])
  show ?thesis
    unfolding recover_one_def Let_def
    by (auto simp: wp_mbind [of e "db_read _"] wp_db_read wp_mret decidable_def intro!: c f n split: option.splits)
qed

lemma recover_all:
  assumes "set rs \<subseteq> set (pending (w_db w))" "\<forall>p\<in>set rs. pd_status p = EXECUTING" "distinct (map pd_order_id rs)"
    "distinct (map pd_order_id (pending (w_db w)))"
  shows "wp e (mfold (recover_one now stale) rs s) (\<lambda>r w'. (\<exists>s'. r = Inr s')
     \<and> (\<forall>p\<in>set (pending (w_db w')). pd_status p = EXECUTING \<longrightarrow>
          p \<in> set (pending (w_db w)) \<and> (p \<in> set rs \<longrightarrow> \<not> decidable now stale (w_db w) p))) w"
  using assms
proof (induction rs arbitrary: s w)
  case Nil
  then show ?case by (simp add: wp_simps)
next
  case (Cons rec rs)
  from Cons.prems have rec: "rec \<in> set (pending (w_db w))" "pd_status rec = EXECUTING" by auto
  show ?case
    unfolding mfold.simps wp_mbind
  proof (rule wp_mono [OF recover_one_recovers [OF rec]])
    fix r :: "recovery res" and w1 :: world
    assume "recovered now stale rec w r w1"
    then obtain s' f where r: "r = Inr s'" and o: "orders (w_db w1) = orders (w_db w)"
      and f: "\<And>p. pd_order_id (f p) = pd_order_id p" "\<And>p. pd_status (f p) \<noteq> EXECUTING"
      and p: "pending (w_db w1) = (if decidable now stale (w_db w) rec
               then upd_where (\<lambda>p. pd_order_id p = pd_order_id rec \<and> pd_status p = EXECUTING) f (pending (w_db w))
               else pending (w_db w))"
      unfolding recovered_def by blast
    have ids: "map pd_order_id (pending (w_db w1)) = map pd_order_id (pending (w_db w))"
      unfolding p using f(1) by (simp add: map_upd_where)
    have keep: "p \<in> set (pending (w_db w1))" if "p \<in> set rs" for p
    proof -
      have "pd_order_id p \<noteq> pd_order_id rec" 
        using imageI [OF that, of pd_order_id] Cons.prems(3) by (metis distinct.simps(2) list.map(2) list.set_map)
      moreover have "p \<in> set (pending (w_db w))" using that Cons.prems(1) by auto
      ultimately show ?thesis unfolding p by (auto simp: set_upd_where intro!: bexI [of _ p])
    qed
    have f_rec: "f rec \<noteq> rec" "rec \<noteq> f rec" using f(2) [of rec] rec(2) by metis+
    have old: "p \<in> set (pending (w_db w)) \<and> (p = rec \<longrightarrow> \<not> decidable now stale (w_db w) rec)"
      if "p \<in> set (pending (w_db w1))" "pd_status p = EXECUTING" for p
      using that f(2) [of rec] f(2) rec f_rec unfolding p by (auto simp: set_upd_where split: if_splits)
    have "wp e (mfold (recover_one now stale) rs s') (\<lambda>r w'. (\<exists>s'. r = Inr s')
     \<and> (\<forall>p\<in>set (pending (w_db w')). pd_status p = EXECUTING \<longrightarrow>
          p \<in> set (pending (w_db w1)) \<and> (p \<in> set rs \<longrightarrow> \<not> decidable now stale (w_db w1) p))) w1"
      by (rule Cons.IH) (use keep Cons.prems ids in auto)
    then have "wp e (mfold (recover_one now stale) rs s') (\<lambda>r w'. (\<exists>s'. r = Inr s')
     \<and> (\<forall>p\<in>set (pending (w_db w')). pd_status p = EXECUTING \<longrightarrow>
          p \<in> set (pending (w_db w)) \<and> (p \<in> set (rec # rs) \<longrightarrow> \<not> decidable now stale (w_db w) p))) w1"
      by (rule wp_mono) (use old in \<open>simp add: decidable_same [OF o], blast\<close>)
    then show "case r of Inl x \<Rightarrow> (\<exists>s'. Inl x = Inr s') \<and> (\<forall>p\<in>set (pending (w_db w1)). pd_status p = EXECUTING \<longrightarrow>
          p \<in> set (pending (w_db w)) \<and> (p \<in> set (rec # rs) \<longrightarrow> \<not> decidable now stale (w_db w) p))
      | Inr s' \<Rightarrow> wp e (mfold (recover_one now stale) rs s') (\<lambda>r w'. (\<exists>s'. r = Inr s')
         \<and> (\<forall>p\<in>set (pending (w_db w')). pd_status p = EXECUTING \<longrightarrow>
              p \<in> set (pending (w_db w)) \<and> (p \<in> set (rec # rs) \<longrightarrow> \<not> decidable now stale (w_db w) p))) w1"
      by (simp add: r)
  qed
qed

lemma distinct_filter_ids: "distinct (map f xs) \<Longrightarrow> distinct (map f (filter q xs))"
  by (simp add: distinct_map_filter)

text \<open>C36: Recovery after a restart is complete. When the order ids of the table are unique, the
  recovery always finishes, and every record it leaves in \<open>executing\<close> was there before, has no
  order in the order table, and was claimed within the threshold (or its claim has no time).\<close>

theorem recovery_settles_claims:
  assumes "distinct (map pd_order_id (pending (w_db w)))"
  shows "wp e (reconcile_pending_executions stale) (\<lambda>r w'. (\<exists>s. r = Inr s)
     \<and> (\<forall>p\<in>set (pending (w_db w')). pd_status p = EXECUTING \<longrightarrow>
          p \<in> set (pending (w_db w)) \<and> match_order (pd_order_id p) (pd_account_id p) (w_db w) = None
          \<and> (case pd_execution_started_at p of Some t \<Rightarrow> now_at e (w_tick w) - t \<le> stale | None \<Rightarrow> True))) w"
proof -
  let ?w = "w\<lparr>w_tick := Suc (w_tick w)\<rparr>"
  let ?rs = "filter (\<lambda>p. pd_status p = EXECUTING) (pending (w_db w))"
  let ?s = "\<lparr>rv_matched = 0, rv_completed = 0, rv_failed = 0, rv_untouched = 0\<rparr>"
  have fin: "wp e (mfold (recover_one (now_at e (w_tick w)) stale) ?rs ?s) (\<lambda>r w'. (\<exists>s'. r = Inr s')
     \<and> (\<forall>p\<in>set (pending (w_db w')). pd_status p = EXECUTING \<longrightarrow>
          p \<in> set (pending (w_db ?w)) \<and> (p \<in> set ?rs \<longrightarrow> \<not> decidable (now_at e (w_tick w)) stale (w_db ?w) p))) ?w"
    by (rule recover_all) (use assms in \<open>auto simp: distinct_filter_ids\<close>)
  show ?thesis
    unfolding reconcile_pending_executions_def wp_mbind
    by (simp add: wp_simps, rule wp_mono [OF fin])
      (auto simp: wp_simps decidable_def split: option.splits)
qed

theorem recovery_settles_claims_witness:
  "\<exists>w. distinct (map pd_order_id (pending (w_db w))) \<and> (\<exists>p\<in>set (pending (w_db w)). pd_status p = EXECUTING)
     \<and> wp demo_env (reconcile_pending_executions 5) (\<lambda>r w'. \<exists>s. r = Inr s) w"
proof -
  let ?w = "demo_world (demo_db\<lparr>pending := [demo_pending ''p'' EXECUTING]\<rparr>)"
  have d: "distinct (map pd_order_id (pending (w_db ?w)))" "\<exists>p\<in>set (pending (w_db ?w)). pd_status p = EXECUTING" by code_simp+
  from recovery_settles_claims [OF d(1), of demo_env 5]
  have "wp demo_env (reconcile_pending_executions 5) (\<lambda>r w'. \<exists>s. r = Inr s) ?w" by (rule wp_mono) blast
  with d show ?thesis by blast
qed

text \<open>Recovery completes a paper order without an order id: the record becomes executed although
  \<open>executed_order_id\<close> stays empty, because the recovery passes on the exchange id, which a paper
  order does not have, and not the local order id.\<close>

theorem recovery_drops_paper_id:
  "(let row = (demo_order ''a'' ''pending:p'' PAPER);
        w = demo_world (demo_db\<lparr>orders := [row], pending := [demo_pending ''p'' EXECUTING]\<rparr>)
    in map (\<lambda>p. (pd_status p, pd_executed_order_id p)) (pending (w_db (snd (reconcile_pending_executions 5 demo_env w)))) = [(EXECUTED, None)]
       \<and> o_order_id row \<noteq> [])"
  by code_simp

end
