(* ===== verification/Swings.thy ===== *)
theory Swings
  imports Numeric
begin

text \<open>
  Closed candles, swings and market structure: \<open>pa/swings.py\<close>, with the timeframe table of
  \<open>config.py\<close>. Candles carry exact rational prices.
\<close>

subsection \<open>Candles\<close>

record candle =
  c_open_time :: int
  c_open :: rat
  c_high :: rat
  c_low :: rat
  c_close :: rat
  c_volume :: "rat option"

definition TIMEFRAME_SECONDS :: "(string \<times> int) list" where
  "TIMEFRAME_SECONDS =
     [(''1m'', 60), (''3m'', 180), (''5m'', 300), (''15m'', 900), (''30m'', 1800), (''1h'', 3600), (''2h'', 7200),
      (''4h'', 14400), (''6h'', 21600), (''8h'', 28800), (''12h'', 43200), (''1d'', 86400), (''3d'', 259200),
      (''1w'', 604800), (''1M'', 2592000)]"

text \<open>The open time of the last candle that has closed at \<open>now\<close>.\<close>

definition latest_closed :: "int \<Rightarrow> rat \<Rightarrow> int" where
  "latest_closed period now = \<lfloor>now / of_int period\<rfloor> * period - period"

definition filter_closed_candles :: "candle list \<Rightarrow> string \<Rightarrow> rat \<Rightarrow> candle list res" where
  "filter_closed_candles candles timeframe now =
     (case map_of TIMEFRAME_SECONDS timeframe of
        None \<Rightarrow> Inl ValueError
      | Some period \<Rightarrow> Inr (filter (\<lambda>c. c_open_time c \<le> latest_closed period now) candles))"

subsection \<open>Swings\<close>

datatype pivot_kind = High | Low

type_synonym pivot = "nat \<times> pivot_kind \<times> rat"

definition SWING_LOOKBACK :: nat where
  "SWING_LOOKBACK = 2"

text \<open>Python's \<open>max\<close> and \<open>min\<close> of a list that is not empty.\<close>

fun list_max :: "rat list \<Rightarrow> rat" where
  "list_max [] = 0"
| "list_max [x] = x"
| "list_max (x # xs) = max x (list_max xs)"

fun list_min :: "rat list \<Rightarrow> rat" where
  "list_min [] = 0"
| "list_min [x] = x"
| "list_min (x # xs) = min x (list_min xs)"

definition window :: "rat list \<Rightarrow> nat \<Rightarrow> nat \<Rightarrow> rat list" where
  "window xs lookback i = take (2 * lookback + 1) (drop (i - lookback) xs)"

definition is_swing_high :: "rat list \<Rightarrow> nat \<Rightarrow> nat \<Rightarrow> bool" where
  "is_swing_high highs lookback i =
     (let w = window highs lookback i
      in highs ! i > list_max (take lookback w) \<and> highs ! i > list_max (drop (lookback + 1) w))"

definition is_swing_low :: "rat list \<Rightarrow> nat \<Rightarrow> nat \<Rightarrow> bool" where
  "is_swing_low lows lookback i =
     (let w = window lows lookback i
      in lows ! i < list_min (take lookback w) \<and> lows ! i < list_min (drop (lookback + 1) w))"

definition pivots_at :: "rat list \<Rightarrow> rat list \<Rightarrow> nat \<Rightarrow> nat \<Rightarrow> pivot list" where
  "pivots_at highs lows lookback i =
     (if is_swing_high highs lookback i then [(i, High, highs ! i)] else [])
     @ (if is_swing_low lows lookback i then [(i, Low, lows ! i)] else [])"

text \<open>With an empty half window \<open>max\<close> raises.\<close>

definition detect_swings :: "rat list \<Rightarrow> rat list \<Rightarrow> nat \<Rightarrow> pivot list res" where
  "detect_swings highs lows lookback =
     (let n = length highs in
      if n < 2 * lookback + 1 then Inr []
      else if lookback = 0 then Inl ValueError
      else Inr (concat (map (pivots_at highs lows lookback) [lookback..<n - lookback])))"

subsection \<open>Structure\<close>

datatype trend = Up | Down

datatype event_type = BOS_BULLISH | BOS_BEARISH | CHOCH_BULLISH | CHOCH_BEARISH

datatype swing_label = HH | LH | HL | LL

record swing =
  sw_index :: nat
  sw_time :: int
  sw_kind :: pivot_kind
  sw_price :: rat
  sw_label :: "swing_label option"

record event =
  ev_index :: nat
  ev_time :: int
  ev_type :: event_type
  ev_level :: rat

record market_structure =
  st_trend :: "trend option"
  st_swings :: "swing list"
  st_events :: "event list"

text \<open>The variables of the walk over the bars; \<open>wk_rest\<close> are the pivots from \<open>pidx\<close> on.\<close>

record walk =
  last_high :: "rat option"
  last_low :: "rat option"
  prev_high :: "rat option"
  prev_low :: "rat option"
  wk_trend :: "trend option"
  first_kind :: "pivot_kind option"
  wk_rest :: "pivot list"
  wk_swings :: "swing list"
  wk_events :: "event list"

definition emit :: "nat \<Rightarrow> int \<Rightarrow> event_type \<Rightarrow> rat \<Rightarrow> trend option \<Rightarrow> walk \<Rightarrow> walk" where
  "emit b t ty level tr s =
     s\<lparr>wk_events := wk_events s @ [\<lparr>ev_index = b, ev_time = t, ev_type = ty, ev_level = level\<rparr>], wk_trend := tr\<rparr>"

definition check_break :: "candle list \<Rightarrow> nat \<Rightarrow> walk \<Rightarrow> walk" where
  "check_break candles b s =
     (case (last_high s, last_low s) of
        (Some hi, Some lo) \<Rightarrow>
          if b = 0 then s
          else
            (let prev_close = c_close (candles ! (b - 1)); c = c_close (candles ! b); t = c_open_time (candles ! b) in
             if c > hi \<and> prev_close \<le> hi then
               (if wk_trend s = Some Down then emit b t CHOCH_BULLISH hi (Some Up) s
                else emit b t BOS_BULLISH hi (wk_trend s) s)
             else if c < lo \<and> prev_close \<ge> lo then
               (if wk_trend s = Some Up then emit b t CHOCH_BEARISH lo (Some Down) s
                else emit b t BOS_BEARISH lo (wk_trend s) s)
             else s)
      | _ \<Rightarrow> s)"

definition label_of :: "swing_label \<Rightarrow> swing_label \<Rightarrow> rat option \<Rightarrow> rat \<Rightarrow> swing_label option" where
  "label_of up dn prev price =
     (case prev of Some p \<Rightarrow> Some (if price > p then up else dn) | None \<Rightarrow> None)"

definition take_pivot :: "candle list \<Rightarrow> pivot \<Rightarrow> walk \<Rightarrow> walk" where
  "take_pivot candles p s =
     (case p of (idx, kind, price) \<Rightarrow>
        let s = s\<lparr>first_kind := (if first_kind s = None then Some kind else first_kind s)\<rparr>;
            lab = (case kind of High \<Rightarrow> label_of HH LH (prev_high s) price | Low \<Rightarrow> label_of HL LL (prev_low s) price);
            s = (case kind of
                   High \<Rightarrow> s\<lparr>prev_high := Some price, last_high := Some price\<rparr>
                 | Low \<Rightarrow> s\<lparr>prev_low := Some price, last_low := Some price\<rparr>)
        in s\<lparr>wk_swings := wk_swings s @ [\<lparr>sw_index = idx, sw_time = c_open_time (candles ! idx), sw_kind = kind,
                                          sw_price = price, sw_label = lab\<rparr>]\<rparr>)"

definition take_pivots :: "candle list \<Rightarrow> nat \<Rightarrow> walk \<Rightarrow> walk" where
  "take_pivots candles b s =
     fold (take_pivot candles) (takeWhile (\<lambda>p. fst p = b) (wk_rest s)) (s\<lparr>wk_rest := dropWhile (\<lambda>p. fst p = b) (wk_rest s)\<rparr>)"

definition initial_trend :: "walk \<Rightarrow> walk" where
  "initial_trend s =
     (if wk_trend s = None \<and> first_kind s \<noteq> None \<and> last_high s \<noteq> None \<and> last_low s \<noteq> None
      then s\<lparr>wk_trend := Some (if first_kind s = Some High then Down else Up)\<rparr> else s)"

definition bar_step :: "candle list \<Rightarrow> nat \<Rightarrow> walk \<Rightarrow> walk" where
  "bar_step candles b s = initial_trend (take_pivots candles b (check_break candles b s))"

definition walk_init :: "pivot list \<Rightarrow> walk" where
  "walk_init pivots = \<lparr>last_high = None, last_low = None, prev_high = None, prev_low = None, wk_trend = None,
     first_kind = None, wk_rest = pivots, wk_swings = [], wk_events = []\<rparr>"

definition walk_bars :: "candle list \<Rightarrow> pivot list \<Rightarrow> nat \<Rightarrow> walk" where
  "walk_bars candles pivots k = fold (bar_step candles) [0..<k] (walk_init pivots)"

definition detect_structure :: "candle list \<Rightarrow> nat \<Rightarrow> market_structure res" where
  "detect_structure candles lookback =
     (case detect_swings (map c_high candles) (map c_low candles) lookback of
        Inl x \<Rightarrow> Inl x
      | Inr pivots \<Rightarrow>
          (let s = walk_bars candles pivots (length candles)
           in Inr \<lparr>st_trend = wk_trend s, st_swings = wk_swings s, st_events = wk_events s\<rparr>))"

subsection \<open>Swings are strict local extrema\<close>

lemma list_max_less: "xs \<noteq> [] \<Longrightarrow> (list_max xs < y) = (\<forall>x\<in>set xs. x < y)"
  by (induction xs rule: list_max.induct) auto

lemma list_min_greater: "xs \<noteq> [] \<Longrightarrow> (y < list_min xs) = (\<forall>x\<in>set xs. y < x)"
  by (induction xs rule: list_min.induct) auto

text \<open>The two halves of the window as index ranges.\<close>

lemma window_left:
  assumes "L \<le> i" "i + L < length xs"
  shows "set (take L (window xs L i)) = (!) xs ` {i - L..<i}"
proof -
  have "take L (window xs L i) = map ((!) xs) [i - L..<i]"
    using assms by (intro nth_equalityI) (auto simp: window_def)
  then show ?thesis by simp
qed

lemma window_right:
  assumes "L \<le> i" "i + L < length xs"
  shows "set (drop (Suc L) (window xs L i)) = (!) xs ` {Suc i..<Suc (i + L)}"
proof -
  have "drop (Suc L) (window xs L i) = map ((!) xs) [Suc i..<Suc (i + L)]"
    using assms by (intro nth_equalityI) (auto simp: window_def simp del: upt_Suc)
  then show ?thesis by (simp del: upt_Suc)
qed

lemma window_halves:
  assumes "0 < L" "L \<le> i" "i + L < length xs"
  shows "take L (window xs L i) \<noteq> []" "drop (Suc L) (window xs L i) \<noteq> []"
  using assms by (auto simp: window_def)

text \<open>A strict extremum of the window around \<open>i\<close>, with \<open>lt\<close> the order.\<close>

definition extremum :: "(rat \<Rightarrow> rat \<Rightarrow> bool) \<Rightarrow> rat list \<Rightarrow> nat \<Rightarrow> nat \<Rightarrow> bool" where
  "extremum lt xs L i = (\<forall>j. i - L \<le> j \<and> j \<le> i + L \<and> j \<noteq> i \<longrightarrow> lt (xs ! j) (xs ! i))"

lemma extremum_split:
  "extremum lt xs L i = ((\<forall>x\<in>(!) xs ` {i - L..<i}. lt x (xs ! i)) \<and> (\<forall>x\<in>(!) xs ` {Suc i..<Suc (i + L)}. lt x (xs ! i)))"
  unfolding extremum_def
proof (intro iffI conjI allI impI; (elim conjE)?)
  fix j
  assume "\<forall>x\<in>(!) xs ` {i - L..<i}. lt x (xs ! i)" "\<forall>x\<in>(!) xs ` {Suc i..<Suc (i + L)}. lt x (xs ! i)"
    "i - L \<le> j" "j \<le> i + L" "j \<noteq> i"
  then show "lt (xs ! j) (xs ! i)" by (cases "j < i") auto
qed auto

lemma is_swing_high_iff:
  assumes "0 < L" "L \<le> i" "i + L < length xs"
  shows "is_swing_high xs L i = extremum (<) xs L i"
  using assms
  by (simp only: is_swing_high_def Let_def extremum_split add_0_right Suc_eq_plus1 [symmetric] list_max_less [OF window_halves(1) [OF assms]]
      list_max_less [OF window_halves(2) [OF assms]] window_left window_right)

lemma is_swing_low_iff:
  assumes "0 < L" "L \<le> i" "i + L < length xs"
  shows "is_swing_low xs L i = extremum (>) xs L i"
  using assms
  by (simp only: is_swing_low_def Let_def extremum_split add_0_right Suc_eq_plus1 [symmetric] list_min_greater [OF window_halves(1) [OF assms]]
      list_min_greater [OF window_halves(2) [OF assms]] window_left window_right)

text \<open>The swings are exactly the strict local extrema. For a lookback \<open>L\<close> of at least one, the
  detection never raises; bar \<open>i\<close> is reported as a swing high at its own high (a swing low at its
  own low) if and only if \<open>L\<close> bars exist on both sides and its high is strictly above (its low
  strictly below) that of every other bar of the window.\<close>

theorem swings_are_extrema:
  assumes "0 < L" "length lows = length highs"
  shows "\<exists>ps. detect_swings highs lows L = Inr ps
     \<and> (\<forall>i k p. (i, k, p) \<in> set ps \<longleftrightarrow> L \<le> i \<and> i + L < length highs
          \<and> (case k of High \<Rightarrow> p = highs ! i \<and> extremum (<) highs L i | Low \<Rightarrow> p = lows ! i \<and> extremum (>) lows L i))"
proof -
  have "(i, k, p) \<in> set (pivots_at highs lows L i') \<longleftrightarrow> i' = i
      \<and> (case k of High \<Rightarrow> p = highs ! i \<and> extremum (<) highs L i | Low \<Rightarrow> p = lows ! i \<and> extremum (>) lows L i)"
    if "L \<le> i'" "i' + L < length highs" for i k p i'
    using that assms by (auto simp: pivots_at_def is_swing_high_iff is_swing_low_iff split: pivot_kind.splits)
  then show ?thesis
    using assms(1) by (auto simp: detect_swings_def Let_def intro!: bexI)
qed

theorem swings_are_extrema_witness:
  "\<exists>ps. detect_swings [1, 2, 3, 2, 1] [1, 1, 1, 1, 1] 2 = Inr ps \<and> (2, High, 3) \<in> set ps"
proof -
  have "(0::nat) < 2" "length [1, 1, 1, 1, 1 :: rat] = length [1, 2, 3, 2, 1 :: rat]" by simp_all
  from swings_are_extrema [OF this] obtain ps where ps: "detect_swings [1, 2, 3, 2, 1] [1, 1, 1, 1, 1] 2 = Inr ps" by blast
  have "detect_swings [1, 2, 3, 2, 1] [1, 1, 1, 1, 1] 2 = Inr [(2, High, 3)]" by code_simp
  with ps show ?thesis by (metis list.set_intros(1))
qed

subsection \<open>The events of the structure\<close>

text \<open>The level of a kind in force before bar \<open>b\<close>: the price of the latest swing of that kind with a
  smaller index.\<close>

definition level_before :: "swing list \<Rightarrow> pivot_kind \<Rightarrow> nat \<Rightarrow> rat option" where
  "level_before swings k b =
     (let ws = filter (\<lambda>w. sw_kind w = k \<and> sw_index w < b) swings in if ws = [] then None else Some (sw_price (last ws)))"

fun broken_kind :: "event_type \<Rightarrow> pivot_kind" where
  "broken_kind BOS_BULLISH = High"
| "broken_kind CHOCH_BULLISH = High"
| "broken_kind BOS_BEARISH = Low"
| "broken_kind CHOCH_BEARISH = Low"

definition is_choch :: "event_type \<Rightarrow> bool" where
  "is_choch t = (t = CHOCH_BULLISH \<or> t = CHOCH_BEARISH)"

text \<open>An event is the first close beyond the level in force.\<close>

definition crossing :: "candle list \<Rightarrow> swing list \<Rightarrow> event \<Rightarrow> bool" where
  "crossing cs swings v =
     (let b = ev_index v; k = broken_kind (ev_type v) in
      0 < b \<and> b < length cs \<and> ev_time v = c_open_time (cs ! b) \<and> level_before swings k b = Some (ev_level v)
      \<and> (case k of
           High \<Rightarrow> c_close (cs ! b) > ev_level v \<and> c_close (cs ! (b - 1)) \<le> ev_level v
         | Low \<Rightarrow> c_close (cs ! b) < ev_level v \<and> c_close (cs ! (b - 1)) \<ge> ev_level v))"

definition chochs :: "event list \<Rightarrow> event_type list" where
  "chochs evs = filter is_choch (map ev_type evs)"

definition trend_agrees :: "trend option \<Rightarrow> event list \<Rightarrow> bool" where
  "trend_agrees t evs =
     (successively (\<noteq>) (chochs evs)
      \<and> (chochs evs \<noteq> [] \<longrightarrow> t = Some (if last (chochs evs) = CHOCH_BULLISH then Up else Down)))"

definition walk_ok :: "candle list \<Rightarrow> nat \<Rightarrow> nat \<Rightarrow> walk \<Rightarrow> bool" where
  "walk_ok cs k m s =
     ((\<forall>w\<in>set (wk_swings s). sw_index w < k)
      \<and> last_high s = level_before (wk_swings s) High k \<and> last_low s = level_before (wk_swings s) Low k
      \<and> (\<forall>v\<in>set (wk_events s). crossing cs (wk_swings s) v \<and> ev_index v < m)
      \<and> trend_agrees (wk_trend s) (wk_events s))"

lemma trend_agrees_bos:
  "\<not> is_choch (ev_type v) \<Longrightarrow> trend_agrees t (evs @ [v]) = trend_agrees t evs"
  by (simp add: trend_agrees_def chochs_def)

lemma trend_agrees_choch:
  assumes "trend_agrees (Some (if up then Down else Up)) evs" "ev_type v = (if up then CHOCH_BULLISH else CHOCH_BEARISH)"
  shows "trend_agrees (Some (if up then Up else Down)) (evs @ [v])"
  using assms by (auto simp: trend_agrees_def chochs_def is_choch_def successively_append_iff split: if_splits)

lemma emit_ok:
  assumes "walk_ok cs b b s" "crossing cs (wk_swings s) v" "ev_index v = b" "trend_agrees tr (wk_events s @ [v])"
  shows "walk_ok cs b (Suc b) (s\<lparr>wk_events := wk_events s @ [v], wk_trend := tr\<rparr>)"
  using assms by (auto simp: walk_ok_def)

lemma check_break_ok:
  assumes "walk_ok cs b b s" "b < length cs"
  shows "walk_ok cs b (Suc b) (check_break cs b s)"
proof -
  have same: "walk_ok cs b (Suc b) s" using assms(1) by (auto simp: walk_ok_def)
  have up: "walk_ok cs b (Suc b) (emit b (c_open_time (cs ! b)) ty hi tr s)"
    if "last_high s = Some hi" "0 < b" "c_close (cs ! b) > hi" "c_close (cs ! (b - 1)) \<le> hi"
      "ty = BOS_BULLISH \<and> tr = wk_trend s \<or> ty = CHOCH_BULLISH \<and> wk_trend s = Some Down \<and> tr = Some Up" for hi ty tr
    unfolding emit_def
    by (rule emit_ok [OF assms(1)])
      (use that assms in \<open>auto simp: walk_ok_def crossing_def Let_def trend_agrees_bos is_choch_def
        intro: trend_agrees_choch [where up = True, simplified]\<close>)
  have down: "walk_ok cs b (Suc b) (emit b (c_open_time (cs ! b)) ty lo tr s)"
    if "last_low s = Some lo" "0 < b" "c_close (cs ! b) < lo" "c_close (cs ! (b - 1)) \<ge> lo"
      "ty = BOS_BEARISH \<and> tr = wk_trend s \<or> ty = CHOCH_BEARISH \<and> wk_trend s = Some Up \<and> tr = Some Down" for lo ty tr
    unfolding emit_def
    by (rule emit_ok [OF assms(1)])
      (use that assms in \<open>auto simp: walk_ok_def crossing_def Let_def trend_agrees_bos is_choch_def
        intro: trend_agrees_choch [where up = False, simplified]\<close>)
  show ?thesis
    using same
    by (cases "b = 0"; cases "last_high s"; cases "last_low s") (simp_all add: check_break_def Let_def up down)
qed

lemma level_before_Suc: "\<forall>w\<in>set ws. sw_index w < b \<Longrightarrow> level_before ws k (Suc b) = level_before ws k b"
proof -
  assume "\<forall>w\<in>set ws. sw_index w < b"
  then have "filter (\<lambda>w. sw_kind w = k \<and> sw_index w < Suc b) ws = filter (\<lambda>w. sw_kind w = k \<and> sw_index w < b) ws"
    by (intro filter_cong) auto
  then show ?thesis by (simp add: level_before_def)
qed

lemma level_before_snoc:
  "level_before (ws @ [w]) k b = (if sw_kind w = k \<and> sw_index w < b then Some (sw_price w) else level_before ws k b)"
  by (simp add: level_before_def Let_def)

lemma walk_ok_advance: "walk_ok cs b (Suc b) s \<Longrightarrow> walk_ok cs (Suc b) (Suc b) s"
  by (auto simp: walk_ok_def level_before_Suc)

lemma crossing_snoc: "crossing cs ws v \<Longrightarrow> ev_index v \<le> sw_index w \<Longrightarrow> crossing cs (ws @ [w]) v"
  by (simp add: crossing_def Let_def level_before_snoc)

lemma take_pivot_ok: "walk_ok cs (Suc b) (Suc b) s \<Longrightarrow> fst p = b \<Longrightarrow> walk_ok cs (Suc b) (Suc b) (take_pivot cs p s)"
  by (cases p; cases "fst (snd p)")
    (auto simp: walk_ok_def take_pivot_def Let_def level_before_snoc intro!: crossing_snoc)

lemma fold_invariant: "P s \<Longrightarrow> (\<And>x s. x \<in> set xs \<Longrightarrow> P s \<Longrightarrow> P (f x s)) \<Longrightarrow> P (fold f xs s)"
  by (induction xs arbitrary: s) auto

lemma take_pivots_ok:
  assumes "walk_ok cs b (Suc b) s"
  shows "walk_ok cs (Suc b) (Suc b) (take_pivots cs b s)"
  unfolding take_pivots_def
proof (rule fold_invariant [where P = "walk_ok cs (Suc b) (Suc b)"])
  show "walk_ok cs (Suc b) (Suc b) (s\<lparr>wk_rest := dropWhile (\<lambda>p. fst p = b) (wk_rest s)\<rparr>)"
    using walk_ok_advance [OF assms] by (simp add: walk_ok_def)
qed (auto intro: take_pivot_ok dest: set_takeWhileD)

lemma initial_trend_ok: "walk_ok cs k m s \<Longrightarrow> walk_ok cs k m (initial_trend s)"
  by (auto simp: initial_trend_def walk_ok_def trend_agrees_def)

lemma walk_bars_ok: "k \<le> length cs \<Longrightarrow> walk_ok cs k k (walk_bars cs ps k)"
proof (induction k)
  case 0
  show ?case by (simp add: walk_bars_def walk_init_def walk_ok_def level_before_def trend_agrees_def chochs_def)
next
  case (Suc k)
  then show ?case
    by (simp add: walk_bars_def bar_step_def check_break_ok take_pivots_ok initial_trend_ok)
qed

text \<open>The structure events are real breaks. For a lookback of at least one the analysis returns,
  and every event it reports is a bar whose close is beyond the price of the latest swing of the
  broken kind formed before that bar while the close before was not; changes of character
  alternate between bullish and bearish, and the final trend is the one of the last of them.\<close>

theorem structure_events_sound:
  assumes "0 < L"
  shows "\<exists>st. detect_structure cs L = Inr st \<and> (\<forall>v\<in>set (st_events st). crossing cs (st_swings st) v)
     \<and> trend_agrees (st_trend st) (st_events st)"
  using assms walk_bars_ok [of "length cs" cs]
  by (simp add: detect_structure_def detect_swings_def Let_def walk_ok_def)

definition bar :: "int \<Rightarrow> rat \<Rightarrow> candle" where
  "bar t p = \<lparr>c_open_time = t, c_open = p, c_high = p + 1, c_low = p - 1, c_close = p, c_volume = Some 1\<rparr>"

definition demo_candles :: "candle list" where
  "demo_candles = map2 bar [0..4] [2, 3, 1, 2, 6]"

theorem structure_events_sound_witness:
  "\<exists>st. detect_structure demo_candles 1 = Inr st \<and> (\<forall>v\<in>set (st_events st). crossing demo_candles (st_swings st) v)
     \<and> map ev_type (st_events st) = [CHOCH_BULLISH]"
proof -
  have pos: "(0::nat) < 1" by simp
  from structure_events_sound [OF pos, of demo_candles] obtain st where st: "detect_structure demo_candles 1 = Inr st"
      "\<forall>v\<in>set (st_events st). crossing demo_candles (st_swings st) v" by blast
  have "(case detect_structure demo_candles 1 of Inr st \<Rightarrow> map ev_type (st_events st) | Inl _ \<Rightarrow> []) = [CHOCH_BULLISH]"
    by code_simp
  with st show ?thesis by (intro exI [of _ st]) simp
qed

subsection \<open>Confirmed structure is final\<close>

lemma takeWhile_append_stop: "\<forall>p\<in>set ys. \<not> P p \<Longrightarrow> takeWhile P (xs @ ys) = takeWhile P xs"
  by (induction xs) (auto simp: takeWhile_eq_Nil_iff)

lemma dropWhile_append_stop: "\<forall>p\<in>set ys. \<not> P p \<Longrightarrow> dropWhile P (xs @ ys) = dropWhile P xs @ ys"
  by (induction xs) (auto simp: dropWhile_eq_self_iff)

text \<open>Pivots of later bars do not matter.\<close>

lemma fold_take_pivot_rest:
  "fold (take_pivot cs) ps (s\<lparr>wk_rest := r\<rparr>) = (fold (take_pivot cs) ps s)\<lparr>wk_rest := r\<rparr>"
proof (induction ps arbitrary: s)
  case (Cons p ps)
  have "take_pivot cs p (s\<lparr>wk_rest := r\<rparr>) = (take_pivot cs p s)\<lparr>wk_rest := r\<rparr>"
    by (cases p; cases "fst (snd p)") (simp_all add: take_pivot_def Let_def)
  with Cons show ?case by simp
qed simp

lemma bar_step_rest:
  assumes "\<forall>p\<in>set qs. b < fst p"
  shows "bar_step cs b (s\<lparr>wk_rest := wk_rest s @ qs\<rparr>) = (bar_step cs b s)\<lparr>wk_rest := wk_rest (bar_step cs b s) @ qs\<rparr>"
proof -
  have stop: "\<forall>p\<in>set qs. fst p \<noteq> b" using assms by auto
  have c: "check_break cs b (s\<lparr>wk_rest := r\<rparr>) = (check_break cs b s)\<lparr>wk_rest := r\<rparr>" "wk_rest (check_break cs b s) = wk_rest s" for r
    by (simp_all add: check_break_def emit_def Let_def split: option.split)
  have i: "initial_trend (s\<lparr>wk_rest := r\<rparr>) = (initial_trend s)\<lparr>wk_rest := r\<rparr>" "wk_rest (initial_trend s) = wk_rest s" for r s
    by (simp_all add: initial_trend_def)
  have t: "wk_rest (take_pivots cs b s) = dropWhile (\<lambda>p. fst p = b) (wk_rest s)" for s
    by (simp add: take_pivots_def fold_take_pivot_rest)
  show ?thesis
    by (simp add: bar_step_def c i t) (simp add: take_pivots_def takeWhile_append_stop dropWhile_append_stop stop fold_take_pivot_rest i c)
qed

lemma walk_bars_rest:
  assumes "\<forall>p\<in>set qs. k \<le> fst p"
  shows "walk_bars cs (ps @ qs) k = (walk_bars cs ps k)\<lparr>wk_rest := wk_rest (walk_bars cs ps k) @ qs\<rparr>"
  using assms
proof (induction k)
  case 0
  show ?case by (simp add: walk_bars_def walk_init_def)
next
  case (Suc k)
  then have "walk_bars cs (ps @ qs) k = (walk_bars cs ps k)\<lparr>wk_rest := wk_rest (walk_bars cs ps k) @ qs\<rparr>"
    using Suc_leD by blast
  with bar_step_rest [of qs k cs "walk_bars cs ps k"] Suc.prems show ?case by (simp add: walk_bars_def Suc_le_eq)
qed

text \<open>Nor do later candles.\<close>

lemma bar_step_prefix:
  assumes "b < length cs"
  shows "bar_step (cs @ ds) b s = bar_step cs b s"
proof -
  have "check_break (cs @ ds) b s = check_break cs b s" for s
    using assms by (auto simp: check_break_def nth_append Let_def split: option.split)
  moreover have "fold (take_pivot (cs @ ds)) ps s = fold (take_pivot cs) ps s" if "\<forall>p\<in>set ps. fst p = b" for ps s
    using that assms by (induction ps arbitrary: s) (auto simp: take_pivot_def nth_append)
  then have "take_pivots (cs @ ds) b s = take_pivots cs b s" for s
    unfolding take_pivots_def by (metis (mono_tags, lifting) set_takeWhileD)
  ultimately show ?thesis by (simp add: bar_step_def)
qed

lemma walk_bars_prefix: "k \<le> length cs \<Longrightarrow> walk_bars (cs @ ds) ps k = walk_bars cs ps k"
  by (induction k) (auto simp: walk_bars_def bar_step_prefix)

text \<open>Later bars only add swings and events of their own.\<close>

lemma bar_step_later:
  assumes "k \<le> b"
  shows "filter (\<lambda>v. ev_index v < k) (wk_events (bar_step cs b s)) = filter (\<lambda>v. ev_index v < k) (wk_events s)"
    and "filter (\<lambda>v. sw_index v < k) (wk_swings (bar_step cs b s)) = filter (\<lambda>v. sw_index v < k) (wk_swings s)"
proof -
  have c: "filter (\<lambda>v. ev_index v < k) (wk_events (check_break cs b s)) = filter (\<lambda>v. ev_index v < k) (wk_events s)"
      "wk_swings (check_break cs b s) = wk_swings s"
    using assms by (simp_all add: check_break_def emit_def Let_def split: option.split)
  have f: "wk_events (fold (take_pivot cs) ps s) = wk_events s
      \<and> filter (\<lambda>v. sw_index v < k) (wk_swings (fold (take_pivot cs) ps s)) = filter (\<lambda>v. sw_index v < k) (wk_swings s)"
    if "\<forall>p\<in>set ps. fst p = b" for ps s
    using that
  proof (induction ps arbitrary: s)
    case (Cons p ps)
    then have "wk_events (take_pivot cs p s) = wk_events s
        \<and> filter (\<lambda>v. sw_index v < k) (wk_swings (take_pivot cs p s)) = filter (\<lambda>v. sw_index v < k) (wk_swings s)"
      using assms by (cases p; cases "fst (snd p)") (auto simp: take_pivot_def Let_def)
    with Cons show ?case by simp
  qed simp
  have "\<forall>p\<in>set (takeWhile (\<lambda>p. fst p = b) ps). fst p = b" for ps :: "pivot list" by (auto dest: set_takeWhileD)
  from f [OF this] c
  show "filter (\<lambda>v. ev_index v < k) (wk_events (bar_step cs b s)) = filter (\<lambda>v. ev_index v < k) (wk_events s)"
    "filter (\<lambda>v. sw_index v < k) (wk_swings (bar_step cs b s)) = filter (\<lambda>v. sw_index v < k) (wk_swings s)"
    by (simp_all add: bar_step_def initial_trend_def take_pivots_def)
qed

lemma walk_bars_later:
  "k \<le> n \<Longrightarrow> filter (\<lambda>v. ev_index v < k) (wk_events (walk_bars cs ps n)) = filter (\<lambda>v. ev_index v < k) (wk_events (walk_bars cs ps k))
    \<and> filter (\<lambda>v. sw_index v < k) (wk_swings (walk_bars cs ps n)) = filter (\<lambda>v. sw_index v < k) (wk_swings (walk_bars cs ps k))"
  by (induction rule: dec_induct) (simp_all add: walk_bars_def bar_step_later)

lemma window_prefix: "i + L < length xs \<Longrightarrow> L \<le> i \<Longrightarrow> window (xs @ ys) L i = window xs L i"
  by (simp add: window_def)

lemma pivots_at_prefix:
  "i + L < length hs \<Longrightarrow> L \<le> i \<Longrightarrow> length ls = length hs \<Longrightarrow> pivots_at (hs @ hs') (ls @ ls') L i = pivots_at hs ls L i"
  by (simp add: pivots_at_def is_swing_high_def is_swing_low_def window_prefix nth_append)

lemma pivots_at_index: "p \<in> set (pivots_at hs ls L i) \<Longrightarrow> fst p = i"
  by (auto simp: pivots_at_def split: if_splits)

lemma detect_swings_prefix:
  assumes "0 < L" "length ls = length hs"
  shows "\<exists>ps qs. detect_swings hs ls L = Inr ps \<and> detect_swings (hs @ hs') (ls @ ls') L = Inr (ps @ qs)
     \<and> (\<forall>q\<in>set qs. length hs - L \<le> fst q)"
proof (cases "length hs < 2 * L + 1")
  case True
  then have "length hs - L \<le> L" by simp
  with True assms show ?thesis by (auto simp: detect_swings_def Let_def dest!: pivots_at_index)
next
  case False
  let ?m = "length hs - L" and ?n = "length hs + length hs' - L"
  have split: "[L..<?n] = [L..<?m] @ [?m..<?n]"
    using False upt_add_eq_append [of L ?m "length hs'"] by (simp add: algebra_simps)
  have "map (pivots_at (hs @ hs') (ls @ ls') L) [L..<?m] = map (pivots_at hs ls L) [L..<?m]"
    using assms by (auto intro!: pivots_at_prefix)
  then have "detect_swings (hs @ hs') (ls @ ls') L
      = Inr (concat (map (pivots_at hs ls L) [L..<?m]) @ concat (map (pivots_at (hs @ hs') (ls @ ls') L) [?m..<?n]))"
    using split False assms(1) by (simp add: detect_swings_def Let_def del: map_eq_conv)
  with False assms(1) show ?thesis by (auto simp: detect_swings_def Let_def dest!: pivots_at_index)
qed



end
