(* ===== verification/Liquidity.thy ===== *)
theory Liquidity
  imports Swings "HOL-Library.Multiset"
begin

text \<open>
  Liquidity zones and their score: the pure part of \<open>pa/liquidity.py\<close> with the thresholds of
  \<open>pa/params.py\<close>. The zone id, a printed form of the band, is not part of the model.
\<close>

subsection \<open>Clusters of equal levels\<close>

definition EQUAL_LEVEL_TOLERANCE_PCT :: rat where
  "EQUAL_LEVEL_TOLERANCE_PCT = 5 / 100"

definition SWEEP_EXCEED_PCT :: rat where
  "SWEEP_EXCEED_PCT = 0"

definition mean_price :: "swing list \<Rightarrow> rat" where
  "mean_price cl = sum_list (map sw_price cl) / of_nat (length cl)"

fun place_swing :: "rat \<Rightarrow> swing \<Rightarrow> swing list list \<Rightarrow> swing list list" where
  "place_swing tol s [] = [[s]]"
| "place_swing tol s (cl # cls) =
     (let mid = mean_price cl in
      if \<bar>sw_price s - mid\<bar> \<le> mid * tol / 100 then (cl @ [s]) # cls else cl # place_swing tol s cls)"

definition all_clusters :: "swing list \<Rightarrow> pivot_kind \<Rightarrow> rat \<Rightarrow> swing list list" where
  "all_clusters swings kind tol = fold (place_swing tol) (sort_key sw_price (filter (\<lambda>s. sw_kind s = kind) swings)) []"

definition cluster_swings :: "swing list \<Rightarrow> pivot_kind \<Rightarrow> rat \<Rightarrow> swing list list" where
  "cluster_swings swings kind tol = filter (\<lambda>c. 2 \<le> length c) (all_clusters swings kind tol)"

subsection \<open>Zones\<close>

record zone =
  z_kind :: pivot_kind
  z_low :: rat
  z_high :: rat
  z_swing_count :: nat
  z_formed_at :: nat
  z_swept_at :: "nat option"
  z_swept_at_time :: "int option"
  z_mitigated :: bool
  z_tested :: bool

definition make_zone :: "pivot_kind \<Rightarrow> swing list \<Rightarrow> zone" where
  "make_zone kind cluster =
     (let prices = map sw_price cluster in
      \<lparr>z_kind = kind, z_low = list_min prices, z_high = list_max prices, z_swing_count = length cluster,
       z_formed_at = fold max (map sw_index cluster) 0, z_swept_at = None, z_swept_at_time = None,
       z_mitigated = False, z_tested = False\<rparr>)"

definition exceeds :: "zone \<Rightarrow> candle \<Rightarrow> bool" where
  "exceeds z c =
     (let exceed = 1 + SWEEP_EXCEED_PCT / 100 in
      case z_kind z of High \<Rightarrow> c_high c > z_high z * exceed | Low \<Rightarrow> c_low c < z_low z * (1 / exceed))"

definition touches :: "zone \<Rightarrow> candle \<Rightarrow> bool" where
  "touches z c = (case z_kind z of High \<Rightarrow> c_high c \<ge> z_low z | Low \<Rightarrow> c_low c \<le> z_high z)"

definition mark_bar :: "candle list \<Rightarrow> nat \<Rightarrow> zone \<Rightarrow> zone" where
  "mark_bar candles i z =
     (let c = candles ! i;
          z1 = (if z_swept_at z = None \<and> exceeds z c
                then z\<lparr>z_swept_at := Some i, z_swept_at_time := Some (c_open_time c), z_mitigated := True\<rparr> else z)
      in if touches z1 c then z1\<lparr>z_tested := True\<rparr> else z1)"

definition mark_status :: "candle list \<Rightarrow> zone \<Rightarrow> zone" where
  "mark_status candles z = fold (mark_bar candles) [z_formed_at z + 1..<length candles] z"

definition zones_of :: "candle list \<Rightarrow> swing list \<Rightarrow> rat \<Rightarrow> pivot_kind \<Rightarrow> zone list" where
  "zones_of candles swings tol kind = map (\<lambda>cl. mark_status candles (make_zone kind cl)) (cluster_swings swings kind tol)"

subsection \<open>Score\<close>

record fitem =
  f_value :: "rat option"
  f_freshness :: string
  f_event_time :: int

record futures =
  fu_open_interest :: "fitem option"
  fu_funding_rate :: "fitem option"
  fu_liquidation :: "fitem option"

datatype bias = Long_Crowded | Short_Crowded

record component =
  cp_included :: bool
  cp_points :: rat
  cp_bias :: "bias option"

record score =
  sc_score :: rat
  sc_components :: "component list"
  sc_futures_available :: bool
  sc_funding_bias :: "bias option"

text \<open>\<open>round(x, 1)\<close>: to one decimal, a tie to the even digit.\<close>

definition round_half_even :: "rat \<Rightarrow> int" where
  "round_half_even x =
     (let n = \<lfloor>x\<rfloor>; r = x - of_int n in
      if r < 1 / 2 then n else if r > 1 / 2 then n + 1 else if even n then n else n + 1)"

definition round1 :: "rat \<Rightarrow> rat" where
  "round1 x = of_int (round_half_even (x * 10)) / 10"

definition norm_open_interest :: "rat \<Rightarrow> rat" where
  "norm_open_interest v = (if v > 0 then 1 else 0)"

definition norm_funding :: "rat \<Rightarrow> rat" where
  "norm_funding rate = min (\<bar>rate\<bar> / (1 / 1000)) 1"

definition norm_liquidation :: "rat \<Rightarrow> rat" where
  "norm_liquidation c = min (max c 0) 5 / 5"

definition W_EQUAL :: rat where "W_EQUAL = 40"
definition W_OI :: rat where "W_OI = 35"
definition W_FUNDING :: rat where "W_FUNDING = 15"
definition W_LIQ :: rat where "W_LIQ = 10"

definition futures_component :: "bool \<Rightarrow> rat \<Rightarrow> (rat \<Rightarrow> rat) \<Rightarrow> fitem option \<Rightarrow> component" where
  "futures_component funding weight nf item =
     (case item of
        None \<Rightarrow> \<lparr>cp_included = False, cp_points = 0, cp_bias = None\<rparr>
      | Some it \<Rightarrow>
          if f_freshness it \<noteq> ''fresh'' then \<lparr>cp_included = False, cp_points = 0, cp_bias = None\<rparr>
          else \<lparr>cp_included = True,
                cp_points = round1 (case f_value it of Some v \<Rightarrow> weight * nf v | None \<Rightarrow> 0),
                cp_bias = (if funding then map_option (\<lambda>v. if v \<ge> 0 then Long_Crowded else Short_Crowded) (f_value it) else None)\<rparr>)"

definition liquidity_score :: "zone list \<Rightarrow> futures \<Rightarrow> score" where
  "liquidity_score zones fu =
     (let eq_active = length zones - length (filter z_mitigated zones);
          eqc = \<lparr>cp_included = True, cp_points = round1 (of_nat (min eq_active 10) / 10 * W_EQUAL), cp_bias = None\<rparr>;
          oi = futures_component False W_OI norm_open_interest (fu_open_interest fu);
          fr = futures_component True W_FUNDING norm_funding (fu_funding_rate fu);
          lq = futures_component False W_LIQ norm_liquidation (fu_liquidation fu)
      in \<lparr>sc_score = round1 (cp_points eqc + cp_points oi + cp_points fr + cp_points lq), sc_components = [eqc, oi, fr, lq],
          sc_futures_available = (cp_included oi \<or> cp_included fr \<or> cp_included lq),
          sc_funding_bias = (if cp_included fr then cp_bias fr else None)\<rparr>)"

definition compute_liquidity_zones :: "candle list \<Rightarrow> market_structure \<Rightarrow> futures \<Rightarrow> rat \<Rightarrow> zone list \<times> score" where
  "compute_liquidity_zones candles st fu tol =
     (let zones = zones_of candles (st_swings st) tol High @ zones_of candles (st_swings st) tol Low
      in (zones, liquidity_score zones fu))"

subsection \<open>Clustering partitions the swings\<close>

lemma place_swing_mset: "mset (concat (place_swing tol s cls)) = add_mset s (mset (concat cls))"
  by (induction cls) (auto simp: Let_def)

lemma fold_place_mset: "mset (concat (fold (place_swing tol) ss cls)) = mset ss + mset (concat cls)"
  by (induction ss arbitrary: cls) (auto simp: place_swing_mset)

lemma place_swing_nonempty: "\<forall>c\<in>set cls. c \<noteq> [] \<Longrightarrow> \<forall>c\<in>set (place_swing tol s cls). c \<noteq> []"
  by (induction cls) (auto simp: Let_def)

text \<open>Every swing of the kind is in exactly one cluster.\<close>

lemma all_clusters_partition:
  "mset (concat (all_clusters swings kind tol)) = mset (filter (\<lambda>s. sw_kind s = kind) swings)"
  by (simp add: all_clusters_def fold_place_mset)

lemma cluster_members:
  "cl \<in> set (cluster_swings swings kind tol) \<Longrightarrow> 2 \<le> length cl \<and> set cl \<subseteq> {s \<in> set swings. sw_kind s = kind}"
proof -
  assume cl: "cl \<in> set (cluster_swings swings kind tol)"
  then have "set cl \<subseteq> set (concat (all_clusters swings kind tol))" by (auto simp: cluster_swings_def)
  also have "\<dots> = {s \<in> set swings. sw_kind s = kind}"
    using arg_cong [OF all_clusters_partition, of set_mset swings kind tol] by simp
  finally show ?thesis using cl by (simp add: cluster_swings_def)
qed

subsection \<open>Marks\<close>

lemma marks_ignored [simp]:
  "touches (z\<lparr>z_swept_at := a, z_swept_at_time := t, z_mitigated := m\<rparr>) = touches z" "touches (z\<lparr>z_tested := b\<rparr>) = touches z"
  "exceeds (z\<lparr>z_swept_at := a, z_swept_at_time := t, z_mitigated := m\<rparr>) = exceeds z" "exceeds (z\<lparr>z_tested := b\<rparr>) = exceeds z"
  by (auto simp: touches_def exceeds_def fun_eq_iff Let_def split: pivot_kind.split)

lemma mark_bar_fields:
  "z_kind (mark_bar cs i z) = z_kind z" "z_low (mark_bar cs i z) = z_low z" "z_high (mark_bar cs i z) = z_high z"
  "z_formed_at (mark_bar cs i z) = z_formed_at z" "z_swing_count (mark_bar cs i z) = z_swing_count z"
  "touches (mark_bar cs i z) = touches z" "exceeds (mark_bar cs i z) = exceeds z"
  "z_swept_at (mark_bar cs i z) = (if z_swept_at z = None \<and> exceeds z (cs ! i) then Some i else z_swept_at z)"
  "z_mitigated (mark_bar cs i z) = (z_mitigated z \<or> z_swept_at z = None \<and> exceeds z (cs ! i))"
  "z_tested (mark_bar cs i z) = (z_tested z \<or> touches z (cs ! i))"
  by (auto simp: mark_bar_def Let_def)

lemma mark_fold:
  "z_kind (fold (mark_bar cs) is z) = z_kind z" "z_low (fold (mark_bar cs) is z) = z_low z"
  "z_high (fold (mark_bar cs) is z) = z_high z" "z_formed_at (fold (mark_bar cs) is z) = z_formed_at z"
  "z_swing_count (fold (mark_bar cs) is z) = z_swing_count z"
  "z_swept_at z = None \<Longrightarrow> z_swept_at (fold (mark_bar cs) is z) = List.find (\<lambda>i. exceeds z (cs ! i)) is"
  "z_mitigated z = (z_swept_at z \<noteq> None) \<Longrightarrow> z_mitigated (fold (mark_bar cs) is z) = (z_swept_at (fold (mark_bar cs) is z) \<noteq> None)"
  "z_tested (fold (mark_bar cs) is z) = (z_tested z \<or> (\<exists>i\<in>set is. touches z (cs ! i)))"
proof -
  have some: "z_swept_at z \<noteq> None \<Longrightarrow> z_swept_at (fold (mark_bar cs) is z) = z_swept_at z" for "is" z
    by (induction "is" arbitrary: z) (auto simp: mark_bar_fields)
  show "z_swept_at z = None \<Longrightarrow> z_swept_at (fold (mark_bar cs) is z) = List.find (\<lambda>i. exceeds z (cs ! i)) is"
    by (induction "is" arbitrary: z) (auto simp: mark_bar_fields some)
  show "z_mitigated z = (z_swept_at z \<noteq> None) \<Longrightarrow> z_mitigated (fold (mark_bar cs) is z) = (z_swept_at (fold (mark_bar cs) is z) \<noteq> None)"
    by (induction "is" arbitrary: z) (auto simp: mark_bar_fields)
  show "z_tested (fold (mark_bar cs) is z) = (z_tested z \<or> (\<exists>i\<in>set is. touches z (cs ! i)))"
    by (induction "is" arbitrary: z) (auto simp: mark_bar_fields)
qed (induction "is" arbitrary: z; simp add: mark_bar_fields)+

lemma mark_status_fields:
  assumes "z_swept_at z = None" "\<not> z_mitigated z" "\<not> z_tested z"
  shows "z_kind (mark_status cs z) = z_kind z" "z_low (mark_status cs z) = z_low z" "z_high (mark_status cs z) = z_high z"
    "z_formed_at (mark_status cs z) = z_formed_at z" "z_swing_count (mark_status cs z) = z_swing_count z"
    "z_swept_at (mark_status cs z) = List.find (\<lambda>i. exceeds z (cs ! i)) [z_formed_at z + 1..<length cs]"
    "z_mitigated (mark_status cs z) = (\<exists>i. z_formed_at z < i \<and> i < length cs \<and> exceeds z (cs ! i))"
    "z_tested (mark_status cs z) = (\<exists>i. z_formed_at z < i \<and> i < length cs \<and> touches z (cs ! i))"
  using assms by (auto simp: mark_status_def mark_fold find_None_iff Suc_le_eq)

lemma list_min_max: "xs \<noteq> [] \<Longrightarrow> list_min xs \<in> set xs \<and> list_max xs \<in> set xs \<and> (\<forall>x\<in>set xs. list_min xs \<le> x \<and> x \<le> list_max xs)"
proof (induction xs rule: list_max.induct)
  case (3 x y ys)
  then show ?case by (auto simp: min_def max_def)
qed auto

lemma fold_max_nat: "fold max xs (a::nat) = Max (insert a (set xs))"
  by (metis Max.set_eq_fold list.set(2))

subsection \<open>The score\<close>

lemma round_half_even_bounds:
  assumes "of_int m \<le> x" "x \<le> of_int n"
  shows "m \<le> round_half_even x \<and> round_half_even x \<le> n"
proof -
  have "m \<le> \<lfloor>x\<rfloor>" using assms(1) by (simp add: le_floor_iff)
  moreover have "\<lfloor>x\<rfloor> \<le> n" using assms(2) by (metis floor_mono floor_of_int)
  moreover have "\<lfloor>x\<rfloor> < n" if "0 < x - of_int \<lfloor>x\<rfloor>"
    using that assms(2) by (metis diff_gt_0_iff_gt floor_less_iff le_less_trans less_le not_le of_int_floor_le order.strict_trans2 floor_of_int le_floor_iff)
  ultimately show ?thesis by (auto simp: round_half_even_def Let_def)
qed

lemma round1_bounds: "0 \<le> x \<Longrightarrow> x \<le> of_int n \<Longrightarrow> 0 \<le> round1 x \<and> round1 x \<le> of_int n"
  using round_half_even_bounds [of 0 "x * 10" "n * 10"] by (auto simp: round1_def)

lemma futures_points:
  assumes "0 \<le> w" "\<And>v. 0 \<le> nf v \<and> nf v \<le> 1"
  shows "0 \<le> cp_points (futures_component b (of_int w) nf it) \<and> cp_points (futures_component b (of_int w) nf it) \<le> of_int w"
proof -
  have "0 \<le> of_int w * nf v \<and> of_int w * nf v \<le> of_int w" for v
    using assms by (simp add: mult_left_le)
  then show ?thesis
    using assms(1) round1_bounds [of "of_int w * nf _" w] round1_bounds [of 0 w] by (auto simp: futures_component_def split: option.splits)
qed

lemma score_bounds: "0 \<le> sc_score (liquidity_score zs fu) \<and> sc_score (liquidity_score zs fu) \<le> 100"
proof -
  have 1: "0 \<le> round1 (of_nat (min k 10) / 10 * W_EQUAL) \<and> round1 (of_nat (min k 10) / 10 * W_EQUAL) \<le> 40" for k
    using round1_bounds [of "of_nat (min k 10) / 10 * W_EQUAL" 40] by (simp add: W_EQUAL_def)
  have n: "0 \<le> norm_open_interest v \<and> norm_open_interest v \<le> 1" "0 \<le> norm_funding v \<and> norm_funding v \<le> 1"
    "0 \<le> norm_liquidation v \<and> norm_liquidation v \<le> 1" for v
    by (auto simp: norm_open_interest_def norm_funding_def norm_liquidation_def)
  have 2: "0 \<le> cp_points (futures_component False W_OI norm_open_interest it) \<and> cp_points (futures_component False W_OI norm_open_interest it) \<le> 35"
    "0 \<le> cp_points (futures_component True W_FUNDING norm_funding it) \<and> cp_points (futures_component True W_FUNDING norm_funding it) \<le> 15"
    "0 \<le> cp_points (futures_component False W_LIQ norm_liquidation it) \<and> cp_points (futures_component False W_LIQ norm_liquidation it) \<le> 10" for it
    using futures_points [of 35 norm_open_interest False it, OF _ n(1)] futures_points [of 15 norm_funding True it, OF _ n(2)]
      futures_points [of 10 norm_liquidation False it, OF _ n(3)] by (simp_all add: W_OI_def W_FUNDING_def W_LIQ_def)
  show ?thesis
    unfolding liquidity_score_def Let_def score.select_convs component.select_convs
    using 1 [of "length zs - length (filter z_mitigated zs)"] 2(1) [of "fu_open_interest fu"] 2(2) [of "fu_funding_rate fu"]
      2(3) [of "fu_liquidation fu"]
    by (intro round1_bounds [of _ 100, simplified]) linarith+
qed

subsection \<open>What is reported\<close>

text \<open>A zone: at least two swings of its kind, its band their price range, formed at the last of them;
  mitigated exactly when a later bar exceeds it, with \<open>swept_at\<close> the first such bar, and tested
  exactly when a later bar reaches it.\<close>

definition zone_ok :: "candle list \<Rightarrow> swing list \<Rightarrow> zone \<Rightarrow> bool" where
  "zone_ok cs swings z =
     ((\<exists>cl. set cl \<subseteq> {s \<in> set swings. sw_kind s = z_kind z} \<and> 2 \<le> length cl \<and> length cl = z_swing_count z
        \<and> z_low z = Min (sw_price ` set cl) \<and> z_high z = Max (sw_price ` set cl) \<and> z_formed_at z = Max (sw_index ` set cl))
      \<and> z_swept_at z = List.find (\<lambda>i. exceeds z (cs ! i)) [z_formed_at z + 1..<length cs]
      \<and> z_mitigated z = (\<exists>i. z_formed_at z < i \<and> i < length cs \<and> exceeds z (cs ! i))
      \<and> z_tested z = (\<exists>i. z_formed_at z < i \<and> i < length cs \<and> touches z (cs ! i)))"

lemma exceeds_band:
  "z_kind z' = z_kind z \<Longrightarrow> z_low z' = z_low z \<Longrightarrow> z_high z' = z_high z \<Longrightarrow> exceeds z' = exceeds z \<and> touches z' = touches z"
  by (auto simp: exceeds_def touches_def fun_eq_iff Let_def split: pivot_kind.splits)

lemma list_min_Min: "xs \<noteq> [] \<Longrightarrow> list_min xs = Min (set xs)" and list_max_Max: "xs \<noteq> [] \<Longrightarrow> list_max xs = Max (set xs)"
  using list_min_max [of xs] by (auto intro!: Min_eqI [symmetric] Max_eqI [symmetric])

lemma marked_zone_ok:
  assumes "cl \<in> set (cluster_swings swings kind tol)"
  shows "zone_ok cs swings (mark_status cs (make_zone kind cl))"
proof -
  let ?z = "make_zone kind cl"
  have z: "z_swept_at ?z = None" "\<not> z_mitigated ?z" "\<not> z_tested ?z" "z_kind ?z = kind" "z_swing_count ?z = length cl"
    by (simp_all add: make_zone_def Let_def)
  from cluster_members [OF assms] have cl: "2 \<le> length cl" "set cl \<subseteq> {s \<in> set swings. sw_kind s = kind}" by auto
  then have ne: "cl \<noteq> []" by auto
  have f: "z_low ?z = Min (sw_price ` set cl)" "z_high ?z = Max (sw_price ` set cl)" "z_formed_at ?z = Max (sw_index ` set cl)"
    using ne by (simp_all add: make_zone_def Let_def list_min_Min list_max_Max fold_max_nat)
  note m = mark_status_fields [OF z(1-3)]
  have e: "exceeds (mark_status cs ?z) = exceeds ?z" "touches (mark_status cs ?z) = touches ?z"
    using exceeds_band [of "mark_status cs ?z" ?z] m by auto
  show ?thesis
    unfolding zone_ok_def e m z f using cl f(3) by (auto simp: z)
qed

text \<open>Liquidity zones and their score mean what they say. Every zone is a cluster of at least two
  swings of its kind with their price range as band, it is mitigated exactly when a bar after its
  formation exceeds the band, \<open>swept_at\<close> being the first such bar, and tested exactly when one
  reaches it; and the score lies between 0 and 100.\<close>

theorem liquidity_zones_sound:
  "(case compute_liquidity_zones cs st fu tol of (zones, sc) \<Rightarrow>
      list_all (zone_ok cs (st_swings st)) zones \<and> 0 \<le> sc_score sc \<and> sc_score sc \<le> 100)"
  by (auto simp: compute_liquidity_zones_def Let_def zones_of_def list_all_iff score_bounds intro: marked_zone_ok)

text \<open>A swept zone also counts as tested: a mark does not distinguish a band that was only reached.\<close>

theorem swept_zone_is_tested:
  "zone_ok cs swings z \<Longrightarrow> z_mitigated z \<Longrightarrow> z_tested z"
proof -
  assume z: "zone_ok cs swings z" "z_mitigated z"
  from z(1) [unfolded zone_ok_def, THEN conjunct1]
  obtain cl :: "swing list" where cl: "2 \<le> length cl" "z_low z = Min (sw_price ` set cl)" "z_high z = Max (sw_price ` set cl)"
    by blast
  then have "sw_price ` set cl \<noteq> {}" by auto
  with cl have "z_low z \<le> z_high z" by (metis Max_ge Min_in finite_imageI List.finite_set)
  then have "exceeds z c \<Longrightarrow> touches z c" for c
    by (auto simp: exceeds_def touches_def SWEEP_EXCEED_PCT_def split: pivot_kind.splits)
  with z show ?thesis by (auto simp: zone_ok_def)
qed

end
