(* ===== verification/Order_Blocks.thy ===== *)
theory Order_Blocks
  imports Liquidity
begin

text \<open>
  Order blocks, fair value gaps, VWAP and session levels: \<open>pa/obfvg.py\<close> and
  \<open>pa/vwap_sessions.py\<close>. Zone ids are not part of the model.
\<close>

subsection \<open>Order blocks\<close>

datatype direction = Bullish | Bearish

datatype block_type = Order_Block | Mitigation_Block | Breaker

record block =
  bk_type :: block_type
  bk_direction :: direction
  bk_low :: rat
  bk_high :: rat
  bk_event_index :: nat
  bk_candle_index :: nat
  bk_mitigated :: bool

definition FVG_MIN_GAP_PCT :: rat where
  "FVG_MIN_GAP_PCT = 0"

definition OB_DEDUP_TOLERANCE_PCT :: rat where
  "OB_DEDUP_TOLERANCE_PCT = 5 / 100"

definition red :: "candle \<Rightarrow> bool" where
  "red c = (c_close c < c_open c)"

fun last_opposite_candle :: "candle list \<Rightarrow> nat \<Rightarrow> bool \<Rightarrow> nat option" where
  "last_opposite_candle candles 0 want_red = None"
| "last_opposite_candle candles (Suc i) want_red =
     (if red (candles ! i) = want_red then Some i else last_opposite_candle candles i want_red)"

definition breaks :: "direction \<Rightarrow> rat \<Rightarrow> rat \<Rightarrow> candle \<Rightarrow> bool" where
  "breaks d lo hi c = (case d of Bullish \<Rightarrow> c_close c < lo | Bearish \<Rightarrow> c_close c > hi)"

definition returns_to :: "direction \<Rightarrow> rat \<Rightarrow> rat \<Rightarrow> candle \<Rightarrow> bool" where
  "returns_to d lo hi c = (case d of Bullish \<Rightarrow> c_low c \<le> hi | Bearish \<Rightarrow> c_high c \<ge> lo)"

text \<open>The loop over the candles after the event, with its early return on a break.\<close>

fun mark_block :: "candle list \<Rightarrow> block \<Rightarrow> block" where
  "mark_block [] z = z"
| "mark_block (c # cs) z =
     (if breaks (bk_direction z) (bk_low z) (bk_high z) c then z\<lparr>bk_type := Breaker, bk_mitigated := True\<rparr>
      else mark_block cs
        (if \<not> bk_mitigated z \<and> returns_to (bk_direction z) (bk_low z) (bk_high z) c
         then z\<lparr>bk_mitigated := True, bk_type := Mitigation_Block\<rparr> else z))"

definition mark_order_block :: "candle list \<Rightarrow> block \<Rightarrow> block" where
  "mark_order_block candles z = mark_block (drop (bk_event_index z + 1) candles) z"

definition block_of_event :: "candle list \<Rightarrow> event \<Rightarrow> block option" where
  "block_of_event candles ev =
     (let d = (if ev_type ev = BOS_BULLISH \<or> ev_type ev = CHOCH_BULLISH then Bullish else Bearish) in
      case last_opposite_candle candles (ev_index ev) (d = Bullish) of
        None \<Rightarrow> None
      | Some i \<Rightarrow>
          Some (mark_order_block candles
            \<lparr>bk_type = Order_Block, bk_direction = d, bk_low = c_low (candles ! i), bk_high = c_high (candles ! i),
             bk_event_index = ev_index ev, bk_candle_index = i, bk_mitigated = False\<rparr>))"

definition overlaps :: "rat \<Rightarrow> block \<Rightarrow> block \<Rightarrow> bool" where
  "overlaps tol_pct ob k =
     (let tol = (bk_low ob + bk_high ob) / 2 * tol_pct / 100 in
      bk_direction k = bk_direction ob \<and> \<not> (bk_high ob + tol < bk_low k \<or> bk_high k + tol < bk_low ob))"

definition keep_block :: "rat \<Rightarrow> block \<Rightarrow> block list \<Rightarrow> block list" where
  "keep_block tol_pct ob kept = (if list_ex (overlaps tol_pct ob) kept then kept else kept @ [ob])"

definition dedup_order_blocks :: "block list \<Rightarrow> rat \<Rightarrow> block list" where
  "dedup_order_blocks obs tol_pct = fold (keep_block tol_pct) obs []"

subsection \<open>Fair value gaps\<close>

record fvg =
  fv_direction :: direction
  fv_low :: rat
  fv_high :: rat
  fv_formed_at :: nat
  fv_mitigated :: bool

definition mark_fvg :: "candle list \<Rightarrow> fvg \<Rightarrow> fvg" where
  "mark_fvg candles z =
     (if list_ex (returns_to (fv_direction z) (fv_low z) (fv_high z)) (drop (fv_formed_at z + 1) candles)
      then z\<lparr>fv_mitigated := True\<rparr> else z)"

definition gap_at :: "candle list \<Rightarrow> rat \<Rightarrow> nat \<Rightarrow> fvg option" where
  "gap_at candles min_gap_pct i =
     (let a = candles ! i; c = candles ! (i + 2) in
      case (if c_high a < c_low c then Some (c_high a, c_low c, Bullish)
            else if c_low a > c_high c then Some (c_high c, c_low a, Bearish) else None) of
        None \<Rightarrow> None
      | Some (lo, hi, d) \<Rightarrow>
          (let mid = (c_high a + c_low a) / 2 in
           if mid > 0 \<and> (hi - lo) / mid * 100 < min_gap_pct then None
           else Some (mark_fvg candles
             \<lparr>fv_direction = d, fv_low = lo, fv_high = hi, fv_formed_at = i + 2, fv_mitigated = False\<rparr>)))"

definition compute_fvgs :: "candle list \<Rightarrow> rat \<Rightarrow> fvg list" where
  "compute_fvgs candles min_gap_pct = List.map_filter (gap_at candles min_gap_pct) [0..<length candles - 2]"

definition compute_order_blocks :: "candle list \<Rightarrow> market_structure \<Rightarrow> rat \<Rightarrow> rat \<Rightarrow> block list \<times> fvg list" where
  "compute_order_blocks candles st min_gap_pct tol_pct =
     (dedup_order_blocks (List.map_filter (block_of_event candles) (st_events st)) tol_pct, compute_fvgs candles min_gap_pct)"

subsection \<open>VWAP and sessions\<close>

definition round8 :: "rat \<Rightarrow> rat" where
  "round8 x = of_int (round_half_even (x * 100000000)) / 100000000"

definition day_of :: "candle \<Rightarrow> int" where
  "day_of c = c_open_time c div 86400"

definition typical :: "candle \<Rightarrow> rat" where
  "typical c = (c_high c + c_low c + c_close c) / 3"

definition vol_of :: "candle \<Rightarrow> rat" where
  "vol_of c = (case c_volume c of Some v \<Rightarrow> v | None \<Rightarrow> 0)"

record vwap_acc =
  va_tp :: rat
  va_vol :: rat
  va_day :: "int option"
  va_points :: "(int \<times> rat option) list"

definition vwap_step :: "candle \<Rightarrow> vwap_acc \<Rightarrow> vwap_acc" where
  "vwap_step c s =
     (let day = day_of c;
          fresh = (va_day s \<noteq> None \<and> va_day s \<noteq> Some day);
          tp = (if fresh then 0 else va_tp s) + typical c * vol_of c;
          vol = (if fresh then 0 else va_vol s) + vol_of c
      in \<lparr>va_tp = tp, va_vol = vol, va_day = Some day,
          va_points = va_points s @ [(c_open_time c, if vol > 0 then Some (round8 (tp / vol)) else None)]\<rparr>)"

record vwap_result =
  vw_anchored_at :: "int option"
  vw_current :: "rat option"
  vw_points :: "(int \<times> rat option) list"

definition compute_vwap :: "candle list \<Rightarrow> vwap_result" where
  "compute_vwap candles =
     (let s = fold vwap_step candles \<lparr>va_tp = 0, va_vol = 0, va_day = None, va_points = []\<rparr>
      in \<lparr>vw_anchored_at = map_option (\<lambda>d. d * 86400) (va_day s),
          vw_current = (if va_points s = [] then None else snd (last (va_points s))), vw_points = va_points s\<rparr>)"

definition KILLZONES :: "(string \<times> int \<times> int) list" where
  "KILLZONES = [(''asian'', 0, 8), (''london'', 7, 16), (''newyork'', 12, 21)]"

definition hour_of :: "candle \<Rightarrow> int" where
  "hour_of c = c_open_time c mod 86400 div 3600"

record session =
  se_name :: string
  se_day :: int
  se_start :: int
  se_end :: int
  se_high :: rat
  se_low :: rat

definition session_level :: "candle list \<Rightarrow> string \<times> int \<times> int \<Rightarrow> session option" where
  "session_level candles kz =
     (case kz of (name, start, end') \<Rightarrow>
        let entries = filter (\<lambda>c. start \<le> hour_of c \<and> hour_of c < end') candles in
        if entries = [] then None
        else
          (let latest_day = fold max (map day_of entries) (day_of (hd entries));
               inside = filter (\<lambda>c. day_of c = latest_day) entries
           in Some \<lparr>se_name = name, se_day = latest_day, se_start = start, se_end = end',
                    se_high = list_max (map c_high inside), se_low = list_min (map c_low inside)\<rparr>))"

definition compute_session_levels :: "candle list \<Rightarrow> session list" where
  "compute_session_levels candles = List.map_filter (session_level candles) KILLZONES"

subsection \<open>Blocks are marked by what follows the event\<close>

lemma last_opposite_candle_Some:
  "last_opposite_candle cs n want = Some i \<Longrightarrow>
     i < n \<and> red (cs ! i) = want \<and> (\<forall>j. i < j \<and> j < n \<longrightarrow> red (cs ! j) \<noteq> want)"
  by (induction cs n want rule: last_opposite_candle.induct) (auto simp: less_Suc_eq split: if_splits)

lemma last_opposite_candle_None:
  "last_opposite_candle cs n want = None \<longleftrightarrow> (\<forall>j<n. red (cs ! j) \<noteq> want)"
  by (induction cs n want rule: last_opposite_candle.induct) (auto simp: less_Suc_eq)

lemma mark_block_fields:
  "bk_direction (mark_block cs z) = bk_direction z" "bk_low (mark_block cs z) = bk_low z" "bk_high (mark_block cs z) = bk_high z"
  "bk_event_index (mark_block cs z) = bk_event_index z" "bk_candle_index (mark_block cs z) = bk_candle_index z"
  by (induction cs arbitrary: z; simp)+

lemma mark_block_mitigated:
  "bk_mitigated (mark_block cs z) =
     (bk_mitigated z \<or> (\<exists>c\<in>set cs. breaks (bk_direction z) (bk_low z) (bk_high z) c \<or> returns_to (bk_direction z) (bk_low z) (bk_high z) c))"
proof (induction cs arbitrary: z)
  case (Cons c cs)
  have "bk_mitigated z \<Longrightarrow> bk_mitigated (mark_block cs z)" for cs z
    by (induction cs arbitrary: z) auto
  then show ?case using Cons by auto
qed simp

lemma mark_block_type:
  assumes "bk_type z = (if bk_mitigated z then Mitigation_Block else Order_Block)"
  shows "bk_type (mark_block cs z) =
     (if \<exists>c\<in>set cs. breaks (bk_direction z) (bk_low z) (bk_high z) c then Breaker
      else if bk_mitigated (mark_block cs z) then Mitigation_Block else Order_Block)"
  using assms by (induction cs arbitrary: z) auto

text \<open>An order block: the last candle of the opposite colour before a structure event, its band the range
  of that candle, a breaker when a later candle closes beyond the far edge, mitigated when one
  does or returns to the band.\<close>

definition block_ok :: "candle list \<Rightarrow> event list \<Rightarrow> block \<Rightarrow> bool" where
  "block_ok cs evs b =
     (let d = bk_direction b; i = bk_candle_index b; lo = bk_low b; hi = bk_high b; after = drop (bk_event_index b + 1) cs in
      (\<exists>ev\<in>set evs. ev_index ev = bk_event_index b \<and> (d = Bullish) = (broken_kind (ev_type ev) = High))
      \<and> i < bk_event_index b \<and> red (cs ! i) = (d = Bullish) \<and> (\<forall>j. i < j \<and> j < bk_event_index b \<longrightarrow> red (cs ! j) \<noteq> (d = Bullish))
      \<and> lo = c_low (cs ! i) \<and> hi = c_high (cs ! i)
      \<and> bk_mitigated b = (\<exists>c\<in>set after. breaks d lo hi c \<or> returns_to d lo hi c)
      \<and> bk_type b = (if \<exists>c\<in>set after. breaks d lo hi c then Breaker else if bk_mitigated b then Mitigation_Block else Order_Block))"

lemma block_of_event_ok:
  assumes "block_of_event cs ev = Some b" "ev \<in> set evs"
  shows "block_ok cs evs b"
proof -
  let ?d = "if ev_type ev = BOS_BULLISH \<or> ev_type ev = CHOCH_BULLISH then Bullish else Bearish"
  from assms(1) obtain i where i: "last_opposite_candle cs (ev_index ev) (?d = Bullish) = Some i"
    and b: "b = mark_order_block cs \<lparr>bk_type = Order_Block, bk_direction = ?d, bk_low = c_low (cs ! i), bk_high = c_high (cs ! i),
             bk_event_index = ev_index ev, bk_candle_index = i, bk_mitigated = False\<rparr>"
    by (auto simp: block_of_event_def Let_def split: option.splits)
  have k: "(?d = Bullish) = (broken_kind (ev_type ev) = High)" by (cases "ev_type ev") simp_all
  show ?thesis
    using last_opposite_candle_Some [OF i] assms(2) k
    by (simp add: block_ok_def b mark_order_block_def mark_block_fields mark_block_mitigated mark_block_type Let_def) blast
qed

lemma keep_block_step: "set kept \<subseteq> set (keep_block tol ob kept)" "set (keep_block tol ob kept) \<subseteq> insert ob (set kept)"
  by (auto simp: keep_block_def)

lemma keep_block_set: "set (fold (keep_block tol) obs kept) \<subseteq> set kept \<union> set obs"
proof (induction obs arbitrary: kept)
  case (Cons ob obs)
  then show ?case using keep_block_step(2) [of tol ob kept] by fastforce
qed simp

lemma keep_block_mono: "set kept \<subseteq> set (fold (keep_block tol) obs kept)"
proof (induction obs arbitrary: kept)
  case (Cons ob obs)
  then show ?case using keep_block_step(1) [of kept tol ob] by fastforce
qed simp

lemma dedup_separated:
  "sorted_wrt (\<lambda>k ob. \<not> overlaps tol ob k) kept \<Longrightarrow> sorted_wrt (\<lambda>k ob. \<not> overlaps tol ob k) (fold (keep_block tol) obs kept)"
  by (induction obs arbitrary: kept) (auto simp: keep_block_def sorted_wrt_append list_ex_iff)

lemma dedup_covers:
  "ob \<in> set obs \<Longrightarrow> ob \<in> set (fold (keep_block tol) obs kept) \<or> (\<exists>k\<in>set (fold (keep_block tol) obs kept). overlaps tol ob k)"
proof (induction obs arbitrary: kept)
  case (Cons x obs)
  show ?case
  proof (cases "ob = x")
    case True
    have "x \<in> set (keep_block tol x kept) \<or> (\<exists>k\<in>set (keep_block tol x kept). overlaps tol x k)"
      by (auto simp: keep_block_def list_ex_iff)
    with True keep_block_mono [of "keep_block tol x kept" tol obs] show ?thesis by auto
  qed (use Cons in auto)
qed simp

text \<open>Order blocks are sound and not duplicated. Every block reported is the last candle of the
  opposite colour before one of the structure events, marked by the later candles as documented;
  no two reported blocks of a direction overlap within the tolerance of the later one; and every
  event's block is reported or overlaps a reported one.\<close>

theorem order_blocks_sound:
  "(let bs = fst (compute_order_blocks cs st gap tol) in
     list_all (block_ok cs (st_events st)) bs
     \<and> sorted_wrt (\<lambda>k ob. \<not> overlaps tol ob k) bs
     \<and> list_all (\<lambda>ob. ob \<in> set bs \<or> list_ex (overlaps tol ob) bs) (List.map_filter (block_of_event cs) (st_events st)))"
proof -
  let ?obs = "List.map_filter (block_of_event cs) (st_events st)"
  have "block_ok cs (st_events st) b" if "b \<in> set ?obs" for b
    using that by (auto simp: List.map_filter_def intro: block_of_event_ok)
  then show ?thesis
    using keep_block_set [of tol ?obs "[]"] dedup_separated [of tol "[]" ?obs] dedup_covers [of _ ?obs tol "[]"]
    by (auto simp: compute_order_blocks_def dedup_order_blocks_def list_all_iff list_ex_iff Let_def)
qed

subsection \<open>VWAP is the volume-weighted price of the day\<close>

definition day_vwap :: "candle list \<Rightarrow> rat option" where
  "day_vwap cs =
     (let today = filter (\<lambda>c. day_of c = day_of (last cs)) cs; vol = sum_list (map vol_of today) in
      if vol > 0 then Some (round8 (sum_list (map (\<lambda>c. typical c * vol_of c) today) / vol)) else None)"

definition vwap_ok :: "candle list \<Rightarrow> vwap_acc \<Rightarrow> bool" where
  "vwap_ok cs s =
     ((if cs = [] then va_day s = None \<and> va_tp s = 0 \<and> va_vol s = 0
       else let today = filter (\<lambda>c. day_of c = day_of (last cs)) cs in
         va_day s = Some (day_of (last cs)) \<and> va_vol s = sum_list (map vol_of today)
         \<and> va_tp s = sum_list (map (\<lambda>c. typical c * vol_of c) today))
      \<and> va_points s = map (\<lambda>i. (c_open_time (cs ! i), day_vwap (take (Suc i) cs))) [0..<length cs])"

lemma vwap_step_ok:
  assumes "vwap_ok cs s" "sorted (map c_open_time (cs @ [c]))"
  shows "vwap_ok (cs @ [c]) (vwap_step c s)"
proof -
  let ?old = "filter (\<lambda>x. day_of x = day_of c) cs"
  have same: "?old = (if cs \<noteq> [] \<and> day_of (last cs) = day_of c then filter (\<lambda>x. day_of x = day_of (last cs)) cs else [])"
  proof (cases "cs = [] \<or> day_of (last cs) = day_of c")
    case False
    have "day_of x \<noteq> day_of c" if "x \<in> set cs" for x
    proof -
      from False obtain ys y where cs: "cs = ys @ [y]" by (metis append_butlast_last_id)
      have "c_open_time x \<le> c_open_time y" "c_open_time y \<le> c_open_time c"
        using that assms(2) unfolding cs by (auto simp: sorted_append)
      then have "day_of x \<le> day_of y" "day_of y \<le> day_of c" by (simp_all add: day_of_def zdiv_mono1)
      with False cs show ?thesis by auto
    qed
    with False show ?thesis by (auto simp: filter_empty_conv)
  qed auto
  have pts: "map (\<lambda>i. (c_open_time ((cs @ [c]) ! i), day_vwap (take (Suc i) (cs @ [c])))) [0..<length (cs @ [c])]
      = map (\<lambda>i. (c_open_time (cs ! i), day_vwap (take (Suc i) cs))) [0..<length cs] @ [(c_open_time c, day_vwap (cs @ [c]))]"
    by (auto simp: nth_append)
  from assms(1) have v: "va_points s = map (\<lambda>i. (c_open_time (cs ! i), day_vwap (take (Suc i) cs))) [0..<length cs]"
    by (simp add: vwap_ok_def)
  have old: "va_vol s = sum_list (map vol_of ?old)" "va_tp s = sum_list (map (\<lambda>c. typical c * vol_of c) ?old)"
    if "va_day s = None \<or> va_day s = Some (day_of c)"
    using assms(1) that by (cases "cs = []"; simp add: vwap_ok_def Let_def)+
  have new: "?old = []" if "va_day s \<noteq> None" "va_day s \<noteq> Some (day_of c)"
    using assms(1) that by (subst same) (auto simp: vwap_ok_def Let_def)
  have "va_day (vwap_step c s) = Some (day_of c)" "va_vol (vwap_step c s) = sum_list (map vol_of (?old @ [c]))"
    "va_tp (vwap_step c s) = sum_list (map (\<lambda>c. typical c * vol_of c) (?old @ [c]))"
    by (cases "va_day s = None \<or> va_day s = Some (day_of c)"; simp add: vwap_step_def Let_def old new)+
  moreover from this have "va_points (vwap_step c s) = va_points s @ [(c_open_time c, day_vwap (cs @ [c]))]"
    by (simp add: vwap_step_def day_vwap_def Let_def)
  ultimately show ?thesis unfolding vwap_ok_def pts v by (simp add: Let_def)
qed

lemma vwap_fold_ok:
  "sorted (map c_open_time cs) \<Longrightarrow> vwap_ok cs (fold vwap_step cs \<lparr>va_tp = 0, va_vol = 0, va_day = None, va_points = []\<rparr>)"
  by (induction cs rule: rev_induct) (auto simp: vwap_ok_def [of "[]"] intro!: vwap_step_ok simp: sorted_append)

text \<open>The incremental VWAP equals its definition. For candles in time order, the point of each candle
  is the rounded volume-weighted typical price of the candles of its UTC day up to and including
  it (none when nothing was traded), and the current value is that of the last candle.\<close>

theorem vwap_is_daily:
  assumes "sorted (map c_open_time cs)"
  shows "vw_points (compute_vwap cs) = map (\<lambda>i. (c_open_time (cs ! i), day_vwap (take (Suc i) cs))) [0..<length cs]
     \<and> vw_current (compute_vwap cs) = (if cs = [] then None else day_vwap cs)"
proof -
  let ?s = "fold vwap_step cs \<lparr>va_tp = 0, va_vol = 0, va_day = None, va_points = []\<rparr>"
  from vwap_fold_ok [OF assms] have p: "va_points ?s = map (\<lambda>i. (c_open_time (cs ! i), day_vwap (take (Suc i) cs))) [0..<length cs]"
    by (simp add: vwap_ok_def)
  then show ?thesis
    by (cases cs rule: rev_cases) (simp_all add: compute_vwap_def Let_def)
qed

theorem vwap_is_daily_witness:
  "sorted (map c_open_time demo_candles) \<and> vw_current (compute_vwap demo_candles) = day_vwap demo_candles"
proof -
  have s: "sorted (map c_open_time demo_candles)" "demo_candles \<noteq> []" by code_simp+
  from vwap_is_daily [OF s(1)] s show ?thesis by simp
qed

end
