(* ===== verification/Analysis.thy ===== *)
theory Analysis
  imports Order_Blocks "HOL-Library.AList"
begin

text \<open>
  The price-action engine of \<open>pa/analysis.py\<close>: the analysis of a candle series and the tables of
  immutable records it is stored in. Each table (\<open>market_structure\<close>, \<open>liquidity_zones\<close>,
  \<open>order_blocks\<close>) is the list of its rows in insertion order, a payload its JSON text.
\<close>

subsection \<open>Immutable records\<close>

record pa_row =
  pa_id :: nat
  pa_symbol :: string
  pa_timeframe :: string
  pa_version :: string
  pa_from :: int
  pa_to :: "int option"
  pa_payload :: string
  pa_created_at :: int

definition for_key :: "string \<Rightarrow> string \<Rightarrow> pa_row list \<Rightarrow> pa_row list" where
  "for_key symbol timeframe t = filter (\<lambda>r. pa_symbol r = symbol \<and> pa_timeframe r = timeframe) t"

definition last_opt :: "'a list \<Rightarrow> 'a option" where
  "last_opt xs = (if xs = [] then None else Some (last xs))"

text \<open>\<open>ORDER BY effective_from DESC, id DESC LIMIT 1\<close> on rows in id order.\<close>

fun newest :: "pa_row list \<Rightarrow> pa_row option" where
  "newest [] = None"
| "newest (r # rs) =
     (case newest rs of None \<Rightarrow> Some r | Some b \<Rightarrow> if pa_from b \<ge> pa_from r then Some b else Some r)"

definition next_id :: "pa_row list \<Rightarrow> nat" where
  "next_id t = Suc (fold max (map pa_id t) 0)"

definition close_row :: "nat \<Rightarrow> int \<Rightarrow> pa_row list \<Rightarrow> pa_row list" where
  "close_row i to t = map (\<lambda>r. if pa_id r = i then r\<lparr>pa_to := Some to\<rparr> else r) t"

definition new_row :: "nat \<Rightarrow> string \<Rightarrow> string \<Rightarrow> string \<Rightarrow> int \<Rightarrow> string \<Rightarrow> int \<Rightarrow> int option \<Rightarrow> pa_row" where
  "new_row i symbol timeframe version from payload now to =
     \<lparr>pa_id = i, pa_symbol = symbol, pa_timeframe = timeframe, pa_version = version, pa_from = from, pa_to = to,
      pa_payload = payload, pa_created_at = now\<rparr>"

definition store_payload :: "string \<Rightarrow> string \<Rightarrow> string \<Rightarrow> int \<Rightarrow> string \<Rightarrow> int \<Rightarrow> pa_row list \<Rightarrow> pa_row list" where
  "store_payload symbol timeframe version from payload now t =
     (let rows = for_key symbol timeframe t;
          new = new_row (next_id t) symbol timeframe version from payload now
      in case last_opt (filter (\<lambda>r. pa_from r = from) rows) of
           Some sb \<Rightarrow>
             if pa_version sb = version \<and> pa_payload sb = payload then t
             else if pa_to sb = None then close_row (pa_id sb) from t @ [new None]
             else t @ [new (pa_to sb)]
         | None \<Rightarrow>
             (case newest (filter (\<lambda>r. pa_to r = None) rows) of
                None \<Rightarrow> t @ [new None]
              | Some op \<Rightarrow>
                  if from > pa_from op then close_row (pa_id op) (from - 1) t @ [new None]
                  else
                    (let later = filter (\<lambda>f. f > from) (map pa_from rows)
                     in t @ [new (Some ((if later = [] then pa_from op else fold min later (hd later)) - 1))])))"

text \<open>\<open>ORDER BY effective_from DESC LIMIT 1\<close> among the open rows.\<close>

definition read_current :: "string \<Rightarrow> string \<Rightarrow> pa_row list \<Rightarrow> pa_row option" where
  "read_current symbol timeframe t = newest (filter (\<lambda>r. pa_to r = None) (for_key symbol timeframe t))"

definition read_history :: "string \<Rightarrow> string \<Rightarrow> pa_row list \<Rightarrow> pa_row list" where
  "read_history symbol timeframe t = sort_key pa_from (for_key symbol timeframe t)"

text \<open>The newest state of every zone of the history, in the order of first appearance; \<open>zones\<close> reads
  the zones of a payload and \<open>key\<close> the id of a zone.\<close>

definition merge_zone :: "('z \<Rightarrow> 'k option) \<Rightarrow> 'z \<Rightarrow> ('k \<times> 'z) list \<Rightarrow> ('k \<times> 'z) list" where
  "merge_zone key z seen = (case key z of None \<Rightarrow> seen | Some k \<Rightarrow> AList.update k z seen)"

definition merged_zones :: "(string \<Rightarrow> 'z list) \<Rightarrow> ('z \<Rightarrow> 'k option) \<Rightarrow> string \<Rightarrow> string \<Rightarrow> pa_row list \<Rightarrow> 'z list" where
  "merged_zones zones key symbol timeframe t =
     map snd (fold (merge_zone key) (concat (map (\<lambda>r. zones (pa_payload r)) (read_history symbol timeframe t))) [])"

subsection \<open>The analysis\<close>

definition PA_LOOKBACK :: nat where
  "PA_LOOKBACK = 200"

record analysis =
  an_as_of :: int
  an_structure :: market_structure
  an_zones :: "zone list"
  an_score :: score
  an_blocks :: "block list"
  an_fvgs :: "fvg list"
  an_vwap :: vwap_result
  an_sessions :: "session list"

definition analysis_of :: "candle list \<Rightarrow> futures \<Rightarrow> market_structure \<Rightarrow> analysis" where
  "analysis_of candles fu st =
     (let (zones, sc) = compute_liquidity_zones candles st fu EQUAL_LEVEL_TOLERANCE_PCT;
          (blocks, fvgs) = compute_order_blocks candles st FVG_MIN_GAP_PCT OB_DEDUP_TOLERANCE_PCT
      in \<lparr>an_as_of = c_open_time (last candles), an_structure = st, an_zones = zones, an_score = sc, an_blocks = blocks,
          an_fvgs = fvgs, an_vwap = compute_vwap candles, an_sessions = compute_session_levels candles\<rparr>)"

text \<open>\<open>PAEngine.analyze\<close> on the candles that were loaded: it needs a known timeframe and enough
  closed candles.\<close>

definition analyze :: "string \<Rightarrow> candle list \<Rightarrow> futures \<Rightarrow> rat \<Rightarrow> analysis res" where
  "analyze timeframe loaded fu now =
     (if map_of TIMEFRAME_SECONDS timeframe = None then Inl (rasat INVALID_REQUEST)
      else if loaded = [] then Inl (rasat STALE_DATA)
      else
        rbind (filter_closed_candles loaded timeframe now) (\<lambda>candles.
          if length candles < 2 * SWING_LOOKBACK + 1 then Inl (rasat STALE_DATA)
          else rbind (detect_structure candles SWING_LOOKBACK) (\<lambda>st. Inr (analysis_of candles fu st))))"

definition FRESH :: string where "FRESH = ''fresh''"
definition STALE :: string where "STALE = ''stale''"

definition freshness_for :: "string \<Rightarrow> int option \<Rightarrow> rat \<Rightarrow> string res" where
  "freshness_for timeframe as_of now =
     (case as_of of
        None \<Rightarrow> Inr STALE
      | Some a \<Rightarrow>
          (case map_of TIMEFRAME_SECONDS timeframe of
             None \<Rightarrow> Inl KeyError
           | Some period \<Rightarrow> Inr (if a \<ge> latest_closed period now then FRESH else STALE)))"

definition active_zones :: "analysis \<Rightarrow> zone list" where
  "active_zones a = filter (\<lambda>z. \<not> z_mitigated z) (an_zones a)"

definition active_blocks :: "analysis \<Rightarrow> block list \<times> fvg list" where
  "active_blocks a = (filter (\<lambda>z. \<not> bk_mitigated z) (an_blocks a), filter (\<lambda>z. \<not> fv_mitigated z) (an_fvgs a))"

subsection \<open>The records of one key\<close>

text \<open>The records of a symbol and timeframe: none, or exactly one open one, which is the latest of the
  greatest effective time; every closed one has an interval that is not inverted.\<close>

definition interval_ok :: "pa_row \<Rightarrow> bool" where
  "interval_ok r = (case pa_to r of None \<Rightarrow> True | Some e \<Rightarrow> pa_from r \<le> e)"

definition one_open :: "pa_row list \<Rightarrow> bool" where
  "one_open rows =
     (rows = [] \<or> (\<exists>xs op ys. rows = xs @ op # ys \<and> pa_to op = None
        \<and> (\<forall>r\<in>set xs \<union> set ys. pa_to r \<noteq> None \<and> pa_from r \<le> pa_from op) \<and> (\<forall>r\<in>set ys. pa_from r < pa_from op)))"

definition key_inv :: "pa_row list \<Rightarrow> bool" where
  "key_inv rows = (one_open rows \<and> list_all interval_ok rows)"

definition store_inv :: "pa_row list \<Rightarrow> bool" where
  "store_inv t = (distinct (map pa_id t) \<and> (\<forall>s tf. key_inv (for_key s tf t)))"

lemma for_key_append [simp]: "for_key s tf (t @ u) = for_key s tf t @ for_key s tf u"
  by (simp add: for_key_def)

lemma for_key_close: "for_key s tf (close_row i e t) = close_row i e (for_key s tf t)"
  by (induction t) (auto simp: for_key_def close_row_def)

lemma for_key_ids: "distinct (map pa_id t) \<Longrightarrow> distinct (map pa_id (for_key s tf t))"
  by (simp add: for_key_def distinct_map_filter)

lemma close_row_other: "i \<notin> pa_id ` set t \<Longrightarrow> close_row i e t = t"
  by (auto simp: close_row_def intro!: map_idI)

lemma close_row_split:
  assumes "distinct (map pa_id (xs @ op # ys))"
  shows "close_row (pa_id op) e (xs @ op # ys) = xs @ op\<lparr>pa_to := Some e\<rparr> # ys"
proof -
  have "close_row (pa_id op) e xs = xs" "close_row (pa_id op) e ys = ys" using assms by (auto intro!: close_row_other)
  then show ?thesis by (simp add: close_row_def)
qed

lemma close_row_ids [simp]: "map pa_id (close_row i e t) = map pa_id t"
  by (simp add: close_row_def)

lemma next_id_fresh: "r \<in> set t \<Longrightarrow> pa_id r < next_id t"
  by (simp add: next_id_def fold_max_nat less_Suc_eq_le)

lemma newest_of_one: "filter (\<lambda>r. pa_to r = None) rows = [op] \<Longrightarrow> newest (filter (\<lambda>r. pa_to r = None) rows) = Some op"
  by simp

lemma open_filter:
  "rows = xs @ op # ys \<Longrightarrow> pa_to op = None \<Longrightarrow> \<forall>r\<in>set xs \<union> set ys. pa_to r \<noteq> None \<Longrightarrow> filter (\<lambda>r. pa_to r = None) rows = [op]"
  by (simp add: filter_empty_conv)

lemma fold_min_ge: "(\<And>x. x \<in> set xs \<Longrightarrow> (k::int) \<le> x) \<Longrightarrow> k \<le> a \<Longrightarrow> k \<le> fold min xs a"
  by (induction xs arbitrary: a) auto

lemma last_opt_Some: "last_opt (filter q rows) = Some r \<Longrightarrow> r \<in> set rows \<and> q r"
  using last_in_set [of "filter q rows"] by (auto simp: last_opt_def split: if_splits)

lemma last_opt_None: "last_opt (filter q rows) = None \<Longrightarrow> r \<in> set rows \<Longrightarrow> \<not> q r"
  by (auto simp: last_opt_def filter_empty_conv split: if_splits)

lemma last_of_open:
  assumes "rows = xs @ op # ys" "\<forall>r\<in>set ys. pa_from r < pa_from op"
  shows "last_opt (filter (\<lambda>r. pa_from r = pa_from op) rows) = Some op"
proof -
  have "filter (\<lambda>r. pa_from r = pa_from op) ys = []" using assms(2) by (auto simp: filter_empty_conv)
  then show ?thesis by (simp add: assms(1) last_opt_def)
qed

lemma open_appended:
  assumes "rows = xs @ op # ys" "list_all interval_ok rows" "\<forall>r\<in>set xs \<union> set ys. pa_to r \<noteq> None \<and> pa_from r \<le> pa_from op"
    "pa_from op \<le> e" "pa_from op \<le> pa_from n" "pa_to n = None"
  shows "key_inv (xs @ op\<lparr>pa_to := Some e\<rparr> # ys @ [n])"
proof -
  have "one_open ((xs @ op\<lparr>pa_to := Some e\<rparr> # ys) @ n # [])"
    unfolding one_open_def
    by (rule disjI2, rule exI [of _ "xs @ op\<lparr>pa_to := Some e\<rparr> # ys"], rule exI [of _ n], rule exI [of _ "[]"])
      (use assms in \<open>auto intro: order_trans\<close>)
  with assms show ?thesis by (auto simp: key_inv_def interval_ok_def)
qed

lemma closed_appended:
  assumes "rows = xs @ op # ys" "pa_to op = None" "list_all interval_ok rows"
    "\<forall>r\<in>set xs \<union> set ys. pa_to r \<noteq> None \<and> pa_from r \<le> pa_from op" "\<forall>r\<in>set ys. pa_from r < pa_from op"
    "pa_from n < pa_from op" "pa_to n = Some e" "pa_from n \<le> e"
  shows "key_inv (rows @ [n])"
proof -
  have "one_open (xs @ op # (ys @ [n]))"
    unfolding one_open_def
    by (rule disjI2, rule exI [of _ xs], rule exI [of _ op], rule exI [of _ "ys @ [n]"]) (use assms in fastforce)
  with assms show ?thesis by (simp add: key_inv_def interval_ok_def)
qed

subsection \<open>Storing keeps the records in order\<close>

text \<open>The records of a key with their open one in focus.\<close>

definition opened :: "pa_row list \<Rightarrow> pa_row list \<Rightarrow> pa_row \<Rightarrow> pa_row list \<Rightarrow> bool" where
  "opened rows xs op ys =
     (rows = xs @ op # ys \<and> pa_to op = None \<and> list_all interval_ok rows \<and> distinct (map pa_id rows)
      \<and> (\<forall>r\<in>set xs \<union> set ys. pa_to r \<noteq> None \<and> pa_from r \<le> pa_from op) \<and> (\<forall>r\<in>set ys. pa_from r < pa_from op))"

lemma opened_facts:
  assumes "opened rows xs op ys"
  shows "newest (filter (\<lambda>r. pa_to r = None) rows) = Some op" "\<And>r. r \<in> set rows \<Longrightarrow> pa_from r \<le> pa_from op"
    "\<And>e. close_row (pa_id op) e rows = xs @ op\<lparr>pa_to := Some e\<rparr> # ys"
    "last_opt (filter (\<lambda>r. pa_from r = pa_from op) rows) = Some op"
    "\<And>r. r \<in> set rows \<Longrightarrow> pa_to r = None \<Longrightarrow> r = op" "\<And>r. r \<in> set rows \<Longrightarrow> interval_ok r"
    "\<And>e n. pa_from op \<le> e \<Longrightarrow> pa_from op \<le> pa_from n \<Longrightarrow> pa_to n = None \<Longrightarrow> key_inv (xs @ op\<lparr>pa_to := Some e\<rparr> # ys @ [n])"
    "\<And>n e. pa_from n < pa_from op \<Longrightarrow> pa_to n = Some e \<Longrightarrow> pa_from n \<le> e \<Longrightarrow> key_inv (rows @ [n])"
proof -
  from assms have o: "rows = xs @ op # ys" "pa_to op = None" "list_all interval_ok rows" "distinct (map pa_id rows)"
    "\<forall>r\<in>set xs \<union> set ys. pa_to r \<noteq> None \<and> pa_from r \<le> pa_from op" "\<forall>r\<in>set ys. pa_from r < pa_from op"
    unfolding opened_def by blast+
  show "newest (filter (\<lambda>r. pa_to r = None) rows) = Some op"
    by (rule newest_of_one, rule open_filter [OF o(1,2)]) (use o(5) in blast)
  show "close_row (pa_id op) e rows = xs @ op\<lparr>pa_to := Some e\<rparr> # ys" for e
    using close_row_split o(1,4) by metis
  show "last_opt (filter (\<lambda>r. pa_from r = pa_from op) rows) = Some op" by (rule last_of_open [OF o(1,6)])
  show "pa_from op \<le> e \<Longrightarrow> pa_from op \<le> pa_from n \<Longrightarrow> pa_to n = None \<Longrightarrow> key_inv (xs @ op\<lparr>pa_to := Some e\<rparr> # ys @ [n])" for e n
    by (rule open_appended [OF o(1,3,5)])
  show "pa_from n < pa_from op \<Longrightarrow> pa_to n = Some e \<Longrightarrow> pa_from n \<le> e \<Longrightarrow> key_inv (rows @ [n])" for n e
    by (rule closed_appended [OF o(1-3,5,6)])
  show "r \<in> set rows \<Longrightarrow> interval_ok r" for r using o(3) by (simp add: list_all_iff)
  show "r \<in> set rows \<Longrightarrow> pa_to r = None \<Longrightarrow> r = op" for r
  proof -
    assume r: "r \<in> set rows" "pa_to r = None"
    with o(1) have "r \<in> set xs \<union> set ys \<or> r = op" by auto
    with o(5) r(2) show "r = op" by blast
  qed
qed (use assms in \<open>auto simp: opened_def\<close>)

lemma new_row_fields [simp]:
  "pa_id (new_row i s tf ver from pl now to) = i" "pa_symbol (new_row i s tf ver from pl now to) = s"
  "pa_timeframe (new_row i s tf ver from pl now to) = tf" "pa_version (new_row i s tf ver from pl now to) = ver"
  "pa_from (new_row i s tf ver from pl now to) = from" "pa_to (new_row i s tf ver from pl now to) = to"
  "pa_payload (new_row i s tf ver from pl now to) = pl"
  by (simp_all add: new_row_def)

lemma for_key_new: "for_key s tf [new_row i s tf ver from pl now to] = [new_row i s tf ver from pl now to]"
  by (simp add: for_key_def)

lemmas store_simps = store_payload_def Let_def for_key_close for_key_new

lemma store_revision:
  assumes "opened (for_key s tf t) xs op ys" "last_opt (filter (\<lambda>r. pa_from r = from) (for_key s tf t)) = Some sb"
    "\<not> (pa_version sb = ver \<and> pa_payload sb = pl)"
  shows "key_inv (for_key s tf (store_payload s tf ver from pl now t))"
proof -
  note f = opened_facts [OF assms(1)]
  from last_opt_Some [OF assms(2)] have sb: "sb \<in> set (for_key s tf t)" "pa_from sb = from" by auto
  show ?thesis
  proof (cases "pa_to sb")
    case None
    from f(5) [OF sb(1) None] assms sb(2) None show ?thesis
      using f(7) [of "from" "new_row (next_id t) s tf ver from pl now (None)"] by (auto simp: store_simps f(3))
  next
    case (Some e)
    have "pa_from sb \<noteq> pa_from op"
    proof
      assume "pa_from sb = pa_from op"
      with f(4) assms(2) sb(2) have "sb = op" by simp
      with Some assms(1) show False by (simp add: opened_def)
    qed
    with f(2) [OF sb(1)] f(6) [OF sb(1)] sb(2) Some assms(2,3) show ?thesis
      using f(8) [of "new_row (next_id t) s tf ver from pl now (Some e)" e] by (auto simp: store_simps interval_ok_def)
  qed
qed

lemma store_new_bar:
  assumes "opened (for_key s tf t) xs op ys" "last_opt (filter (\<lambda>r. pa_from r = from) (for_key s tf t)) = None"
  shows "key_inv (for_key s tf (store_payload s tf ver from pl now t))"
proof (cases "from > pa_from op")
  case True
  note f = opened_facts [OF assms(1)]
  from True assms(2) f(1) show ?thesis
    using f(7) [of "from - 1" "new_row (next_id t) s tf ver from pl now (None)"] by (simp add: store_simps f(3))
next
  case False
  note f = opened_facts [OF assms(1)]
  have "from \<noteq> pa_from op" using f(4) assms(2) by auto
  with False have low: "from < pa_from op" by simp
  let ?later = "filter (\<lambda>f. f > from) (map pa_from (for_key s tf t))"
  have "pa_from op \<in> set ?later" using low assms(1) by (simp add: opened_def)
  then have ne: "?later \<noteq> []" by (metis empty_iff empty_set)
  then have "hd ?later \<in> set ?later" by (rule hd_in_set)
  then have "from + 1 \<le> fold min ?later (hd ?later)" by (intro fold_min_ge) auto
  with low False assms(2) f(1) ne show ?thesis
    using f(8) [of "new_row (next_id t) s tf ver from pl now (Some (fold min ?later (hd ?later) - 1))"]
    by (simp add: store_simps)
qed

lemma key_inv_cases:
  assumes "key_inv rows" "distinct (map pa_id rows)"
  obtains "rows = []" | xs op ys where "opened rows xs op ys"
  using assms unfolding key_inv_def one_open_def opened_def by blast

lemma store_same_key:
  assumes "distinct (map pa_id t)" "key_inv (for_key s tf t)"
  shows "key_inv (for_key s tf (store_payload s tf ver from pl now t))"
proof (rule key_inv_cases [OF assms(2) for_key_ids [OF assms(1)]])
  assume "for_key s tf t = []"
  then show ?thesis
    by (auto simp: store_simps last_opt_def key_inv_def one_open_def interval_ok_def intro!: exI [of _ "[]"])
next
  fix xs op ys
  assume o: "opened (for_key s tf t) xs op ys"
  show ?thesis
  proof (cases "last_opt (filter (\<lambda>r. pa_from r = from) (for_key s tf t))")
    case (Some sb)
    with store_revision [OF o Some] assms(2) show ?thesis
      by (cases "pa_version sb = ver \<and> pa_payload sb = pl") (auto simp: store_simps)
  qed (rule store_new_bar [OF o])
qed

text \<open>What a call does to the table: nothing, a new row, or a new row after closing the open row.\<close>

lemma newest_mem: "newest xs = Some op \<Longrightarrow> op \<in> set xs"
  by (induction xs arbitrary: op) (auto split: option.splits if_splits)

lemma store_effect:
  obtains "store_payload s tf ver from pl now t = t"
  | to where "store_payload s tf ver from pl now t = t @ [new_row (next_id t) s tf ver from pl now to]"
  | op e to where "op \<in> set (for_key s tf t)" "pa_to op = None"
      "store_payload s tf ver from pl now t = close_row (pa_id op) e t @ [new_row (next_id t) s tf ver from pl now to]"
proof (cases "last_opt (filter (\<lambda>r. pa_from r = from) (for_key s tf t))")
  case (Some sb)
  show ?thesis
  proof (cases "pa_version sb = ver \<and> pa_payload sb = pl")
    case False
    show ?thesis
    proof (cases "pa_to sb")
      case None
      show ?thesis
        by (rule that(3)) (use last_opt_Some [OF Some] None False Some in \<open>auto simp: store_payload_def Let_def\<close>)
    qed (rule that(2), use False Some in \<open>auto simp: store_payload_def Let_def\<close>)
  qed (rule that(1), use Some in \<open>simp add: store_payload_def Let_def\<close>)
next
  case None
  show ?thesis
  proof (cases "newest (filter (\<lambda>r. pa_to r = None) (for_key s tf t))")
    case (Some op)
    show ?thesis
    proof (cases "from > pa_from op")
      case True
      show ?thesis
        by (rule that(3)) (use newest_mem [OF Some] True None Some in \<open>auto simp: store_payload_def Let_def\<close>)
    qed (rule that(2), use None Some in \<open>simp add: store_payload_def Let_def\<close>)
  qed (rule that(2), use None in \<open>simp add: store_payload_def Let_def\<close>)
qed

lemma for_key_other: "s' \<noteq> s \<or> tf' \<noteq> tf \<Longrightarrow> for_key s' tf' [new_row i s tf ver from pl now to] = []"
  by (auto simp: for_key_def)

lemma close_row_other_key:
  assumes "distinct (map pa_id t)" "op \<in> set (for_key s tf t)" "s' \<noteq> s \<or> tf' \<noteq> tf"
  shows "for_key s' tf' (close_row (pa_id op) e t) = for_key s' tf' t"
proof -
  have "pa_id op \<notin> pa_id ` set (for_key s' tf' t)"
  proof
    assume "pa_id op \<in> pa_id ` set (for_key s' tf' t)"
    then obtain r where r: "r \<in> set t" "pa_symbol r = s'" "pa_timeframe r = tf'" "pa_id r = pa_id op" by (auto simp: for_key_def)
    from assms(2) have o: "op \<in> set t" "pa_symbol op = s" "pa_timeframe op = tf" by (auto simp: for_key_def)
    from inj_onD [OF distinct_map [THEN iffD1, THEN conjunct2] r(4) r(1) o(1)] assms(1) have "r = op" by simp
    with r o assms(3) show False by auto
  qed
  then show ?thesis by (simp add: for_key_close close_row_other)
qed

lemma store_ids: "distinct (map pa_id t) \<Longrightarrow> distinct (map pa_id (store_payload s tf ver from pl now t))"
  by (rule store_effect [of s tf ver "from" pl now t]) (auto dest: next_id_fresh)

lemma store_keeps_inv:
  assumes "store_inv t"
  shows "store_inv (store_payload s tf ver from pl now t)"
proof -
  from assms have d: "distinct (map pa_id t)" and k: "\<And>s tf. key_inv (for_key s tf t)" by (auto simp: store_inv_def)
  have "key_inv (for_key s' tf' (store_payload s tf ver from pl now t))" for s' tf'
  proof (cases "s' = s \<and> tf' = tf")
    case True
    then show ?thesis using store_same_key [OF d k] by simp
  next
    case False
    then have f: "s' \<noteq> s \<or> tf' \<noteq> tf" by auto
    have "for_key s' tf' (store_payload s tf ver from pl now t) = for_key s' tf' t"
      by (rule store_effect [of s tf ver "from" pl now t])
        (use close_row_other_key [OF d _ f] in \<open>auto simp: for_key_other [OF f]\<close>)
    with k show ?thesis by simp
  qed
  with store_ids [OF d] show ?thesis by (simp add: store_inv_def)
qed

lemma store_idempotent:
  "store_payload s tf ver from pl now' (store_payload s tf ver from pl now t) = store_payload s tf ver from pl now t"
proof -
  have hit: "store_payload s tf ver from pl now' (u @ [new_row i s tf ver from pl n to]) = u @ [new_row i s tf ver from pl n to]" for u i n to
    by (simp add: store_payload_def Let_def for_key_new last_opt_def)
  have no: "store_payload s tf ver from pl now' t = t" if "store_payload s tf ver from pl now t = t"
  proof (cases "last_opt (filter (\<lambda>r. pa_from r = from) (for_key s tf t))")
    case (Some sb)
    with that show ?thesis
      by (auto simp: store_payload_def Let_def close_row_def split: if_splits dest!: arg_cong [of _ _ length])
  next
    case None
    with that show ?thesis
      by (auto simp: store_payload_def Let_def close_row_def split: if_splits option.splits dest!: arg_cong [of _ _ length])
  qed
  show ?thesis
    by (rule store_effect [of s tf ver "from" pl now t]) (use hit no in auto)
qed

text \<open>A row stays as it is or, when open, gets its end.\<close>

definition row_kept :: "pa_row \<Rightarrow> pa_row \<Rightarrow> bool" where
  "row_kept r r' = (r' = r \<or> pa_to r = None \<and> (\<exists>e. r' = r\<lparr>pa_to := Some e\<rparr>))"

definition history_kept_pa :: "pa_row list \<Rightarrow> pa_row list \<Rightarrow> bool" where
  "history_kept_pa t t' = (\<exists>upd new. t' = upd @ new \<and> length new \<le> 1 \<and> list_all2 row_kept t upd)"

lemma history_kept_paI: "list_all2 row_kept t upd \<Longrightarrow> length new \<le> 1 \<Longrightarrow> history_kept_pa t (upd @ new)"
  by (auto simp: history_kept_pa_def)

lemma row_kept_refl: "list_all2 row_kept t t"
  by (rule list_all2_refl) (simp add: row_kept_def)

lemma close_row_kept:
  assumes "distinct (map pa_id t)" "op \<in> set t" "pa_to op = None"
  shows "list_all2 row_kept t (close_row (pa_id op) e t)"
proof -
  have u: "r = op" if "r \<in> set t" "pa_id r = pa_id op" for r
    using assms(1,2) that by (meson distinct_map inj_onD)
  have "row_kept r (if pa_id r = pa_id op then r\<lparr>pa_to := Some e\<rparr> else r)" if "r \<in> set t" for r
    using u [OF that] assms(3) by (auto simp: row_kept_def)
  then show ?thesis by (simp add: close_row_def list_all2_conv_all_nth)
qed

lemma store_kept:
  assumes "store_inv t"
  shows "history_kept_pa t (store_payload s tf ver from pl now t)"
proof (rule store_effect [of s tf ver "from" pl now t])
  fix op e to
  assume "op \<in> set (for_key s tf t)" "pa_to op = None"
    "store_payload s tf ver from pl now t = close_row (pa_id op) e t @ [new_row (next_id t) s tf ver from pl now to]"
  then show ?thesis
    using close_row_kept [of t op e] assms by (simp add: store_inv_def for_key_def history_kept_paI)
qed (use history_kept_paI [OF row_kept_refl, of "[]" t] in \<open>auto intro: history_kept_paI row_kept_refl\<close>)

lemma read_current_opened: "opened (for_key s tf t) xs op ys \<Longrightarrow> read_current s tf t = Some op"
  by (simp add: read_current_def opened_facts(1))

text \<open>A record at least as recent as the others is what is read afterwards.\<close>

definition reads_back :: "string \<Rightarrow> string \<Rightarrow> string \<Rightarrow> int \<Rightarrow> string \<Rightarrow> pa_row list \<Rightarrow> pa_row list \<Rightarrow> bool" where
  "reads_back s tf ver from pl t t' =
     ((\<forall>r\<in>set (for_key s tf t). pa_from r \<le> from) \<longrightarrow>
        (\<exists>r. read_current s tf t' = Some r \<and> pa_from r = from \<and> pa_version r = ver \<and> pa_payload r = pl))"

lemma newest_snoc: "(\<And>r. r \<in> set xs \<Longrightarrow> pa_from r \<le> pa_from n) \<Longrightarrow> newest (xs @ [n]) = Some n"
  by (induction xs) auto

lemma store_reads_back:
  assumes "store_inv t"
  shows "reads_back s tf ver from pl t (store_payload s tf ver from pl now t)"
  unfolding reads_back_def
proof
  assume new: "\<forall>r\<in>set (for_key s tf t). pa_from r \<le> from"
  from assms have d: "distinct (map pa_id t)" and k: "key_inv (for_key s tf t)" by (auto simp: store_inv_def)
  let ?t = "store_payload s tf ver from pl now t"
  have fin: "\<exists>r. read_current s tf ?t = Some r \<and> pa_from r = from \<and> pa_version r = ver \<and> pa_payload r = pl"
    if "for_key s tf ?t = rows @ [new_row (next_id t) s tf ver from pl now None]" "\<And>r. r \<in> set rows \<Longrightarrow> pa_from r \<le> from" for rows
    using that newest_snoc [of "filter (\<lambda>r. pa_to r = None) rows" "new_row (next_id t) s tf ver from pl now None"]
    by (simp add: read_current_def)
  show "\<exists>r. read_current s tf ?t = Some r \<and> pa_from r = from \<and> pa_version r = ver \<and> pa_payload r = pl"
  proof (rule key_inv_cases [OF k for_key_ids [OF d]])
    assume "for_key s tf t = []"
    then show ?thesis using fin [of "[]"] by (simp add: store_simps last_opt_def)
  next
    fix xs op ys
    assume o: "opened (for_key s tf t) xs op ys"
    note f = opened_facts [OF o]
    have op: "op \<in> set (for_key s tf t)" "pa_to op = None" using o by (auto simp: opened_def)
    have closed: "pa_from r \<le> from" if "r \<in> set (close_row (pa_id op) e (for_key s tf t))" for r e
      using that new by (auto simp: close_row_def)
    show ?thesis
    proof (cases "from = pa_from op")
      case True
      show ?thesis
      proof (cases "pa_version op = ver \<and> pa_payload op = pl")
        case True
        with \<open>from = pa_from op\<close> f(4) read_current_opened [OF o] show ?thesis by (simp add: store_payload_def Let_def)
      next
        case False
        with \<open>from = pa_from op\<close> f(4) op(2) show ?thesis
          using fin [of "close_row (pa_id op) from (for_key s tf t)"] closed by (auto simp: store_simps)
      qed
    next
      case False
      with new op(1) have gt: "from > pa_from op" by fastforce
      have "last_opt (filter (\<lambda>r. pa_from r = from) (for_key s tf t)) = None"
        using f(2) gt by (force simp: last_opt_def filter_empty_conv)
      with gt f(1) show ?thesis
        using fin [of "close_row (pa_id op) (from - 1) (for_key s tf t)"] closed by (simp add: store_simps)
    qed
  qed
qed

definition store_all :: "(string \<times> string \<times> string \<times> int \<times> string \<times> int) list \<Rightarrow> pa_row list" where
  "store_all calls = fold (\<lambda>(s, tf, v, f, p, n). store_payload s tf v f p n) calls []"

lemma store_all_inv: "store_inv (store_all calls)"
proof -
  have "store_inv t \<Longrightarrow> store_inv (fold (\<lambda>(s, tf, v, f, p, n). store_payload s tf v f p n) calls t)" for t
    by (induction calls arbitrary: t) (auto intro: store_keeps_inv)
  then show ?thesis by (simp add: store_all_def store_inv_def for_key_def key_inv_def one_open_def)
qed

text \<open>The analysis records form an immutable history. After any sequence of stores, each symbol and
  timeframe has exactly one open record (or none at all), it is the latest one of the greatest
  effective time, and no closed record has an inverted interval. A further store keeps every row,
  except that the open one may get its end, and adds at most one; repeating it changes nothing;
  and a record that is not older than the others is what is read afterwards.\<close>

theorem pa_records_immutable:
  "(let t = store_all calls; t' = store_payload s tf ver from pl now t in
     store_inv t' \<and> history_kept_pa t t' \<and> store_payload s tf ver from pl now' t' = t' \<and> reads_back s tf ver from pl t t')"
  by (simp add: Let_def store_keeps_inv store_kept store_idempotent store_reads_back store_all_inv)

text \<open>A record stored for an earlier time leaves the older record's interval as it is, so the two
  overlap.\<close>

theorem backfill_overlaps:
  "map (\<lambda>r. (pa_from r, pa_to r)) (read_history ''S'' ''1h'' (store_all
      [(''S'', ''1h'', ''v'', 100, ''a'', 1), (''S'', ''1h'', ''v'', 300, ''b'', 2), (''S'', ''1h'', ''v'', 150, ''c'', 3)]))
   = [(100, Some 299), (150, Some 299), (300, None)]"
  by code_simp

end
