(* ===== verification/Screener.thy ===== *)
theory Screener
  imports Analysis Risk "HOL-Library.List_Lexorder" "HOL-Library.Char_ord"
begin

text \<open>
  The screener of \<open>pa/screener.py\<close>: the validator of the filter language, its evaluation on a
  symbol's context, and the scan. A filter is the JSON value the agent sent, a dictionary
  (\<open>pyval\<close>); evaluation indexes it as the code does, so that a missing key or a value of the
  wrong type raises.
\<close>

subsection \<open>The filter language\<close>

definition FILTER_KEYS :: "(string \<times> string list) list" where
  "FILTER_KEYS =
     [(''volume_change'', [''recent_bars'', ''baseline_bars'', ''min'', ''max'']),
      (''price_change'', [''window_bars'', ''min'', ''max'']),
      (''structure_event'', [''event'', ''since_bars'']),
      (''liquidity_sweep_occurred'', [''since_bars'']),
      (''near_order_block'', [''max_distance_pct'']),
      (''funding_rate'', [''min'', ''max'']),
      (''oi_change'', [''min'', ''max'', ''window'']),
      (''above_below_vwap'', [''position''])]"

definition ANALYSIS_FILTERS :: "string list" where
  "ANALYSIS_FILTERS = [''structure_event'', ''liquidity_sweep_occurred'', ''near_order_block'', ''funding_rate'', ''oi_change'',
     ''above_below_vwap'']"

definition EVENT_TYPES :: "string list" where
  "EVENT_TYPES = [''bos_bullish'', ''bos_bearish'', ''choch_bullish'', ''choch_bearish'']"

definition int_keys :: "string \<Rightarrow> string list" where
  "int_keys ftype =
     (if ftype = ''volume_change'' then [''recent_bars'', ''baseline_bars'']
      else if ftype = ''price_change'' then [''window_bars'']
      else if ftype = ''structure_event'' \<or> ftype = ''liquidity_sweep_occurred'' then [''since_bars'']
      else if ftype = ''oi_change'' then [''window''] else [])"

definition setdefault :: "string \<Rightarrow> pyval \<Rightarrow> pydict \<Rightarrow> pydict" where
  "setdefault k v d = (if map_of d k = None then d @ [(k, v)] else d)"

definition filter_defaults :: "string \<Rightarrow> pydict \<Rightarrow> pydict" where
  "filter_defaults ftype d =
     (if ftype = ''volume_change'' then setdefault ''baseline_bars'' (PInt 24) (setdefault ''recent_bars'' (PInt 24) d)
      else if ftype = ''price_change'' then setdefault ''window_bars'' (PInt 24) d
      else if ftype = ''structure_event'' \<or> ftype = ''liquidity_sweep_occurred'' then setdefault ''since_bars'' (PInt 50) d
      else if ftype = ''oi_change'' then setdefault ''window'' (PInt 1) d
      else d)"

text \<open>A number that is not a boolean; integers are compared exactly.\<close>

definition num_of :: "pyval \<Rightarrow> pyfloat option" where
  "num_of v = (case v of PInt n \<Rightarrow> Some (Fin (of_int n)) | PFloat x \<Rightarrow> Some x | _ \<Rightarrow> None)"

definition unhashable :: "pyval \<Rightarrow> bool" where
  "unhashable v = (case v of PList _ \<Rightarrow> True | PDict _ \<Rightarrow> True | _ \<Rightarrow> False)"

abbreviation bad :: "pyexc" where "bad \<equiv> rasat INVALID_REQUEST"

definition check_int :: "pydict \<Rightarrow> string \<Rightarrow> unit res" where
  "check_int d k = raise_if (case map_of d k of None \<Rightarrow> False | Some (PInt n) \<Rightarrow> n < 1 | Some _ \<Rightarrow> True) bad"

definition check_num :: "pydict \<Rightarrow> string \<Rightarrow> unit res" where
  "check_num d k = raise_if (case map_of d k of None \<Rightarrow> False | Some v \<Rightarrow> num_of v = None) bad"

definition check_order :: "pydict \<Rightarrow> unit res" where
  "check_order d =
     raise_if (case (map_of d ''min'', map_of d ''max'') of
                 (Some a, Some b) \<Rightarrow> (case (num_of a, num_of b) of (Some x, Some y) \<Rightarrow> flt y x | _ \<Rightarrow> False)
               | _ \<Rightarrow> False) bad"

definition check_event :: "pyval \<Rightarrow> unit res" where
  "check_event v =
     (if unhashable v then Inl TypeError else raise_if (\<not> (\<exists>s\<in>set EVENT_TYPES. v = PStr s)) bad)"

definition check_distance :: "pyval \<Rightarrow> unit res" where
  "check_distance v = raise_if (case num_of v of None \<Rightarrow> True | Some x \<Rightarrow> flt x (Fin 0)) bad"

definition validate_leaf :: "pyval \<Rightarrow> pydict \<Rightarrow> pyval res" where
  "validate_leaf ty d =
     (if unhashable ty then Inl TypeError
      else
        (case ty of
           PStr ft \<Rightarrow>
             (case map_of FILTER_KEYS ft of
                None \<Rightarrow> Inl bad
              | Some allowed \<Rightarrow>
                  rbind (riter (\<lambda>kv. raise_if (fst kv \<noteq> ''type'' \<and> fst kv \<notin> set allowed) bad) d) (\<lambda>_.
                  rbind (riter (check_int d) (int_keys ft)) (\<lambda>_.
                  rbind (riter (check_num d) [''min'', ''max'']) (\<lambda>_.
                  rbind (check_order d) (\<lambda>_.
                  rbind (if ft = ''structure_event'' then check_event (dict_get d ''event'') else Inr ()) (\<lambda>_.
                  rbind (if ft = ''above_below_vwap''
                         then raise_if (dict_get d ''position'' \<noteq> PStr ''above'' \<and> dict_get d ''position'' \<noteq> PStr ''below'') bad
                         else Inr ()) (\<lambda>_.
                  rbind (if ft = ''near_order_block'' then check_distance (dict_get d ''max_distance_pct'') else Inr ()) (\<lambda>_.
                    Inr (PDict (filter_defaults ft d))))))))))
         | _ \<Rightarrow> Inl bad))"

function validate_node :: "pyval \<Rightarrow> pyval res" where
  "validate_node node =
     (case node of
        PDict d \<Rightarrow>
          (case map_of d ''type'' of
             None \<Rightarrow> Inl bad
           | Some ty \<Rightarrow>
               if ty = PStr ''and'' \<or> ty = PStr ''or'' then
                 rbind (riter (\<lambda>kv. raise_if (fst kv \<noteq> ''type'' \<and> fst kv \<noteq> ''filters'') bad) d) (\<lambda>_.
                   (case map_of d ''filters'' of
                      Some (PList subs) \<Rightarrow>
                        if subs = [] then Inl bad
                        else rbind (rmap validate_node subs) (\<lambda>vs. Inr (PDict [(''type'', ty), (''filters'', PList vs)]))
                    | _ \<Rightarrow> Inl bad))
               else validate_leaf ty d)
      | _ \<Rightarrow> Inl bad)"
  by pat_completeness auto
termination
  by (relation "measure size") (auto dest!: size_map_of size_in_list)

definition validate_filters :: "pyval \<Rightarrow> string \<Rightarrow> pyval res" where
  "validate_filters filters combine =
     (let c = py_upper (if combine = [] then ''AND'' else combine) in
      if c \<noteq> ''AND'' \<and> c \<noteq> ''OR'' then Inl bad
      else
        (let items = (case filters of PList xs \<Rightarrow> xs | _ \<Rightarrow> if truthy filters then [filters] else []) in
         if items = [] then Inl bad
         else rbind (rmap validate_node items) (\<lambda>vs. Inr (PDict [(''type'', PStr (py_lower c)), (''filters'', PList vs)]))))"

subsection \<open>Evaluation\<close>

record ctx =
  cx_candles :: "candle list"
  cx_close :: "rat option"
  cx_as_of :: int
  cx_structure :: "market_structure option"
  cx_zones :: "zone list"
  cx_blocks :: "block list"
  cx_vwap :: "rat option"
  cx_funding :: "fitem option"
  cx_oi :: "fitem list"

definition key :: "pydict \<Rightarrow> string \<Rightarrow> pyval res" where
  "key d k = (case map_of d k of Some v \<Rightarrow> Inr v | None \<Rightarrow> Inl KeyError)"

definition int_at :: "pydict \<Rightarrow> string \<Rightarrow> int res" where
  "int_at d k = rbind (key d k) (\<lambda>v. case v of PInt n \<Rightarrow> Inr n | _ \<Rightarrow> Inl TypeError)"

text \<open>\<open>value < bound\<close> for a bound that may be absent.\<close>

definition beyond :: "(pyfloat \<Rightarrow> bool) \<Rightarrow> pyval \<Rightarrow> bool res" where
  "beyond p bound =
     (if bound = PNone then Inr False else (case num_of bound of Some x \<Rightarrow> Inr (p x) | None \<Rightarrow> Inl TypeError))"

definition between :: "rat option \<Rightarrow> pydict \<Rightarrow> bool res" where
  "between v d =
     (case v of
        None \<Rightarrow> Inr False
      | Some q \<Rightarrow>
          rbind (beyond (\<lambda>lo. flt (Fin q) lo) (dict_get d ''min'')) (\<lambda>low.
            if low then Inr False
            else rbind (beyond (\<lambda>hi. flt hi (Fin q)) (dict_get d ''max'')) (\<lambda>high. Inr (\<not> high))))"

definition pct_change :: "rat \<Rightarrow> rat \<Rightarrow> rat" where
  "pct_change new old = (new / old - 1) * 100"

definition price_change_pct :: "candle list \<Rightarrow> nat \<Rightarrow> rat option" where
  "price_change_pct candles w =
     (let closes = map c_close candles; n = length closes in
      if n < w + 1 then None
      else (let base = closes ! (n - w - 1) in if base = 0 then None else Some (pct_change (last closes) base)))"

definition volume_change_pct :: "candle list \<Rightarrow> nat \<Rightarrow> nat \<Rightarrow> rat option" where
  "volume_change_pct candles recent baseline =
     (let vols = map vol_of candles; n = length vols in
      if n < recent + baseline then None
      else
        (let recent_sum = sum_list (drop (n - recent) vols);
             base_sum = sum_list (take baseline (drop (n - recent - baseline) vols))
         in if base_sum \<le> 0 then None else Some (pct_change recent_sum base_sum)))"

definition oi_change_pct :: "fitem list \<Rightarrow> nat \<Rightarrow> rat option" where
  "oi_change_pct series w =
     (let fresh = filter (\<lambda>s. f_freshness s = ''fresh'') series; n = length fresh in
      if n < w + 1 then None
      else
        (case (f_value (last fresh), f_value (fresh ! (n - 1 - w))) of
           (Some latest, Some base) \<Rightarrow> if latest = 0 \<or> base = 0 then None else Some (pct_change latest base)
         | _ \<Rightarrow> None))"

text \<open>The open time of the first of the last \<open>since\<close> candles.\<close>

definition cutoff :: "candle list \<Rightarrow> int \<Rightarrow> int res" where
  "cutoff candles since =
     (let i = max 0 (int (length candles) - since) in
      if nat i < length candles then Inr (c_open_time (candles ! nat i)) else Inl IndexError)"

definition event_name :: "event_type \<Rightarrow> string" where
  "event_name t =
     (case t of BOS_BULLISH \<Rightarrow> ''bos_bullish'' | BOS_BEARISH \<Rightarrow> ''bos_bearish'' | CHOCH_BULLISH \<Rightarrow> ''choch_bullish''
      | CHOCH_BEARISH \<Rightarrow> ''choch_bearish'')"

definition eval_structure_event :: "pydict \<Rightarrow> ctx \<Rightarrow> bool res" where
  "eval_structure_event d c =
     (case cx_structure c of
        None \<Rightarrow> Inr False
      | Some st \<Rightarrow>
          rbind (int_at d ''since_bars'') (\<lambda>since.
          rbind (cutoff (cx_candles c) since) (\<lambda>t0.
          rbind (if st_events st = [] then Inr PNone else key d ''event'') (\<lambda>ev.
            Inr (list_ex (\<lambda>e. PStr (event_name (ev_type e)) = ev \<and> ev_time e \<ge> t0) (st_events st))))))"

definition swept_since :: "candle list \<Rightarrow> int \<Rightarrow> int \<Rightarrow> zone \<Rightarrow> bool" where
  "swept_since candles since t0 z =
     (z_mitigated z \<and>
      (case z_swept_at_time z of
         Some t \<Rightarrow> t \<ge> t0
       | None \<Rightarrow> (case z_swept_at z of Some i \<Rightarrow> int i \<ge> int (length candles) - since | None \<Rightarrow> False)))"

definition eval_liquidity_sweep :: "pydict \<Rightarrow> ctx \<Rightarrow> bool res" where
  "eval_liquidity_sweep d c =
     (if cx_zones c = [] then Inr False
      else
        rbind (int_at d ''since_bars'') (\<lambda>since.
        rbind (cutoff (cx_candles c) since) (\<lambda>t0.
          Inr (list_ex (swept_since (cx_candles c) since t0) (cx_zones c)))))"

definition block_near :: "rat \<Rightarrow> pyval \<Rightarrow> block \<Rightarrow> bool res" where
  "block_near close max_dist ob =
     (if bk_mitigated ob then Inr False
      else if close = 0 then Inl ZeroDivisionError
      else
        (let dist = min \<bar>close - bk_low ob\<bar> \<bar>close - bk_high ob\<bar> in
         case num_of max_dist of None \<Rightarrow> Inl TypeError | Some x \<Rightarrow> Inr (fle (Fin (dist / close * 100)) x)))"

definition eval_near_order_block :: "pydict \<Rightarrow> ctx \<Rightarrow> bool res" where
  "eval_near_order_block d c =
     (if cx_blocks c = [] then Inr False
      else
        rbind (key d ''max_distance_pct'') (\<lambda>max_dist.
          rany (\<lambda>ob. case cx_close c of Some close \<Rightarrow> block_near close max_dist ob
                     | None \<Rightarrow> if bk_mitigated ob then Inr False else Inl TypeError) (cx_blocks c)))"

definition eval_funding_rate :: "pydict \<Rightarrow> ctx \<Rightarrow> bool res" where
  "eval_funding_rate d c =
     (case cx_funding c of
        None \<Rightarrow> Inr False
      | Some fr \<Rightarrow> if f_freshness fr \<noteq> ''fresh'' then Inr False else between (f_value fr) d)"

definition eval_above_below_vwap :: "pydict \<Rightarrow> ctx \<Rightarrow> bool res" where
  "eval_above_below_vwap d c =
     (case cx_vwap c of
        None \<Rightarrow> Inr False
      | Some v \<Rightarrow>
          rbind (key d ''position'') (\<lambda>pos.
            case cx_close c of
              None \<Rightarrow> Inl TypeError
            | Some close \<Rightarrow> Inr (if pos = PStr ''above'' then close > v else close < v)))"

definition eval_leaf :: "string \<Rightarrow> pydict \<Rightarrow> ctx \<Rightarrow> bool res" where
  "eval_leaf ft d c =
     (if ft = ''volume_change'' then
        rbind (int_at d ''recent_bars'') (\<lambda>r. rbind (int_at d ''baseline_bars'') (\<lambda>b.
          between (volume_change_pct (cx_candles c) (nat r) (nat b)) d))
      else if ft = ''price_change'' then rbind (int_at d ''window_bars'') (\<lambda>w. between (price_change_pct (cx_candles c) (nat w)) d)
      else if ft = ''structure_event'' then eval_structure_event d c
      else if ft = ''liquidity_sweep_occurred'' then eval_liquidity_sweep d c
      else if ft = ''near_order_block'' then eval_near_order_block d c
      else if ft = ''funding_rate'' then eval_funding_rate d c
      else if ft = ''oi_change'' then rbind (int_at d ''window'') (\<lambda>w. between (oi_change_pct (cx_oi c) (nat w)) d)
      else if ft = ''above_below_vwap'' then eval_above_below_vwap d c
      else Inl KeyError)"

text \<open>\<open>node["filters"]\<close>, to be iterated.\<close>

definition subfilters :: "pydict \<Rightarrow> pyval list res" where
  "subfilters d = (case map_of d ''filters'' of None \<Rightarrow> Inl KeyError | Some (PList xs) \<Rightarrow> Inr xs | Some _ \<Rightarrow> Inl TypeError)"

lemma size_subfilters: "subfilters d = Inr xs \<Longrightarrow> x \<in> set xs \<Longrightarrow> size x < size (PDict d)"
  by (auto simp: subfilters_def dest!: size_map_of size_in_list split: option.splits pyval.splits)

function eval_node :: "ctx \<Rightarrow> pyval \<Rightarrow> bool res" where
  "eval_node c node =
     (case node of
        PDict d \<Rightarrow>
          (case map_of d ''type'' of
             None \<Rightarrow> Inl KeyError
           | Some ty \<Rightarrow>
               if ty = PStr ''and'' then (case subfilters d of Inl x \<Rightarrow> Inl x | Inr subs \<Rightarrow> rall (eval_node c) subs)
               else if ty = PStr ''or'' then (case subfilters d of Inl x \<Rightarrow> Inl x | Inr subs \<Rightarrow> rany (eval_node c) subs)
               else (case ty of PStr ft \<Rightarrow> eval_leaf ft d c | _ \<Rightarrow> Inl (if unhashable ty then TypeError else KeyError)))
      | _ \<Rightarrow> Inl TypeError)"
  by pat_completeness auto
termination
  by (relation "measure (\<lambda>(c, n). size n)") (auto dest: size_subfilters)

fun and_matches :: "('a \<Rightarrow> (bool \<times> 'b list) res) \<Rightarrow> 'a list \<Rightarrow> (bool \<times> 'b list) res" where
  "and_matches f [] = Inr (True, [])"
| "and_matches f (x # xs) =
     rbind (f x) (\<lambda>r. if \<not> fst r then Inr (False, [])
       else rbind (and_matches f xs) (\<lambda>r'. Inr (if fst r' then (True, snd r @ snd r') else (False, []))))"

fun or_matches :: "('a \<Rightarrow> (bool \<times> 'b list) res) \<Rightarrow> 'a list \<Rightarrow> 'b list res" where
  "or_matches f [] = Inr []"
| "or_matches f (x # xs) =
     rbind (f x) (\<lambda>r. rbind (or_matches f xs) (\<lambda>ms. Inr ((if fst r then snd r else []) @ ms)))"

lemma and_matches_cong [fundef_cong]: "xs = ys \<Longrightarrow> (\<And>x. x \<in> set ys \<Longrightarrow> f x = g x) \<Longrightarrow> and_matches f xs = and_matches g ys"
  by (induction ys arbitrary: xs) (auto simp: rbind_def split: sum.splits)

lemma or_matches_cong [fundef_cong]: "xs = ys \<Longrightarrow> (\<And>x. x \<in> set ys \<Longrightarrow> f x = g x) \<Longrightarrow> or_matches f xs = or_matches g ys"
  by (induction ys arbitrary: xs) (auto simp: rbind_def split: sum.splits)

function eval_with_matches :: "ctx \<Rightarrow> pyval \<Rightarrow> (bool \<times> pyval list) res" where
  "eval_with_matches c node =
     (case node of
        PDict d \<Rightarrow>
          (case map_of d ''type'' of
             None \<Rightarrow> Inl KeyError
           | Some ty \<Rightarrow>
               if ty = PStr ''and'' then (case subfilters d of Inl x \<Rightarrow> Inl x | Inr subs \<Rightarrow> and_matches (eval_with_matches c) subs)
               else if ty = PStr ''or'' then
                 (case subfilters d of
                    Inl x \<Rightarrow> Inl x
                  | Inr subs \<Rightarrow> rbind (or_matches (eval_with_matches c) subs) (\<lambda>ms. Inr (ms \<noteq> [], ms)))
               else
                 (case ty of
                    PStr ft \<Rightarrow> rbind (eval_leaf ft d c) (\<lambda>b. Inr (if b then (True, [node]) else (False, [])))
                  | _ \<Rightarrow> Inl (if unhashable ty then TypeError else KeyError)))
      | _ \<Rightarrow> Inl TypeError)"
  by pat_completeness auto
termination
  by (relation "measure (\<lambda>(c, n). size n)") (auto dest: size_subfilters)

declare validate_node.simps [simp del] eval_node.simps [simp del] eval_with_matches.simps [simp del]

subsection \<open>What the validator lets through\<close>

definition leaf_ok :: "string \<Rightarrow> pydict \<Rightarrow> bool" where
  "leaf_ok ft d =
     ((\<forall>k\<in>set (int_keys ft). \<exists>n. map_of d k = Some (PInt n) \<and> 1 \<le> n)
      \<and> (\<forall>k\<in>{''min'', ''max''}. \<forall>v. map_of d k = Some v \<longrightarrow> num_of v \<noteq> None)
      \<and> (ft = ''structure_event'' \<longrightarrow> map_of d ''event'' \<noteq> None)
      \<and> (ft = ''above_below_vwap'' \<longrightarrow> map_of d ''position'' \<noteq> None)
      \<and> (ft = ''near_order_block'' \<longrightarrow> (\<exists>v. map_of d ''max_distance_pct'' = Some v \<and> num_of v \<noteq> None)))"

inductive wf_node :: "pyval \<Rightarrow> bool" where
  Branch: "ty = ''and'' \<or> ty = ''or'' \<Longrightarrow> vs \<noteq> [] \<Longrightarrow> (\<And>v. v \<in> set vs \<Longrightarrow> wf_node v)
     \<Longrightarrow> wf_node (PDict [(''type'', PStr ty), (''filters'', PList vs)])"
| Leaf: "map_of d ''type'' = Some (PStr ft) \<Longrightarrow> map_of FILTER_KEYS ft \<noteq> None \<Longrightarrow> leaf_ok ft d \<Longrightarrow> wf_node (PDict d)"

lemma map_of_setdefault: "map_of (setdefault k v d) k' = (if k' = k \<and> map_of d k = None then Some v else map_of d k')"
  by (auto simp: setdefault_def map_add_def split: option.split)

lemma int_defaults:
  assumes "k \<in> set (int_keys ft)"
  shows "map_of (filter_defaults ft d) k = (case map_of d k of Some v \<Rightarrow> Some v
     | None \<Rightarrow> Some (PInt (if k = ''since_bars'' then 50 else if k = ''window'' then 1 else 24)))"
proof -
  from assms consider "ft = ''volume_change''" "k = ''recent_bars'' \<or> k = ''baseline_bars''"
    | "ft = ''price_change''" "k = ''window_bars''"
    | "ft = ''structure_event'' \<or> ft = ''liquidity_sweep_occurred''" "k = ''since_bars''"
    | "ft = ''oi_change''" "k = ''window''"
    by (auto simp: int_keys_def split: if_splits)
  then show ?thesis
    by cases ((elim disjE)?; simp add: filter_defaults_def map_of_setdefault split: option.split)+
qed

lemma other_defaults:
  "k \<notin> {''recent_bars'', ''baseline_bars'', ''window_bars'', ''since_bars'', ''window''} \<Longrightarrow> map_of (filter_defaults ft d) k = map_of d k"
  by (auto simp: filter_defaults_def map_of_setdefault)

lemma dict_get_Some: "dict_get d k \<noteq> PNone \<Longrightarrow> map_of d k = Some (dict_get d k)"
  by (auto simp: dict_get_def split: option.splits)

lemma validate_leaf_wf:
  assumes "validate_leaf ty d = Inr v" "map_of d ''type'' = Some ty"
  shows "wf_node v"
proof -
  from assms(1) obtain ft where ft: "ty = PStr ft" "map_of FILTER_KEYS ft \<noteq> None" and v: "v = PDict (filter_defaults ft d)"
    and ints: "\<forall>k\<in>set (int_keys ft). check_int d k = Inr ()" and nums: "check_num d ''min'' = Inr ()" "check_num d ''max'' = Inr ()"
    and ev: "ft = ''structure_event'' \<longrightarrow> check_event (dict_get d ''event'') = Inr ()"
    and pos: "ft = ''above_below_vwap'' \<longrightarrow> dict_get d ''position'' \<noteq> PNone"
    and dist: "ft = ''near_order_block'' \<longrightarrow> check_distance (dict_get d ''max_distance_pct'') = Inr ()"
    by (auto simp: validate_leaf_def rbind_Inr_iff riter_Inr_iff rbind_raise_if_Inr split: pyval.splits option.splits if_splits)
  have "leaf_ok ft (filter_defaults ft d)"
    unfolding leaf_ok_def
  proof (intro conjI ballI)
    fix k assume k: "k \<in> set (int_keys ft)"
    with ints have "check_int d k = Inr ()" by blast
    then show "\<exists>n. map_of (filter_defaults ft d) k = Some (PInt n) \<and> 1 \<le> n"
      by (auto simp: int_defaults [OF k] check_int_def split: option.splits pyval.splits)
  next
    fix k :: string assume "k \<in> {''min'', ''max''}"
    with nums show "\<forall>v. map_of (filter_defaults ft d) k = Some v \<longrightarrow> num_of v \<noteq> None"
      by (auto simp: other_defaults check_num_def split: option.splits)
  next
    show "ft = ''structure_event'' \<longrightarrow> map_of (filter_defaults ft d) ''event'' \<noteq> None"
      using ev by (auto simp: other_defaults check_event_def dict_get_def EVENT_TYPES_def split: option.splits if_splits)
    show "ft = ''above_below_vwap'' \<longrightarrow> map_of (filter_defaults ft d) ''position'' \<noteq> None"
      using pos by (auto simp: other_defaults dict_get_def split: option.splits)
    show "ft = ''near_order_block'' \<longrightarrow> (\<exists>v. map_of (filter_defaults ft d) ''max_distance_pct'' = Some v \<and> num_of v \<noteq> None)"
      using dist by (auto simp: other_defaults check_distance_def dict_get_def num_of_def split: option.splits)
  qed
  moreover have "map_of (filter_defaults ft d) ''type'' = Some (PStr ft)" using assms(2) ft(1) by (simp add: other_defaults)
  ultimately show ?thesis unfolding v using ft(2) by (intro wf_node.Leaf)
qed

lemma validate_node_wf: "validate_node node = Inr v \<Longrightarrow> wf_node v"
proof (induction node arbitrary: v rule: validate_node.induct)
  case (1 node)
  from 1(2) obtain d ty where d: "node = PDict d" "map_of d ''type'' = Some ty"
    by (auto simp: validate_node.simps [of node] split: pyval.splits option.splits)
  show ?case
  proof (cases "ty = PStr ''and'' \<or> ty = PStr ''or''")
    case True
    from 1(2) True obtain subs vs where s: "map_of d ''filters'' = Some (PList subs)" "subs \<noteq> []" "rmap validate_node subs = Inr vs"
      and v: "v = PDict [(''type'', ty), (''filters'', PList vs)]"
      by (auto simp: validate_node.simps [of "PDict d"] d rbind_Inr_iff split: option.splits pyval.splits if_splits)
    have "wf_node x" if "x \<in> set vs" for x
      using rmap_InrD [OF s(3) that] 1(1) [OF d(1,2) True s(1) refl s(2)] by blast
    moreover have "vs \<noteq> []" using s(2) rmap_length [OF s(3)] by auto
    ultimately show ?thesis using True v wf_node.Branch by blast
  next
    case False
    with 1(2) d show ?thesis by (auto simp: validate_node.simps [of "PDict d"] intro: validate_leaf_wf)
  qed
qed

subsection \<open>Evaluation of validated filters\<close>

definition ctx_ok :: "ctx \<Rightarrow> bool" where
  "ctx_ok c = (cx_candles c \<noteq> [] \<and> (\<exists>p. cx_close c = Some p \<and> p \<noteq> 0))"

lemma between_ok:
  assumes "\<forall>k\<in>{''min'', ''max''}. \<forall>v. map_of d k = Some v \<longrightarrow> num_of v \<noteq> None"
  shows "\<exists>b. between q d = Inr b"
proof -
  have "\<exists>b. beyond p (dict_get d k) = Inr b" if "k \<in> {''min'', ''max''}" for k p
    using assms that by (cases "map_of d k") (auto simp: beyond_def dict_get_def)
  then obtain f g where "\<And>p. beyond p (dict_get d ''min'') = Inr (f p)" "\<And>p. beyond p (dict_get d ''max'') = Inr (g p)" by (metis insertCI)
  then show ?thesis by (cases q) (auto simp: between_def)
qed

lemma int_at_ok: "map_of d k = Some (PInt n) \<Longrightarrow> int_at d k = Inr n"
  by (simp add: int_at_def key_def)

lemma cutoff_ok: "cs \<noteq> [] \<Longrightarrow> 1 \<le> since \<Longrightarrow> \<exists>t. cutoff cs since = Inr t"
  by (cases cs) (auto simp: cutoff_def Let_def max_def nat_less_iff)

lemma ex_bool [simp]: "\<exists>b. b" "Ex Not"
  by (rule exI [of _ True], simp) (rule exI [of _ False], simp)

lemma rany_ok: "(\<And>x. x \<in> set xs \<Longrightarrow> \<exists>b. f x = Inr b) \<Longrightarrow> \<exists>b. rany f xs = Inr b"
proof (induction xs)
  case (Cons x xs)
  from Cons.prems obtain b where "f x = Inr b" by auto
  with Cons show ?case by (cases b) auto
qed simp

lemma known_filters:
  "map_of FILTER_KEYS ft \<noteq> None \<Longrightarrow> ft \<in> {''volume_change'', ''price_change'', ''structure_event'', ''liquidity_sweep_occurred'',
     ''near_order_block'', ''funding_rate'', ''oi_change'', ''above_below_vwap''}"
  by (rule ccontr) (simp add: FILTER_KEYS_def)

lemma leaf_evaluates:
  assumes "leaf_ok ft d" "map_of FILTER_KEYS ft \<noteq> None" "ctx_ok c"
  shows "\<exists>b. eval_leaf ft d c = Inr b"
proof -
  note L = assms(1) [unfolded leaf_ok_def]
  have ints: "\<exists>n. map_of d k = Some (PInt n) \<and> 1 \<le> n" if "k \<in> set (int_keys ft)" for k
    using L [THEN conjunct1] that by (rule bspec)
  note nums = L [THEN conjunct2, THEN conjunct1]
  have ev: "\<exists>v. map_of d ''event'' = Some v" if "ft = ''structure_event''"
    using L [THEN conjunct2, THEN conjunct2, THEN conjunct1] that by simp
  have pos: "\<exists>v. map_of d ''position'' = Some v" if "ft = ''above_below_vwap''"
    using L [THEN conjunct2, THEN conjunct2, THEN conjunct2, THEN conjunct1] that by simp
  have dist: "\<exists>v x. map_of d ''max_distance_pct'' = Some v \<and> num_of v = Some x" if "ft = ''near_order_block''"
    using L [THEN conjunct2, THEN conjunct2, THEN conjunct2, THEN conjunct2] that by auto
  note btw = between_ok [OF nums]
  from assms(3) obtain p where c: "cx_candles c \<noteq> []" "cx_close c = Some p" "p \<noteq> 0" by (auto simp: ctx_ok_def)
  have vol: "\<exists>b. eval_leaf ft d c = Inr b" if "ft = ''volume_change''"
    using ints [of "''recent_bars''"] ints [of "''baseline_bars''"] btw that by (auto simp: eval_leaf_def int_keys_def int_at_ok)
  have prc: "\<exists>b. eval_leaf ft d c = Inr b" if "ft = ''price_change''"
    using ints [of "''window_bars''"] btw that by (auto simp: eval_leaf_def int_keys_def int_at_ok)
  have oi: "\<exists>b. eval_leaf ft d c = Inr b" if "ft = ''oi_change''"
    using ints [of "''window''"] btw that by (auto simp: eval_leaf_def int_keys_def int_at_ok)
  have str: "\<exists>b. eval_leaf ft d c = Inr b" if "ft = ''structure_event''"
  proof -
    from ints [of "''since_bars''"] that obtain n where n: "map_of d ''since_bars'' = Some (PInt n)" "1 \<le> n" by (auto simp: int_keys_def)
    from cutoff_ok [OF c(1) n(2)] ev [OF that] n(1) that show ?thesis
      by (auto simp: eval_leaf_def eval_structure_event_def int_at_ok key_def split: option.splits)
  qed
  have liq: "\<exists>b. eval_leaf ft d c = Inr b" if "ft = ''liquidity_sweep_occurred''"
  proof -
    from ints [of "''since_bars''"] that obtain n where n: "map_of d ''since_bars'' = Some (PInt n)" "1 \<le> n" by (auto simp: int_keys_def)
    from cutoff_ok [OF c(1) n(2)] n(1) that show ?thesis by (auto simp: eval_leaf_def eval_liquidity_sweep_def int_at_ok)
  qed
  have near: "\<exists>b. eval_leaf ft d c = Inr b" if "ft = ''near_order_block''"
  proof -
    from dist [OF that] obtain v x where v: "map_of d ''max_distance_pct'' = Some v" "num_of v = Some x" by blast
    have "\<exists>b. rany (block_near p v) (cx_blocks c) = Inr b"
      by (rule rany_ok) (simp add: block_near_def c(3) v(2))
    with v(1) that show ?thesis by (simp add: eval_leaf_def eval_near_order_block_def key_def c(2))
  qed
  have rest: "\<exists>b. eval_leaf ft d c = Inr b" if "ft = ''funding_rate'' \<or> ft = ''above_below_vwap''"
    using that btw pos c(2)
    by (elim disjE) (auto simp: eval_leaf_def eval_funding_rate_def eval_above_below_vwap_def key_def split: option.splits)
  show ?thesis
    using known_filters [OF assms(2)]
    by (elim insertE emptyE) (erule vol prc str liq near oi | rule rest, simp)+
qed

text \<open>A leaf that matches.\<close>

definition matching_leaf :: "ctx \<Rightarrow> pyval \<Rightarrow> bool" where
  "matching_leaf c node =
     (\<exists>d ft. node = PDict d \<and> map_of d ''type'' = Some (PStr ft) \<and> map_of FILTER_KEYS ft \<noteq> None \<and> eval_leaf ft d c = Inr True)"

definition evaluates :: "ctx \<Rightarrow> pyval \<Rightarrow> bool" where
  "evaluates c node =
     (\<exists>b ms. eval_node c node = Inr b \<and> eval_with_matches c node = Inr (b, ms) \<and> b = (ms \<noteq> []) \<and> (\<forall>m\<in>set ms. matching_leaf c m))"

lemma and_evaluates:
  "(\<And>v. v \<in> set vs \<Longrightarrow> evaluates c v) \<Longrightarrow>
   \<exists>b ms. rall (eval_node c) vs = Inr b \<and> and_matches (eval_with_matches c) vs = Inr (b, ms)
     \<and> (vs \<noteq> [] \<longrightarrow> b = (ms \<noteq> [])) \<and> (\<forall>m\<in>set ms. matching_leaf c m)"
proof (induction vs)
  case (Cons v vs)
  from Cons.prems have "evaluates c v" by simp
  then obtain ms where v: "eval_node c v = Inr (ms \<noteq> [])" "eval_with_matches c v = Inr (ms \<noteq> [], ms)"
      "\<forall>m\<in>set ms. matching_leaf c m" unfolding evaluates_def by blast
  from Cons obtain b' ms' where vs: "rall (eval_node c) vs = Inr b'" "and_matches (eval_with_matches c) vs = Inr (b', ms')"
      "\<forall>m\<in>set ms'. matching_leaf c m" by auto
  from v vs show ?case
    by (intro exI [of _ "ms \<noteq> [] \<and> b'"] exI [of _ "if ms \<noteq> [] \<and> b' then ms @ ms' else []"]) auto
qed simp

lemma or_evaluates:
  "(\<And>v. v \<in> set vs \<Longrightarrow> evaluates c v) \<Longrightarrow>
   \<exists>ms. rany (eval_node c) vs = Inr (ms \<noteq> []) \<and> or_matches (eval_with_matches c) vs = Inr ms \<and> (\<forall>m\<in>set ms. matching_leaf c m)"
proof (induction vs)
  case (Cons v vs)
  from Cons.prems have "evaluates c v" by simp
  then obtain ms where v: "eval_node c v = Inr (ms \<noteq> [])" "eval_with_matches c v = Inr (ms \<noteq> [], ms)"
      "\<forall>m\<in>set ms. matching_leaf c m" unfolding evaluates_def by blast
  from Cons obtain ms' where vs: "rany (eval_node c) vs = Inr (ms' \<noteq> [])" "or_matches (eval_with_matches c) vs = Inr ms'"
      "\<forall>m\<in>set ms'. matching_leaf c m" by auto
  from v vs show ?case by auto
qed simp

lemma branch_simps:
  "eval_node c (PDict [(''type'', PStr ''and''), (''filters'', PList vs)]) = rall (eval_node c) vs"
  "eval_node c (PDict [(''type'', PStr ''or''), (''filters'', PList vs)]) = rany (eval_node c) vs"
  "eval_with_matches c (PDict [(''type'', PStr ''and''), (''filters'', PList vs)]) = and_matches (eval_with_matches c) vs"
  "eval_with_matches c (PDict [(''type'', PStr ''or''), (''filters'', PList vs)]) =
     rbind (or_matches (eval_with_matches c) vs) (\<lambda>ms. Inr (ms \<noteq> [], ms))"
  by (simp_all add: eval_node.simps [of c "PDict _"] eval_with_matches.simps [of c "PDict _"] subfilters_def)

lemma wf_evaluates: "wf_node v \<Longrightarrow> ctx_ok c \<Longrightarrow> evaluates c v"
proof (induction rule: wf_node.induct)
  case (Branch ty vs)
  then have vs: "\<And>v. v \<in> set vs \<Longrightarrow> evaluates c v" by blast
  from and_evaluates [of vs c, OF vs] or_evaluates [of vs c, OF vs] Branch(1,2) show ?case
    by (elim disjE) (auto simp: evaluates_def branch_simps)
next
  case (Leaf d ft)
  from leaf_evaluates [OF Leaf(3,2,4)] obtain b where b: "eval_leaf ft d c = Inr b" by blast
  have "ft \<noteq> ''and''" "ft \<noteq> ''or''" using known_filters [OF Leaf(2)] by auto
  with b Leaf(1,2) show ?case
    by (cases b) (auto simp: evaluates_def eval_node.simps [of c "PDict d"] eval_with_matches.simps [of c "PDict d"] matching_leaf_def)
qed

lemma validate_filters_wf: "validate_filters f comb = Inr rt \<Longrightarrow> wf_node rt"
proof -
  assume v: "validate_filters f comb = Inr rt"
  have lower: "py_lower ''AND'' = ''and''" "py_lower ''OR'' = ''or''" by code_simp+
  from v obtain items vs where i: "items \<noteq> []" "rmap validate_node items = Inr vs"
    and r: "rt = PDict [(''type'', PStr ''and''), (''filters'', PList vs)] \<or> rt = PDict [(''type'', PStr ''or''), (''filters'', PList vs)]"
    by (auto simp: validate_filters_def Let_def rbind_Inr_iff lower split: if_splits)
  have "vs \<noteq> []" using i rmap_length [OF i(2)] by auto
  with r rmap_InrD [OF i(2)] validate_node_wf show ?thesis by (auto intro!: wf_node.Branch)
qed

text \<open>C17: A validated filter evaluates safely. Whatever JSON the agent sends, a filter tree that the
  validator accepts evaluates without an exception on every context with a closed candle and a
  price; the evaluation that also collects the matching leaves gives the same verdict, collects
  at least one leaf exactly when the verdict is positive, and every leaf it collects matches.\<close>

theorem validated_filters_evaluate:
  assumes "validate_filters f comb = Inr rt" "ctx_ok c"
  shows "\<exists>b ms. eval_node c rt = Inr b \<and> eval_with_matches c rt = Inr (b, ms) \<and> b = (ms \<noteq> []) \<and> (\<forall>m\<in>set ms. matching_leaf c m)"
  using wf_evaluates [OF validate_filters_wf [OF assms(1)] assms(2)] by (simp add: evaluates_def)

definition demo_ctx :: ctx where
  "demo_ctx = \<lparr>cx_candles = demo_candles, cx_close = Some 6, cx_as_of = 4, cx_structure = None, cx_zones = [], cx_blocks = [],
     cx_vwap = Some 5, cx_funding = None, cx_oi = []\<rparr>"

definition demo_filter :: pyval where
  "demo_filter = PList [PDict [(''type'', PStr ''above_below_vwap''), (''position'', PStr ''above'')],
     PDict [(''type'', PStr ''price_change''), (''window_bars'', PInt 2), (''min'', PInt 10)]]"

theorem validated_filters_evaluate_witness:
  "\<exists>rt b ms. validate_filters demo_filter ''and'' = Inr rt \<and> ctx_ok demo_ctx
     \<and> eval_with_matches demo_ctx rt = Inr (b, ms) \<and> b = (ms \<noteq> []) \<and> ms \<noteq> []"
proof -
  let ?rt = "PDict [(''type'', PStr ''and''), (''filters'', case demo_filter of PList xs \<Rightarrow> PList xs | _ \<Rightarrow> PNone)]"
  have v: "validate_filters demo_filter ''and'' = Inr ?rt" by code_simp
  have c: "ctx_ok demo_ctx" by (simp add: ctx_ok_def demo_ctx_def demo_candles_def)
  have m: "(case eval_with_matches demo_ctx ?rt of Inr (b, ms) \<Rightarrow> length ms | _ \<Rightarrow> 0) = 2" by code_simp
  from validated_filters_evaluate [OF v c] obtain b ms where e: "eval_with_matches demo_ctx ?rt = Inr (b, ms)" "b = (ms \<noteq> [])" by blast
  with m have "ms \<noteq> []" by auto
  with v c e show ?thesis by blast
qed

text \<open>A \<open>type\<close> that is a list or an object is not refused but raises \<open>TypeError\<close>.\<close>

theorem unhashable_type_raises:
  "validate_filters (PDict [(''type'', PList [])]) ''AND'' = Inl TypeError"
  by code_simp

subsection \<open>The scan\<close>

record pa_records =
  rc_as_of :: int
  rc_structure :: market_structure
  rc_zones :: "zone list"
  rc_blocks :: "block list"

text \<open>A symbol of the universe as the scan finds it: whether the universe can tell that it is tradable,
  its stored candles, whether all three records are stored, what they hold once an analysis has
  stored them, and the futures data.\<close>

record candidate =
  cd_symbol :: string
  cd_valid :: "bool option"
  cd_candles :: "candle list"
  cd_stored :: bool
  cd_records :: "pa_records option"
  cd_futures :: futures
  cd_funding :: "fitem option"
  cd_oi :: "fitem list"

record budget =
  bu_used :: nat
  bu_deferred :: nat

definition base_ctx :: "candle list \<Rightarrow> ctx" where
  "base_ctx candles = \<lparr>cx_candles = candles, cx_close = Some (c_close (last candles)), cx_as_of = c_open_time (last candles),
     cx_structure = None, cx_zones = [], cx_blocks = [], cx_vwap = vw_current (compute_vwap candles), cx_funding = None, cx_oi = []\<rparr>"

definition records_ctx :: "candidate \<Rightarrow> candle list \<Rightarrow> bool \<Rightarrow> pa_records \<Rightarrow> ctx" where
  "records_ctx cd candles with_oi r =
     (base_ctx candles)\<lparr>cx_as_of := rc_as_of r, cx_structure := Some (rc_structure r), cx_zones := rc_zones r,
        cx_blocks := rc_blocks r, cx_funding := cd_funding cd, cx_oi := (if with_oi then cd_oi cd else [])\<rparr>"

text \<open>The records of a candidate; when one is missing, the analysis is run first, and its errors are
  the caller's.\<close>

definition computed_records :: "string \<Rightarrow> rat \<Rightarrow> candidate \<Rightarrow> pa_records option res" where
  "computed_records timeframe now cd =
     (if cd_stored cd then Inr (cd_records cd)
      else rbind (analyze timeframe (cd_candles cd) (cd_futures cd) now) (\<lambda>_. Inr (cd_records cd)))"

definition build_context :: "nat \<Rightarrow> bool \<Rightarrow> string list \<Rightarrow> string \<Rightarrow> rat \<Rightarrow> candidate \<Rightarrow> budget \<Rightarrow> (ctx option \<times> budget) res" where
  "build_context compute_budget needs_analysis filter_types timeframe now cd b =
     (if cd_candles cd = [] then Inr (None, b)
      else
        rbind (filter_closed_candles (cd_candles cd) timeframe now) (\<lambda>candles.
          if candles = [] then Inr (None, b)
          else if \<not> needs_analysis then Inr (Some (base_ctx candles), b)
          else if \<not> cd_stored cd \<and> bu_used b \<ge> compute_budget then Inr (None, b\<lparr>bu_deferred := bu_deferred b + 1\<rparr>)
          else
            rbind (computed_records timeframe now cd) (\<lambda>r.
              Inr (map_option (records_ctx cd candles (''oi_change'' \<in> set filter_types)) r,
                   if cd_stored cd then b else b\<lparr>bu_used := bu_used b + 1\<rparr>))))"

function leaf_types :: "pyval \<Rightarrow> pyval list" where
  "leaf_types node =
     (case node of
        PDict d \<Rightarrow>
          (case map_of d ''type'' of
             Some ty \<Rightarrow>
               if ty = PStr ''and'' \<or> ty = PStr ''or''
               then (case subfilters d of Inr subs \<Rightarrow> concat (map leaf_types subs) | Inl _ \<Rightarrow> []) else [ty]
           | None \<Rightarrow> [])
      | _ \<Rightarrow> [])"
  by pat_completeness auto
termination
  by (relation "measure size") (auto dest: size_subfilters)

definition filter_type_names :: "pyval \<Rightarrow> string list" where
  "filter_type_names rt = List.map_filter (\<lambda>ty. case ty of PStr s \<Rightarrow> Some s | _ \<Rightarrow> None) (leaf_types rt)"

definition sort_value :: "string \<Rightarrow> candle list \<Rightarrow> rat res" where
  "sort_value sort_by candles =
     (if sort_by = ''price_change'' then
        (let closes = map c_close candles; n = length closes in
         if n \<ge> 25 then (if closes ! (n - 25) = 0 then Inl ZeroDivisionError else Inr (pct_change (last closes) (closes ! (n - 25))))
         else Inr 0)
      else if sort_by = ''volume_change'' then
        (let vols = map vol_of candles; n = length vols in
         if n \<ge> 48 then
           (let base = sum_list (take 24 (drop (n - 48) vols)) in
            if base = 0 then Inl ZeroDivisionError else Inr (pct_change (sum_list (drop (n - 24) vols)) base))
         else Inr 0)
      else Inr 0)"

record entry =
  en_symbol :: string
  en_stale :: bool
  en_valid :: "bool option"
  en_price :: "rat option"
  en_as_of :: int
  en_matched :: "pyval list"
  en_sort :: rat

record scan_acc =
  sa_matched :: "entry list"
  sa_stale :: "(string \<times> int) list"
  sa_any_stale :: bool
  sa_budget :: budget

definition scan_symbol ::
  "nat \<Rightarrow> pyval \<Rightarrow> string \<Rightarrow> string \<Rightarrow> bool \<Rightarrow> rat \<Rightarrow> candidate \<Rightarrow> scan_acc \<Rightarrow> scan_acc res" where
  "scan_symbol compute_budget rt sort_by timeframe require_fresh now cd s =
     (if cd_valid cd = Some False then Inr s
      else
        (let types = filter_type_names rt;
             needs = list_ex (\<lambda>t. t \<in> set ANALYSIS_FILTERS) types
         in rbind (build_context compute_budget needs types timeframe now cd (sa_budget s)) (\<lambda>cb.
            let s = s\<lparr>sa_budget := snd cb\<rparr> in
            case fst cb of
              None \<Rightarrow> Inr s
            | Some c \<Rightarrow>
                rbind (eval_with_matches c rt) (\<lambda>r.
                  if \<not> fst r then Inr s
                  else
                    rbind (freshness_for timeframe (Some (cx_as_of c)) now) (\<lambda>fr.
                    rbind (sort_value sort_by (cx_candles c)) (\<lambda>sv.
                      let stale = (fr \<noteq> FRESH); s = s\<lparr>sa_any_stale := sa_any_stale s \<or> stale\<rparr> in
                      Inr (if stale \<and> require_fresh then s\<lparr>sa_stale := sa_stale s @ [(cd_symbol cd, cx_as_of c)]\<rparr>
                           else s\<lparr>sa_matched := sa_matched s @
                             [\<lparr>en_symbol = cd_symbol cd, en_stale = stale, en_valid = cd_valid cd, en_price = cx_close c,
                               en_as_of = cx_as_of c, en_matched = snd r, en_sort = sv\<rparr>]\<rparr>)))))))"

fun rfold :: "('a \<Rightarrow> 's \<Rightarrow> 's res) \<Rightarrow> 'a list \<Rightarrow> 's \<Rightarrow> 's res" where
  "rfold f [] s = Inr s"
| "rfold f (x # xs) s = rbind (f x s) (rfold f xs)"

record scan_result =
  sr_symbols :: "entry list"
  sr_total :: nat
  sr_next_cursor :: "nat option"
  sr_stale :: "(string \<times> int) list"
  sr_deferred :: nat
  sr_freshness :: string

definition scan ::
  "nat \<Rightarrow> candidate list \<Rightarrow> pyval \<Rightarrow> string \<Rightarrow> string \<Rightarrow> int \<Rightarrow> nat option \<Rightarrow> string \<Rightarrow> bool \<Rightarrow> rat \<Rightarrow> scan_result res" where
  "scan compute_budget universe filters combine sort_by limit cursor timeframe require_fresh now =
     rbind (validate_filters filters combine) (\<lambda>rt.
     rbind (raise_if (\<not> (1 \<le> limit \<and> limit \<le> 250)) bad) (\<lambda>_.
     rbind (raise_if (sort_by \<notin> {''symbol'', ''price_change'', ''volume_change''}) bad) (\<lambda>_.
     rbind (rfold (scan_symbol compute_budget rt sort_by timeframe require_fresh now) (sort_key cd_symbol universe)
             \<lparr>sa_matched = [], sa_stale = [], sa_any_stale = False, sa_budget = \<lparr>bu_used = 0, bu_deferred = 0\<rparr>\<rparr>) (\<lambda>s.
       let matched = sort_key en_sort (sort_key en_symbol (sa_matched s));
           total = length matched;
           start = min (case cursor of Some c \<Rightarrow> c | None \<Rightarrow> 0) total;
           stop = start + nat limit
       in Inr \<lparr>sr_symbols = take (nat limit) (drop start matched), sr_total = total,
               sr_next_cursor = (if stop < total then Some stop else None), sr_stale = sa_stale s,
               sr_deferred = bu_deferred (sa_budget s),
               sr_freshness = (if sa_any_stale s \<and> \<not> require_fresh then STALE else FRESH)\<rparr>))))"

text \<open>An entry of the report: a tradable symbol of the universe whose context satisfies the filter, with
  the matching leaves, and with fresh data if that is required.\<close>

definition context_of :: "string \<Rightarrow> rat \<Rightarrow> candidate \<Rightarrow> ctx \<Rightarrow> bool" where
  "context_of timeframe now cd c =
     (\<exists>candles. filter_closed_candles (cd_candles cd) timeframe now = Inr candles \<and> candles \<noteq> []
        \<and> (c = base_ctx candles \<or> (\<exists>oi r. cd_records cd = Some r \<and> c = records_ctx cd candles oi r)))"

definition reported :: "candidate list \<Rightarrow> pyval \<Rightarrow> string \<Rightarrow> bool \<Rightarrow> rat \<Rightarrow> entry \<Rightarrow> bool" where
  "reported universe rt timeframe require_fresh now en =
     (\<exists>cd\<in>set universe. \<exists>c. en_symbol en = cd_symbol cd \<and> cd_valid cd \<noteq> Some False
        \<and> context_of timeframe now cd c
        \<and> eval_with_matches c rt = Inr (True, en_matched en)
        \<and> en_stale en = (freshness_for timeframe (Some (cx_as_of c)) now \<noteq> Inr FRESH) \<and> (require_fresh \<longrightarrow> \<not> en_stale en))"

lemma rfold_invariant:
  "rfold f xs s = Inr s' \<Longrightarrow> P s \<Longrightarrow> (\<And>x s s'. x \<in> set xs \<Longrightarrow> P s \<Longrightarrow> f x s = Inr s' \<Longrightarrow> P s') \<Longrightarrow> P s'"
proof (induction xs arbitrary: s)
  case (Cons x xs)
  from Cons.prems(1) obtain s1 where "f x s = Inr s1" "rfold f xs s1 = Inr s'" by (auto simp: rbind_Inr_iff)
  with Cons show ?case by (metis list.set_intros)
qed simp

lemma build_context_source:
  "build_context bu needs types tf now cd b = Inr (Some c, b') \<Longrightarrow> context_of tf now cd c"
  by (auto simp: build_context_def computed_records_def context_of_def rbind_Inr_iff split: if_splits)

lemma scan_symbol_reported:
  assumes "scan_symbol bu rt sort_by tf rf now cd s = Inr s'" "cd \<in> set universe" "list_all (reported universe rt tf rf now) (sa_matched s)"
  shows "list_all (reported universe rt tf rf now) (sa_matched s')"
proof (cases "cd_valid cd = Some False")
  case False
  let ?types = "filter_type_names rt"
  from assms(1) False obtain c' b
    where b: "build_context bu (list_ex (\<lambda>t. t \<in> set ANALYSIS_FILTERS) ?types) ?types tf now cd (sa_budget s) = Inr (c', b)"
    by (auto simp: scan_symbol_def Let_def rbind_Inr_iff)
  show ?thesis
  proof (cases c')
    case None
    with assms False b show ?thesis by (auto simp: scan_symbol_def)
  next
    case (Some c)
    from assms(1) False b Some obtain r where r: "eval_with_matches c rt = Inr r"
      by (auto simp: scan_symbol_def Let_def rbind_Inr_iff)
    show ?thesis
    proof (cases "fst r")
      case True
      from assms(1) False b Some r True obtain fr sv where f: "freshness_for tf (Some (cx_as_of c)) now = Inr fr"
          "sort_value sort_by (cx_candles c) = Inr sv"
        by (auto simp: scan_symbol_def Let_def rbind_Inr_iff)
      have "reported universe rt tf rf now \<lparr>en_symbol = cd_symbol cd, en_stale = (fr \<noteq> FRESH), en_valid = cd_valid cd, en_price = cx_close c,
          en_as_of = cx_as_of c, en_matched = snd r, en_sort = sv\<rparr>" if "\<not> (fr \<noteq> FRESH \<and> rf)"
        unfolding reported_def
        using False build_context_source [OF b [unfolded Some]] that f r True
        by (intro bexI [OF _ assms(2)] exI [of _ c]) (cases r, auto)
      with assms(1,3) False b Some r True f show ?thesis
        by (auto simp: scan_symbol_def Let_def split: if_splits)
    qed (use assms False b Some r in \<open>auto simp: scan_symbol_def Let_def\<close>)
  qed
qed (use assms in \<open>auto simp: scan_symbol_def\<close>)

lemma drop_min_length: "drop (min n (length xs)) xs = drop n xs"
  by (metis drop_all min.absorb1 min.absorb2 nle_le order_refl)

text \<open>The scan reports exactly the matching symbols, page by page. A scan that returns has one list
  behind it, sorted by the sort value, of tradable symbols whose context satisfies the filter
  (with fresh data, if that is required); its page is the part from the cursor on of at most the
  limit, and every other limit and cursor returns the corresponding part of the same list.\<close>

theorem scan_pages_matches:
  assumes "scan bu universe filters comb sort_by limit cursor tf rf now = Inr r"
  shows "\<exists>all rt. validate_filters filters comb = Inr rt \<and> list_all (reported universe rt tf rf now) all \<and> sorted (map en_sort all)
     \<and> sr_total r = length all \<and> sr_symbols r = take (nat limit) (drop (case cursor of Some c \<Rightarrow> c | None \<Rightarrow> 0) all)
     \<and> (\<forall>l k. 1 \<le> l \<and> l \<le> 250 \<longrightarrow> (\<exists>r'. scan bu universe filters comb sort_by l (Some k) tf rf now = Inr r'
          \<and> sr_symbols r' = take (nat l) (drop k all)))"
proof -
  let ?s0 = "\<lparr>sa_matched = [], sa_stale = [], sa_any_stale = False, sa_budget = \<lparr>bu_used = 0, bu_deferred = 0\<rparr>\<rparr>"
  from assms obtain rt s where s: "validate_filters filters comb = Inr rt" "sort_by \<in> {''symbol'', ''price_change'', ''volume_change''}"
      "rfold (scan_symbol bu rt sort_by tf rf now) (sort_key cd_symbol universe) ?s0 = Inr s"
    by (auto simp: scan_def rbind_Inr_iff rbind_raise_if_Inr)
  have "list_all (reported universe rt tf rf now) (sa_matched s)"
    by (rule rfold_invariant [OF s(3)]) (auto intro: scan_symbol_reported)
  then have all: "list_all (reported universe rt tf rf now) (sort_key en_sort (sort_key en_symbol (sa_matched s)))"
    by (simp add: list_all_iff)
  have l: "length (sort_key en_sort (sort_key en_symbol (sa_matched s))) = length (sa_matched s)" by simp
  show ?thesis
    using assms s all
    by (intro exI [of _ "sort_key en_sort (sort_key en_symbol (sa_matched s))"] exI [of _ rt])
      (auto simp: scan_def Let_def rbind_raise_if_Inr drop_min_length [of _ "sort_key en_sort (sort_key en_symbol (sa_matched s))", unfolded l])
qed

definition demo_candidate :: candidate where
  "demo_candidate = \<lparr>cd_symbol = ''S'', cd_valid = None, cd_candles = demo_candles, cd_stored = False, cd_records = None,
     cd_futures = \<lparr>fu_open_interest = None, fu_funding_rate = None, fu_liquidation = None\<rparr>, cd_funding = None, cd_oi = []\<rparr>"

theorem scan_pages_matches_witness:
  "\<exists>r. scan 8 [demo_candidate] (PDict [(''type'', PStr ''price_change''), (''window_bars'', PInt 2)]) ''AND'' ''symbol'' 50 None ''1m'' False 600 = Inr r
     \<and> length (sr_symbols r) = 1 \<and> (\<exists>all. sr_symbols r = take 50 (drop 0 all) \<and> sorted (map en_sort all))"
proof -
  let ?f = "PDict [(''type'', PStr ''price_change''), (''window_bars'', PInt 2)]"
  let ?r = "scan 8 [demo_candidate] ?f ''AND'' ''symbol'' 50 None ''1m'' False 600"
  have l: "(case ?r of Inr r \<Rightarrow> length (sr_symbols r) | Inl _ \<Rightarrow> 0) = 1" by code_simp
  then obtain r where r: "?r = Inr r" by (cases ?r) auto
  from scan_pages_matches [OF r] obtain all
    where "sr_symbols r = take 50 (drop 0 all)" "sorted (map en_sort all)" by auto
  moreover have "length (sr_symbols r) = 1" using r l by simp
  ultimately show ?thesis using r by blast
qed

text \<open>Sorting by volume change raises when a match traded nothing in the earlier half of the window.\<close>

theorem volume_sort_raises:
  "sort_value ''volume_change'' (replicate 48 (\<lparr>c_open_time = 0, c_open = 1, c_high = 1, c_low = 1, c_close = 1, c_volume = Some 0\<rparr>))
   = Inl ZeroDivisionError"
  by code_simp

text \<open>A symbol without stored records and with too few closed candles aborts the scan of every symbol:
  the error of its analysis is not caught.\<close>

theorem short_history_aborts_scan:
  "scan 8 [demo_candidate\<lparr>cd_candles := take 1 demo_candles\<rparr>, demo_candidate]
     (PDict [(''type'', PStr ''structure_event''), (''event'', PStr ''bos_bullish'')]) ''AND'' ''symbol'' 50 None ''1m'' False 600
   = Inl (rasat STALE_DATA)"
  by code_simp

end
