(* ===== verification/Alerts.thy ===== *)
theory Alerts
  imports Pending Screener
begin

text \<open>
  The alarm engine of \<open>pa/alarms.py\<close>: alert definitions, the state machine armed, triggered,
  cooldown, and the evaluation that triggers alerts and records orders awaiting approval.
  The context of a clause is built from the stored candles, records and futures data that the
  price-action engine finds at that moment, a parameter \<open>eg\<close>, which also answers whether the
  budget of on-demand computations is used up. The external notification command has no effect on the state and is not modelled. JSON text of a
  definition is its value.
\<close>

subsection \<open>Definitions\<close>

definition ORDER_SPEC_KEYS :: "string list" where
  "ORDER_SPEC_KEYS = [''account_id'', ''symbol'', ''side'', ''entry'', ''stop_loss'', ''risk_pct'', ''order_type'']"

definition get_or :: "pydict \<Rightarrow> string \<Rightarrow> pyval \<Rightarrow> pyval" where
  "get_or d k v = (case map_of d k of Some x \<Rightarrow> x | None \<Rightarrow> v)"

definition validate_order_spec :: "pyval \<Rightarrow> pydict res" where
  "validate_order_spec spec =
     (case spec of
        PDict d \<Rightarrow>
          rbind (riter (\<lambda>kv. raise_if (fst kv \<notin> set ORDER_SPEC_KEYS) bad) d) (\<lambda>_.
          rbind (riter (\<lambda>k. raise_if (\<not> truthy (dict_get d k)) bad) [''account_id'', ''symbol'', ''side'']) (\<lambda>_.
          rbind (raise_if (dict_get d ''side'' \<noteq> PStr ''BUY'' \<and> dict_get d ''side'' \<noteq> PStr ''SELL'') bad) (\<lambda>_.
          rbind (raise_if (get_or d ''order_type'' (PStr ''market'') \<noteq> PStr ''market''
                           \<and> get_or d ''order_type'' (PStr ''market'') \<noteq> PStr ''limit'') bad) (\<lambda>_.
          rbind (validate_execution_inputs (dict_get d ''risk_pct'') (dict_get d ''entry'') (dict_get d ''stop_loss'')
                   (dict_get d ''order_type'')) (\<lambda>_.
            Inr d)))))
      | _ \<Rightarrow> Inl bad)"

definition required_text :: "pyval \<Rightarrow> unit res" where
  "required_text v = raise_if (case v of PStr s \<Rightarrow> s = [] | _ \<Rightarrow> True) bad"

text \<open>\<open>isinstance(v, int) and v >= 0\<close>: booleans are integers.\<close>

definition required_count :: "pyval \<Rightarrow> unit res" where
  "required_count v = raise_if (case v of PInt n \<Rightarrow> n < 0 | PBool _ \<Rightarrow> False | _ \<Rightarrow> True) bad"

definition insert_alert :: "pydict \<Rightarrow> string m" where
  "insert_alert def =
     mbind uuid4_hex (\<lambda>aid.
     mbind time_now (\<lambda>now.
       db_write (
         mbind (db_read (\<lambda>d. list_ex (\<lambda>r. al_alert_id r = aid) (alerts d))) (\<lambda>clash.
         mbind (mguard clash IntegrityError) (\<lambda>_.
         mbind (db_modify (\<lambda>d. d\<lparr>alerts := alerts d @ [\<lparr>al_alert_id = aid, al_definition = def, al_state = ''armed'',
             al_created_at = now, al_updated_at = now, al_cooldown_until = None\<rparr>]\<rparr>)) (\<lambda>_.
           mret aid))))))"

definition create_alert :: "pyval \<Rightarrow> pyval \<Rightarrow> pyval \<Rightarrow> pyval \<Rightarrow> pyval \<Rightarrow> pyval \<Rightarrow> string m" where
  "create_alert symbol timeframe condition cooldown_seconds note order_spec =
     mbind (mlift (required_text symbol)) (\<lambda>_.
     mbind (mlift (required_text timeframe)) (\<lambda>_.
     mbind (mlift (required_count cooldown_seconds)) (\<lambda>_.
     mbind (mlift (validate_filters condition ''AND'')) (\<lambda>rt.
     mbind (mlift (if order_spec = PNone then Inr [] else rbind (validate_order_spec order_spec) (\<lambda>s. Inr [(''order_spec'', PDict s)]))) (\<lambda>spec.
       insert_alert ([(''type'', PStr ''simple''), (''symbol'', symbol), (''timeframe'', timeframe), (''condition'', rt),
          (''cooldown_seconds'', cooldown_seconds), (''note'', note)] @ spec))))))"

definition norm_clause :: "pyval \<Rightarrow> pyval res" where
  "norm_clause cl =
     (case cl of
        PDict d \<Rightarrow>
          rbind (raise_if (\<not> truthy (dict_get d ''symbol'') \<or> \<not> truthy (dict_get d ''timeframe'')) bad) (\<lambda>_.
          rbind (validate_filters (dict_get d ''filters'') ''AND'') (\<lambda>rt.
            Inr (PDict [(''symbol'', dict_get d ''symbol''), (''timeframe'', dict_get d ''timeframe''), (''condition'', rt)])))
      | _ \<Rightarrow> Inl bad)"

definition create_composite_alert :: "pyval \<Rightarrow> string \<Rightarrow> pyval \<Rightarrow> pyval \<Rightarrow> string m" where
  "create_composite_alert clauses combine cooldown_seconds note =
     mbind (mlift (case clauses of PList (_ # _) \<Rightarrow> Inr () | _ \<Rightarrow> Inl bad)) (\<lambda>_.
     mbind (mlift (required_count cooldown_seconds)) (\<lambda>_.
     let c = py_upper (if combine = [] then ''AND'' else combine) in
     mbind (mguard (c \<noteq> ''AND'' \<and> c \<noteq> ''OR'') bad) (\<lambda>_.
     mbind (mlift (rmap norm_clause (case clauses of PList xs \<Rightarrow> xs | _ \<Rightarrow> []))) (\<lambda>cls.
       insert_alert [(''type'', PStr ''composite''), (''combine'', PStr c), (''clauses'', PList cls),
         (''cooldown_seconds'', cooldown_seconds), (''note'', note)]))))"

definition delete_alert :: "pyval \<Rightarrow> nat m" where
  "delete_alert alert_id =
     mbind (mlift (required_text alert_id)) (\<lambda>_.
     mbind (db_write (
       mbind (db_read (\<lambda>d. count_where (\<lambda>r. PStr (al_alert_id r) = alert_id) (alerts d))) (\<lambda>n.
       mbind (db_modify (\<lambda>d. d\<lparr>alerts := filter (\<lambda>r. PStr (al_alert_id r) \<noteq> alert_id) (alerts d)\<rparr>)) (\<lambda>_. mret n)))) (\<lambda>n.
     mbind (mguard (n = 0) (rasat NOT_FOUND)) (\<lambda>_. mret n)))"

subsection \<open>The state machine\<close>

definition lazy_state :: "string \<Rightarrow> int option \<Rightarrow> int \<Rightarrow> string" where
  "lazy_state state cooldown_until now =
     (case cooldown_until of
        Some u \<Rightarrow> if now < u then ''cooldown'' else ''armed''
      | None \<Rightarrow> if state = ''triggered'' then ''armed'' else state)"

definition list_alerts :: "(alert_row \<times> string) list m" where
  "list_alerts =
     mbind (db_read (\<lambda>d. sort_key (\<lambda>r. - al_created_at r) (alerts d))) (\<lambda>rows.
     mbind time_now (\<lambda>now. mret (map (\<lambda>r. (r, lazy_state (al_state r) (al_cooldown_until r) now)) rows)))"

text \<open>The integers a column can hold, and what a REAL or a TEXT column makes of a value.\<close>

definition int64 :: "int \<Rightarrow> bool" where
  "int64 n = (- (2 ^ 63) \<le> n \<and> n < 2 ^ 63)"

definition real_column :: "pyval \<Rightarrow> pyval res" where
  "real_column v =
     (case v of
        PInt n \<Rightarrow> if int64 n then Inr (PFloat (Fin (of_int n))) else Inl OverflowError
      | PFloat x \<Rightarrow> Inr (PFloat x)
      | PNone \<Rightarrow> Inr PNone
      | _ \<Rightarrow> Inl OtherException)"

definition text_column :: "pyval \<Rightarrow> pyval res" where
  "text_column v =
     (case v of
        PStr s \<Rightarrow> Inr (PStr s)
      | PNone \<Rightarrow> Inr PNone
      | PInt n \<Rightarrow> if int64 n then Inr (PStr (py_str v)) else Inl OverflowError
      | PBool b \<Rightarrow> Inr (PStr (if b then ''1'' else ''0''))
      | PFloat x \<Rightarrow> Inr (PFloat x)
      | _ \<Rightarrow> Inl OtherException)"

text \<open>The number of seconds in a definition; a boolean counts as 0 or 1.\<close>

definition seconds :: "pyval \<Rightarrow> int" where
  "seconds v = (case v of PInt n \<Rightarrow> n | PBool b \<Rightarrow> (if b then 1 else 0) | _ \<Rightarrow> 0)"

definition pending_of :: "string \<Rightarrow> string \<Rightarrow> pydict \<Rightarrow> pyval \<Rightarrow> int \<Rightarrow> pending_row res" where
  "pending_of oid aid spec note now =
     rbind (rbind (key spec ''account_id'') text_column) (\<lambda>acc.
     rbind (rbind (key spec ''symbol'') text_column) (\<lambda>sym.
     rbind (rbind (key spec ''side'') text_column) (\<lambda>sd.
     rbind (text_column (get_or spec ''order_type'' (PStr ''market''))) (\<lambda>ot.
     rbind (real_column (dict_get spec ''entry'')) (\<lambda>entry.
     rbind (real_column (dict_get spec ''stop_loss'')) (\<lambda>stop.
     rbind (real_column (dict_get spec ''risk_pct'')) (\<lambda>risk.
     rbind (text_column note) (\<lambda>nt.
       Inr \<lparr>pd_order_id = oid, pd_alert_id = aid, pd_account_id = acc, pd_symbol = sym, pd_side = sd, pd_order_type = ot,
            pd_entry = entry, pd_stop_loss = stop, pd_risk_pct = risk, pd_status = AWAITING_APPROVAL, pd_note = nt,
            pd_created_at = now, pd_approved_at = None, pd_rejected_at = None, pd_executed_order_id = None,
            pd_reject_reason = None, pd_execution_started_at = None, pd_execution_finished_at = None,
            pd_last_attempt_at = None, pd_execution_error_code = None\<rparr>))))))))"

definition insert_pending :: "string \<Rightarrow> pyval \<Rightarrow> pyval \<Rightarrow> int \<Rightarrow> unit m" where
  "insert_pending aid spec note now =
     mbind uuid4_hex (\<lambda>oid.
     mbind (mlift (case spec of PDict d \<Rightarrow> pending_of oid aid d note now | _ \<Rightarrow> Inl TypeError)) (\<lambda>row.
     mbind (db_read (\<lambda>d. list_ex (\<lambda>p. pd_order_id p = oid) (pending d))) (\<lambda>clash.
     mbind (mguard clash IntegrityError) (\<lambda>_.
       db_modify (\<lambda>d. d\<lparr>pending := pending d @ [row]\<rparr>)))))"

definition set_alert :: "string \<Rightarrow> string \<Rightarrow> int option \<Rightarrow> int \<Rightarrow> unit m" where
  "set_alert aid state until now =
     db_modify (\<lambda>d. d\<lparr>alerts := upd_where (\<lambda>r. al_alert_id r = aid)
       (\<lambda>r. r\<lparr>al_state := state, al_cooldown_until := until, al_updated_at := now\<rparr>) (alerts d)\<rparr>)"

definition find_alert :: "string \<Rightarrow> db \<Rightarrow> alert_row option" where
  "find_alert aid d = List.find (\<lambda>r. al_alert_id r = aid) (alerts d)"

definition fire :: "string \<Rightarrow> string \<Rightarrow> pyval \<Rightarrow> int \<Rightarrow> int \<Rightarrow> pydict \<Rightarrow> unit m" where
  "fire aid trigger_key pl cooldown now def =
     mbind (db_modify (\<lambda>d. d\<lparr>triggered := triggered d @ [\<lparr>tr_alert_id = aid, tr_trigger_key = trigger_key,
        tr_payload = pl, tr_triggered_at = now\<rparr>]\<rparr>)) (\<lambda>_.
     mbind (if dict_get def ''order_spec'' = PNone then mret ()
            else insert_pending aid (dict_get def ''order_spec'') (dict_get def ''note'') now) (\<lambda>_.
       if cooldown > 0 then mbind (mguard (\<not> int64 (now + cooldown)) OverflowError) (\<lambda>_. set_alert aid ''cooldown'' (Some (now + cooldown)) now)
       else set_alert aid ''triggered'' None now))"

definition trigger_tx :: "string \<Rightarrow> string \<Rightarrow> pyval \<Rightarrow> int \<Rightarrow> int \<Rightarrow> (string \<times> string \<times> int) option m" where
  "trigger_tx aid trigger_key pl cooldown now =
     mbind (db_read (find_alert aid)) (\<lambda>row.
       (case row of
          None \<Rightarrow> mraise (rasat NOT_FOUND)
        | Some r \<Rightarrow>
            if lazy_state (al_state r) (al_cooldown_until r) now \<noteq> ''armed'' then mret None
            else
              mbind (db_read (\<lambda>d. list_ex (\<lambda>t. tr_alert_id t = aid \<and> tr_trigger_key t = trigger_key) (triggered d))) (\<lambda>exists.
                if exists then mret None
                else mbind (fire aid trigger_key pl cooldown now (al_definition r)) (\<lambda>_.
                       mret (Some (aid, trigger_key, now))))))"

definition maybe_trigger :: "string \<Rightarrow> string \<Rightarrow> pyval \<Rightarrow> int \<Rightarrow> (string \<times> string \<times> int) option m" where
  "maybe_trigger aid trigger_key pl cooldown =
     mbind time_now (\<lambda>now. db_write (trigger_tx aid trigger_key pl cooldown now))"

subsection \<open>Evaluation\<close>

definition clause_matches :: "string \<Rightarrow> string \<Rightarrow> pyval \<Rightarrow> bool res" where
  "clause_matches symbol timeframe cl =
     (case cl of
        PDict d \<Rightarrow> rbind (key d ''symbol'') (\<lambda>s. if s \<noteq> PStr symbol then Inr False
                    else rbind (key d ''timeframe'') (\<lambda>t. Inr (t = PStr timeframe)))
      | _ \<Rightarrow> Inl TypeError)"

definition clauses_of :: "pydict \<Rightarrow> pyval list" where
  "clauses_of def = (case dict_get def ''clauses'' of PList xs \<Rightarrow> xs | _ \<Rightarrow> [])"

definition is_simple :: "alert_row \<Rightarrow> bool" where
  "is_simple r = (dict_get (al_definition r) ''type'' = PStr ''simple'')"

definition concerns :: "string \<Rightarrow> string \<Rightarrow> alert_row \<Rightarrow> bool res" where
  "concerns symbol timeframe r =
     (let d = al_definition r in
      if is_simple r then Inr (dict_get d ''symbol'' = PStr symbol \<and> dict_get d ''timeframe'' = PStr timeframe)
      else rany (clause_matches symbol timeframe) (clauses_of d))"

fun rfilter :: "('a \<Rightarrow> bool res) \<Rightarrow> 'a list \<Rightarrow> 'a list res" where
  "rfilter p [] = Inr []"
| "rfilter p (x # xs) = rbind (p x) (\<lambda>b. rbind (rfilter p xs) (\<lambda>ys. Inr (if b then x # ys else ys)))"

definition alerts_by_symbol :: "string \<Rightarrow> string \<Rightarrow> alert_row list m" where
  "alerts_by_symbol symbol timeframe =
     mbind time_now (\<lambda>now.
     mbind (db_read (\<lambda>d. filter (\<lambda>r. al_state r = ''armed'' \<or> al_state r = ''triggered''
        \<or> (case al_cooldown_until r of None \<Rightarrow> True | Some u \<Rightarrow> u \<le> now)) (alerts d))) (\<lambda>rows.
       mlift (rfilter (concerns symbol timeframe) rows)))"

definition composite_alerts :: "alert_row list m" where
  "composite_alerts = db_read (\<lambda>d. filter (\<lambda>r. dict_get (al_definition r) ''type'' = PStr ''composite'') (alerts d))"

text \<open>What the price-action engine answers at a moment: the stored candles, records and futures data of a
  symbol, its clock (the alarm service filters candles by the host clock and judges freshness by
  the engine's), and whether the compute budget of the pass still allows an analysis.\<close>

record engine =
  eg_find :: "nat \<Rightarrow> string \<Rightarrow> string \<Rightarrow> candidate"
  eg_host_now :: "nat \<Rightarrow> rat"
  eg_now :: "nat \<Rightarrow> rat"
  eg_may_compute :: "nat \<Rightarrow> bool"

definition context_at :: "engine \<Rightarrow> nat \<Rightarrow> string \<Rightarrow> string \<Rightarrow> ctx option res" where
  "context_at eg n symbol timeframe =
     (let cd = eg_find eg n symbol timeframe in
      if cd_candles cd = [] then Inr None
      else
        rbind (filter_closed_candles (cd_candles cd) timeframe (eg_host_now eg n)) (\<lambda>candles.
          if candles = [] then Inr None
          else if \<not> cd_stored cd \<and> \<not> eg_may_compute eg n then Inr None
          else
            rbind (computed_records timeframe (eg_now eg n) cd) (\<lambda>r.
              (case r of
                 None \<Rightarrow> Inr None
               | Some x \<Rightarrow>
                   rbind (freshness_for timeframe (Some (rc_as_of x)) (eg_now eg n)) (\<lambda>f.
                     if f \<noteq> FRESH then Inr None else Inr (Some (records_ctx cd candles True x)))))))"

definition clause_context :: "engine \<Rightarrow> pyval \<Rightarrow> pyval \<Rightarrow> ctx option m" where
  "clause_context eg symbol timeframe =
     (case (symbol, timeframe) of (PStr s, PStr t) \<Rightarrow> mask (\<lambda>e n. context_at eg n s t) | _ \<Rightarrow> mraise OtherException)"

text \<open>The clause contexts, as long as none is missing.\<close>

fun clause_contexts :: "engine \<Rightarrow> pyval list \<Rightarrow> (pyval \<times> ctx) list option m" where
  "clause_contexts cc [] = mret (Some [])"
| "clause_contexts cc (cl # cls) =
     mbind (mlift (case cl of PDict d \<Rightarrow> rbind (key d ''symbol'') (\<lambda>s. rbind (key d ''timeframe'') (\<lambda>t. rbind (key d ''condition'') (\<lambda>k. Inr (s, t, k))))
                   | _ \<Rightarrow> Inl TypeError)) (\<lambda>stk.
     mbind (clause_context cc (fst stk) (fst (snd stk))) (\<lambda>c.
       (case c of
          None \<Rightarrow> mret None
        | Some x \<Rightarrow> mbind (clause_contexts cc cls) (\<lambda>rest. mret (map_option (\<lambda>xs. (snd (snd stk), x) # xs) rest)))))"

text \<open>\<open>str(n)\<close> of the time in a trigger key.\<close>

definition key_text :: "string \<Rightarrow> string \<Rightarrow> int \<Rightarrow> string" where
  "key_text symbol timeframe as_of = symbol @ '':'' @ timeframe @ '':'' @ py_str (PInt as_of)"

definition cooldown_of :: "pydict \<Rightarrow> int res" where
  "cooldown_of def = rbind (key def ''cooldown_seconds'') (\<lambda>v. Inr (seconds v))"

definition evaluate_composite :: "engine \<Rightarrow> alert_row \<Rightarrow> (string \<times> string \<times> int) option m" where
  "evaluate_composite cc r =
     (let def = al_definition r; aid = al_alert_id r in
      mbind time_now (\<lambda>now.
        if lazy_state (al_state r) (al_cooldown_until r) now \<noteq> ''armed'' then mret None
        else
          mbind (clause_contexts cc (clauses_of def)) (\<lambda>cs.
            (case cs of
               None \<Rightarrow> mret None
             | Some contexts \<Rightarrow>
                 mbind (mlift (rbind (key def ''combine'') (\<lambda>k.
                   (if k = PStr ''AND'' then rall else rany) (\<lambda>kc. eval_node (snd kc) (fst kc)) contexts))) (\<lambda>matched.
                   if \<not> matched then mret None
                   else if contexts = [] then mraise ValueError
                   else
                     (let as_of = fold max (map (\<lambda>kc. cx_as_of (snd kc)) contexts) (cx_as_of (snd (hd contexts))) in
                      mbind (mlift (cooldown_of def)) (\<lambda>cd.
                        maybe_trigger aid (key_text ''composite'' aid as_of) (PDict [(''type'', PStr ''composite''), (''as_of'', PInt as_of)]) cd)))))))"

definition evaluate_composites_for :: "engine \<Rightarrow> string \<Rightarrow> string \<Rightarrow> (string \<times> string \<times> int) list m" where
  "evaluate_composites_for cc symbol timeframe =
     mbind composite_alerts (\<lambda>rows.
       mfold (\<lambda>r acc.
         mbind (mlift (rany (clause_matches symbol timeframe) (clauses_of (al_definition r)))) (\<lambda>hit.
           if \<not> hit then mret acc
           else mbind (evaluate_composite cc r) (\<lambda>res. mret (case res of Some x \<Rightarrow> acc @ [x] | None \<Rightarrow> acc)))) rows [])"

text \<open>One simple alert on a context that is computed when it is needed.\<close>

definition evaluate_simple :: "ctx option m \<Rightarrow> string \<Rightarrow> string \<Rightarrow> alert_row \<Rightarrow> (string \<times> string \<times> int) list \<Rightarrow> (string \<times> string \<times> int) list m" where
  "evaluate_simple context symbol timeframe r acc =
     (let def = al_definition r in
      if \<not> is_simple r then mret acc
      else
        mbind time_now (\<lambda>now.
          if lazy_state (al_state r) (al_cooldown_until r) now \<noteq> ''armed'' then mret acc
          else
            mbind context (\<lambda>c.
              (case c of
                 None \<Rightarrow> mret acc
               | Some x \<Rightarrow>
                   mbind (mlift (rbind (key def ''condition'') (eval_node x))) (\<lambda>matched.
                     if \<not> matched then mret acc
                     else
                       mbind (mlift (cooldown_of def)) (\<lambda>cd.
                       mbind (maybe_trigger (al_alert_id r) (key_text symbol timeframe (cx_as_of x))
                               (PDict [(''symbol'', PStr symbol), (''timeframe'', PStr timeframe), (''as_of'', PInt (cx_as_of x))]) cd) (\<lambda>res.
                         mret (case res of Some y \<Rightarrow> acc @ [y] | None \<Rightarrow> acc))))))))"

definition evaluate_symbol :: "engine \<Rightarrow> string \<Rightarrow> string \<Rightarrow> (string \<times> string \<times> int) list m" where
  "evaluate_symbol cc symbol timeframe =
     mbind (alerts_by_symbol symbol timeframe) (\<lambda>rows.
     mbind (mfold (evaluate_simple (clause_context cc (PStr symbol) (PStr timeframe)) symbol timeframe) rows []) (\<lambda>triggers.
     mbind (evaluate_composites_for cc symbol timeframe) (\<lambda>more. mret (triggers @ more))))"

text \<open>The context of a fresh analysis; without a candle it has no price.\<close>

definition ctx_from_analysis :: "analysis \<Rightarrow> candle list \<Rightarrow> fitem option \<Rightarrow> fitem list \<Rightarrow> ctx" where
  "ctx_from_analysis a candles fr oi =
     \<lparr>cx_candles = candles, cx_close = (if candles = [] then None else Some (c_close (last candles))), cx_as_of = an_as_of a,
      cx_structure = Some (an_structure a), cx_zones = an_zones a, cx_blocks = an_blocks a, cx_vwap = vw_current (an_vwap a),
      cx_funding = fr, cx_oi = oi\<rparr>"

definition on_analysis_updated ::
  "engine \<Rightarrow> string \<Rightarrow> string \<Rightarrow> analysis \<Rightarrow> rat \<Rightarrow> candle list \<Rightarrow> rat \<Rightarrow> fitem option \<Rightarrow> fitem list \<Rightarrow> (string \<times> string \<times> int) list m" where
  "on_analysis_updated cc symbol timeframe a engine_now candles host_now fr oi =
     mbind (mlift (freshness_for timeframe (Some (an_as_of a)) engine_now)) (\<lambda>f.
       if f \<noteq> FRESH then mret []
       else
         mbind (mlift (filter_closed_candles candles timeframe host_now)) (\<lambda>closed.
         mbind (alerts_by_symbol symbol timeframe) (\<lambda>rows.
         mbind (mfold (evaluate_simple (mret (Some (ctx_from_analysis a closed fr oi))) symbol timeframe) rows []) (\<lambda>triggers.
         mbind (evaluate_composites_for cc symbol timeframe) (\<lambda>more. mret (triggers @ more))))))"

definition get_triggered_alerts :: "string option \<Rightarrow> int \<Rightarrow> nat \<Rightarrow> (triggered_row list \<times> nat option) m" where
  "get_triggered_alerts alert_id limit cursor =
     mbind (mguard (\<not> (1 \<le> limit \<and> limit \<le> 500)) bad) (\<lambda>_.
     mbind (db_read (\<lambda>d. take (nat limit + 1) (drop cursor (sort_key (\<lambda>r. - tr_triggered_at r) (rev
         (filter (\<lambda>r. case alert_id of Some a \<Rightarrow> a = [] \<or> tr_alert_id r = a | None \<Rightarrow> True) (triggered d))))))) (\<lambda>rows.
       mret (take (nat limit) rows, if length rows > nat limit then Some (cursor + nat limit) else None)))"

subsection \<open>What the alarm engine touches\<close>

text \<open>The alarm engine's relation on worlds: the other tables and the exchange stay as they are, pending
  orders are only added, triggers are only added and never twice for one key.\<close>

definition trigger_keys :: "world \<Rightarrow> (string \<times> string) list" where
  "trigger_keys w = map (\<lambda>t. (tr_alert_id t, tr_trigger_key t)) (triggered (w_db w))"

definition alarm_step :: "world \<Rightarrow> world \<Rightarrow> bool" where
  "alarm_step w w' =
     (alarm_frame w w'
      \<and> (\<exists>new. pending (w_db w') = pending (w_db w) @ new \<and> list_all (\<lambda>p. pd_status p = AWAITING_APPROVAL) new)
      \<and> (\<exists>new. triggered (w_db w') = triggered (w_db w) @ new)
      \<and> (distinct (trigger_keys w) \<longrightarrow> distinct (trigger_keys w')))"

lemma alarm_step_same:
  "alarm_frame w w' \<Longrightarrow> pending (w_db w') = pending (w_db w) \<Longrightarrow> triggered (w_db w') = triggered (w_db w) \<Longrightarrow> alarm_step w w'"
  by (simp add: alarm_step_def trigger_keys_def)

interpretation alarm_step: world_relation alarm_step
proof unfold_locales
  show "alarm_step w w''" if "alarm_step w w'" "alarm_step w' w''" for w w' w''
    using that alarm_frame.R_trans unfolding alarm_step_def by fastforce
  show "alarm_step w w" for w by (simp add: alarm_step_same alarm_frame.R_refl)
  show "alarm_step w (w\<lparr>w_tick := n\<rparr>)" for w n by (simp add: alarm_step_same alarm_frame.R_tick)
  show "alarm_step w (w'\<lparr>w_db := w_db w\<rparr>)" if "alarm_step w w'" for w w'
    using that by (intro alarm_step_same alarm_frame.R_rollback) (simp_all add: alarm_step_def)
qed

lemmas as_rules = alarm_step.resp_intros keeps_cases

lemma alerts_modify_step: "keeps alarm_step (db_modify (\<lambda>d. d\<lparr>alerts := f (alerts d)\<rparr>))"
  by (simp add: keeps_def db_modify_def alarm_step_same alarm_frame_def)

lemma insert_pending_step: "keeps alarm_step (insert_pending aid spec note now)"
proof (rule keeps_wpI)
  fix e :: env and w :: world
  have "pd_status p = AWAITING_APPROVAL" if "pending_of oid aid d note now = Inr p" for oid d p
    using that by (auto simp: pending_of_def rbind_Inr_iff)
  then show "wp e (insert_pending aid spec note now) (\<lambda>r w'. alarm_step w w') w"
    by (auto simp: insert_pending_def wp_bind_simps wp_simps alarm_step_def alarm_frame_def trigger_keys_def split: sum.splits pyval.splits)
qed

lemma fire_tail_step:
  "keeps alarm_step (mbind (if s = PNone then mret () else insert_pending aid s n now) (\<lambda>_.
     if cd > 0 then mbind (mguard (\<not> int64 (now + cd)) OverflowError) (\<lambda>_. set_alert aid ''cooldown'' (Some (now + cd)) now)
     else set_alert aid ''triggered'' None now))"
  unfolding set_alert_def by (rule as_rules insert_pending_step alerts_modify_step)+

lemma fire_step:
  assumes "\<not> list_ex (\<lambda>t. tr_alert_id t = aid \<and> tr_trigger_key t = k) (triggered (w_db w))"
  shows "wp e (fire aid k pl cd now dfn) (\<lambda>r w'. alarm_step w w') w"
proof -
  let ?w = "w\<lparr>w_db := (w_db w)\<lparr>triggered := triggered (w_db w) @
    [\<lparr>tr_alert_id = aid, tr_trigger_key = k, tr_payload = pl, tr_triggered_at = now\<rparr>]\<rparr>\<rparr>"
  have "alarm_step w ?w"
    using assms by (auto simp: alarm_step_def alarm_frame_def trigger_keys_def list_ex_iff)
  then show ?thesis
    unfolding fire_def wp_mbind [of e "db_modify _"] wp_db_modify sum.case
    by (intro wp_mono [OF keeps_wp [OF fire_tail_step]]) (erule alarm_step.R_trans)
qed

lemma trigger_tx_step: "keeps alarm_step (trigger_tx aid k pl cd now)"
proof (rule keeps_wpI)
  fix e :: env and w :: world
  have "wp e (mbind (fire aid k pl cd now dfn) (\<lambda>_. mret x)) (\<lambda>r w'. alarm_step w w') w"
    if "\<not> list_ex (\<lambda>t. tr_alert_id t = aid \<and> tr_trigger_key t = k) (triggered (w_db w))"
    for dfn and x :: "(string \<times> string \<times> int) option"
    unfolding wp_mbind by (rule wp_mono [OF fire_step [OF that]]) (simp add: wp_simps split: sum.split)
  then show "wp e (trigger_tx aid k pl cd now) (\<lambda>r w'. alarm_step w w') w"
    by (simp add: trigger_tx_def wp_mbind [of e "db_read _"] wp_simps alarm_step.R_refl split: option.split)
qed

lemma maybe_trigger_step: "keeps alarm_step (maybe_trigger aid k pl cd)"
  unfolding maybe_trigger_def by (rule as_rules trigger_tx_step)+

lemma insert_alert_step: "keeps alarm_step (insert_alert dfn)"
  unfolding insert_alert_def by (rule as_rules alerts_modify_step)+

lemma clause_context_step: "keeps alarm_step (clause_context cc s t)"
  by (cases s; cases t) (auto simp: clause_context_def intro: as_rules)

lemma clause_contexts_step: "keeps alarm_step (clause_contexts cc cls)"
  by (induction cls) (unfold clause_contexts.simps, (rule as_rules clause_context_step | assumption)+)

lemma evaluate_simple_step: "keeps alarm_step c \<Longrightarrow> keeps alarm_step (evaluate_simple c s t r acc)"
  unfolding evaluate_simple_def Let_def by (rule as_rules maybe_trigger_step | assumption)+

lemma evaluate_composites_step: "keeps alarm_step (evaluate_composites_for cc s t)"
  unfolding evaluate_composites_for_def evaluate_composite_def Let_def composite_alerts_def
  by (rule as_rules maybe_trigger_step clause_contexts_step)+

lemma alarm_service_step:
  "keeps alarm_step (create_alert a b c d ee f)" "keeps alarm_step (create_composite_alert g h i j)" "keeps alarm_step (delete_alert k)"
  "keeps alarm_step (evaluate_symbol cc s t)" "keeps alarm_step (on_analysis_updated cc s t an now cs hnow fr oi)"
  unfolding create_alert_def create_composite_alert_def delete_alert_def evaluate_symbol_def on_analysis_updated_def
    alerts_by_symbol_def Let_def
  by (rule as_rules insert_alert_step alerts_modify_step evaluate_simple_step clause_context_step evaluate_composites_step)+

subsection \<open>Triggering\<close>

definition alert_armed :: "int \<Rightarrow> alert_row \<Rightarrow> bool" where
  "alert_armed now r = (lazy_state (al_state r) (al_cooldown_until r) now = ''armed'')"

text \<open>The pending order that a trigger records.\<close>

definition order_recorded :: "string \<Rightarrow> pydict \<Rightarrow> int \<Rightarrow> world \<Rightarrow> world \<Rightarrow> bool" where
  "order_recorded aid dfn now w w' =
     (case dict_get dfn ''order_spec'' of
        PNone \<Rightarrow> pending (w_db w') = pending (w_db w)
      | PDict spec \<Rightarrow> (\<exists>oid p. pending_of oid aid spec (dict_get dfn ''note'') now = Inr p \<and> pending (w_db w') = pending (w_db w) @ [p]
           \<and> oid \<notin> pd_order_id ` set (pending (w_db w)))
      | _ \<Rightarrow> False)"

definition triggered_ok :: "string \<Rightarrow> string \<Rightarrow> int \<Rightarrow> int \<Rightarrow> alert_row \<Rightarrow> world \<Rightarrow> world \<Rightarrow> bool" where
  "triggered_ok aid k cd now r w w' =
     ((\<exists>t. triggered (w_db w') = triggered (w_db w) @ [t] \<and> tr_alert_id t = aid \<and> tr_trigger_key t = k \<and> tr_triggered_at t = now)
      \<and> order_recorded aid (al_definition r) now w w'
      \<and> find_alert aid (w_db w') = Some (r\<lparr>al_state := (if cd > 0 then ''cooldown'' else ''triggered''),
            al_cooldown_until := (if cd > 0 then Some (now + cd) else None), al_updated_at := now\<rparr>))"

lemma find_alert_upd:
  "find_alert aid d = Some r \<Longrightarrow> (\<And>x. al_alert_id (f x) = al_alert_id x) \<Longrightarrow>
   find_alert aid (d\<lparr>alerts := upd_where (\<lambda>x. al_alert_id x = aid) f (alerts d)\<rparr>) = Some (f r)"
  by (auto simp: find_alert_def find_upd_where dest: find_SomeD)

lemma find_alert_other [simp]:
  "find_alert aid (d\<lparr>triggered := ts\<rparr>) = find_alert aid d" "find_alert aid (d\<lparr>pending := ps\<rparr>) = find_alert aid d"
  by (simp_all add: find_alert_def)

lemma set_alert_fires:
  assumes "find_alert aid (w_db w) = Some r"
  shows "wp e (if cd > 0 then mbind (mguard (\<not> int64 (now + cd)) OverflowError) (\<lambda>_. set_alert aid ''cooldown'' (Some (now + cd)) now)
       else set_alert aid ''triggered'' None now)
    (\<lambda>x w'. \<forall>u. x = Inr u \<longrightarrow> triggered (w_db w') = triggered (w_db w) \<and> pending (w_db w') = pending (w_db w)
       \<and> find_alert aid (w_db w') = Some (r\<lparr>al_state := (if cd > 0 then ''cooldown'' else ''triggered''),
            al_cooldown_until := (if cd > 0 then Some (now + cd) else None), al_updated_at := now\<rparr>)) w"
  using assms by (simp add: set_alert_def wp_bind_simps wp_simps find_alert_upd)

lemma insert_pending_records:
  assumes "s = dict_get dfn ''order_spec''"
  shows "wp e (if s = PNone then mret () else insert_pending aid s (dict_get dfn ''note'') now)
     (\<lambda>x w'. \<forall>u. x = Inr u \<longrightarrow> order_recorded aid dfn now w w' \<and> triggered (w_db w') = triggered (w_db w)
        \<and> alerts (w_db w') = alerts (w_db w)) w"
  unfolding assms
  by (cases "dict_get dfn ''order_spec''")
    (auto simp: insert_pending_def order_recorded_def wp_bind_simps wp_simps list_ex_iff image_iff split: sum.splits,
     metis)

lemma fire_fires:
  assumes "find_alert aid (w_db w) = Some r" "dfn = al_definition r"
  shows "wp e (fire aid k pl cd now dfn) (\<lambda>x w'. \<forall>u. x = Inr u \<longrightarrow> triggered_ok aid k cd now r w w') w"
proof -
  let ?w = "w\<lparr>w_db := (w_db w)\<lparr>triggered := triggered (w_db w) @
    [\<lparr>tr_alert_id = aid, tr_trigger_key = k, tr_payload = pl, tr_triggered_at = now\<rparr>]\<rparr>\<rparr>"
  show ?thesis
    unfolding fire_def wp_mbind [of e "db_modify _"] wp_db_modify sum.case wp_mbind [of e "if _ then _ else _"]
  proof (rule wp_mono [OF insert_pending_records [of _ dfn e aid now ?w, OF refl]])
    fix x :: "unit res" and w1 :: world
    assume i: "\<forall>u. x = Inr u \<longrightarrow> order_recorded aid dfn now ?w w1 \<and> triggered (w_db w1) = triggered (w_db ?w) \<and> alerts (w_db w1) = alerts (w_db ?w)"
    show "case x of Inl y \<Rightarrow> \<forall>u. (Inl y :: unit res) = Inr u \<longrightarrow> triggered_ok aid k cd now r w w1
      | Inr y \<Rightarrow> wp e (if cd > 0 then mbind (mguard (\<not> int64 (now + cd)) OverflowError) (\<lambda>_. set_alert aid ''cooldown'' (Some (now + cd)) now)
           else set_alert aid ''triggered'' None now) (\<lambda>x w'. \<forall>u. x = Inr u \<longrightarrow> triggered_ok aid k cd now r w w') w1"
    proof (cases x)
      case (Inr y)
      with i have i1: "order_recorded aid dfn now ?w w1" "triggered (w_db w1) = triggered (w_db ?w)" "alerts (w_db w1) = alerts (w_db ?w)" by auto
      then have "find_alert aid (w_db w1) = Some r" using assms(1) by (simp add: find_alert_def)
      from set_alert_fires [OF this, of e cd now] show ?thesis
        unfolding Inr sum.case
        by (rule wp_mono) (use i1 assms(2) in \<open>auto simp: triggered_ok_def order_recorded_def split: pyval.splits\<close>)
    qed simp
  qed
qed

lemma order_recorded_tick: "order_recorded aid dfn now (w\<lparr>w_tick := n\<rparr>) w' = order_recorded aid dfn now w w'"
  by (cases "dict_get dfn ''order_spec''") (simp_all add: order_recorded_def)

lemma trigger_core:
  assumes "find_alert aid (w_db w) = Some r"
  shows "wp e (maybe_trigger aid k pl cd) (\<lambda>x w'. let now = now_at e (w_tick w) in
     (case x of
        Inl _ \<Rightarrow> w_db w' = w_db w
      | Inr None \<Rightarrow> w_db w' = w_db w \<and> (\<not> alert_armed now r \<or> (aid, k) \<in> set (trigger_keys w))
      | Inr (Some y) \<Rightarrow> y = (aid, k, now) \<and> alert_armed now r \<and> (aid, k) \<notin> set (trigger_keys w) \<and> triggered_ok aid k cd now r w w')) w"
proof -
  let ?w = "w\<lparr>w_tick := Suc (w_tick w)\<rparr>"
  have keys: "list_ex (\<lambda>t. tr_alert_id t = aid \<and> tr_trigger_key t = k) (triggered (w_db w)) = ((aid, k) \<in> set (trigger_keys w))"
    by (auto simp: list_ex_iff trigger_keys_def)
  have r: "find_alert aid (w_db ?w) = Some r" using assms by simp
  have ok: "triggered_ok aid k cd now r ?w w' = triggered_ok aid k cd now r w w'" for now w'
    by (simp add: triggered_ok_def order_recorded_tick)
  have f: "wp e (mbind (fire aid k pl cd now (al_definition r)) (\<lambda>_. mret (Some (aid, k, now)))) Q ?w"
    if "\<And>y w'. Q (Inl y) w'" "\<And>w'. triggered_ok aid k cd now r w w' \<Longrightarrow> Q (Inr (Some (aid, k, now))) w'" for Q now
    unfolding wp_mbind
    by (rule wp_mono [OF fire_fires [OF r refl]]) (use that ok in \<open>auto simp: wp_simps split: sum.split\<close>)
  show ?thesis
    unfolding maybe_trigger_def wp_mbind [of e time_now] wp_time_now sum.case wp_db_write trigger_tx_def
    by (auto simp: wp_mbind [of e "db_read _"] wp_simps assms keys alert_armed_def Let_def intro!: f)
qed

text \<open>C15: Triggering is exact. For an existing alert, a trigger fires if and only if the alert is armed at
  that moment and the key was never recorded for it: then exactly one trigger is recorded, exactly
  one order awaiting approval with the terms of the alert when it carries an order, and the alert
  goes into its cooldown; otherwise, and on every error, nothing changes.\<close>

theorem trigger_exact:
  assumes "find_alert aid (w_db w) = Some r"
  shows "wp e (maybe_trigger aid k pl cd) (\<lambda>x w'. let now = now_at e (w_tick w) in
     (case x of
        Inl _ \<Rightarrow> w_db w' = w_db w
      | Inr None \<Rightarrow> w_db w' = w_db w \<and> (\<not> alert_armed now r \<or> (aid, k) \<in> set (trigger_keys w))
      | Inr (Some y) \<Rightarrow> y = (aid, k, now) \<and> alert_armed now r \<and> (aid, k) \<notin> set (trigger_keys w) \<and> triggered_ok aid k cd now r w w')) w"
  by (rule trigger_core [OF assms])

definition demo_alert :: "string \<Rightarrow> pydict \<Rightarrow> alert_row" where
  "demo_alert aid dfn = \<lparr>al_alert_id = aid, al_definition = dfn, al_state = ''armed'', al_created_at = 1, al_updated_at = 1, al_cooldown_until = None\<rparr>"

definition demo_spec :: pydict where
  "demo_spec = [(''order_spec'', PDict [(''account_id'', PStr ''a''), (''symbol'', PStr ''BTCUSDT''), (''side'', PStr ''BUY''),
     (''stop_loss'', PInt 90), (''risk_pct'', PFloat (Fin (1 / 50)))])]"

theorem trigger_exact_witness:
  "\<exists>w r. find_alert ''al'' (w_db w) = Some r \<and> wp demo_env (maybe_trigger ''al'' ''k'' PNone 60) (\<lambda>x w'.
     \<exists>y. x = Inr (Some y) \<and> triggered_ok ''al'' ''k'' 60 (now_at demo_env (w_tick w)) r w w') w"
proof -
  let ?r = "demo_alert ''al'' demo_spec" and ?w = "demo_world (demo_db\<lparr>alerts := [demo_alert ''al'' demo_spec]\<rparr>)"
  have f: "find_alert ''al'' (w_db ?w) = Some ?r" by code_simp
  have "(case fst (maybe_trigger ''al'' ''k'' PNone 60 demo_env ?w) of Inr (Some _) \<Rightarrow> True | _ \<Rightarrow> False)" by code_simp
  with trigger_exact [OF f, of demo_env "''k''" PNone 60] f show ?thesis
    by (intro exI [of _ ?w] exI [of _ ?r]) (auto simp: wp_def Let_def split: sum.splits option.splits)
qed

text \<open>A trigger is not repeated. After an alert has fired with a positive cooldown, a further attempt
  records nothing as long as the clock has not passed the end of the cooldown, whatever the key;
  and an attempt with the same key records nothing at any later time.\<close>

theorem trigger_not_repeated:
  assumes "find_alert aid (w_db w) = Some r" "maybe_trigger aid k pl cd e w = (Inr (Some y), w1)"
    "k' = k \<or> 0 < cd \<and> now_at e' (w_tick w1) < now_at e (w_tick w) + cd"
  shows "wp e' (maybe_trigger aid k' pl' cd') (\<lambda>x w'. w_db w' = w_db w1 \<and> (\<forall>z. x \<noteq> Inr (Some z))) w1"
proof -
  let ?now = "now_at e (w_tick w)"
  from wp_run [OF trigger_core [OF assms(1)] assms(2)] have t: "triggered_ok aid k cd ?now r w w1" by (simp add: Let_def)
  let ?r = "r\<lparr>al_state := (if cd > 0 then ''cooldown'' else ''triggered''),
            al_cooldown_until := (if cd > 0 then Some (?now + cd) else None), al_updated_at := ?now\<rparr>"
  from t have f: "find_alert aid (w_db w1) = Some ?r" and k: "(aid, k) \<in> set (trigger_keys w1)"
    by (auto simp: triggered_ok_def trigger_keys_def)
  have "\<not> alert_armed (now_at e' (w_tick w1)) ?r \<or> (aid, k') \<in> set (trigger_keys w1)"
    using assms(3) k by (auto simp: alert_armed_def lazy_state_def)
  then show ?thesis
    by (intro wp_mono [OF trigger_core [OF f]]) (auto simp: Let_def split: sum.splits option.splits)
qed

theorem trigger_not_repeated_witness:
  "\<exists>w r y w1. find_alert ''al'' (w_db w) = Some r \<and> maybe_trigger ''al'' ''k'' PNone 60 demo_env w = (Inr (Some y), w1)
     \<and> wp demo_env (maybe_trigger ''al'' ''other'' PNone 60) (\<lambda>x w'. w_db w' = w_db w1 \<and> (\<forall>z. x \<noteq> Inr (Some z))) w1"
proof -
  let ?r = "demo_alert ''al'' demo_spec" and ?w = "demo_world (demo_db\<lparr>alerts := [demo_alert ''al'' demo_spec]\<rparr>)"
  let ?x = "maybe_trigger ''al'' ''k'' PNone 60 demo_env ?w"
  have f: "find_alert ''al'' (w_db ?w) = Some ?r" by code_simp
  have "(case fst ?x of Inr (Some _) \<Rightarrow> True | _ \<Rightarrow> False)" by code_simp
  then obtain y where y: "?x = (Inr (Some y), snd ?x)" by (cases "?x") (auto split: sum.splits option.splits)
  have "now_at demo_env (w_tick (snd ?x)) < now_at demo_env (w_tick ?w) + 60" by code_simp
  then have "''other'' = ''k'' \<or> 0 < (60::int) \<and> now_at demo_env (w_tick (snd ?x)) < now_at demo_env (w_tick ?w) + 60" by simp
  from trigger_not_repeated [OF f y this, of PNone 60] f y show ?thesis by blast
qed

subsection \<open>Stale data\<close>

text \<open>A computation that leaves the database alone and whose values satisfy \<open>P\<close>.\<close>

definition idle :: "'a m \<Rightarrow> ('a \<Rightarrow> bool) \<Rightarrow> bool" where
  "idle m P = (\<forall>e w. wp e m (\<lambda>x w'. w_db w' = w_db w \<and> (\<forall>y. x = Inr y \<longrightarrow> P y)) w)"

lemma idle_bind:
  assumes "idle m P" "\<And>y. P y \<Longrightarrow> idle (f y) Q"
  shows "idle (mbind m f) Q"
  unfolding idle_def wp_mbind
proof (intro allI)
  fix e :: env and w :: world
  have "wp e m (\<lambda>x w'. w_db w' = w_db w \<and> (\<forall>y. x = Inr y \<longrightarrow> P y)) w" using assms(1) by (simp add: idle_def)
  then show "wp e m (\<lambda>r w1. case r of Inl x \<Rightarrow> w_db w1 = w_db w \<and> (\<forall>y. Inl x = Inr y \<longrightarrow> Q y)
      | Inr x \<Rightarrow> wp e (f x) (\<lambda>x w'. w_db w' = w_db w \<and> (\<forall>y. x = Inr y \<longrightarrow> Q y)) w1) w"
    by (rule wp_mono) (use assms(2) in \<open>fastforce simp: idle_def split: sum.split elim: wp_mono\<close>)
qed

lemma idle_simps:
  "idle (mret y) P = P y" "idle (mraise x) P" "(\<And>y. r = Inr y \<Longrightarrow> P y) \<Longrightarrow> idle (mlift r) P"
  "(\<And>e n y. f e n = Inr y \<Longrightarrow> P y) \<Longrightarrow> idle (mask f) P" "(\<And>d. P (g d)) \<Longrightarrow> idle (db_read g) P"
  by (auto simp: idle_def wp_simps)

lemma idle_fold: "(\<And>x s. P s \<Longrightarrow> idle (f x s) P) \<Longrightarrow> P s \<Longrightarrow> idle (mfold f xs s) P"
  by (induction xs arbitrary: s) (auto simp: idle_simps intro!: idle_bind [where P = P])

lemma idle_now: "idle time_now (\<lambda>_. True)"
  by (simp add: idle_def wp_simps)

lemma context_fresh:
  "context_at eg n s t = Inr (Some c) \<Longrightarrow>
     \<exists>r. cd_records (eg_find eg n s t) = Some r \<and> freshness_for t (Some (rc_as_of r)) (eg_now eg n) = Inr FRESH"
  by (auto simp: context_at_def Let_def computed_records_def rbind_Inr_iff split: if_splits option.splits)

definition engine_stale :: "engine \<Rightarrow> bool" where
  "engine_stale eg = (\<forall>n s t r. cd_records (eg_find eg n s t) = Some r \<longrightarrow> freshness_for t (Some (rc_as_of r)) (eg_now eg n) \<noteq> Inr FRESH)"

lemma context_stale: "engine_stale eg \<Longrightarrow> context_at eg n s t = Inr y \<Longrightarrow> y = None"
  unfolding engine_stale_def by (cases y) (auto dest: context_fresh)

lemma idle_context: "engine_stale eg \<Longrightarrow> idle (clause_context eg s t) (\<lambda>c. c = None)"
  by (cases s; cases t) (auto simp: clause_context_def idle_simps dest: context_stale intro!: idle_simps(4))

lemma idle_any: "idle (mlift r) (\<lambda>_. True)" "idle (db_read g) (\<lambda>_. True)"
  by (simp_all add: idle_simps)

lemma idle_contexts: "engine_stale eg \<Longrightarrow> idle (clause_contexts eg cls) (\<lambda>cs. cs = None \<or> cs = Some [])"
  by (cases cls) (auto simp: idle_simps intro!: idle_bind [OF idle_any(1)] idle_bind [OF idle_context])

lemma idle_composite: "engine_stale eg \<Longrightarrow> idle (evaluate_composite eg r) (\<lambda>x. x = None)"
  unfolding evaluate_composite_def Let_def
  by (auto simp: idle_simps intro!: idle_bind [OF idle_now] idle_bind [OF idle_contexts] idle_bind [OF idle_any(1)])

lemma idle_composites: "engine_stale eg \<Longrightarrow> idle (evaluate_composites_for eg s t) (\<lambda>ts. ts = [])"
  unfolding evaluate_composites_for_def composite_alerts_def
  by (auto simp: idle_simps intro!: idle_bind [OF idle_any(2)] idle_fold idle_bind [OF idle_any(1)] idle_bind [OF idle_composite])

lemma idle_simple: "idle c (\<lambda>c. c = None) \<Longrightarrow> idle (evaluate_simple c s t r []) (\<lambda>ts. ts = [])"
  unfolding evaluate_simple_def Let_def
  by (auto simp: idle_simps intro!: idle_bind [OF idle_now] idle_bind [where P = "\<lambda>c. c = None"])

lemma idle_by_symbol: "idle (alerts_by_symbol s t) (\<lambda>_. True)"
  unfolding alerts_by_symbol_def by (intro idle_bind [OF idle_now] idle_bind [OF idle_any(2)] idle_any(1))

lemma idle_symbol:
  assumes "engine_stale eg"
  shows "idle (evaluate_symbol eg s t) (\<lambda>ts. ts = [])"
proof -
  have fold: "idle (mfold (evaluate_simple (clause_context eg (PStr s) (PStr t)) s t) rows []) (\<lambda>ts. ts = [])" for rows
    by (rule idle_fold) (auto intro: idle_simple idle_context [OF assms])
  show ?thesis
    unfolding evaluate_symbol_def
    by (auto simp: idle_simps intro!: idle_bind [OF idle_by_symbol] idle_bind [OF fold] idle_bind [OF idle_composites [OF assms]])
qed


definition demo_engine :: engine where
  "demo_engine = \<lparr>eg_find = (\<lambda>_ s _. demo_candidate\<lparr>cd_symbol := s, cd_stored := True, cd_records :=
       Some \<lparr>rc_as_of = 0, rc_structure = \<lparr>st_trend = None, st_swings = [], st_events = []\<rparr>, rc_zones = [], rc_blocks = []\<rparr>\<rparr>),
     eg_host_now = (\<lambda>_. 100000000), eg_now = (\<lambda>_. 100000000), eg_may_compute = (\<lambda>_. True)\<rparr>"


end
