(* ===== verification/Exposure.thy ===== *)
theory Exposure
  imports Orders
begin

text \<open>
  The read-only reports of the order service (\<open>storage/orders.py\<close>): the exposure by symbol and over all
  accounts, the balance breakdown, and the scan for positions without a protecting sell order.
  A Python dictionary of sums is the association list of its items.
\<close>

subsection \<open>Dictionaries of sums\<close>

definition dict_add :: "(string \<times> rat) list \<Rightarrow> string \<Rightarrow> rat \<Rightarrow> (string \<times> rat) list" where
  "dict_add d k v = dict_put d k ((case map_of d k of Some x \<Rightarrow> x | None \<Rightarrow> 0) + v)"

definition dict_sum :: "('k \<times> rat) list \<Rightarrow> rat" where
  "dict_sum d = sum_list (map snd d)"

subsection \<open>Exposure\<close>

text \<open>\<open>SELECT symbol, SUM(notional) \<dots> GROUP BY symbol\<close> over the live orders of the account.\<close>

definition live_orders :: "string \<Rightarrow> db \<Rightarrow> order_row list" where
  "live_orders aid d = filter (\<lambda>r. o_account_id r = aid \<and> live_status (o_status r)) (orders d)"

definition notional_by_symbol :: "order_row list \<Rightarrow> (string \<times> rat) list" where
  "notional_by_symbol rows =
     map (\<lambda>s. (s, sum_list (map o_notional (filter (\<lambda>r. o_symbol r = s) rows)))) (sort (remdups (map o_symbol rows)))"

definition exposure_step :: "string \<times> rat \<Rightarrow> (string \<times> rat) list \<Rightarrow> (string \<times> rat) list m" where
  "exposure_step af by_sym =
     (if fst af = QUOTE then mret by_sym
      else if snd af \<le> 0 then mret by_sym
      else mbind (m_price (fst af @ QUOTE)) (\<lambda>p.
        (case p of None \<Rightarrow> mraise (rasat STALE_DATA) | Some price \<Rightarrow> mret (dict_add by_sym (fst af @ QUOTE) (snd af * price)))))"

definition exposure_by_symbol :: "string \<Rightarrow> (string \<times> rat) list m" where
  "exposure_by_symbol aid =
     mbind (db_read (\<lambda>d. notional_by_symbol (live_orders aid d))) (\<lambda>by_sym.
     mbind (broker_balance aid) (\<lambda>balances.
       mfold exposure_step balances by_sym))"

record exposure_acc =
  xa_by_symbol :: "(string \<times> rat) list"
  xa_per_account :: "(string \<times> rat) list"
  xa_errors :: "(string \<times> errcode) list"

record total_exposure =
  te_total :: rat
  te_by_symbol :: "(string \<times> rat) list"
  te_per_account :: "(string \<times> rat) list"
  te_account_count :: nat
  te_complete :: bool
  te_errors :: "(string \<times> errcode) list"

definition merge_exposure :: "(string \<times> rat) list \<Rightarrow> (string \<times> rat) list \<Rightarrow> (string \<times> rat) list" where
  "merge_exposure per by_sym = fold (\<lambda>kv m. dict_add m (fst kv) (snd kv)) per by_sym"

definition total_step :: "account \<Rightarrow> exposure_acc \<Rightarrow> exposure_acc m" where
  "total_step acc a =
     mtry (exposure_by_symbol (account_id acc)) (\<lambda>r. mret
       (case r of
          Inl x \<Rightarrow> a\<lparr>xa_errors := xa_errors a @ [(account_id acc, exc_code x)]\<rparr>
        | Inr per \<Rightarrow> a\<lparr>xa_by_symbol := merge_exposure per (xa_by_symbol a),
                       xa_per_account := dict_put (xa_per_account a) (account_id acc) (dict_sum per)\<rparr>))"

definition get_total_exposure :: "total_exposure m" where
  "get_total_exposure =
     mbind list_accounts (\<lambda>accs.
     mbind (mfold total_step accs \<lparr>xa_by_symbol = [], xa_per_account = [], xa_errors = []\<rparr>) (\<lambda>a.
       mret \<lparr>te_total = dict_sum (xa_by_symbol a), te_by_symbol = sort_key (\<lambda>kv. - snd kv) (xa_by_symbol a),
             te_per_account = xa_per_account a, te_account_count = length accs, te_complete = (xa_errors a = []),
             te_errors = xa_errors a\<rparr>))"

subsection \<open>Balance breakdown\<close>

record asset_line =
  as_asset :: string
  as_free :: rat
  as_locked :: rat
  as_value :: "rat option"

record breakdown =
  bd_free :: rat
  bd_locked :: rat
  bd_holdings :: rat
  bd_assets :: "asset_line list"

definition bd_total :: "breakdown \<Rightarrow> rat" where
  "bd_total b = bd_free b + bd_locked b + bd_holdings b"

definition breakdown_step :: "string \<Rightarrow> string \<times> rat \<times> rat \<Rightarrow> breakdown \<Rightarrow> breakdown m" where
  "breakdown_step quote_asset afl b =
     (case afl of (asset, free_qty, locked_qty) \<Rightarrow>
        let line = (\<lambda>v. \<lparr>as_asset = asset, as_free = free_qty, as_locked = locked_qty, as_value = v\<rparr>) in
        if asset = quote_asset
        then mret (b\<lparr>bd_free := bd_free b + free_qty, bd_locked := bd_locked b + locked_qty,
                     bd_assets := bd_assets b @ [line (Some free_qty)]\<rparr>)
        else
          mbind (m_price (asset @ quote_asset)) (\<lambda>p.
            (case p of
               None \<Rightarrow> mret (b\<lparr>bd_assets := bd_assets b @ [line None]\<rparr>)
             | Some price \<Rightarrow>
                 mret (b\<lparr>bd_holdings := bd_holdings b + free_qty * price, bd_locked := bd_locked b + locked_qty * price,
                         bd_assets := bd_assets b @ [line (Some ((free_qty + locked_qty) * price))]\<rparr>))))"

definition account_balance_breakdown :: "string \<Rightarrow> string \<Rightarrow> breakdown m" where
  "account_balance_breakdown aid quote_asset =
     mbind (broker_balance_detail aid) (\<lambda>detail.
       mfold (breakdown_step quote_asset) detail \<lparr>bd_free = 0, bd_locked = 0, bd_holdings = 0, bd_assets = []\<rparr>)"

definition get_account_balance :: "pyval \<Rightarrow> breakdown m" where
  "get_account_balance aid_v =
     mbind (mlift (req_string aid_v)) (\<lambda>aid.
     mbind (get_account aid) (\<lambda>acc.
     mbind (mguard (\<not> credentials_configured acc) (rasat ACCOUNT_NO_CREDENTIALS)) (\<lambda>_.
       account_balance_breakdown aid QUOTE)))"

text \<open>\<open>get_open_orders\<close>; the fields it copies from the raw reply are not modelled.\<close>

definition get_open_orders :: "pyval \<Rightarrow> open_order list m" where
  "get_open_orders aid_v =
     mbind (mlift (req_string aid_v)) (\<lambda>aid.
     mbind (get_account aid) (\<lambda>acc.
     mbind (mguard (\<not> credentials_configured acc) (rasat ACCOUNT_NO_CREDENTIALS)) (\<lambda>_.
       broker_open_orders aid)))"

subsection \<open>Unprotected positions\<close>

definition MIN_UNPROTECTED_VALUE_USD :: rat where
  "MIN_UNPROTECTED_VALUE_USD = 10"

record position =
  po_account_id :: string
  po_label :: string
  po_symbol :: string
  po_quantity :: rat
  po_value :: rat

record scan_report =
  sc_unprotected :: "position list"
  sc_errors :: "(string \<times> errcode) list"

definition sell_symbols :: "open_order list \<Rightarrow> string list" where
  "sell_symbols ords = map oo_symbol (filter (\<lambda>x. py_upper (oo_side x) = ''SELL'') ords)"

definition position_step :: "account \<Rightarrow> string list \<Rightarrow> string \<times> rat \<times> rat \<Rightarrow> position list \<Rightarrow> position list m" where
  "position_step acc sells afl ps =
     (case afl of (asset, free_qty, locked_qty) \<Rightarrow>
        let qty = free_qty + locked_qty; symbol = asset @ QUOTE in
        if asset = QUOTE then mret ps
        else if qty \<le> 0 then mret ps
        else
          mbind (m_price symbol) (\<lambda>p. mret
            (case p of
               None \<Rightarrow> ps
             | Some price \<Rightarrow>
                 if qty * price < MIN_UNPROTECTED_VALUE_USD then ps
                 else if symbol \<in> set sells then ps
                 else ps @ [\<lparr>po_account_id = account_id acc, po_label = label acc, po_symbol = symbol,
                             po_quantity = qty, po_value = qty * price\<rparr>])))"

definition scan_account :: "account \<Rightarrow> scan_report \<Rightarrow> scan_report m" where
  "scan_account acc s =
     mtry (mbind (broker_balance_detail (account_id acc)) (\<lambda>detail.
           mbind (broker_open_orders (account_id acc)) (\<lambda>ords. mret (detail, ords)))) (\<lambda>r.
       (case r of
          Inl x \<Rightarrow> mret (s\<lparr>sc_errors := sc_errors s @ [(account_id acc, exc_code x)]\<rparr>)
        | Inr (detail, ords) \<Rightarrow>
            mbind (mfold (position_step acc (sell_symbols ords)) detail (sc_unprotected s)) (\<lambda>ps.
              mret (s\<lparr>sc_unprotected := ps\<rparr>))))"

definition find_unprotected_positions :: "(scan_report \<times> nat) m" where
  "find_unprotected_positions =
     mbind list_accounts (\<lambda>accs.
       let real = filter (\<lambda>acc. trading_lock acc = ''real'' \<and> credentials_configured acc) accs in
       mbind (mfold scan_account real \<lparr>sc_unprotected = [], sc_errors = []\<rparr>) (\<lambda>s. mret (s, length real)))"

subsection \<open>The reports only read\<close>

text \<open>The database and the emergency log are as before, and no request was sent that changes anything at
  the exchange.\<close>

definition reads_only :: "world \<Rightarrow> world \<Rightarrow> bool" where
  "reads_only w w' =
     (w_db w' = w_db w \<and> w_elog w' = w_elog w \<and> filter is_mutating (w_trace w') = filter is_mutating (w_trace w))"

interpretation reads_only: world_relation reads_only
  by unfold_locales (simp_all add: reads_only_def)

lemma reads_only_send: "\<not> is_mutating rq \<Longrightarrow> keeps reads_only (msend rq f)"
  by (simp add: keeps_def msend_def reads_only_def)

lemma reads_only_asks:
  "keeps reads_only (broker_open_orders a)" "keeps reads_only (broker_balance a)" "keeps reads_only (broker_balance_detail a)"
  by (simp_all add: broker_open_orders_def broker_balance_def broker_balance_detail_def reads_only_send)

lemma reads_only_accounts: "keeps reads_only list_accounts" "keeps reads_only (get_account aid)"
  unfolding list_accounts_def get_account_def by (rule reads_only.resp_intros keeps_cases)+

lemmas reads_only_rules = reads_only.resp_intros keeps_cases reads_only_asks reads_only_accounts

lemma exposure_reads_only: "keeps reads_only (exposure_by_symbol aid)" "keeps reads_only get_total_exposure"
  unfolding get_total_exposure_def total_step_def exposure_by_symbol_def exposure_step_def by (rule reads_only_rules)+

lemma balances_read_only: "keeps reads_only (get_account_balance aid)" "keeps reads_only (get_open_orders aid)"
  unfolding get_account_balance_def get_open_orders_def account_balance_breakdown_def breakdown_step_def Let_def
  by (rule reads_only_rules)+

lemma scan_reads_only: "keeps reads_only find_unprotected_positions"
  unfolding find_unprotected_positions_def scan_account_def position_step_def Let_def by (rule reads_only_rules)+

lemmas reports_read_only = exposure_reads_only(2) balances_read_only scan_reads_only

subsection \<open>Sums\<close>

lemma dict_sum_put:
  "distinct (map fst d) \<Longrightarrow> dict_sum (dict_put d k v) = dict_sum d - (case map_of d k of Some x \<Rightarrow> x | None \<Rightarrow> 0) + v"
proof (induction d)
  case (Cons kv d)
  have same: "map (\<lambda>kv. if fst kv = k then (k, v) else kv) d = d" if "k \<notin> fst ` set d"
    using that by (induction d) auto
  show ?case
  proof (cases "fst kv = k")
    case True
    with Cons.prems have "k \<notin> fst ` set d" by auto
    with True same show ?thesis by (cases kv) (simp add: dict_put_def dict_sum_def)
  next
    case False
    with Cons show ?thesis by (cases kv) (auto simp: dict_put_def dict_sum_def split: if_splits)
  qed
qed (simp add: dict_put_def dict_sum_def)

lemma dict_sum_add: "distinct (map fst d) \<Longrightarrow> dict_sum (dict_add d k v) = dict_sum d + v"
  by (simp add: dict_add_def dict_sum_put split: option.split)

lemma dict_add_distinct: "distinct (map fst d) \<Longrightarrow> distinct (map fst (dict_add d k v))"
  by (simp add: dict_add_def dict_put_keys)

lemma sum_filter_split:
  "sum_list (map f rows) = sum_list (map f (filter P rows)) + sum_list (map f (filter (\<lambda>r. \<not> P r) rows))" for f :: "'a \<Rightarrow> rat"
  by (induction rows) (auto simp: algebra_simps)

lemma group_sums:
  "distinct ks \<Longrightarrow> set (map key rows) \<subseteq> set ks \<Longrightarrow>
     (\<Sum>k\<leftarrow>ks. sum_list (map f (filter (\<lambda>r. key r = k) rows))) = sum_list (map f rows)" for f :: "'a \<Rightarrow> rat"
proof (induction ks arbitrary: rows)
  case (Cons k ks)
  let ?rest = "filter (\<lambda>r. key r \<noteq> k) rows"
  have "(\<Sum>k'\<leftarrow>ks. sum_list (map f (filter (\<lambda>r. key r = k') rows))) = (\<Sum>k'\<leftarrow>ks. sum_list (map f (filter (\<lambda>r. key r = k') ?rest)))"
    using Cons.prems(1) by (auto intro!: arg_cong [where f = sum_list] map_cong filter_cong)
  also have "\<dots> = sum_list (map f ?rest)"
    by (rule Cons.IH) (use Cons.prems in auto)
  finally show ?case using sum_filter_split [of f rows "\<lambda>r. key r = k"] by simp
qed simp

lemma notional_sum: "dict_sum (notional_by_symbol rows) = sum_list (map o_notional rows)"
  using group_sums [of "sort (remdups (map o_symbol rows))" o_symbol rows o_notional]
  by (simp add: notional_by_symbol_def dict_sum_def comp_def)

lemma notional_distinct: "distinct (map fst (notional_by_symbol rows))"
  by (simp add: notional_by_symbol_def comp_def)

subsection \<open>The report and the caps agree\<close>

lemma exposure_fold:
  "distinct (map fst m) \<Longrightarrow> dict_sum m = n + h \<Longrightarrow>
     (case mfold exposure_step bs m e w of (r, w') \<Rightarrow> (rbind r (\<lambda>m'. Inr (dict_sum m')), w'))
     = (case mfold (held_value_step QUOTE) bs h e w of (r, w') \<Rightarrow> (rbind r (\<lambda>h'. Inr (n + h')), w'))"
proof (induction bs arbitrary: m h w)
  case (Cons af bs)
  show ?case
  proof (cases "fst af = QUOTE \<or> snd af \<le> 0")
    case True
    with Cons.IH [OF Cons.prems] show ?thesis
      by (auto simp: exposure_step_def held_value_step_def mbind_def mret_def)
  next
    case False
    have step: "distinct (map fst (dict_add m (fst af @ QUOTE) (snd af * p)))"
        "dict_sum (dict_add m (fst af @ QUOTE) (snd af * p)) = n + (h + snd af * p)" for p
      using Cons.prems by (simp_all add: dict_add_distinct dict_sum_add)
    from False Cons.IH [OF step] show ?thesis
      by (auto simp: exposure_step_def held_value_step_def mbind_def mret_def mraise_def m_price_def mask_def
          split: sum.splits option.splits)
  qed
qed (simp add: mret_def)

text \<open>C30: The exposure report and the risk caps look at the same number. For every account, state and
  environment, the sum of the exposure by symbol is the exposure the cap check computes: the same
  requests are sent, the same prices are asked, and one raises exactly when the other does.\<close>

theorem exposure_report_agrees_with_caps:
  "current_exposure aid QUOTE e w = mbind (exposure_by_symbol aid) (\<lambda>by_sym. mret (dict_sum by_sym)) e w"
proof -
  let ?rows = "live_orders aid (w_db w)"
  have n: "distinct (map fst (notional_by_symbol ?rows))" "dict_sum (notional_by_symbol ?rows) = open_order_notional aid (w_db w) + 0"
    by (simp_all add: notional_distinct notional_sum open_order_notional_def live_orders_def)
  show ?thesis
  proof (cases "broker_balance aid e w")
    case (Pair r w')
    show ?thesis
    proof (cases r)
      case (Inr b)
      with Pair exposure_fold [OF n, of b e w'] show ?thesis
        by (auto simp: current_exposure_def exposure_by_symbol_def mbind_def db_read_def mret_def rbind_def split: prod.splits sum.splits)
    qed (use Pair in \<open>simp add: current_exposure_def exposure_by_symbol_def mbind_def db_read_def\<close>)
  qed
qed

subsection \<open>The total adds up\<close>

lemma merge_exposure_sum:
  "distinct (map fst m) \<Longrightarrow> distinct (map fst (merge_exposure per m)) \<and> dict_sum (merge_exposure per m) = dict_sum per + dict_sum m"
  unfolding merge_exposure_def
  by (induction per arbitrary: m) (auto simp: dict_add_distinct dict_sum_add, simp_all add: dict_sum_def)

definition exposure_acc_ok :: "string list \<Rightarrow> exposure_acc \<Rightarrow> bool" where
  "exposure_acc_ok ids a =
     (distinct (map fst (xa_by_symbol a)) \<and> dict_sum (xa_by_symbol a) = dict_sum (xa_per_account a)
      \<and> distinct (map fst (xa_per_account a))
      \<and> set ids = fst ` set (xa_per_account a) \<union> fst ` set (xa_errors a))"

lemma total_step_ok:
  assumes "exposure_acc_ok ids a" "account_id acc \<notin> set ids"
  shows "wp e (total_step acc a) (\<lambda>r w'. \<exists>a'. r = Inr a' \<and> exposure_acc_ok (ids @ [account_id acc]) a') w"
proof -
  have new: "map_of (xa_per_account a) (account_id acc) = None" "account_id acc \<notin> fst ` set (xa_per_account a)"
    using assms by (auto simp: exposure_acc_ok_def map_of_eq_None_iff)
  have "exposure_acc_ok (ids @ [account_id acc]) (a\<lparr>xa_by_symbol := merge_exposure per (xa_by_symbol a),
      xa_per_account := dict_put (xa_per_account a) (account_id acc) (dict_sum per)\<rparr>)" for per
    using assms(1) merge_exposure_sum [of "xa_by_symbol a" per] new
    by (auto simp: exposure_acc_ok_def dict_sum_put dict_put_keys dict_put_def dict_sum_def)
  moreover have "exposure_acc_ok (ids @ [account_id acc]) (a\<lparr>xa_errors := xa_errors a @ [(account_id acc, c)]\<rparr>)" for c
    using assms(1) by (auto simp: exposure_acc_ok_def)
  moreover have "wp e (exposure_by_symbol (account_id acc)) (\<lambda>r w'. True) w" by (simp add: wp_def)
  ultimately show ?thesis
    unfolding total_step_def wp_mtry by (auto simp: wp_simps split: sum.split elim!: wp_mono)
qed

lemma total_fold_ok:
  "exposure_acc_ok ids a \<Longrightarrow> distinct (ids @ map account_id accs) \<Longrightarrow>
     wp e (mfold total_step accs a) (\<lambda>r w'. \<exists>a'. r = Inr a' \<and> exposure_acc_ok (ids @ map account_id accs) a') w"
proof (induction accs arbitrary: ids a w)
  case (Cons acc accs)
  have "account_id acc \<notin> set ids" using Cons.prems(2) by auto
  then show ?case
    unfolding mfold.simps wp_mbind
    by (rule wp_mono [OF total_step_ok [OF Cons.prems(1)]])
      (use Cons.prems(2) in \<open>auto split: sum.split dest!: Cons.IH\<close>)
qed (simp add: wp_simps)

lemma dict_sum_insort: "dict_sum (insort_key f x xs) = snd x + dict_sum xs"
  unfolding dict_sum_def by (induction xs) auto

lemma dict_sum_sort: "dict_sum (sort_key f d) = dict_sum d"
  by (induction d) (simp_all add: dict_sum_insort, simp_all add: dict_sum_def)

text \<open>The total exposure adds up and hides no account. When account identifiers are unique, the report
  always returns; its total is the sum over the symbols and the sum over the accounts; every
  account is either in the total or in the errors; and it is called complete exactly when no
  account failed.\<close>

theorem total_exposure_adds_up:
  assumes "accounts_inv w"
  shows "wp e get_total_exposure (\<lambda>r w'. \<exists>t. r = Inr t
     \<and> te_total t = dict_sum (te_by_symbol t) \<and> te_total t = dict_sum (te_per_account t)
     \<and> ac_account_id ` set (accounts (w_db w)) = fst ` set (te_per_account t) \<union> fst ` set (te_errors t)
     \<and> te_account_count t = length (accounts (w_db w)) \<and> te_complete t = (te_errors t = [])) w"
proof -
  let ?accs = "map public_account (sort_key (\<lambda>a. - ac_created_at a) (sort_key ac_account_id (accounts (w_db w))))"
  let ?a = "\<lparr>xa_by_symbol = [], xa_per_account = [], xa_errors = []\<rparr>"
  have ids: "set (map account_id ?accs) = ac_account_id ` set (accounts (w_db w))"
    by (auto simp: public_account_def image_image)
  have "distinct (map ac_account_id (accounts (w_db w)))" using assms by (simp add: accounts_inv_def)
  then have "distinct (map account_id ?accs)"
    by (simp add: public_account_def comp_def distinct_map)
  then have "wp e (mfold total_step ?accs ?a) (\<lambda>r w'. \<exists>a'. r = Inr a' \<and> exposure_acc_ok ([] @ map account_id ?accs) a') w"
    by (intro total_fold_ok) (auto simp: exposure_acc_ok_def)
  then have "wp e (mfold total_step ?accs ?a) (\<lambda>r w'. \<exists>a'. r = Inr a' \<and> exposure_acc_ok (map account_id ?accs) a') w" by simp
  then show ?thesis
    unfolding get_total_exposure_def wp_mbind list_accounts_def
    by (auto simp: wp_simps exposure_acc_ok_def ids dict_sum_sort simp del: map_map set_map elim!: wp_mono)
qed

theorem total_exposure_adds_up_witness:
  "\<exists>w. accounts (w_db w) \<noteq> [] \<and> accounts_inv w \<and> wp demo_env get_total_exposure (\<lambda>r w'. \<exists>t. r = Inr t \<and> te_complete t = (te_errors t = [])) w"
proof -
  let ?w = "demo_world (demo_db\<lparr>accounts := [demo_account ''a'' ''real'']\<rparr>)"
  have i: "accounts (w_db ?w) \<noteq> []" "accounts_inv ?w" by (simp_all add: accounts_inv_def demo_defs row_configured_def has_blob_def)
  from total_exposure_adds_up [OF i(2), of demo_env]
  have "wp demo_env get_total_exposure (\<lambda>r w'. \<exists>t. r = Inr t \<and> te_complete t = (te_errors t = [])) ?w" by (rule wp_mono) blast
  with i show ?thesis by blast
qed

subsection \<open>The scan finds what it could price\<close>

definition position_settled :: "env \<Rightarrow> account \<Rightarrow> string list \<Rightarrow> position list \<Rightarrow> string \<times> rat \<times> rat \<Rightarrow> bool" where
  "position_settled e acc sells ps afl =
     (case afl of (asset, f, l) \<Rightarrow>
        asset = QUOTE \<or> f + l \<le> 0 \<or> asset @ QUOTE \<in> set sells
        \<or> (\<exists>n. market_price e n (asset @ QUOTE) = Inr None)
        \<or> (\<exists>n p. market_price e n (asset @ QUOTE) = Inr (Some p)
             \<and> ((f + l) * p < MIN_UNPROTECTED_VALUE_USD
                \<or> \<lparr>po_account_id = account_id acc, po_label = label acc, po_symbol = asset @ QUOTE, po_quantity = f + l, po_value = (f + l) * p\<rparr> \<in> set ps)))"

lemma position_settled_mono: "position_settled e acc sells ps afl \<Longrightarrow> set ps \<subseteq> set qs \<Longrightarrow> position_settled e acc sells qs afl"
  by (cases afl) (auto simp: position_settled_def)

lemma position_step_settles:
  "wp e (position_step acc sells afl ps) (\<lambda>r w'. \<forall>ps'. r = Inr ps' \<longrightarrow> set ps \<subseteq> set ps' \<and> position_settled e acc sells ps' afl) w"
  by (cases afl) (auto simp: position_step_def position_settled_def Let_def wp_bind_simps wp_simps m_price_def split: sum.split option.split)

lemma positions_settle:
  "wp e (mfold (position_step acc sells) bs ps) (\<lambda>r w'. \<forall>ps'. r = Inr ps' \<longrightarrow>
     set ps \<subseteq> set ps' \<and> (\<forall>afl\<in>set bs. position_settled e acc sells ps' afl)) w"
proof (induction bs arbitrary: ps w)
  case (Cons afl bs)
  show ?case
    unfolding mfold.simps wp_mbind
    by (rule wp_mono [OF position_step_settles [of e acc sells afl ps]])
      (auto split: sum.split intro!: wp_mono [OF Cons.IH] intro: position_settled_mono dest: subsetD)
qed (simp add: wp_simps)

definition account_scanned :: "env \<Rightarrow> position list \<Rightarrow> account \<Rightarrow> bool" where
  "account_scanned e ps acc =
     (\<exists>n k detail ords. b_balance_detail e n (account_id acc) = Inr detail \<and> b_open_orders e k (account_id acc) = Inr ords
        \<and> (\<forall>afl\<in>set detail. position_settled e acc (sell_symbols ords) ps afl))"

lemma account_scanned_mono: "account_scanned e ps acc \<Longrightarrow> set ps \<subseteq> set qs \<Longrightarrow> account_scanned e qs acc"
  unfolding account_scanned_def using position_settled_mono by metis

lemma scan_account_scans:
  "wp e (scan_account acc s) (\<lambda>r w'. \<forall>s'. r = Inr s' \<longrightarrow> set (sc_unprotected s) \<subseteq> set (sc_unprotected s')
     \<and> set (sc_errors s) \<subseteq> set (sc_errors s') \<and> (account_id acc \<in> fst ` set (sc_errors s') \<or> account_scanned e (sc_unprotected s') acc)) w"
proof -
  have settle: "wp e (mfold (position_step acc (sell_symbols ords)) detail (sc_unprotected s)) (\<lambda>r w'. \<forall>ps. r = Inr ps \<longrightarrow>
      set (sc_unprotected s) \<subseteq> set ps \<and> account_scanned e ps acc) w'"
    if "b_balance_detail e n (account_id acc) = Inr detail" "b_open_orders e k (account_id acc) = Inr ords" for n k detail ords w'
    unfolding account_scanned_def
    by (rule wp_mono [OF positions_settle]) (intro allI impI conjI exI [of _ n] exI [of _ k] exI [of _ detail] exI [of _ ords], simp_all add: that)
  show ?thesis
    unfolding scan_account_def
    by (auto simp: wp_mtry wp_mbind [of e "broker_balance_detail _"] wp_mbind [of e "broker_open_orders _"] broker_balance_detail_def
        broker_open_orders_def wp_simps split: sum.split)
      (auto simp: wp_mbind wp_simps intro!: wp_mono [OF settle] split: sum.split)
qed

lemma public_account_simps:
  "account_id (public_account a) = ac_account_id a" "trading_lock (public_account a) = ac_trading_lock a"
  "credentials_configured (public_account a) = row_configured a"
  by (simp_all add: public_account_def)

lemma scan_all_accounts:
  "wp e (mfold scan_account accs s) (\<lambda>r w'. \<forall>s'. r = Inr s' \<longrightarrow> set (sc_unprotected s) \<subseteq> set (sc_unprotected s')
     \<and> set (sc_errors s) \<subseteq> set (sc_errors s')
     \<and> (\<forall>acc\<in>set accs. account_id acc \<in> fst ` set (sc_errors s') \<or> account_scanned e (sc_unprotected s') acc)) w"
proof (induction accs arbitrary: s w)
  case (Cons acc accs)
  show ?case
    unfolding mfold.simps wp_mbind
  proof (rule wp_mono [OF scan_account_scans [of e acc s]], goal_cases)
    case (1 r w1)
    show ?case
    proof (cases r)
      case (Inr s1)
      with 1 have s1: "set (sc_unprotected s) \<subseteq> set (sc_unprotected s1)" "set (sc_errors s) \<subseteq> set (sc_errors s1)"
        "account_id acc \<in> fst ` set (sc_errors s1) \<or> account_scanned e (sc_unprotected s1) acc" by auto
      have "account_id acc \<in> fst ` set (sc_errors s') \<or> account_scanned e (sc_unprotected s') acc"
        if "set (sc_unprotected s1) \<subseteq> set (sc_unprotected s')" "set (sc_errors s1) \<subseteq> set (sc_errors s')" for s' :: scan_report
        using s1(3) that account_scanned_mono by blast
      then have "wp e (mfold scan_account accs s1) (\<lambda>r w'. \<forall>s'. r = Inr s' \<longrightarrow> set (sc_unprotected s) \<subseteq> set (sc_unprotected s')
          \<and> set (sc_errors s) \<subseteq> set (sc_errors s')
          \<and> (\<forall>acc\<in>set (acc # accs). account_id acc \<in> fst ` set (sc_errors s') \<or> account_scanned e (sc_unprotected s') acc)) w1"
        by (intro wp_mono [OF Cons.IH] allI impI) (use s1(1,2) in \<open>simp add: subset_trans\<close>)
      with Inr show ?thesis by simp
    qed simp
  qed
qed (simp add: wp_simps)

text \<open>C31: The scan for unprotected positions overlooks nothing it could price. For every real account with
  credentials the report either names the account among its errors, or the exchange reported its
  balances and open orders, and every position that is not the quote asset, has a sell order or is
  empty is in the report, is worth less than the minimum, or had no price.\<close>

theorem unprotected_scan_complete:
  "wp e find_unprotected_positions (\<lambda>r w'. \<forall>s n. r = Inr (s, n) \<longrightarrow>
     (\<forall>a\<in>set (accounts (w_db w)). ac_trading_lock a = ''real'' \<and> row_configured a \<longrightarrow>
        ac_account_id a \<in> fst ` set (sc_errors s) \<or> account_scanned e (sc_unprotected s) (public_account a))) w"
proof -
  define real where "real = filter (\<lambda>acc. trading_lock acc = ''real'' \<and> credentials_configured acc)
    (map public_account (sort_key (\<lambda>a. - ac_created_at a) (sort_key ac_account_id (accounts (w_db w)))))"
  have real: "public_account a \<in> set real" if "a \<in> set (accounts (w_db w))" "ac_trading_lock a = ''real''" "row_configured a" for a
    using that by (simp add: real_def public_account_simps)
  have "wp e (mfold scan_account real s0) (\<lambda>r w'. \<forall>s. r = Inr s \<longrightarrow> (\<forall>a\<in>set (accounts (w_db w)).
      ac_trading_lock a = ''real'' \<and> row_configured a \<longrightarrow>
      ac_account_id a \<in> fst ` set (sc_errors s) \<or> account_scanned e (sc_unprotected s) (public_account a))) w" for s0
    by (rule wp_mono [OF scan_all_accounts]) (use real public_account_simps(1) in metis)
  then show ?thesis
    unfolding find_unprotected_positions_def wp_mbind list_accounts_def Let_def
    by (auto simp: wp_simps real_def [symmetric] simp del: set_filter split: sum.split elim!: wp_mono)
qed

theorem unprotected_scan_complete_witness:
  "\<exists>w. (\<exists>a\<in>set (accounts (w_db w)). ac_trading_lock a = ''real'' \<and> row_configured a)
     \<and> wp demo_env find_unprotected_positions (\<lambda>r w'. \<forall>s n. r = Inr (s, n) \<longrightarrow>
         ''a'' \<in> fst ` set (sc_errors s) \<or> account_scanned demo_env (sc_unprotected s) (public_account (demo_account ''a'' ''real''))) w"
proof -
  let ?w = "demo_world (demo_db\<lparr>accounts := [demo_account ''a'' ''real'']\<rparr>)"
  have a: "accounts (w_db ?w) = [demo_account ''a'' ''real'']" by (simp add: demo_world_def demo_db_def)
  have r: "ac_trading_lock (demo_account ''a'' ''real'') = ''real''" "row_configured (demo_account ''a'' ''real'')"
      "ac_account_id (demo_account ''a'' ''real'') = ''a''"
    by (simp_all add: demo_defs row_configured_def has_blob_def)
  have "wp demo_env find_unprotected_positions (\<lambda>r w'. \<forall>s n. r = Inr (s, n) \<longrightarrow>
         ''a'' \<in> fst ` set (sc_errors s) \<or> account_scanned demo_env (sc_unprotected s) (public_account (demo_account ''a'' ''real''))) ?w"
    by (rule wp_mono [OF unprotected_scan_complete]) (use a r in auto)
  with a r show ?thesis by (intro exI [of _ ?w]) simp
qed

text \<open>A position that cannot be priced is left out of a report that is called complete.\<close>

theorem unpriced_position_hidden:
  "(case fst (find_unprotected_positions
       (demo_env\<lparr>b_balance_detail := (\<lambda>_ _. Inr [(''BTC'', 5, 0)]), market_price := (\<lambda>_ _. Inr None)\<rparr>)
       (demo_world (demo_db\<lparr>accounts := [demo_account ''a'' ''real'']\<rparr>))) of
      Inr (s, n) \<Rightarrow> n = 1 \<and> sc_unprotected s = [] \<and> sc_errors s = [] | Inl _ \<Rightarrow> False)"
  by code_simp

end
