(* ===== verification/Histories.thy ===== *)
theory Histories
  imports Alerts Exposure
begin

text \<open>
  Histories of the daemon: sequences of complete calls of the order, account, risk-policy,
  approval and alarm services over one database (the write queue serialises the transactions and the
  per-account locks the order calls). The invariants hold in every state a history reaches.
\<close>

subsection \<open>Histories\<close>

inductive service_step :: "env \<Rightarrow> world \<Rightarrow> world \<Rightarrow> bool" for e where
  Place: "place_order a s sd t q p sp k actor e w = (r, w') \<Longrightarrow> service_step e w w'"
| Place_Oco: "place_oco_order a s sd q p sp slp k actor e w = (r2, w') \<Longrightarrow> service_step e w w'"
| Execute: "execute_on_accounts ids tgs s sd en sl rp k t actor e w = (r3, w') \<Longrightarrow> service_step e w w'"
| Reconcile: "reconcile_open_orders e w = (r4, w') \<Longrightarrow> service_step e w w'"
| Close_All: "close_all_positions a actor e w = (r5, w') \<Longrightarrow> service_step e w w'"
| Add_Account: "add_account l k s t mk actor e w = (r6, w') \<Longrightarrow> service_step e w w'"
| Remove_Account: "remove_account a actor e w = (r7, w') \<Longrightarrow> service_step e w w'"
| Enable: "enable_real_trading a actor e w = (r7, w') \<Longrightarrow> service_step e w w'"
| Disable: "disable_real_trading a actor e w = (r7, w') \<Longrightarrow> service_step e w w'"
| Set_Policy: "set_risk_policy a n g s cn ca cs actor e w = (r8, w') \<Longrightarrow> service_step e w w'"
| Create_Override: "create_override a reason scope k actor expires ttl e w = (r9, w') \<Longrightarrow> service_step e w w'"
| Reconcile_Overrides: "reconcile_overrides e w = (r10, w') \<Longrightarrow> service_step e w w'"
| Approve: "approve_pending_order_handler i actor e w = (r11, w') \<Longrightarrow> service_step e w w'"
| Reject: "reject_pending_order i reason' e w = (r12, w') \<Longrightarrow> service_step e w w'"
| Recover: "reconcile_pending_executions n' e w = (r13, w') \<Longrightarrow> service_step e w w'"
| Create_Alert: "create_alert a1 a2 a3 a4 a5 a6 e w = (r14, w') \<Longrightarrow> service_step e w w'"
| Create_Composite: "create_composite_alert b1 b2 b3 b4 e w = (r15, w') \<Longrightarrow> service_step e w w'"
| Delete_Alert: "delete_alert k' e w = (r16, w') \<Longrightarrow> service_step e w w'"
| Evaluate: "evaluate_symbol cc c1 c2 e w = (r17, w') \<Longrightarrow> service_step e w w'"
| Analysis_Updated: "on_analysis_updated cc c1 c2 an' c3 cs c4 fr oi e w = (r18, w') \<Longrightarrow> service_step e w w'"
| Total_Exposure: "get_total_exposure e w = (r19, w') \<Longrightarrow> service_step e w w'"
| Account_Balance: "get_account_balance a e w = (r20, w') \<Longrightarrow> service_step e w w'"
| Open_Orders: "get_open_orders a e w = (r21, w') \<Longrightarrow> service_step e w w'"
| Unprotected: "find_unprotected_positions e w = (r22, w') \<Longrightarrow> service_step e w w'"
| List_Alerts: "list_alerts e w = (r23, w') \<Longrightarrow> service_step e w w'"

inductive history :: "env \<Rightarrow> world \<Rightarrow> world \<Rightarrow> bool" for e where
  History_Refl: "history e w w"
| History_Step: "history e w w1 \<Longrightarrow> service_step e w1 w2 \<Longrightarrow> history e w w2"

text \<open>What the steps of the alarm engine respect.\<close>

lemma alarm_step_log: "keeps alarm_step m \<Longrightarrow> keeps log_kept m"
  by (erule keeps_mono) (auto simp: alarm_step_def alarm_frame_def places_def intro!: log_kept_silent orders_evolve_same)

lemma alarm_step_accounts: "keeps alarm_step m \<Longrightarrow> keeps keeps_accounts m"
  by (erule keeps_mono) (simp add: alarm_step_def alarm_frame_def keeps_accounts_same)

lemma alarm_step_overrides: "keeps alarm_step m \<Longrightarrow> keeps ov_evolves m"
  by (erule keeps_mono) (simp add: alarm_step_def alarm_frame_def ov_evolves_same)

lemma alarm_step_pending: "keeps alarm_step m \<Longrightarrow> keeps pending_evolve m"
  by (erule keeps_mono) (auto simp: alarm_step_def pending_evolve_def intro!: list.rel_refl)

text \<open>Triggers are never removed and never recorded twice.\<close>

definition triggers_kept :: "world \<Rightarrow> world \<Rightarrow> bool" where
  "triggers_kept w w' =
     ((\<exists>new. triggered (w_db w') = triggered (w_db w) @ new) \<and> (distinct (trigger_keys w) \<longrightarrow> distinct (trigger_keys w')))"

lemma triggers_kept_same: "triggered (w_db w') = triggered (w_db w) \<Longrightarrow> triggers_kept w w'"
  by (simp add: triggers_kept_def trigger_keys_def)

interpretation triggers_kept: db_relation triggers_kept
proof unfold_locales
  show "triggers_kept w w''" if "triggers_kept w w'" "triggers_kept w' w''" for w w' w''
    using that unfolding triggers_kept_def by fastforce
qed (simp_all add: triggers_kept_same)

interpretation triggers_client: orders_client triggers_kept
proof unfold_locales
  show "keeps triggers_kept (consume_override a v i)" for a v i
    by (rule keeps_mono [OF consume_override_frame]) (simp add: risk_frame_def triggers_kept_same)
qed (simp add: triggers_kept_same)

interpretation triggers_approval: approval_client triggers_kept
  by unfold_locales (simp_all add: pending_frame_def triggers_kept_same triggers_client.resp_order_service)

lemma other_services_triggers:
  "keeps account_frame m \<Longrightarrow> keeps triggers_kept m" "keeps risk_frame m \<Longrightarrow> keeps triggers_kept m"
  "keeps alarm_step m \<Longrightarrow> keeps triggers_kept m"
  by (erule keeps_mono, simp add: account_frame_def risk_frame_def triggers_kept_same,
      erule keeps_mono, simp add: account_frame_def risk_frame_def triggers_kept_same,
      erule keeps_mono, simp add: alarm_step_def triggers_kept_def)

lemmas service_triggers = triggers_client.resp_order_service triggers_approval.resp_approval
  other_services_triggers(1) [OF add_account_frame] other_services_triggers(1) [OF remove_account_frame]
  other_services_triggers(1) [OF enable_real_trading_frame] other_services_triggers(1) [OF disable_real_trading_frame]
  risk_service_frame [THEN other_services_triggers(2)] alarm_service_step [THEN other_services_triggers(3)]

lemmas service_log = place_order_log place_oco_order_log execute_on_accounts_log
  silent_keeps [OF reconcile_open_orders_evolves reconcile_open_orders_no_place] close_all_positions_log
  other_services_log(1) [OF add_account_frame] other_services_log(1) [OF remove_account_frame]
  other_services_log(1) [OF enable_real_trading_frame] other_services_log(1) [OF disable_real_trading_frame]
  risk_service_frame [THEN other_services_log(2)] log_approval.resp_approval
  alarm_service_step [THEN alarm_step_log]

lemmas service_accounts = accounts_client.resp_order_service add_inv remove_inv enable_inv disable_inv
  risk_service_frame [THEN risk_frame_accounts] accounts_approval.resp_approval
  alarm_service_step [THEN alarm_step_accounts]

lemmas service_overrides = override_client.resp_order_service
  account_frame_overrides [OF add_account_frame] account_frame_overrides [OF remove_account_frame]
  account_frame_overrides [OF enable_real_trading_frame] account_frame_overrides [OF disable_real_trading_frame]
  set_risk_policy_evolves create_override_evolves reconcile_overrides_evolves override_approval.resp_approval
  alarm_service_step [THEN alarm_step_overrides]

lemma other_services_pending:
  "keeps account_frame m \<Longrightarrow> keeps pending_evolve m" "keeps risk_frame m \<Longrightarrow> keeps pending_evolve m"
  by (erule keeps_mono, simp add: account_frame_def risk_frame_def pending_evolve_same)+

lemmas service_pending = pending_client.resp_order_service
  other_services_pending(1) [OF add_account_frame] other_services_pending(1) [OF remove_account_frame]
  other_services_pending(1) [OF enable_real_trading_frame] other_services_pending(1) [OF disable_real_trading_frame]
  risk_service_frame [THEN other_services_pending(2)] handler_evolves reject_evolves recovery_evolves
  alarm_service_step [THEN alarm_step_pending]

definition services_keep :: "world \<Rightarrow> world \<Rightarrow> bool" where
  "services_keep w w' = (log_kept w w' \<and> keeps_accounts w w' \<and> ov_evolves w w' \<and> pending_evolve w w' \<and> triggers_kept w w')"

text \<open>A report keeps everything.\<close>

lemma reads_only_kept: "keeps reads_only m \<Longrightarrow> keeps services_keep m"
  unfolding keeps_def
proof (intro allI)
  fix e w
  assume "\<forall>e w. reads_only w (snd (m e w))"
  then have d: "w_db (snd (m e w)) = w_db w" and t: "filter is_mutating (w_trace (snd (m e w))) = filter is_mutating (w_trace w)"
    by (simp_all add: reads_only_def)
  have place: "filter is_place t' = filter is_place (filter is_mutating t')" for t'
    by (induction t') (auto split: if_splits elim: is_place.elims)
  have "places (snd (m e w)) = places w" unfolding places_def using t place by metis
  then have "log_kept w (snd (m e w))" by (intro log_kept_silent orders_evolve_same) (simp_all add: d)
  then show "services_keep w (snd (m e w))"
    by (simp add: services_keep_def d keeps_accounts_same ov_evolves_same pending_evolve_same triggers_kept_same)
qed

lemma services_keep_parts:
  "keeps services_keep m \<Longrightarrow> keeps log_kept m" "keeps services_keep m \<Longrightarrow> keeps keeps_accounts m"
  "keeps services_keep m \<Longrightarrow> keeps ov_evolves m" "keeps services_keep m \<Longrightarrow> keeps pending_evolve m"
  "keeps services_keep m \<Longrightarrow> keeps triggers_kept m"
  by (erule keeps_mono, simp add: services_keep_def)+

lemma list_alerts_reads_only: "keeps reads_only list_alerts"
  unfolding list_alerts_def by (rule reads_only_rules)+

lemmas all_reports = reports_read_only list_alerts_reads_only
lemmas report_kept = services_keep_parts [OF reads_only_kept]
lemmas service_reports = all_reports [THEN report_kept(1)] all_reports [THEN report_kept(2)]
  all_reports [THEN report_kept(3)] all_reports [THEN report_kept(4)] all_reports [THEN report_kept(5)]

lemma service_step_kept: "service_step e w w' \<Longrightarrow> services_keep w w'"
  unfolding services_keep_def
  by (induction rule: service_step.induct)
    (blast intro: service_log [THEN keepsD] service_accounts [THEN keepsD] service_overrides [THEN keepsD]
        service_pending [THEN keepsD] service_triggers [THEN keepsD] service_reports [THEN keepsD])+

lemma history_kept: "history e w w' \<Longrightarrow> services_keep w w'"
proof (induction rule: history.induct)
  case (History_Refl w)
  show ?case
    by (simp add: services_keep_def log_kept.R_refl accounts_inv.R_refl override_life.R_refl pending_evolve.R_refl triggers_kept.R_refl)
next
  case (History_Step w w1 w2)
  from service_step_kept [OF History_Step.hyps(2)] History_Step.IH show ?case
    unfolding services_keep_def
    using log_kept.R_trans accounts_inv.R_trans override_life.R_trans pending_evolve.R_trans triggers_kept.R_trans by metis
qed

end
