(* ===== verification/Schema_Lite.thy ===== *)
theory Schema_Lite
  imports Numeric
begin

text \<open>
  The validator of tool parameters (\<open>schema_lite.py\<close>). A schema is the list of its keywords, as in the
  dictionary of the source; a schema without \<open>type\<close> admits everything its \<open>enum\<close> admits. The texts of
  the messages are not modelled.
\<close>

subsection \<open>Schemas\<close>

datatype jtype = Object | Array | Str | Number | Integer | Boolean

datatype 's keyword =
    Type jtype
  | Enum "string list"
  | Properties "(string \<times> 's) list"
  | Required "string list"
  | AdditionalProperties bool
  | Items 's
  | Minimum rat
  | Maximum rat
  | ExclusiveMinimum rat
  | ExclusiveMaximum rat
  | MinLength nat
  | MaxLength nat
  | Default pyval

datatype schema = Schema (schema_keywords: "schema keyword list")

fun first_some :: "('a \<Rightarrow> 'b option) \<Rightarrow> 'a list \<Rightarrow> 'b option" where
  "first_some f [] = None"
| "first_some f (x # xs) = (case f x of Some y \<Rightarrow> Some y | None \<Rightarrow> first_some f xs)"

definition schema_type :: "schema \<Rightarrow> jtype option" where
  "schema_type s = first_some (\<lambda>k. case k of Type t \<Rightarrow> Some t | _ \<Rightarrow> None) (schema_keywords s)"

definition schema_enum :: "schema \<Rightarrow> string list option" where
  "schema_enum s = first_some (\<lambda>k. case k of Enum vs \<Rightarrow> Some vs | _ \<Rightarrow> None) (schema_keywords s)"

definition schema_properties :: "schema \<Rightarrow> (string \<times> schema) list" where
  "schema_properties s =
     (case first_some (\<lambda>k. case k of Properties ps \<Rightarrow> Some ps | _ \<Rightarrow> None) (schema_keywords s) of Some ps \<Rightarrow> ps | None \<Rightarrow> [])"

definition schema_required :: "schema \<Rightarrow> string list" where
  "schema_required s =
     (case first_some (\<lambda>k. case k of Required rs \<Rightarrow> Some rs | _ \<Rightarrow> None) (schema_keywords s) of Some rs \<Rightarrow> rs | None \<Rightarrow> [])"

definition schema_closed :: "schema \<Rightarrow> bool" where
  "schema_closed s = (first_some (\<lambda>k. case k of AdditionalProperties b \<Rightarrow> Some b | _ \<Rightarrow> None) (schema_keywords s) = Some False)"

definition schema_items :: "schema \<Rightarrow> schema" where
  "schema_items s =
     (case first_some (\<lambda>k. case k of Items i \<Rightarrow> Some i | _ \<Rightarrow> None) (schema_keywords s) of Some i \<Rightarrow> i | None \<Rightarrow> Schema [])"

definition TRANSPORT_FIELDS :: "string list" where
  "TRANSPORT_FIELDS = [''request_id'', ''idempotency_key'']"

subsection \<open>The validator\<close>

abbreviation invalid_params :: pyexc where
  "invalid_params \<equiv> rasat INVALID_REQUEST"

fun out_of_bounds :: "rat \<Rightarrow> 's keyword \<Rightarrow> bool" where
  "out_of_bounds q (Minimum m) = (q < m)"
| "out_of_bounds q (Maximum m) = (m < q)"
| "out_of_bounds q (ExclusiveMinimum m) = (q \<le> m)"
| "out_of_bounds q (ExclusiveMaximum m) = (m \<le> q)"
| "out_of_bounds q _ = False"

fun out_of_length :: "nat \<Rightarrow> 's keyword \<Rightarrow> bool" where
  "out_of_length n (MinLength m) = (n < m)"
| "out_of_length n (MaxLength m) = (m < n)"
| "out_of_length n _ = False"

definition number_of :: "pyval \<Rightarrow> rat res" where
  "number_of v =
     (case v of
        PInt n \<Rightarrow> rbind (float_of_int n) (\<lambda>f. case f of Fin q \<Rightarrow> Inr q | _ \<Rightarrow> Inl invalid_params)
      | PFloat (Fin q) \<Rightarrow> Inr q
      | _ \<Rightarrow> Inl invalid_params)"

definition is_int :: "pyval \<Rightarrow> bool" where
  "is_int v = (case v of PInt _ \<Rightarrow> True | _ \<Rightarrow> False)"

definition check_number :: "pyval \<Rightarrow> schema \<Rightarrow> bool \<Rightarrow> unit res" where
  "check_number v s whole =
     rbind (number_of v) (\<lambda>q.
     rbind (raise_if (whole \<and> \<not> is_int v) invalid_params) (\<lambda>_.
       raise_if (list_ex (out_of_bounds q) (schema_keywords s)) invalid_params))"

definition check_enum :: "pyval \<Rightarrow> schema \<Rightarrow> unit res" where
  "check_enum v s =
     (case schema_enum s of
        None \<Rightarrow> Inr ()
      | Some vs \<Rightarrow> (case v of PStr x \<Rightarrow> raise_if (x \<notin> set vs) invalid_params | _ \<Rightarrow> Inl invalid_params))"

definition extra_fields :: "pydict \<Rightarrow> schema \<Rightarrow> string list" where
  "extra_fields d s = filter (\<lambda>k. k \<notin> fst ` set (schema_properties s) \<and> k \<notin> set TRANSPORT_FIELDS) (map fst d)"

function validate :: "pyval \<Rightarrow> schema \<Rightarrow> unit res" where
  "validate v s =
     rbind (check_enum v s) (\<lambda>_.
       (case schema_type s of
          None \<Rightarrow> Inr ()
        | Some Object \<Rightarrow>
            (case v of
               PDict d \<Rightarrow>
                 rbind (raise_if (schema_closed s \<and> extra_fields d s \<noteq> []) invalid_params) (\<lambda>_.
                 rbind (riter (\<lambda>p. case map_of d (fst p) of None \<Rightarrow> Inr () | Some x \<Rightarrow> validate x (snd p)) (schema_properties s)) (\<lambda>_.
                   raise_if (list_ex (\<lambda>r. r \<notin> fst ` set d) (schema_required s)) invalid_params))
             | _ \<Rightarrow> Inl invalid_params)
        | Some Array \<Rightarrow>
            (case v of
               PList xs \<Rightarrow> riter (\<lambda>x. validate x (schema_items s)) xs
             | _ \<Rightarrow> Inl invalid_params)
        | Some Str \<Rightarrow>
            (case v of
               PStr x \<Rightarrow> raise_if (list_ex (out_of_length (length x)) (schema_keywords s)) invalid_params
             | _ \<Rightarrow> Inl invalid_params)
        | Some Number \<Rightarrow> check_number v s False
        | Some Integer \<Rightarrow> check_number v s True
        | Some Boolean \<Rightarrow> (case v of PBool _ \<Rightarrow> Inr () | _ \<Rightarrow> Inl invalid_params)))"
  by pat_completeness auto
termination
  by (relation "measure (size \<circ> fst)") (auto dest!: size_map_of size_in_list)

declare validate.simps [simp del]

definition validate_params :: "pydict \<Rightarrow> schema \<Rightarrow> unit res" where
  "validate_params d s = validate (PDict d) s"

subsection \<open>Conformance\<close>

text \<open>A JSON number: an integer that fits a float or a finite float, and never a boolean.\<close>

fun json_number :: "pyval \<Rightarrow> rat option" where
  "json_number (PInt n) = (if \<bar>n\<bar> < float_limit then Some (of_int n) else None)"
| "json_number (PFloat (Fin q)) = Some q"
| "json_number _ = None"

definition enum_ok :: "pyval \<Rightarrow> schema \<Rightarrow> bool" where
  "enum_ok v s \<longleftrightarrow> (\<forall>vs. schema_enum s = Some vs \<longrightarrow> v \<in> PStr ` set vs)"

text \<open>What it means that a value conforms to a schema, by the type of the schema.\<close>

inductive conforms :: "pyval \<Rightarrow> schema \<Rightarrow> bool" where
  Any: "enum_ok v s \<Longrightarrow> schema_type s = None \<Longrightarrow> conforms v s"
| Object: "enum_ok (PDict d) s \<Longrightarrow> schema_type s = Some Object
    \<Longrightarrow> (schema_closed s \<longrightarrow> fst ` set d \<subseteq> fst ` set (schema_properties s) \<union> set TRANSPORT_FIELDS)
    \<Longrightarrow> set (schema_required s) \<subseteq> fst ` set d
    \<Longrightarrow> (\<And>k sub x. (k, sub) \<in> set (schema_properties s) \<Longrightarrow> map_of d k = Some x \<Longrightarrow> conforms x sub)
    \<Longrightarrow> conforms (PDict d) s"
| Array: "enum_ok (PList xs) s \<Longrightarrow> schema_type s = Some Array
    \<Longrightarrow> (\<And>x. x \<in> set xs \<Longrightarrow> conforms x (schema_items s)) \<Longrightarrow> conforms (PList xs) s"
| String: "enum_ok (PStr x) s \<Longrightarrow> schema_type s = Some Str
    \<Longrightarrow> (\<forall>k\<in>set (schema_keywords s). \<not> out_of_length (length x) k) \<Longrightarrow> conforms (PStr x) s"
| Number: "enum_ok v s \<Longrightarrow> schema_type s = Some Number \<Longrightarrow> json_number v = Some q
    \<Longrightarrow> (\<forall>k\<in>set (schema_keywords s). \<not> out_of_bounds q k) \<Longrightarrow> conforms v s"
| Integer: "enum_ok (PInt n) s \<Longrightarrow> schema_type s = Some Integer \<Longrightarrow> json_number (PInt n) = Some q
    \<Longrightarrow> (\<forall>k\<in>set (schema_keywords s). \<not> out_of_bounds q k) \<Longrightarrow> conforms (PInt n) s"
| Boolean: "enum_ok (PBool b) s \<Longrightarrow> schema_type s = Some Boolean \<Longrightarrow> conforms (PBool b) s"

inductive_cases conforms_cases: "conforms v s"

lemma check_enum_eq: "check_enum v s = (if enum_ok v s then Inr () else Inl invalid_params)"
  by (auto simp: check_enum_def enum_ok_def split: option.split pyval.split)

lemma number_of_Inr: "number_of v = Inr q \<longleftrightarrow> json_number v = Some q"
proof (cases v)
  case (PFloat f)
  then show ?thesis by (cases f) (auto simp: number_of_def)
qed (auto simp: number_of_def float_of_int_def)

lemma number_of_Inl: "number_of v = Inl x \<Longrightarrow> x = invalid_params \<or> x = OverflowError"
  by (auto simp: number_of_def float_of_int_def split: pyval.splits if_splits pyfloat.splits)

lemma check_number_ok:
  "check_number v s whole = Inr u \<longleftrightarrow>
     (\<exists>q. json_number v = Some q \<and> (whole \<longrightarrow> is_int v) \<and> (\<forall>k\<in>set (schema_keywords s). \<not> out_of_bounds q k))"
  by (auto simp: check_number_def rbind_Inr_iff number_of_Inr list_ex_iff)

lemma check_number_Inl: "check_number v s whole = Inl x \<Longrightarrow> x = invalid_params \<or> x = OverflowError"
  by (auto simp: check_number_def rbind_Inl_iff dest: number_of_Inl)

lemma extra_fields_empty:
  "extra_fields d s = [] \<longleftrightarrow> fst ` set d \<subseteq> fst ` set (schema_properties s) \<union> set TRANSPORT_FIELDS"
  by (auto simp: extra_fields_def filter_empty_conv)

lemma is_int_iff: "is_int v \<longleftrightarrow> (\<exists>n. v = PInt n)"
  by (cases v) (simp_all add: is_int_def)

text \<open>The validator, by the type of the schema.\<close>

lemma validate_untyped: "schema_type s = None \<Longrightarrow> validate v s = check_enum v s"
  by (simp add: validate.simps [of v s] check_enum_eq)

lemma validate_object:
  "schema_type s = Some Object \<Longrightarrow> validate (PDict d) s = rbind (check_enum (PDict d) s) (\<lambda>_.
     rbind (raise_if (schema_closed s \<and> extra_fields d s \<noteq> []) invalid_params) (\<lambda>_.
     rbind (riter (\<lambda>p. case map_of d (fst p) of None \<Rightarrow> Inr () | Some x \<Rightarrow> validate x (snd p)) (schema_properties s)) (\<lambda>_.
       raise_if (list_ex (\<lambda>r. r \<notin> fst ` set d) (schema_required s)) invalid_params)))"
  "schema_type s = Some Object \<Longrightarrow> (\<And>d. v \<noteq> PDict d) \<Longrightarrow> validate v s = Inl invalid_params"
  by (simp add: validate.simps [of "PDict d" s]) (subst validate.simps, cases v, auto simp: check_enum_eq)

lemma validate_array:
  "schema_type s = Some Array \<Longrightarrow>
     validate (PList xs) s = rbind (check_enum (PList xs) s) (\<lambda>_. riter (\<lambda>x. validate x (schema_items s)) xs)"
  "schema_type s = Some Array \<Longrightarrow> (\<And>xs. v \<noteq> PList xs) \<Longrightarrow> validate v s = Inl invalid_params"
  by (simp add: validate.simps [of "PList xs" s]) (subst validate.simps, cases v, auto simp: check_enum_eq)

lemma validate_string:
  "schema_type s = Some Str \<Longrightarrow> validate (PStr t) s = rbind (check_enum (PStr t) s) (\<lambda>_.
     raise_if (list_ex (out_of_length (length t)) (schema_keywords s)) invalid_params)"
  "schema_type s = Some Str \<Longrightarrow> (\<And>t. v \<noteq> PStr t) \<Longrightarrow> validate v s = Inl invalid_params"
  by (simp add: validate.simps [of "PStr t" s]) (subst validate.simps, cases v, auto simp: check_enum_eq)

lemma validate_scalar:
  "schema_type s = Some Number \<Longrightarrow> validate v s = rbind (check_enum v s) (\<lambda>_. check_number v s False)"
  "schema_type s = Some Integer \<Longrightarrow> validate v s = rbind (check_enum v s) (\<lambda>_. check_number v s True)"
  "schema_type s = Some Boolean \<Longrightarrow> validate v s = rbind (check_enum v s) (\<lambda>_. case v of PBool _ \<Rightarrow> Inr () | _ \<Rightarrow> Inl invalid_params)"
  by (simp_all add: validate.simps [of v s])

lemmas validate_by_type = validate_untyped validate_object(1) validate_array(1) validate_string(1) validate_scalar

lemma validate_shape:
  "schema_type s = Some Object \<Longrightarrow> validate v s = Inr () \<Longrightarrow> \<exists>d. v = PDict d"
  "schema_type s = Some Array \<Longrightarrow> validate v s = Inr () \<Longrightarrow> \<exists>xs. v = PList xs"
  "schema_type s = Some Str \<Longrightarrow> validate v s = Inr () \<Longrightarrow> \<exists>t. v = PStr t"
  using validate_object(2) [of s v] validate_array(2) [of s v] validate_string(2) [of s v] by (cases v; simp)+

lemma validate_fields:
  assumes "schema_type s = Some Object" "validate (PDict d) s = Inr ()"
  shows "enum_ok (PDict d) s" "schema_closed s \<longrightarrow> fst ` set d \<subseteq> fst ` set (schema_properties s) \<union> set TRANSPORT_FIELDS"
    "set (schema_required s) \<subseteq> fst ` set d"
    "(k, sub) \<in> set (schema_properties s) \<Longrightarrow> map_of d k = Some x \<Longrightarrow> validate x sub = Inr ()"
proof -
  from assms have v: "enum_ok (PDict d) s" "\<not> (schema_closed s \<and> extra_fields d s \<noteq> [])"
      "\<forall>p\<in>set (schema_properties s). (case map_of d (fst p) of None \<Rightarrow> Inr () | Some x \<Rightarrow> validate x (snd p)) = Inr ()"
      "\<not> list_ex (\<lambda>r. r \<notin> fst ` set d) (schema_required s)"
    by (simp_all add: validate_object(1) check_enum_eq rbind_Inr_iff riter_Inr_iff split: if_splits)
  from v(1) show "enum_ok (PDict d) s" .
  from v(2) show "schema_closed s \<longrightarrow> fst ` set d \<subseteq> fst ` set (schema_properties s) \<union> set TRANSPORT_FIELDS"
    using extra_fields_empty by blast
  from v(4) show "set (schema_required s) \<subseteq> fst ` set d" by (auto simp: list_ex_iff)
  show "(k, sub) \<in> set (schema_properties s) \<Longrightarrow> map_of d k = Some x \<Longrightarrow> validate x sub = Inr ()"
    using v(3) by (auto dest!: bspec)
qed

lemma validate_elements:
  assumes "schema_type s = Some Array" "validate (PList xs) s = Inr ()"
  shows "enum_ok (PList xs) s" "x \<in> set xs \<Longrightarrow> validate x (schema_items s) = Inr ()"
  using assms by (auto simp: validate_array check_enum_eq rbind_Inr_iff riter_Inr_iff split: if_splits)

lemma validate_sound: "validate v s = Inr () \<Longrightarrow> conforms v s"
proof (induction v s rule: validate.induct)
  case (1 v s)
  show ?case
  proof (cases "schema_type s")
    case None
    with 1(3) show ?thesis by (auto simp: validate_untyped check_enum_eq intro: Any split: if_splits)
  next
    case (Some t)
    show ?thesis
    proof (cases t)
      case Object
      with Some have t: "schema_type s = Some Object" by simp
      from validate_shape(1) [OF t 1(3)] obtain d where d: "v = PDict d" by blast
      note valid = validate_fields [OF t 1(3) [unfolded d]]
      have "conforms x sub" if "(k, sub) \<in> set (schema_properties s)" "map_of d k = Some x" for k sub x
        using 1(1) [OF Some Object d that(1)] valid(4) [OF that] that by simp
      with t valid(1-3) d show ?thesis by (auto intro!: conforms.Object)
    next
      case Array
      with Some have t: "schema_type s = Some Array" by simp
      from validate_shape(2) [OF t 1(3)] obtain xs where xs: "v = PList xs" by blast
      note valid = validate_elements [OF t 1(3) [unfolded xs]]
      have "conforms x (schema_items s)" if "x \<in> set xs" for x
        using 1(2) [OF Some Array xs that] valid(2) [OF that] by simp
      with t valid(1) xs show ?thesis by (auto intro!: conforms.Array)
    next
      case Str
      with Some have t: "schema_type s = Some Str" by simp
      from validate_shape(3) [OF t 1(3)] obtain x where "v = PStr x" by blast
      with t 1(3) show ?thesis
        by (auto simp: validate_string check_enum_eq list_ex_iff split: if_splits intro!: conforms.String)
    qed (use Some 1(3) in \<open>auto simp: validate_scalar check_enum_eq check_number_ok is_int_iff
          split: pyval.splits if_splits intro: conforms.intros\<close>)
  qed
qed

lemma validate_complete: "conforms v s \<Longrightarrow> validate v s = Inr ()"
proof (induction rule: conforms.induct)
  case (Object d s)
  have "riter (\<lambda>p. case map_of d (fst p) of None \<Rightarrow> Inr () | Some x \<Rightarrow> validate x (snd p)) (schema_properties s) = Inr ()"
    using Object.IH by (auto simp: riter_Inr_iff split: option.split)
  moreover have "\<not> (schema_closed s \<and> extra_fields d s \<noteq> [])" using Object.hyps(3) extra_fields_empty by blast
  moreover have "\<not> list_ex (\<lambda>r. r \<notin> fst ` set d) (schema_required s)" using Object.hyps(4) by (auto simp: list_ex_iff)
  ultimately show ?case using Object.hyps(1,2) by (simp add: validate_object(1) check_enum_eq raise_if_def)
next
  case (Array xs s)
  then show ?case by (simp add: validate_array(1) check_enum_eq riter_Inr_iff)
qed (auto simp: validate_by_type check_enum_eq check_number_ok is_int_def list_ex_iff)

lemma validate_errors: "validate v s = Inl x \<Longrightarrow> x = invalid_params \<or> x = OverflowError"
proof (induction v s rule: validate.induct)
  case (1 v s)
  show ?case
  proof (cases "schema_type s")
    case (Some t)
    show ?thesis
    proof (cases t)
      case Object
      with Some have t: "schema_type s = Some Object" by simp
      show ?thesis
      proof (cases "\<exists>d. v = PDict d")
        case True
        then obtain d where d: "v = PDict d" by blast
        show ?thesis
        proof (rule ccontr)
          assume x: "\<not> (x = invalid_params \<or> x = OverflowError)"
          with 1(3) t obtain p y where p: "p \<in> set (schema_properties s)" "map_of d (fst p) = Some y" "validate y (snd p) = Inl x"
            by (auto simp: d validate_object(1) check_enum_eq rbind_Inl_iff raise_if_def split: if_splits option.splits dest!: riter_InlD)
          from 1(1) [OF Some Object d p] x show False by simp
        qed
      qed (use t 1(3) validate_object(2) in auto)
    next
      case Array
      with Some have t: "schema_type s = Some Array" by simp
      show ?thesis
      proof (cases "\<exists>xs. v = PList xs")
        case True
        then obtain xs where xs: "v = PList xs" by blast
        show ?thesis
        proof (cases "enum_ok v s")
          case en: True
          with 1(3) t obtain y where y: "y \<in> set xs" "validate y (schema_items s) = Inl x"
            by (auto simp: xs validate_array(1) check_enum_eq dest!: riter_InlD)
          from 1(2) [OF Some Array xs y] show ?thesis .
        qed (use t 1(3) in \<open>simp add: xs validate_array(1) check_enum_eq\<close>)
      qed (use t 1(3) validate_array(2) in auto)
    next
      case Str
      with Some 1(3) validate_string(2) [of s v] show ?thesis
        by (cases "\<exists>t. v = PStr t") (auto simp: validate_string(1) check_enum_eq raise_if_def split: if_splits)
    qed (use Some 1(3) in \<open>auto simp: validate_scalar check_enum_eq dest: check_number_Inl split: pyval.splits if_splits\<close>)
  qed (use 1(3) in \<open>auto simp: validate_untyped check_enum_eq split: if_splits\<close>)
qed

text \<open>C27: The validator decides conformance. It accepts exactly the values that conform to the schema, at
  every depth: closed objects have no unknown field, required fields are there, every known field
  and every element conforms to its own schema, strings and numbers are within their bounds, and a
  boolean is not a number. When it refuses, the error is \<open>INVALID_REQUEST\<close>, or the
  \<open>OverflowError\<close> of an integer that is too large for a float.\<close>

theorem validator_decides_conformance:
  "(validate v s = Inr () \<longleftrightarrow> conforms v s) \<and> validate v s \<in> {Inr (), Inl (rasat INVALID_REQUEST), Inl OverflowError}"
proof -
  have "validate v s = Inr () \<longleftrightarrow> conforms v s" using validate_sound validate_complete by blast
  moreover have "validate v s \<in> {Inr (), Inl (rasat INVALID_REQUEST), Inl OverflowError}"
    using validate_errors [of v s] by (cases "validate v s") auto
  ultimately show ?thesis by blast
qed

text \<open>The integer \<open>10 ^ 400\<close> is not refused as \<open>INVALID_REQUEST\<close>.\<close>

theorem huge_integer_overflows:
  "validate (PInt (10 ^ 400)) (Schema [Type Integer, Minimum 0]) = Inl OverflowError"
  by code_simp

end
