(* ===== verification/Tools.thy ===== *)
theory Tools
  imports Broker Schema_Lite
begin

text \<open>
  The tool registry shared by the daemon and the adapter (\<open>tools.py\<close>): every tool with the schema of
  its parameters, in the order of the source. Descriptions are texts for the agent and left out.
\<close>

subsection \<open>The registry\<close>

record tool_spec =
  ts_name :: string
  ts_schema :: schema
  ts_allowed_before_ready :: bool

text \<open>\<open>ToolRegistry\<close>: the registered tools, in order.\<close>

definition register_tool :: "tool_spec list \<Rightarrow> tool_spec \<Rightarrow> tool_spec list res" where
  "register_tool tools spec = (if ts_name spec \<in> set (map ts_name tools) then Inl ValueError else Inr (tools @ [spec]))"

fun register_all :: "tool_spec list \<Rightarrow> tool_spec list \<Rightarrow> tool_spec list res" where
  "register_all tools [] = Inr tools"
| "register_all tools (t # ts) = rbind (register_tool tools t) (\<lambda>tools'. register_all tools' ts)"

definition tool_of :: "tool_spec list \<Rightarrow> string \<Rightarrow> tool_spec option" where
  "tool_of tools name = List.find (\<lambda>t. ts_name t = name) tools"

definition describe_tools :: "tool_spec list \<Rightarrow> (string \<times> schema) list" where
  "describe_tools tools = map (\<lambda>t. (ts_name t, ts_schema t)) tools"

definition dict_update :: "('k \<times> 'v) list \<Rightarrow> ('k \<times> 'v) list \<Rightarrow> ('k \<times> 'v) list" where
  "dict_update base extra = foldl (\<lambda>m e. dict_put m (fst e) (snd e)) base extra"

subsection \<open>The tools\<close>

definition tool_ping :: tool_spec where
  "tool_ping = \<lparr>ts_name = ''ping'',
     ts_schema =
       Schema [Type Object, Properties
         [(''request_id'', Schema [Type Str]),
          (''idempotency_key'', Schema [Type Str])], AdditionalProperties False],
     ts_allowed_before_ready = True\<rparr>"

definition tool_get_readiness :: tool_spec where
  "tool_get_readiness = \<lparr>ts_name = ''get_readiness'',
     ts_schema =
       Schema [Type Object, Properties
         [(''request_id'', Schema [Type Str]),
          (''idempotency_key'', Schema [Type Str])], AdditionalProperties False],
     ts_allowed_before_ready = True\<rparr>"

definition tool_get_candles :: tool_spec where
  "tool_get_candles = \<lparr>ts_name = ''get_candles'',
     ts_schema =
       Schema [Type Object, Properties
         [(''symbol'', Schema [Type Str]),
          (''timeframe'', Schema [Type Str]),
          (''limit'', Schema [Type Integer, Minimum 1, Maximum 1000, Default (PInt 300)]),
          (''source'', Schema [Type Str, Enum [''spot'', ''futures''], Default (PStr ''spot'')]),
          (''request_id'', Schema [Type Str]),
          (''idempotency_key'', Schema [Type Str])], Required [''symbol'', ''timeframe''], AdditionalProperties False],
     ts_allowed_before_ready = False\<rparr>"

definition tool_get_ticker :: tool_spec where
  "tool_get_ticker = \<lparr>ts_name = ''get_ticker'',
     ts_schema =
       Schema [Type Object, Properties
         [(''symbol'', Schema [Type Str]),
          (''request_id'', Schema [Type Str]),
          (''idempotency_key'', Schema [Type Str])], Required [''symbol''], AdditionalProperties False],
     ts_allowed_before_ready = False\<rparr>"

definition tool_add_account :: tool_spec where
  "tool_add_account = \<lparr>ts_name = ''add_account'',
     ts_schema =
       Schema [Type Object, Properties
         [(''label'', Schema [Type Str, MinLength 1, MaxLength 200]),
          (''api_key'', Schema [Type Str, MinLength 1]),
          (''api_secret'', Schema [Type Str, MinLength 1]),
          (''tags'', Schema [Type Array, Items (Schema [Type Str]), Default (PList [])]),
          (''market'', Schema [Type Str, Enum [''spot''], Default (PStr ''spot'')]),
          (''request_id'', Schema [Type Str]),
          (''idempotency_key'', Schema [Type Str])], Required [''label''], AdditionalProperties False],
     ts_allowed_before_ready = False\<rparr>"

definition tool_list_accounts :: tool_spec where
  "tool_list_accounts = \<lparr>ts_name = ''list_accounts'',
     ts_schema =
       Schema [Type Object, Properties
         [(''request_id'', Schema [Type Str]),
          (''idempotency_key'', Schema [Type Str])], AdditionalProperties False],
     ts_allowed_before_ready = False\<rparr>"

definition tool_remove_account :: tool_spec where
  "tool_remove_account = \<lparr>ts_name = ''remove_account'',
     ts_schema =
       Schema [Type Object, Properties
         [(''account_id'', Schema [Type Str, MinLength 1]),
          (''request_id'', Schema [Type Str]),
          (''idempotency_key'', Schema [Type Str])], Required [''account_id''], AdditionalProperties False],
     ts_allowed_before_ready = False\<rparr>"

definition tool_enable_real_trading :: tool_spec where
  "tool_enable_real_trading = \<lparr>ts_name = ''enable_real_trading'',
     ts_schema =
       Schema [Type Object, Properties
         [(''account_id'', Schema [Type Str, MinLength 1]),
          (''request_id'', Schema [Type Str]),
          (''idempotency_key'', Schema [Type Str])], Required [''account_id''], AdditionalProperties False],
     ts_allowed_before_ready = False\<rparr>"

definition tool_set_risk_policy :: tool_spec where
  "tool_set_risk_policy = \<lparr>ts_name = ''set_risk_policy'',
     ts_schema =
       Schema [Type Object, Properties
         [(''account_id'', Schema [Type Str, MinLength 1]),
          (''max_notional_per_order'', Schema [Type Number, ExclusiveMinimum 0]),
          (''max_aggregate_exposure'', Schema [Type Number, ExclusiveMinimum 0]),
          (''allowed_symbols'', Schema [Type Array, Items (Schema [Type Str, MinLength 1])]),
          (''clear_max_notional'', Schema [Type Boolean]),
          (''clear_max_exposure'', Schema [Type Boolean]),
          (''clear_allowed_symbols'', Schema [Type Boolean]),
          (''request_id'', Schema [Type Str]),
          (''idempotency_key'', Schema [Type Str])], Required [''account_id''], AdditionalProperties False],
     ts_allowed_before_ready = False\<rparr>"

definition tool_override_risk_policy :: tool_spec where
  "tool_override_risk_policy = \<lparr>ts_name = ''override_risk_policy'',
     ts_schema =
       Schema [Type Object, Properties
         [(''account_id'', Schema [Type Str, MinLength 1]),
          (''scope'', Schema [Type Str, Enum [''next_order''], Default (PStr ''next_order'')]),
          (''reason'', Schema [Type Str, MinLength 1]),
          (''idempotency_key'', Schema [Type Str, MinLength 1]),
          (''expires_at'', Schema [Type Integer]),
          (''request_id'', Schema [Type Str])], Required [''account_id'', ''reason''], AdditionalProperties False],
     ts_allowed_before_ready = False\<rparr>"

definition tool_get_risk_policy :: tool_spec where
  "tool_get_risk_policy = \<lparr>ts_name = ''get_risk_policy'',
     ts_schema =
       Schema [Type Object, Properties
         [(''account_id'', Schema [Type Str, MinLength 1]),
          (''request_id'', Schema [Type Str]),
          (''idempotency_key'', Schema [Type Str])], Required [''account_id''], AdditionalProperties False],
     ts_allowed_before_ready = False\<rparr>"

definition tool_get_symbol_info :: tool_spec where
  "tool_get_symbol_info = \<lparr>ts_name = ''get_symbol_info'',
     ts_schema =
       Schema [Type Object, Properties
         [(''symbol'', Schema [Type Str]),
          (''request_id'', Schema [Type Str]),
          (''idempotency_key'', Schema [Type Str])], Required [''symbol''], AdditionalProperties False],
     ts_allowed_before_ready = False\<rparr>"

definition tool_calculate_position_size :: tool_spec where
  "tool_calculate_position_size = \<lparr>ts_name = ''calculate_position_size'',
     ts_schema =
       Schema [Type Object, Properties
         [(''symbol'', Schema [Type Str]),
          (''account_balance'', Schema [Type Number, ExclusiveMinimum 0]),
          (''risk_pct'', Schema [Type Number, ExclusiveMinimum 0, Maximum 1]),
          (''entry'', Schema [Type Number, ExclusiveMinimum 0]),
          (''stop_loss'', Schema [Type Number, ExclusiveMinimum 0]),
          (''side'', Schema [Type Str, Enum [''BUY'', ''SELL''], Default (PStr ''BUY'')]),
          (''fee_rate'', Schema [Type Number, Minimum 0, Default (PFloat (Fin (1 / 1000)))]),
          (''request_id'', Schema [Type Str]),
          (''idempotency_key'', Schema [Type Str])], Required [''symbol'', ''account_balance'', ''risk_pct'', ''entry'', ''stop_loss''], AdditionalProperties False],
     ts_allowed_before_ready = False\<rparr>"

definition tool_execute_on_accounts :: tool_spec where
  "tool_execute_on_accounts = \<lparr>ts_name = ''execute_on_accounts'',
     ts_schema =
       Schema [Type Object, Properties
         [(''account_ids'', Schema [Type Array, Items (Schema [Type Str, MinLength 1])]),
          (''tags'', Schema [Type Array, Items (Schema [Type Str, MinLength 1])]),
          (''symbol'', Schema [Type Str]),
          (''side'', Schema [Type Str, Enum [''BUY'', ''SELL''], Default (PStr ''BUY'')]),
          (''entry'', Schema [Type Number, ExclusiveMinimum 0]),
          (''stop_loss'', Schema [Type Number, ExclusiveMinimum 0]),
          (''risk_pct'', Schema [Type Number, ExclusiveMinimum 0, Maximum 1]),
          (''order_type'', Schema [Type Str, Enum [''MARKET'', ''LIMIT''], Default (PStr ''MARKET'')]),
          (''idempotency_key'', Schema [Type Str, MinLength 1]),
          (''request_id'', Schema [Type Str])], Required [''symbol'', ''side'', ''entry'', ''stop_loss'', ''risk_pct'', ''idempotency_key''], AdditionalProperties False],
     ts_allowed_before_ready = False\<rparr>"

definition tool_place_order :: tool_spec where
  "tool_place_order = \<lparr>ts_name = ''place_order'',
     ts_schema =
       Schema [Type Object, Properties
         [(''account_id'', Schema [Type Str, MinLength 1]),
          (''symbol'', Schema [Type Str]),
          (''side'', Schema [Type Str, Enum [''BUY'', ''SELL'']]),
          (''order_type'', Schema [Type Str, Enum [''MARKET'', ''LIMIT'', ''STOP_LOSS_LIMIT''], Default (PStr ''MARKET'')]),
          (''quantity'', Schema [Type Number, ExclusiveMinimum 0]),
          (''price'', Schema [Type Number, ExclusiveMinimum 0]),
          (''stop_price'', Schema [Type Number, ExclusiveMinimum 0]),
          (''idempotency_key'', Schema [Type Str, MinLength 1]),
          (''request_id'', Schema [Type Str])], Required [''account_id'', ''symbol'', ''side'', ''quantity'', ''idempotency_key''], AdditionalProperties False],
     ts_allowed_before_ready = False\<rparr>"

definition tool_place_oco_order :: tool_spec where
  "tool_place_oco_order = \<lparr>ts_name = ''place_oco_order'',
     ts_schema =
       Schema [Type Object, Properties
         [(''account_id'', Schema [Type Str, MinLength 1]),
          (''symbol'', Schema [Type Str]),
          (''side'', Schema [Type Str, Enum [''BUY'', ''SELL'']]),
          (''quantity'', Schema [Type Number, ExclusiveMinimum 0]),
          (''price'', Schema [Type Number, ExclusiveMinimum 0]),
          (''stop_price'', Schema [Type Number, ExclusiveMinimum 0]),
          (''stop_limit_price'', Schema [Type Number, ExclusiveMinimum 0]),
          (''idempotency_key'', Schema [Type Str, MinLength 1]),
          (''request_id'', Schema [Type Str])], Required [''account_id'', ''symbol'', ''side'', ''quantity'', ''price'', ''stop_price'', ''stop_limit_price'', ''idempotency_key''], AdditionalProperties False],
     ts_allowed_before_ready = False\<rparr>"

definition tool_close_all_positions :: tool_spec where
  "tool_close_all_positions = \<lparr>ts_name = ''close_all_positions'',
     ts_schema =
       Schema [Type Object, Properties
         [(''account_id'', Schema [Type Str]),
          (''request_id'', Schema [Type Str]),
          (''idempotency_key'', Schema [Type Str])], Required [''account_id''], AdditionalProperties False],
     ts_allowed_before_ready = False\<rparr>"

definition tool_disable_real_trading :: tool_spec where
  "tool_disable_real_trading = \<lparr>ts_name = ''disable_real_trading'',
     ts_schema =
       Schema [Type Object, Properties
         [(''account_id'', Schema [Type Str]),
          (''request_id'', Schema [Type Str]),
          (''idempotency_key'', Schema [Type Str])], Required [''account_id''], AdditionalProperties False],
     ts_allowed_before_ready = False\<rparr>"

definition tool_get_total_exposure :: tool_spec where
  "tool_get_total_exposure = \<lparr>ts_name = ''get_total_exposure'',
     ts_schema =
       Schema [Type Object, Properties
         [(''request_id'', Schema [Type Str]),
          (''idempotency_key'', Schema [Type Str])], AdditionalProperties False],
     ts_allowed_before_ready = False\<rparr>"

definition tool_get_account_balance :: tool_spec where
  "tool_get_account_balance = \<lparr>ts_name = ''get_account_balance'',
     ts_schema =
       Schema [Type Object, Properties
         [(''account_id'', Schema [Type Str, MinLength 1]),
          (''request_id'', Schema [Type Str]),
          (''idempotency_key'', Schema [Type Str])], Required [''account_id''], AdditionalProperties False],
     ts_allowed_before_ready = False\<rparr>"

definition tool_get_open_orders :: tool_spec where
  "tool_get_open_orders = \<lparr>ts_name = ''get_open_orders'',
     ts_schema =
       Schema [Type Object, Properties
         [(''account_id'', Schema [Type Str, MinLength 1]),
          (''request_id'', Schema [Type Str]),
          (''idempotency_key'', Schema [Type Str])], Required [''account_id''], AdditionalProperties False],
     ts_allowed_before_ready = False\<rparr>"

definition tool_get_unprotected_positions :: tool_spec where
  "tool_get_unprotected_positions = \<lparr>ts_name = ''get_unprotected_positions'',
     ts_schema =
       Schema [Type Object, Properties
         [(''request_id'', Schema [Type Str]),
          (''idempotency_key'', Schema [Type Str])], AdditionalProperties False],
     ts_allowed_before_ready = False\<rparr>"

definition tool_get_audit_log :: tool_spec where
  "tool_get_audit_log = \<lparr>ts_name = ''get_audit_log'',
     ts_schema =
       Schema [Type Object, Properties
         [(''limit'', Schema [Type Integer, Minimum 1, Maximum 500, Default (PInt 50)]),
          (''request_id'', Schema [Type Str]),
          (''idempotency_key'', Schema [Type Str])], AdditionalProperties False],
     ts_allowed_before_ready = False\<rparr>"

text \<open>\<open>_pa_schema\<close>\<close>

definition pa_schema :: "(string \<times> schema) list \<Rightarrow> schema" where
  "pa_schema extra = Schema [Type Object, Properties (dict_update
      [(''symbol'', Schema [Type Str]), (''timeframe'', Schema [Type Str]),
       (''lookback'', Schema [Type Integer, Minimum 20, Maximum 1000, Default (PInt 200)]),
       (''request_id'', Schema [Type Str]), (''idempotency_key'', Schema [Type Str])] extra),
     Required [''symbol'', ''timeframe''], AdditionalProperties False]"

definition tool_get_market_structure :: tool_spec where
  "tool_get_market_structure = \<lparr>ts_name = ''get_market_structure'',
     ts_schema =
       pa_schema [],
     ts_allowed_before_ready = False\<rparr>"

definition tool_get_liquidity_zones :: tool_spec where
  "tool_get_liquidity_zones = \<lparr>ts_name = ''get_liquidity_zones'',
     ts_schema =
       pa_schema [(''include_mitigated'', Schema [Type Boolean, Default (PBool False)])],
     ts_allowed_before_ready = False\<rparr>"

definition tool_get_order_blocks :: tool_spec where
  "tool_get_order_blocks = \<lparr>ts_name = ''get_order_blocks'',
     ts_schema =
       pa_schema [(''include_mitigated'', Schema [Type Boolean, Default (PBool False)])],
     ts_allowed_before_ready = False\<rparr>"

definition tool_get_full_analysis :: tool_spec where
  "tool_get_full_analysis = \<lparr>ts_name = ''get_full_analysis'',
     ts_schema =
       pa_schema [(''include_mitigated'', Schema [Type Boolean, Default (PBool False)])],
     ts_allowed_before_ready = False\<rparr>"

definition tool_annotate_chart :: tool_spec where
  "tool_annotate_chart = \<lparr>ts_name = ''annotate_chart'',
     ts_schema =
       Schema [Type Object, Properties
         [(''symbol'', Schema [Type Str]),
          (''timeframe'', Schema [Type Str]),
          (''annotations'', Schema [Type Array, Items (Schema [Type Object])]),
          (''created_by'', Schema [Type Str, Default (PStr ''agent'')]),
          (''request_id'', Schema [Type Str]),
          (''idempotency_key'', Schema [Type Str])], Required [''symbol'', ''timeframe'', ''annotations''], AdditionalProperties False],
     ts_allowed_before_ready = False\<rparr>"

definition tool_get_chart_annotations :: tool_spec where
  "tool_get_chart_annotations = \<lparr>ts_name = ''get_chart_annotations'',
     ts_schema =
       Schema [Type Object, Properties
         [(''symbol'', Schema [Type Str]),
          (''timeframe'', Schema [Type Str]),
          (''request_id'', Schema [Type Str]),
          (''idempotency_key'', Schema [Type Str])], Required [''symbol'', ''timeframe''], AdditionalProperties False],
     ts_allowed_before_ready = False\<rparr>"

definition tool_clear_annotations :: tool_spec where
  "tool_clear_annotations = \<lparr>ts_name = ''clear_annotations'',
     ts_schema =
       Schema [Type Object, Properties
         [(''symbol'', Schema [Type Str]),
          (''timeframe'', Schema [Type Str]),
          (''request_id'', Schema [Type Str]),
          (''idempotency_key'', Schema [Type Str])], Required [''symbol'', ''timeframe''], AdditionalProperties False],
     ts_allowed_before_ready = False\<rparr>"

definition tool_scan_market :: tool_spec where
  "tool_scan_market = \<lparr>ts_name = ''scan_market'',
     ts_schema =
       Schema [Type Object, Properties
         [(''filters'', Schema [Type Array, Items (Schema [Type Object])]),
          (''combine'', Schema [Type Str, Enum [''AND'', ''OR''], Default (PStr ''AND'')]),
          (''sort_by'', Schema [Type Str, Enum [''symbol'', ''price_change'', ''volume_change''], Default (PStr ''symbol'')]),
          (''limit'', Schema [Type Integer, Minimum 1, Maximum 250, Default (PInt 50)]),
          (''cursor'', Schema [Type Integer]),
          (''timeframe'', Schema [Type Str, Default (PStr ''1h'')]),
          (''request_id'', Schema [Type Str]),
          (''idempotency_key'', Schema [Type Str])], Required [''filters''], AdditionalProperties False],
     ts_allowed_before_ready = False\<rparr>"

text \<open>\<open>_alarm_schema\<close>\<close>

definition alarm_schema :: "(string \<times> schema) list \<Rightarrow> schema" where
  "alarm_schema extra = Schema [Type Object, Properties (dict_update
      [(''request_id'', Schema [Type Str]), (''idempotency_key'', Schema [Type Str])] extra), AdditionalProperties False]"

definition tool_create_alert :: tool_spec where
  "tool_create_alert = \<lparr>ts_name = ''create_alert'',
     ts_schema =
       alarm_schema [(''symbol'', Schema [Type Str]),
        (''timeframe'', Schema [Type Str]),
        (''condition'', Schema [Type Array, Items (Schema [Type Object])]),
        (''cooldown_seconds'', Schema [Type Integer, Minimum 0, Default (PInt 300)]),
        (''note'', Schema [Type Str]),
        (''order_spec'', Schema [Type Object, Properties
           [(''account_id'', Schema [Type Str, MinLength 1]),
            (''symbol'', Schema [Type Str, MinLength 1]),
            (''side'', Schema [Type Str, Enum [''BUY'', ''SELL'']]),
            (''order_type'', Schema [Type Str, Enum [''market'', ''limit''], Default (PStr ''market'')]),
            (''entry'', Schema [Type Number, ExclusiveMinimum 0]),
            (''stop_loss'', Schema [Type Number, ExclusiveMinimum 0]),
            (''risk_pct'', Schema [Type Number, ExclusiveMinimum 0, Maximum 1])], Required [''account_id'', ''symbol'', ''side'', ''risk_pct'']])],
     ts_allowed_before_ready = False\<rparr>"

definition tool_create_composite_alert :: tool_spec where
  "tool_create_composite_alert = \<lparr>ts_name = ''create_composite_alert'',
     ts_schema =
       alarm_schema [(''clauses'', Schema [Type Array, Items (Schema [Type Object, Properties
             [(''symbol'', Schema [Type Str]),
              (''timeframe'', Schema [Type Str]),
              (''filters'', Schema [Type Array, Items (Schema [Type Object])])], Required [''symbol'', ''timeframe'', ''filters'']])]),
        (''combine'', Schema [Type Str, Enum [''AND'', ''OR''], Default (PStr ''AND'')]),
        (''cooldown_seconds'', Schema [Type Integer, Minimum 0, Default (PInt 300)]),
        (''note'', Schema [Type Str])],
     ts_allowed_before_ready = False\<rparr>"

definition tool_list_alerts :: tool_spec where
  "tool_list_alerts = \<lparr>ts_name = ''list_alerts'',
     ts_schema =
       alarm_schema [],
     ts_allowed_before_ready = False\<rparr>"

definition tool_delete_alert :: tool_spec where
  "tool_delete_alert = \<lparr>ts_name = ''delete_alert'',
     ts_schema =
       alarm_schema [(''alert_id'', Schema [Type Str, MinLength 1])],
     ts_allowed_before_ready = False\<rparr>"

definition tool_get_triggered_alerts :: tool_spec where
  "tool_get_triggered_alerts = \<lparr>ts_name = ''get_triggered_alerts'',
     ts_schema =
       alarm_schema [(''alert_id'', Schema [Type Str]),
        (''limit'', Schema [Type Integer, Minimum 1, Maximum 500, Default (PInt 50)]),
        (''cursor'', Schema [Type Integer])],
     ts_allowed_before_ready = False\<rparr>"

definition tool_get_pending_orders :: tool_spec where
  "tool_get_pending_orders = \<lparr>ts_name = ''get_pending_orders'',
     ts_schema =
       alarm_schema [(''status'', Schema [Type Str, Enum [''awaiting_approval'', ''approved'', ''executing'', ''rejected'', ''executed'', ''reconcile_required'', ''expired'']]),
        (''limit'', Schema [Type Integer, Minimum 1, Maximum 500, Default (PInt 50)])],
     ts_allowed_before_ready = False\<rparr>"

definition tool_approve_pending_order :: tool_spec where
  "tool_approve_pending_order = \<lparr>ts_name = ''approve_pending_order'',
     ts_schema =
       alarm_schema [(''order_id'', Schema [Type Str, MinLength 1])],
     ts_allowed_before_ready = False\<rparr>"

definition tool_reject_pending_order :: tool_spec where
  "tool_reject_pending_order = \<lparr>ts_name = ''reject_pending_order'',
     ts_schema =
       alarm_schema [(''order_id'', Schema [Type Str, MinLength 1]),
        (''reason'', Schema [Type Str])],
     ts_allowed_before_ready = False\<rparr>"

definition registry :: "tool_spec list" where
  "registry =
    [tool_ping, tool_get_readiness, tool_get_candles, tool_get_ticker,
     tool_add_account, tool_list_accounts, tool_remove_account, tool_enable_real_trading,
     tool_set_risk_policy, tool_override_risk_policy, tool_get_risk_policy, tool_get_symbol_info,
     tool_calculate_position_size, tool_execute_on_accounts, tool_place_order, tool_place_oco_order,
     tool_close_all_positions, tool_disable_real_trading, tool_get_total_exposure, tool_get_account_balance,
     tool_get_open_orders, tool_get_unprotected_positions, tool_get_audit_log, tool_get_market_structure,
     tool_get_liquidity_zones, tool_get_order_blocks, tool_get_full_analysis, tool_annotate_chart,
     tool_get_chart_annotations, tool_clear_annotations, tool_scan_market, tool_create_alert,
     tool_create_composite_alert, tool_list_alerts, tool_delete_alert, tool_get_triggered_alerts,
     tool_get_pending_orders, tool_approve_pending_order, tool_reject_pending_order]"

subsection \<open>What the schemas guarantee\<close>

text \<open>Loading the module registers every tool: no name is taken twice.\<close>

lemma registry_loads: "register_all [] registry = Inr registry"
  by code_simp

lemma registry_names_distinct: "distinct (map ts_name registry)"
  by code_simp

definition order_tools :: "tool_spec list" where
  "order_tools = [tool_place_order, tool_place_oco_order, tool_execute_on_accounts]"

definition AMOUNTS :: "string list" where
  "AMOUNTS = [''quantity'', ''price'', ''stop_price'', ''stop_limit_price'', ''entry'', ''stop_loss'']"

definition order_schema :: "schema \<Rightarrow> bool" where
  "order_schema s =
     (schema_type s = Some Object \<and> schema_closed s
      \<and> ''idempotency_key'' \<in> set (schema_required s) \<and> ''side'' \<in> set (schema_required s)
      \<and> map_of (schema_properties s) ''idempotency_key'' = Some (Schema [Type Str, MinLength 1])
      \<and> (case map_of (schema_properties s) ''side'' of
            Some sub \<Rightarrow> schema_type sub = Some Str \<and> schema_enum sub = Some [''BUY'', ''SELL''] | None \<Rightarrow> False)
      \<and> list_all (\<lambda>f. case map_of (schema_properties s) f of
            Some sub \<Rightarrow> schema_type sub = Some Number \<and> ExclusiveMinimum 0 \<in> set (schema_keywords sub)
          | None \<Rightarrow> f \<notin> set TRANSPORT_FIELDS) AMOUNTS)"

lemma order_tools_schema: "list_all (order_schema \<circ> ts_schema) order_tools"
  by code_simp

lemma positive_number_accepted:
  "schema_type s = Some Number \<Longrightarrow> ExclusiveMinimum 0 \<in> set (schema_keywords s) \<Longrightarrow> validate v s = Inr ()
     \<Longrightarrow> \<exists>q. require_positive v = Inr q \<and> 0 < q"
  by (cases v; simp; cases "case v of PFloat f \<Rightarrow> f | _ \<Rightarrow> NaN")
    (fastforce simp: validate_scalar check_enum_eq check_number_ok require_positive_def require_finite_def float_of_int_def
      split: if_splits)+

lemma nonempty_string_accepted:
  "validate v (Schema [Type Str, MinLength 1]) = Inr () \<Longrightarrow> \<exists>t. v = PStr t \<and> t \<noteq> []"
  by (cases v) (auto simp: validate_string schema_type_def check_enum_eq split: if_splits)

lemma required_field:
  assumes "schema_type s = Some Object" "validate (PDict d) s = Inr ()" "k \<in> set (schema_required s)"
    "map_of (schema_properties s) k = Some sub"
  obtains v where "map_of d k = Some v" "validate v sub = Inr ()"
proof -
  from validate_fields(3) [OF assms(1,2)] assms(3) have "map_of d k \<noteq> None" by (auto simp: map_of_eq_None_iff)
  then obtain v where v: "map_of d k = Some v" by blast
  from validate_fields(4) [OF assms(1,2) map_of_SomeD [OF assms(4)] v] v that show thesis by blast
qed

definition demo_order_params :: pydict where
  "demo_order_params =
     [(''account_id'', PStr ''a''), (''symbol'', PStr ''BTCUSDT''), (''side'', PStr ''BUY''),
      (''quantity'', PInt 1), (''idempotency_key'', PStr ''k'')]"

text \<open>What the tools that send orders are given. Parameters that pass the schema of such a tool carry a
  non-empty idempotency key and a side that is \<open>BUY\<close> or \<open>SELL\<close>; every amount that is present is a
  number that the check of the order service accepts as finite and positive; and there is no
  unknown parameter.\<close>

theorem order_params_typed:
  assumes "t \<in> set order_tools" "validate_params d (ts_schema t) = Inr ()"
  shows "(\<exists>k. map_of d ''idempotency_key'' = Some (PStr k) \<and> k \<noteq> [])
    \<and> map_of d ''side'' \<in> {Some (PStr ''BUY''), Some (PStr ''SELL'')}
    \<and> (\<forall>f\<in>set AMOUNTS. \<forall>v. map_of d f = Some v \<longrightarrow> (\<exists>q. require_positive v = Inr q \<and> 0 < q))
    \<and> fst ` set d \<subseteq> fst ` set (schema_properties (ts_schema t)) \<union> set TRANSPORT_FIELDS"
proof -
  define s where "s = ts_schema t"
  have s: "order_schema s" using assms(1) order_tools_schema by (auto simp: s_def list_all_iff)
  have valid: "validate (PDict d) s = Inr ()" using assms(2) by (simp add: validate_params_def s_def)
  have t: "schema_type s = Some Object" using s by (simp add: order_schema_def)
  have "\<exists>k. map_of d ''idempotency_key'' = Some (PStr k) \<and> k \<noteq> []"
    using s nonempty_string_accepted by (auto simp: order_schema_def elim!: required_field [OF t valid])
  moreover have "map_of d ''side'' \<in> {Some (PStr ''BUY''), Some (PStr ''SELL'')}"
  proof -
    from s obtain sub where sub: "map_of (schema_properties s) ''side'' = Some sub" "schema_type sub = Some Str"
        "schema_enum sub = Some [''BUY'', ''SELL'']" "''side'' \<in> set (schema_required s)"
      by (auto simp: order_schema_def split: option.splits)
    from required_field [OF t valid sub(4,1)] obtain v where "map_of d ''side'' = Some v" "validate v sub = Inr ()" .
    with sub(2,3) validate_shape(3) [OF sub(2), of v] show ?thesis
      by (auto simp: validate_string check_enum_eq enum_ok_def split: if_splits)
  qed
  moreover have "\<exists>q. require_positive v = Inr q \<and> 0 < q" if f: "f \<in> set AMOUNTS" "map_of d f = Some v" for f v
  proof (cases "map_of (schema_properties s) f")
    case None
    with s f(1) have "f \<notin> set TRANSPORT_FIELDS" by (auto simp: order_schema_def list_all_iff dest!: bspec)
    moreover have "f \<in> fst ` set d" using f(2) by (force dest: map_of_SomeD)
    ultimately show ?thesis
      using None s validate_fields(2) [OF t valid] by (auto simp: order_schema_def map_of_eq_None_iff dest: subsetD)
  next
    case (Some sub)
    with s f(1) have "schema_type sub = Some Number" "ExclusiveMinimum 0 \<in> set (schema_keywords sub)"
      by (auto simp: order_schema_def list_all_iff dest!: bspec)
    then show ?thesis
      using positive_number_accepted validate_fields(4) [OF t valid map_of_SomeD [OF Some] f(2)] by blast
  qed
  moreover have "fst ` set d \<subseteq> fst ` set (schema_properties s) \<union> set TRANSPORT_FIELDS"
    using validate_fields(2) [OF t valid] s by (simp add: order_schema_def)
  ultimately show ?thesis unfolding s_def by blast
qed

theorem order_params_typed_witness:
  "map_of demo_order_params ''side'' \<in> {Some (PStr ''BUY''), Some (PStr ''SELL'')}
     \<and> (\<forall>v. map_of demo_order_params ''quantity'' = Some v \<longrightarrow> (\<exists>q. require_positive v = Inr q \<and> 0 < q))"
proof -
  have t: "tool_place_order \<in> set order_tools" by (simp add: order_tools_def)
  have "validate_params demo_order_params (ts_schema tool_place_order) = Inr ()" by code_simp
  note typed = order_params_typed [OF t this]
  have "''quantity'' \<in> set AMOUNTS" by (simp add: AMOUNTS_def)
  with typed show ?thesis by blast
qed

text \<open>The description of \<open>annotate_chart\<close> says that a single object is also accepted; the schema refuses it.\<close>

theorem single_annotation_refused:
  "validate_params [(''symbol'', PStr ''BTCUSDT''), (''timeframe'', PStr ''1h''), (''annotations'', PDict [(''level'', PInt 1)])]
     (ts_schema tool_annotate_chart) = Inl invalid_params"
  by code_simp

end
