(* ===== verification/Readiness.thy ===== *)
theory Readiness
  imports Errors
begin

text \<open>
  The readiness state machine of the daemon (\<open>daemon/readiness.py\<close>): its state, its history and the
  event the waiters of \<open>wait_ready\<close> sleep on. A \<open>ReadinessError\<close> is no \<open>RasatError\<close>.
\<close>

subsection \<open>Definitions\<close>

definition STATES :: "string list" where
  "STATES = [''starting'', ''migrating'', ''warming_up'', ''ready'', ''stopping'']"

record readiness =
  rd_state :: string
  rd_history :: "string list"
  rd_event :: bool

definition readiness_init :: readiness where
  "readiness_init = \<lparr>rd_state = ''starting'', rd_history = [''starting''], rd_event = False\<rparr>"

definition is_ready :: "readiness \<Rightarrow> bool" where
  "is_ready r = (rd_state r = ''ready'')"

text \<open>\<open>STATES[: STATES.index(state)]\<close>\<close>

definition states_before :: "string \<Rightarrow> string list" where
  "states_before st = takeWhile (\<lambda>s. s \<noteq> st) STATES"

definition set_state :: "string \<Rightarrow> readiness \<Rightarrow> readiness res" where
  "set_state st r =
     (if st \<notin> set STATES then Inl OtherException
      else if st = ''starting'' \<and> rd_state r \<noteq> ''starting'' then Inl OtherException
      else if st \<noteq> ''starting'' \<and> rd_state r \<notin> set (states_before st) then Inl OtherException
      else Inr \<lparr>rd_state = st, rd_history = rd_history r @ [st], rd_event = (rd_event r \<or> st = ''ready'')\<rparr>)"

text \<open>\<open>wait_ready\<close> once its wait is over: \<open>timed_out\<close> says that the event did not come in time.\<close>

definition wait_ready_result :: "bool \<Rightarrow> readiness \<Rightarrow> bool" where
  "wait_ready_result timed_out r = (if is_ready r then True else if timed_out then False else is_ready r)"

text \<open>The states a sequence of calls reaches; a refused call changes nothing.\<close>

fun readiness_run :: "string list \<Rightarrow> readiness \<Rightarrow> readiness" where
  "readiness_run [] r = r"
| "readiness_run (st # sts) r = readiness_run sts (case set_state st r of Inr r' \<Rightarrow> r' | Inl _ \<Rightarrow> r)"

subsection \<open>Forward only\<close>

definition rank :: "string \<Rightarrow> nat" where
  "rank st = length (states_before st)"

definition forward :: "readiness \<Rightarrow> bool" where
  "forward r =
     (rd_history r \<noteq> [] \<and> last (rd_history r) = rd_state r \<and> set (rd_history r) \<subseteq> set STATES
      \<and> sorted (map rank (rd_history r)) \<and> count_list (rd_history r) ''ready'' \<le> 1
      \<and> (rd_event r \<longleftrightarrow> ''ready'' \<in> set (rd_history r)))"

lemma rank_simps [simp]:
  "rank ''starting'' = 0" "rank ''migrating'' = 1" "rank ''warming_up'' = 2" "rank ''ready'' = 3" "rank ''stopping'' = 4"
  by (simp_all add: rank_def states_before_def STATES_def)

lemma states_ranked: "list_all (\<lambda>st. list_all (\<lambda>s. s \<in> set STATES \<and> rank s < rank st) (states_before st)) STATES"
  by code_simp

lemma states_before_rank: "st \<in> set STATES \<Longrightarrow> s \<in> set (states_before st) \<Longrightarrow> s \<in> set STATES \<and> rank s < rank st"
  using states_ranked by (simp add: list_all_iff)

lemma last_is_max: "sorted xs \<Longrightarrow> x \<in> set xs \<Longrightarrow> x \<le> last (xs :: nat list)"
  by (induction xs) (auto split: if_splits)

lemma set_state_forward: "forward r \<Longrightarrow> set_state st r = Inr r' \<Longrightarrow> forward r'"
proof -
  assume f: "forward r" and s: "set_state st r = Inr r'"
  from s have st: "st \<in> set STATES" "rd_state r = ''starting'' \<and> st = ''starting'' \<or> rd_state r \<in> set (states_before st)"
    and r': "r' = \<lparr>rd_state = st, rd_history = rd_history r @ [st], rd_event = (rd_event r \<or> st = ''ready'')\<rparr>"
    by (auto simp: set_state_def split: if_splits)
  have le: "rank (rd_state r) \<le> rank st"
    using st states_before_rank by fastforce
  have "rank h \<le> rank st" if "h \<in> set (rd_history r)" for h
    using last_is_max [of "map rank (rd_history r)" "rank h"] that f le by (force simp: forward_def last_map)
  then have srt: "sorted (map rank (rd_history r @ [st]))" using f by (simp add: forward_def sorted_append)
  have "''ready'' \<notin> set (rd_history r)" if "st = ''ready''"
  proof
    assume "''ready'' \<in> set (rd_history r)"
    then have "rank ''ready'' \<le> rank (rd_state r)"
      using last_is_max [of "map rank (rd_history r)" "rank ''ready''"] f by (force simp: forward_def last_map)
    moreover have "rank (rd_state r) < rank ''ready''" using st that states_before_rank by fastforce
    ultimately show False by simp
  qed
  then have "count_list (rd_history r @ [st]) ''ready'' \<le> 1" using f by (auto simp: forward_def count_list_0_iff)
  with f r' srt st show ?thesis by (auto simp: forward_def)
qed

lemma readiness_run_forward: "forward r \<Longrightarrow> forward (readiness_run sts r)"
  by (induction sts arbitrary: r) (auto split: sum.split intro: set_state_forward)

text \<open>The daemon becomes ready once and never goes back. Whatever states are requested in whatever
  order, the history of states is in the order of \<open>STATES\<close>, contains \<open>ready\<close> at most once and ends
  with the current state, and the event the waiters sleep on is set exactly when \<open>ready\<close> is in the
  history.\<close>

theorem readiness_forward_only:
  "forward (readiness_run sts readiness_init)"
proof -
  have "forward readiness_init" by (simp add: forward_def readiness_init_def STATES_def)
  then show ?thesis by (rule readiness_run_forward)
qed

end
