(* ===== verification/Handlers.thy ===== *)
theory Handlers
  imports Histories Tools Readiness
begin

text \<open>
  The tool handlers (\<open>daemon/handlers.py\<close>): which service each tool calls, with which parameters and
  defaults, and what it needs of the daemon. The handlers of the tools that only read market data or
  analyses are a parameter; what is assumed of them is that they change the services' tables only
  through the services. Times, version and process number in the answers are left out.
\<close>

subsection \<open>Answers\<close>

datatype reply =
    Pong string bool
  | Readiness_View string "string list" bool
  | Account_Added account
  | Account_List "account list"
  | Account_Removed bool
  | Lock_Already bool
  | Locks_Already "bool list"
  | Policy_Changed policy_result
  | Policy_View policy
  | Override_View override_row
  | Symbol_Info symbol_filters string
  | Position_Size sizing
  | Order_Reply order_view
  | Executed_Batch exec_summary
  | Closed_Positions close_summary
  | Total_Exposure_View total_exposure
  | Balance_View breakdown
  | Open_Orders_View "open_order list"
  | Unprotected_View scan_report nat
  | Audit_Report audit_view
  | Alert_Created string
  | Alert_List "(alert_row \<times> string) list"
  | Alerts_Deleted nat
  | Triggered_List "triggered_row list" "int option"
  | Pending_List "pending_row list"
  | Pending_Executed string
  | Pending_Rejected
  | Analysis_Data pyval

text \<open>What the handlers read from the data pipeline at the time of the call: the universe, whether its
  last synchronisation succeeded, the freshness of a symbol's ticker and the symbol's filters.\<close>

record pipeline =
  pi_universe :: "string list"
  pi_universe_ok :: bool
  pi_ticker :: "string \<Rightarrow> string option"
  pi_info :: "string \<Rightarrow> exchange_entry option"

record daemon =
  dm_token :: string
  dm_readiness :: readiness
  dm_pipeline :: "pipeline option"
  dm_analysis :: "string \<Rightarrow> pydict \<Rightarrow> reply m"

text \<open>\<open>str(ctx.get("actor", "mcp-agent"))\<close>: the daemon sets no actor.\<close>

definition AGENT_ACTOR :: string where
  "AGENT_ACTOR = ''mcp-agent''"

definition DEFAULT_OVERRIDE_TTL_SECONDS :: int where
  "DEFAULT_OVERRIDE_TTL_SECONDS = 24 * 3600"

subsection \<open>Parameters\<close>

text \<open>\<open>params[k]\<close> where the schema admits only text; another value names no row.\<close>

definition text_key :: "pydict \<Rightarrow> string \<Rightarrow> string m" where
  "text_key d k = mbind (mlift (key d k)) (\<lambda>v. case v of PStr s \<Rightarrow> mret s | _ \<Rightarrow> mraise (rasat NOT_FOUND))"

definition text_or :: "pydict \<Rightarrow> string \<Rightarrow> string \<Rightarrow> string" where
  "text_or d k s = (case get_or d k (PStr s) of PStr t \<Rightarrow> t | _ \<Rightarrow> s)"

definition opt_text :: "pydict \<Rightarrow> string \<Rightarrow> string option" where
  "opt_text d k = (case dict_get d k of PStr s \<Rightarrow> Some s | _ \<Rightarrow> None)"

definition int_or :: "pydict \<Rightarrow> string \<Rightarrow> int \<Rightarrow> int" where
  "int_or d k n = (case get_or d k (PInt n) of PInt i \<Rightarrow> i | _ \<Rightarrow> n)"

definition pending_status_named :: "string \<Rightarrow> pending_status option" where
  "pending_status_named s =
     map_of [(''awaiting_approval'', AWAITING_APPROVAL), (''approved'', APPROVED), (''executing'', EXECUTING),
             (''executed'', EXECUTED), (''rejected'', PREJECTED), (''reconcile_required'', RECONCILE_REQUIRED),
             (''expired'', PEXPIRED)] s"

subsection \<open>Handlers\<close>

definition require_pipeline :: "daemon \<Rightarrow> pipeline m" where
  "require_pipeline dm = (case dm_pipeline dm of None \<Rightarrow> mraise (rasat PIPELINE_UNAVAILABLE) | Some p \<Rightarrow> mret p)"

text \<open>The daemon builds its order service only with a pipeline.\<close>

definition require_order_service :: "daemon \<Rightarrow> unit m" where
  "require_order_service dm = mguard (dm_pipeline dm = None) (rasat PIPELINE_UNAVAILABLE)"

definition reply_with :: "('a \<Rightarrow> reply) \<Rightarrow> 'a m \<Rightarrow> reply m" where
  "reply_with f m = mbind m (\<lambda>x. mret (f x))"

definition ping_handler :: "daemon \<Rightarrow> pydict \<Rightarrow> reply m" where
  "ping_handler dm d = mret (Pong (rd_state (dm_readiness dm)) (is_ready (dm_readiness dm)))"

definition readiness_handler :: "daemon \<Rightarrow> pydict \<Rightarrow> reply m" where
  "readiness_handler dm d =
     mret (Readiness_View (rd_state (dm_readiness dm)) (rd_history (dm_readiness dm)) (is_ready (dm_readiness dm)))"

definition add_account_handler :: "pydict \<Rightarrow> reply m" where
  "add_account_handler d =
     reply_with Account_Added
       (add_account (dict_get d ''label'') (dict_get d ''api_key'') (dict_get d ''api_secret'') (dict_get d ''tags'')
          (get_or d ''market'' (PStr ''spot'')) AGENT_ACTOR)"

definition list_accounts_handler :: "pydict \<Rightarrow> reply m" where
  "list_accounts_handler d = reply_with Account_List list_accounts"

definition remove_account_handler :: "pydict \<Rightarrow> reply m" where
  "remove_account_handler d = reply_with Account_Removed (remove_account (dict_get d ''account_id'') AGENT_ACTOR)"

definition enable_real_trading_handler :: "pydict \<Rightarrow> reply m" where
  "enable_real_trading_handler d = reply_with Lock_Already (enable_real_trading (dict_get d ''account_id'') AGENT_ACTOR)"

definition disable_real_trading_handler :: "pydict \<Rightarrow> reply m" where
  "disable_real_trading_handler d =
     (if dict_get d ''account_id'' = PStr ''all'' then
        mbind list_accounts (\<lambda>accs.
          reply_with Locks_Already (mmap (\<lambda>acc. disable_real_trading (PStr (account_id acc)) AGENT_ACTOR) accs))
      else reply_with Lock_Already (disable_real_trading (dict_get d ''account_id'') AGENT_ACTOR))"

definition set_risk_policy_handler :: "pydict \<Rightarrow> reply m" where
  "set_risk_policy_handler d =
     reply_with Policy_Changed
       (set_risk_policy (dict_get d ''account_id'') (dict_get d ''max_notional_per_order'') (dict_get d ''max_aggregate_exposure'')
          (dict_get d ''allowed_symbols'') (get_or d ''clear_max_notional'' (PBool False)) (get_or d ''clear_max_exposure'' (PBool False))
          (get_or d ''clear_allowed_symbols'' (PBool False)) AGENT_ACTOR)"

definition override_risk_policy_handler :: "pydict \<Rightarrow> reply m" where
  "override_risk_policy_handler d =
     reply_with Override_View
       (create_override (dict_get d ''account_id'') (dict_get d ''reason'') (get_or d ''scope'' (PStr ''next_order''))
          (dict_get d ''idempotency_key'') AGENT_ACTOR (dict_get d ''expires_at'') DEFAULT_OVERRIDE_TTL_SECONDS)"

definition get_risk_policy_handler :: "pydict \<Rightarrow> reply m" where
  "get_risk_policy_handler d = reply_with Policy_View (get_policy (dict_get d ''account_id''))"

definition required_symbol :: "pydict \<Rightarrow> string m" where
  "required_symbol d = (case dict_get d ''symbol'' of PStr (c # s) \<Rightarrow> mret (c # s) | _ \<Rightarrow> mraise (rasat INVALID_REQUEST))"

definition require_symbol_filters :: "pipeline \<Rightarrow> string \<Rightarrow> exchange_entry m" where
  "require_symbol_filters p symbol =
     (case pi_info p symbol of None \<Rightarrow> mraise (rasat INVALID_SYMBOL) | Some info \<Rightarrow> mret info)"

definition get_symbol_info_handler :: "daemon \<Rightarrow> pydict \<Rightarrow> reply m" where
  "get_symbol_info_handler dm d =
     mbind (require_pipeline dm) (\<lambda>p.
     mbind (required_symbol d) (\<lambda>symbol.
     mbind (require_symbol_filters p symbol) (\<lambda>info.
     mbind (mlift (from_exchange_info info)) (\<lambda>flts.
       mret (Symbol_Info flts (if pi_universe_ok p then FRESHNESS_FRESH else FRESHNESS_STALE))))))"

definition is_number :: "pyval \<Rightarrow> bool" where
  "is_number v = (case v of PInt _ \<Rightarrow> True | PFloat _ \<Rightarrow> True | _ \<Rightarrow> False)"

definition calculate_position_size_handler :: "daemon \<Rightarrow> pydict \<Rightarrow> reply m" where
  "calculate_position_size_handler dm d =
     mbind (require_pipeline dm) (\<lambda>p.
     mbind (required_symbol d) (\<lambda>symbol.
     mbind (mguard (\<not> list_all (\<lambda>k. is_number (dict_get d k)) [''account_balance'', ''risk_pct'', ''entry'', ''stop_loss'']) (rasat INVALID_REQUEST)) (\<lambda>_.
     mbind (mlift (check_symbol_valid (PStr symbol) (Some (pi_universe p)))) (\<lambda>_.
     mbind (mlift (check_price_fresh (Some (case pi_ticker p symbol of Some f \<Rightarrow> f | None \<Rightarrow> FRESHNESS_STALE)))) (\<lambda>_.
     mbind (require_symbol_filters p symbol) (\<lambda>info.
     mbind (mlift (py_float (dict_get d ''account_balance''))) (\<lambda>balance.
     mbind (mlift (py_float (dict_get d ''risk_pct''))) (\<lambda>risk.
     mbind (mlift (py_float (dict_get d ''entry''))) (\<lambda>entry.
     mbind (mlift (py_float (dict_get d ''stop_loss''))) (\<lambda>stop.
     mbind (mlift (from_exchange_info info)) (\<lambda>flts.
     mbind (mlift (py_float (get_or d ''fee_rate'' (PFloat (Fin (1 / 1000)))))) (\<lambda>fee.
     mbind (mlift (calculate_position_size (PStr symbol) (PFloat balance) (PFloat risk) (PFloat entry) (PFloat stop) flts
                     (text_or d ''side'' ''BUY'') (PFloat fee))) (\<lambda>size.
       mret (Position_Size size))))))))))))))"

definition execute_on_accounts_handler :: "daemon \<Rightarrow> pydict \<Rightarrow> reply m" where
  "execute_on_accounts_handler dm d =
     mbind (require_order_service dm) (\<lambda>_.
       reply_with Executed_Batch
         (execute_on_accounts (dict_get d ''account_ids'') (dict_get d ''tags'') (dict_get d ''symbol'') (get_or d ''side'' (PStr ''BUY''))
            (dict_get d ''entry'') (dict_get d ''stop_loss'') (dict_get d ''risk_pct'') (dict_get d ''idempotency_key'')
            (get_or d ''order_type'' (PStr ''MARKET'')) AGENT_ACTOR))"

definition place_order_handler :: "daemon \<Rightarrow> pydict \<Rightarrow> reply m" where
  "place_order_handler dm d =
     mbind (require_order_service dm) (\<lambda>_.
       reply_with Order_Reply
         (place_order (dict_get d ''account_id'') (dict_get d ''symbol'') (dict_get d ''side'') (get_or d ''order_type'' (PStr ''MARKET''))
            (dict_get d ''quantity'') (dict_get d ''price'') (dict_get d ''stop_price'') (dict_get d ''idempotency_key'') AGENT_ACTOR))"

definition place_oco_order_handler :: "daemon \<Rightarrow> pydict \<Rightarrow> reply m" where
  "place_oco_order_handler dm d =
     mbind (require_order_service dm) (\<lambda>_.
       reply_with Order_Reply
         (place_oco_order (dict_get d ''account_id'') (dict_get d ''symbol'') (dict_get d ''side'') (dict_get d ''quantity'')
            (dict_get d ''price'') (dict_get d ''stop_price'') (dict_get d ''stop_limit_price'') (dict_get d ''idempotency_key'') AGENT_ACTOR))"

definition close_all_positions_handler :: "daemon \<Rightarrow> pydict \<Rightarrow> reply m" where
  "close_all_positions_handler dm d =
     mbind (require_order_service dm) (\<lambda>_. reply_with Closed_Positions (close_all_positions (dict_get d ''account_id'') AGENT_ACTOR))"

definition get_total_exposure_handler :: "daemon \<Rightarrow> pydict \<Rightarrow> reply m" where
  "get_total_exposure_handler dm d = mbind (require_order_service dm) (\<lambda>_. reply_with Total_Exposure_View get_total_exposure)"

definition get_account_balance_handler :: "daemon \<Rightarrow> pydict \<Rightarrow> reply m" where
  "get_account_balance_handler dm d =
     mbind (require_order_service dm) (\<lambda>_. reply_with Balance_View (get_account_balance (dict_get d ''account_id'')))"

definition get_open_orders_handler :: "daemon \<Rightarrow> pydict \<Rightarrow> reply m" where
  "get_open_orders_handler dm d =
     mbind (require_order_service dm) (\<lambda>_. reply_with Open_Orders_View (get_open_orders (dict_get d ''account_id'')))"

definition get_unprotected_positions_handler :: "daemon \<Rightarrow> pydict \<Rightarrow> reply m" where
  "get_unprotected_positions_handler dm d =
     mbind (require_order_service dm) (\<lambda>_. reply_with (\<lambda>x. Unprotected_View (fst x) (snd x)) find_unprotected_positions)"

definition get_audit_log_handler :: "pydict \<Rightarrow> reply m" where
  "get_audit_log_handler d =
     mbind (menv (\<lambda>e. (sha256 e, audit_on e))) (\<lambda>h.
     mbind (db_read audit_log) (\<lambda>rows.
     mbind (mlift (get_audit_log (fst h) (if snd h then Some rows else None) (get_or d ''limit'' (PInt 50)))) (\<lambda>v.
       mret (Audit_Report v))))"

definition create_alert_handler :: "pydict \<Rightarrow> reply m" where
  "create_alert_handler d =
     mbind (mlift (key d ''symbol'')) (\<lambda>symbol.
     mbind (mlift (key d ''timeframe'')) (\<lambda>timeframe.
     mbind (mlift (key d ''condition'')) (\<lambda>condition.
       reply_with Alert_Created
         (create_alert symbol timeframe condition (get_or d ''cooldown_seconds'' (PInt 300)) (dict_get d ''note'') (dict_get d ''order_spec'')))))"

definition create_composite_alert_handler :: "pydict \<Rightarrow> reply m" where
  "create_composite_alert_handler d =
     mbind (mlift (key d ''clauses'')) (\<lambda>clauses.
       reply_with Alert_Created
         (create_composite_alert clauses (text_or d ''combine'' ''AND'') (get_or d ''cooldown_seconds'' (PInt 300)) (dict_get d ''note'')))"

definition list_alerts_handler :: "pydict \<Rightarrow> reply m" where
  "list_alerts_handler d = reply_with Alert_List list_alerts"

definition delete_alert_handler :: "pydict \<Rightarrow> reply m" where
  "delete_alert_handler d = mbind (mlift (key d ''alert_id'')) (\<lambda>i. reply_with Alerts_Deleted (delete_alert i))"

text \<open>A negative cursor is a negative offset, which sqlite reads as none.\<close>

definition get_triggered_alerts_handler :: "pydict \<Rightarrow> reply m" where
  "get_triggered_alerts_handler d =
     (let cursor = int_or d ''cursor'' 0 in
      reply_with (\<lambda>x. Triggered_List (fst x) (map_option (\<lambda>n. int n + min cursor 0) (snd x)))
        (get_triggered_alerts (opt_text d ''alert_id'') (int_or d ''limit'' 50) (nat cursor)))"

definition get_pending_orders_handler :: "pydict \<Rightarrow> reply m" where
  "get_pending_orders_handler d =
     reply_with Pending_List
       (get_pending_orders (case opt_text d ''status'' of None \<Rightarrow> None | Some s \<Rightarrow> pending_status_named s) (int_or d ''limit'' 50))"

text \<open>Approval without a pipeline: no price and no order service, so nothing is claimed.\<close>

definition approve_offline :: "string \<Rightarrow> string m" where
  "approve_offline oid =
     mbind (pending_order oid) (\<lambda>rec.
     mbind (mguard (pd_status rec \<noteq> AWAITING_APPROVAL) (rasat INVALID_REQUEST)) (\<lambda>_.
     mbind (mguard (py_lower (py_str (if truthy (pd_order_type rec) then pd_order_type rec else PStr ''market'')) = ''market''
                    \<and> pd_entry rec = PNone) (rasat STALE_DATA)) (\<lambda>_.
     mbind (mlift (validate_execution_inputs (pd_risk_pct rec) (pd_entry rec) (pd_stop_loss rec) (pd_order_type rec))) (\<lambda>_.
     mbind (mguard (pd_stop_loss rec = PNone) (rasat INVALID_REQUEST)) (\<lambda>_.
       mraise (rasat NOT_IMPLEMENTED))))))"

definition approve_handler :: "daemon \<Rightarrow> pydict \<Rightarrow> reply m" where
  "approve_handler dm d =
     mbind (text_key d ''order_id'') (\<lambda>oid.
       reply_with Pending_Executed
         (if dm_pipeline dm = None then approve_offline oid else approve_pending_order_handler oid AGENT_ACTOR))"

definition reject_handler :: "pydict \<Rightarrow> reply m" where
  "reject_handler d =
     mbind (text_key d ''order_id'') (\<lambda>oid. reply_with (\<lambda>_. Pending_Rejected) (reject_pending_order oid (opt_text d ''reason'')))"

subsection \<open>The dispatcher\<close>

text \<open>The handler table, in the order \<open>build_dispatcher\<close> registers it.\<close>

definition handler_table :: "daemon \<Rightarrow> (string \<times> (pydict \<Rightarrow> reply m)) list" where
  "handler_table dm =
     [(''ping'', ping_handler dm), (''get_readiness'', readiness_handler dm),
      (''get_candles'', dm_analysis dm ''get_candles''), (''get_ticker'', dm_analysis dm ''get_ticker''),
      (''get_symbol_info'', get_symbol_info_handler dm), (''calculate_position_size'', calculate_position_size_handler dm),
      (''execute_on_accounts'', execute_on_accounts_handler dm), (''place_order'', place_order_handler dm),
      (''place_oco_order'', place_oco_order_handler dm), (''close_all_positions'', close_all_positions_handler dm),
      (''get_total_exposure'', get_total_exposure_handler dm), (''get_account_balance'', get_account_balance_handler dm),
      (''get_open_orders'', get_open_orders_handler dm), (''get_unprotected_positions'', get_unprotected_positions_handler dm),
      (''get_audit_log'', get_audit_log_handler), (''add_account'', add_account_handler), (''list_accounts'', list_accounts_handler),
      (''remove_account'', remove_account_handler), (''get_market_structure'', dm_analysis dm ''get_market_structure''),
      (''get_liquidity_zones'', dm_analysis dm ''get_liquidity_zones''), (''get_order_blocks'', dm_analysis dm ''get_order_blocks''),
      (''get_full_analysis'', dm_analysis dm ''get_full_analysis''), (''annotate_chart'', dm_analysis dm ''annotate_chart''),
      (''get_chart_annotations'', dm_analysis dm ''get_chart_annotations''), (''clear_annotations'', dm_analysis dm ''clear_annotations''),
      (''scan_market'', dm_analysis dm ''scan_market''), (''create_alert'', create_alert_handler),
      (''create_composite_alert'', create_composite_alert_handler), (''list_alerts'', list_alerts_handler),
      (''delete_alert'', delete_alert_handler), (''get_triggered_alerts'', get_triggered_alerts_handler),
      (''get_pending_orders'', get_pending_orders_handler), (''approve_pending_order'', approve_handler dm),
      (''reject_pending_order'', reject_handler), (''enable_real_trading'', enable_real_trading_handler),
      (''disable_real_trading'', disable_real_trading_handler), (''set_risk_policy'', set_risk_policy_handler),
      (''override_risk_policy'', override_risk_policy_handler), (''get_risk_policy'', get_risk_policy_handler)]"

definition register_handler :: "string list \<Rightarrow> string \<Rightarrow> string list res" where
  "register_handler names name = (if name \<notin> set (map ts_name registry) then Inl ValueError else Inr (names @ [name]))"

definition dispatch :: "daemon \<Rightarrow> string \<Rightarrow> pydict \<Rightarrow> reply m" where
  "dispatch dm name d =
     (case map_of (handler_table dm) name of None \<Rightarrow> mraise (rasat TOOL_NOT_FOUND) | Some h \<Rightarrow> h d)"

definition handler_names :: "string list" where
  "handler_names =
   [''ping'', ''get_readiness'', ''get_candles'', ''get_ticker'', ''get_symbol_info'',
    ''calculate_position_size'', ''execute_on_accounts'', ''place_order'', ''place_oco_order'', ''close_all_positions'',
    ''get_total_exposure'', ''get_account_balance'', ''get_open_orders'', ''get_unprotected_positions'', ''get_audit_log'',
    ''add_account'', ''list_accounts'', ''remove_account'', ''get_market_structure'', ''get_liquidity_zones'',
    ''get_order_blocks'', ''get_full_analysis'', ''annotate_chart'', ''get_chart_annotations'', ''clear_annotations'',
    ''scan_market'', ''create_alert'', ''create_composite_alert'', ''list_alerts'', ''delete_alert'',
    ''get_triggered_alerts'', ''get_pending_orders'', ''approve_pending_order'', ''reject_pending_order'', ''enable_real_trading'',
    ''disable_real_trading'', ''set_risk_policy'', ''override_risk_policy'', ''get_risk_policy'']"

lemma handler_table_names: "map fst (handler_table dm) = handler_names"
  by (simp add: handler_table_def handler_names_def)

lemma handler_names_registered: "distinct handler_names" "list_all (\<lambda>n. n \<in> set (map ts_name registry)) handler_names"
    "list_all (\<lambda>n. n \<in> set handler_names) (map ts_name registry)"
  by code_simp+

text \<open>Every registered tool has exactly one handler and every handler a tool.\<close>

lemma handlers_match_registry:
  "distinct (map fst (handler_table dm))" "set (map fst (handler_table dm)) = set (map ts_name registry)"
proof -
  show "distinct (map fst (handler_table dm))" unfolding handler_table_names by (rule handler_names_registered)
  show "set (map fst (handler_table dm)) = set (map ts_name registry)"
    unfolding handler_table_names using handler_names_registered(2,3) unfolding list_all_iff by blast
qed

subsection \<open>Calls are histories\<close>

definition runs :: "'a m \<Rightarrow> bool" where
  "runs m = (\<forall>e w. history e w (snd (m e w)))"

definition analysis_ok :: "daemon \<Rightarrow> bool" where
  "analysis_ok dm = (\<forall>name d. runs (dm_analysis dm name d))"

lemma history_trans: "history e w1 w2 \<Longrightarrow> history e w w1 \<Longrightarrow> history e w w2"
  by (induction rule: history.induct) (auto intro: History_Step)

lemma runs_step: "(\<And>e w r w'. m e w = (r, w') \<Longrightarrow> service_step e w w') \<Longrightarrow> runs m"
  unfolding runs_def by (metis History_Refl History_Step prod.collapse)

lemma runs_same: "(\<And>e w. snd (m e w) = w) \<Longrightarrow> runs m"
  by (simp add: runs_def History_Refl)

lemma runs_bind: "runs m \<Longrightarrow> (\<And>x. runs (f x)) \<Longrightarrow> runs (mbind m f)"
  unfolding runs_def mbind_def by (auto split: prod.split sum.split) (metis history_trans snd_conv)+

lemma runs_pure: "runs (mret x)" "runs (mraise y)" "runs (mlift r)" "runs (mguard b y)" "runs (menv g)" "runs (db_read h)"
  by (simp_all add: runs_def mret_def mraise_def mlift_def mguard_def menv_def db_read_def History_Refl)

lemma runs_mmap: "(\<And>x. runs (f x)) \<Longrightarrow> runs (mmap f xs)"
  by (induction xs) (auto intro!: runs_bind runs_pure)

lemma runs_option: "(x = None \<Longrightarrow> runs m) \<Longrightarrow> (\<And>y. x = Some y \<Longrightarrow> runs (f y)) \<Longrightarrow> runs (case x of None \<Rightarrow> m | Some y \<Rightarrow> f y)"
  by (cases x) auto

lemma runs_if: "runs m \<Longrightarrow> runs n \<Longrightarrow> runs (if b then m else n)"
  by simp

lemma runs_let: "runs (f x) \<Longrightarrow> runs (let y = x in f y)"
  by simp

lemma runs_reply: "runs m \<Longrightarrow> runs (reply_with f m)"
  unfolding reply_with_def by (intro runs_bind runs_pure)

lemma runs_orders:
  "runs (place_order a b c d x f g h act)" "runs (place_oco_order a b c d x f g h act)"
  "runs (execute_on_accounts a b c d x f g h i act)" "runs (close_all_positions a act)"
  "runs (approve_pending_order_handler oid act)" "runs (reject_pending_order oid reason)"
  by (rule runs_step, erule Place, rule runs_step, erule Place_Oco, rule runs_step, erule Execute, rule runs_step, erule Close_All,
      rule runs_step, erule Approve, rule runs_step, erule Reject)

lemma runs_accounts:
  "runs (add_account a b c d x act)" "runs (remove_account a act)" "runs (enable_real_trading a act)" "runs (disable_real_trading a act)"
  "runs (set_risk_policy a b c d x f g act)" "runs (create_override a b c d act x ttl)"
  by (rule runs_step, erule Add_Account, rule runs_step, erule Remove_Account, rule runs_step, erule Enable, rule runs_step, erule Disable,
      rule runs_step, erule Set_Policy, rule runs_step, erule Create_Override)

lemma runs_alerts:
  "runs (create_alert a b c d x f)" "runs (create_composite_alert a s c d)" "runs (delete_alert a)" "runs list_alerts"
  by (rule runs_step, erule Create_Alert, rule runs_step, erule Create_Composite, rule runs_step, erule Delete_Alert,
      rule runs_step, erule List_Alerts)

lemma runs_reports:
  "runs get_total_exposure" "runs (get_account_balance a)" "runs (get_open_orders a)" "runs find_unprotected_positions"
  by (rule runs_step, erule Total_Exposure, rule runs_step, erule Account_Balance, rule runs_step, erule Open_Orders,
      rule runs_step, erule Unprotected)

lemma runs_reads:
  "runs list_accounts" "runs (get_policy a)" "runs (get_triggered_alerts i n c)" "runs (get_pending_orders st n)" "runs (pending_order oid)"
  unfolding list_accounts_def get_policy_def get_triggered_alerts_def get_pending_orders_def pending_order_def Let_def
  by (rule runs_bind runs_pure runs_option runs_if)+

lemmas runs_rules = runs_bind runs_pure runs_option runs_if runs_let runs_reply runs_mmap runs_orders runs_accounts runs_alerts
  runs_reports runs_reads

lemma runs_parts:
  "runs (require_pipeline dm)" "runs (require_order_service dm)" "runs (required_symbol d)" "runs (require_symbol_filters p s)"
  "runs (text_key d k)" "runs (approve_offline oid)"
  unfolding require_pipeline_def require_order_service_def required_symbol_def require_symbol_filters_def text_key_def approve_offline_def
  by (rule runs_rules | (split pyval.split list.split, intro conjI allI impI))+

lemma runs_handlers:
  "runs (ping_handler dm d)" "runs (readiness_handler dm d)" "runs (add_account_handler d)"
  "runs (list_accounts_handler d)" "runs (remove_account_handler d)" "runs (enable_real_trading_handler d)"
  "runs (disable_real_trading_handler d)" "runs (set_risk_policy_handler d)" "runs (override_risk_policy_handler d)"
  "runs (get_risk_policy_handler d)" "runs (get_symbol_info_handler dm d)" "runs (calculate_position_size_handler dm d)"
  "runs (execute_on_accounts_handler dm d)" "runs (place_order_handler dm d)" "runs (place_oco_order_handler dm d)"
  "runs (close_all_positions_handler dm d)" "runs (get_total_exposure_handler dm d)" "runs (get_account_balance_handler dm d)"
  "runs (get_open_orders_handler dm d)" "runs (get_unprotected_positions_handler dm d)" "runs (get_audit_log_handler d)"
  "runs (create_alert_handler d)" "runs (create_composite_alert_handler d)" "runs (list_alerts_handler d)"
  "runs (delete_alert_handler d)" "runs (get_triggered_alerts_handler d)" "runs (get_pending_orders_handler d)"
  "runs (approve_handler dm d)" "runs (reject_handler d)"
  unfolding ping_handler_def readiness_handler_def add_account_handler_def list_accounts_handler_def
    remove_account_handler_def enable_real_trading_handler_def disable_real_trading_handler_def set_risk_policy_handler_def
    override_risk_policy_handler_def get_risk_policy_handler_def get_symbol_info_handler_def calculate_position_size_handler_def
    execute_on_accounts_handler_def place_order_handler_def place_oco_order_handler_def close_all_positions_handler_def
    get_total_exposure_handler_def get_account_balance_handler_def get_open_orders_handler_def get_unprotected_positions_handler_def
    get_audit_log_handler_def create_alert_handler_def create_composite_alert_handler_def list_alerts_handler_def
    delete_alert_handler_def get_triggered_alerts_handler_def get_pending_orders_handler_def approve_handler_def
    reject_handler_def Let_def
  by (rule runs_rules runs_parts)+

lemma table_runs: "analysis_ok dm \<Longrightarrow> list_all (\<lambda>p. \<forall>d. runs (snd p d)) (handler_table dm)"
  by (simp add: handler_table_def runs_handlers analysis_ok_def)

lemma dispatch_runs: "analysis_ok dm \<Longrightarrow> runs (dispatch dm name d)"
  unfolding dispatch_def
  by (rule runs_option, rule runs_pure) (use table_runs in \<open>fastforce simp: list_all_iff dest!: map_of_SomeD\<close>)

end
