(* ===== verification/Rpc.thy ===== *)
theory Rpc
  imports Handlers
begin

text \<open>
  The daemon's HTTP interface (\<open>daemon/server.py\<close>): the bearer token, the checks of a call in their
  order, the dispatch and the status and body of the answer. The parsed body of a request is an
  argument; the texts of the messages are not modelled.
\<close>

subsection \<open>Authentication\<close>

definition is_ascii :: "string \<Rightarrow> bool" where
  "is_ascii s = list_all (\<lambda>c. (of_char c :: nat) < 128) s"

text \<open>\<open>hmac.compare_digest\<close> of two strings raises \<open>TypeError\<close> unless both are ASCII.\<close>

definition verify_token :: "string \<Rightarrow> string option \<Rightarrow> bool res" where
  "verify_token expected auth =
     (case auth of
        None \<Rightarrow> Inr False
      | Some h \<Rightarrow>
          if h = [] then Inr False
          else
            let scheme = takeWhile (\<lambda>c. c \<noteq> CHR '' '') h; token = tl (dropWhile (\<lambda>c. c \<noteq> CHR '' '') h) in
            if py_lower scheme \<noteq> ''bearer'' \<or> token = [] then Inr False
            else if \<not> is_ascii token \<or> \<not> is_ascii expected then Inl TypeError
            else Inr (token = expected))"

subsection \<open>The call\<close>

text \<open>Python's \<open>==\<close> on parsed JSON: numbers by value, booleans as numbers, lists and dictionaries by
  their elements.\<close>

fun num_val :: "pyval \<Rightarrow> pyfloat option" where
  "num_val (PBool b) = Some (Fin (if b then 1 else 0))"
| "num_val (PInt n) = Some (Fin (of_int n))"
| "num_val (PFloat f) = Some f"
| "num_val _ = None"

function py_eq :: "pyval \<Rightarrow> pyval \<Rightarrow> bool" where
  "py_eq v w =
     (case (v, w) of
        (PNone, PNone) \<Rightarrow> True
      | (PStr s, PStr t) \<Rightarrow> s = t
      | (PList xs, PList ys) \<Rightarrow> length xs = length ys \<and> list_all (\<lambda>p. py_eq (fst p) (snd p)) (zip xs ys)
      | (PDict d, PDict g) \<Rightarrow>
          fst ` set d = fst ` set g
          \<and> list_all (\<lambda>k. case (map_of d k, map_of g k) of (Some x, Some y) \<Rightarrow> py_eq x y | _ \<Rightarrow> False) (map fst d)
      | _ \<Rightarrow> (case (num_val v, num_val w) of (Some x, Some y) \<Rightarrow> x = y \<and> x \<noteq> NaN | _ \<Rightarrow> False))"
  by pat_completeness auto
termination
  by (relation "measure (size \<circ> fst)") (auto dest!: sym [THEN size_map_of] size_in_list dest: set_zip_leftD)

declare py_eq.simps [simp del]

definition merge_transport_field :: "pydict \<Rightarrow> pydict \<Rightarrow> string \<Rightarrow> pydict \<Rightarrow> pydict res" where
  "merge_transport_field body params k merged =
     (let top = dict_get body k; v = dict_get params k in
      if top \<noteq> PNone \<and> v \<noteq> PNone \<and> \<not> py_eq top v then Inl invalid_params
      else Inr (if top \<noteq> PNone then dict_put merged k top else merged))"

definition merge_transport_fields :: "pydict \<Rightarrow> pydict \<Rightarrow> pydict res" where
  "merge_transport_fields body params =
     rbind (merge_transport_field body params ''request_id'' params) (\<lambda>m.
       merge_transport_field body params ''idempotency_key'' m)"

definition MAX_BODY_BYTES :: nat where
  "MAX_BODY_BYTES = 1000000"

text \<open>The body: not readable, or its length and, when it is JSON, its value.\<close>

datatype http_body = Unreadable | Body nat "pyval option"

definition params_of :: "pydict \<Rightarrow> pydict res" where
  "params_of b =
     (let v = dict_get b ''params'' in
      if \<not> truthy v then Inr [] else (case v of PDict d \<Rightarrow> Inr d | _ \<Rightarrow> Inl invalid_params))"

definition tool_name :: "pydict \<Rightarrow> string res" where
  "tool_name b = (case dict_get b ''tool'' of PStr t \<Rightarrow> if t = [] then Inl invalid_params else Inr t | _ \<Rightarrow> Inl invalid_params)"

definition body_dict :: "http_body \<Rightarrow> pydict res" where
  "body_dict body =
     (case body of
        Unreadable \<Rightarrow> Inl invalid_params
      | Body n parsed \<Rightarrow>
          if n > MAX_BODY_BYTES then Inl invalid_params
          else (case parsed of Some (PDict b) \<Rightarrow> Inr b | _ \<Rightarrow> Inl invalid_params))"

text \<open>Everything before the dispatch: the tool and the parameters its handler is called with.\<close>

definition admit_call :: "bool \<Rightarrow> http_body \<Rightarrow> (string \<times> pydict) res" where
  "admit_call ready body =
     rbind (body_dict body) (\<lambda>b.
     rbind (tool_name b) (\<lambda>tool.
     rbind (params_of b) (\<lambda>params.
       (case tool_of registry tool of
          None \<Rightarrow> Inl (rasat TOOL_NOT_FOUND)
        | Some spec \<Rightarrow>
            rbind (raise_if (\<not> ts_allowed_before_ready spec \<and> \<not> ready) (rasat NOT_READY)) (\<lambda>_.
            rbind (merge_transport_fields b params) (\<lambda>p.
            rbind (validate_params p (ts_schema spec)) (\<lambda>_. Inr (tool, p))))))))"

definition handler_error :: "pyexc \<Rightarrow> pyexc" where
  "handler_error x = (if is_rasat x then x else if x = KeyError then invalid_params else rasat INTERNAL_ERROR)"

definition rpc_handler :: "(string \<Rightarrow> pydict \<Rightarrow> 'a m) \<Rightarrow> bool \<Rightarrow> http_body \<Rightarrow> ('a \<times> pyval) m" where
  "rpc_handler call ready body =
     mbind (mlift (admit_call ready body)) (\<lambda>tp.
       mtry (call (fst tp) (snd tp)) (\<lambda>r.
         (case r of
            Inr x \<Rightarrow> mret (x, dict_get (snd tp) ''request_id'')
          | Inl x \<Rightarrow> mraise (handler_error x))))"

subsection \<open>The answer\<close>

datatype 'a answer_body = Ok_Body 'a pyval | Error_Body errcode | Server_Error

record 'a answer =
  an_status :: int
  an_body :: "'a answer_body"

text \<open>\<open>error_middleware\<close>; no error of the program sets \<open>http_status\<close>.\<close>

definition error_answer :: "errcode \<Rightarrow> 'a answer" where
  "error_answer c = \<lparr>an_status = http_status_for c, an_body = Error_Body c\<rparr>"

definition answer_of :: "('a \<times> pyval) res \<Rightarrow> 'a answer" where
  "answer_of r = (case r of Inr (x, i) \<Rightarrow> \<lparr>an_status = 200, an_body = Ok_Body x i\<rparr> | Inl x \<Rightarrow> error_answer (exc_code x))"

text \<open>\<open>POST /rpc\<close> behind both middlewares. The token is checked outside the error middleware, so an error
  there is the web server's plain one.\<close>

definition serve_with :: "(string \<Rightarrow> pydict \<Rightarrow> 'a m) \<Rightarrow> string \<Rightarrow> bool \<Rightarrow> string option \<Rightarrow> http_body \<Rightarrow> 'a answer m" where
  "serve_with call token ready auth body =
     (case verify_token token auth of
        Inl _ \<Rightarrow> mret \<lparr>an_status = 500, an_body = Server_Error\<rparr>
      | Inr ok \<Rightarrow>
          if \<not> ok then mret (error_answer UNAUTHORIZED)
          else mtry (rpc_handler call ready body) (\<lambda>r. mret (answer_of r)))"

definition serve :: "daemon \<Rightarrow> string option \<Rightarrow> http_body \<Rightarrow> reply answer m" where
  "serve dm auth body = serve_with (dispatch dm) (dm_token dm) (is_ready (dm_readiness dm)) auth body"

text \<open>\<open>GET /health\<close>\<close>

definition health :: "daemon \<Rightarrow> string option \<Rightarrow> (string \<times> bool) answer" where
  "health dm auth =
     (case verify_token (dm_token dm) auth of
        Inl _ \<Rightarrow> \<lparr>an_status = 500, an_body = Server_Error\<rparr>
      | Inr ok \<Rightarrow>
          if \<not> ok then error_answer UNAUTHORIZED
          else \<lparr>an_status = 200, an_body = Ok_Body (rd_state (dm_readiness dm), is_ready (dm_readiness dm)) PNone\<rparr>)"

subsection \<open>What a handler can rely on\<close>

definition admissible :: "string \<Rightarrow> bool \<Rightarrow> string option \<Rightarrow> string \<Rightarrow> pydict \<Rightarrow> bool" where
  "admissible token ready auth tool d =
     (\<exists>spec scheme. tool_of registry tool = Some spec \<and> (ready \<or> ts_allowed_before_ready spec)
        \<and> conforms (PDict d) (ts_schema spec)
        \<and> auth = Some (scheme @ '' '' @ token) \<and> py_lower scheme = ''bearer'')"

lemma admit_call_Inr:
  assumes "admit_call ready body = Inr (tool, d)"
  shows "\<exists>spec. tool_of registry tool = Some spec \<and> (ready \<or> ts_allowed_before_ready spec) \<and> conforms (PDict d) (ts_schema spec)"
  using assms
  by (auto simp: admit_call_def rbind_Inr_iff validate_params_def split: option.splits dest!: validate_sound)

lemma verify_token_True:
  assumes "verify_token token auth = Inr True"
  shows "\<exists>scheme. auth = Some (scheme @ '' '' @ token) \<and> py_lower scheme = ''bearer''"
proof -
  let ?not_space = "\<lambda>c. c \<noteq> CHR '' ''"
  from assms obtain h where h: "auth = Some h" "py_lower (takeWhile ?not_space h) = ''bearer''" "tl (dropWhile ?not_space h) = token"
      "token \<noteq> []"
    by (auto simp: verify_token_def Let_def split: option.splits if_splits)
  from h(3,4) have "dropWhile ?not_space h = CHR '' '' # token"
    using hd_dropWhile [of ?not_space h] by (cases "dropWhile ?not_space h") auto
  then have "h = takeWhile ?not_space h @ '' '' @ token" using takeWhile_dropWhile_id [of ?not_space h] by simp
  with h show ?thesis by blast
qed

text \<open>C4: A handler is called only for a call that was checked. Which function stands behind the tools
  matters only for admissible calls: if two dispatchers agree whenever the request carries the
  daemon's token, the tool is registered, the daemon is ready or the tool may be called before,
  and the parameters conform to the schema of the tool, then they give the same answer and the same
  final state for every request.\<close>

theorem handlers_see_checked_calls:
  assumes "\<And>tool d. admissible token ready auth tool d \<Longrightarrow> call1 tool d = call2 tool d"
  shows "serve_with call1 token ready auth body e w = serve_with call2 token ready auth body e w"
proof (cases "verify_token token auth = Inr True")
  case True
  from verify_token_True [OF True] have "admissible token ready auth tool d" if "admit_call ready body = Inr (tool, d)" for tool d
    using admit_call_Inr [OF that] by (auto simp: admissible_def)
  with assms have "rpc_handler call1 ready body e w = rpc_handler call2 ready body e w"
    by (cases "admit_call ready body") (auto simp: rpc_handler_def mbind_def mlift_def)
  with True show ?thesis by (simp add: serve_with_def mtry_def)
qed (auto simp: serve_with_def split: sum.split)

theorem handlers_see_checked_calls_witness:
  "serve_with (\<lambda>_ _. mret True) ''t'' True (Some ''Bearer t'') (Body 20 (Some (PDict [(''tool'', PStr ''nope'')]))) demo_env (demo_world demo_db)
   = serve_with (\<lambda>tool _. if tool = ''nope'' then mraise KeyError else mret True) ''t'' True (Some ''Bearer t'')
       (Body 20 (Some (PDict [(''tool'', PStr ''nope'')]))) demo_env (demo_world demo_db)"
proof (rule handlers_see_checked_calls)
  have none: "tool_of registry ''nope'' = None" by code_simp
  fix tool d
  assume "admissible ''t'' True (Some ''Bearer t'') tool d"
  with none have "tool \<noteq> ''nope''" by (auto simp: admissible_def)
  then show "mret True = (if tool = ''nope'' then mraise KeyError else mret True)" by simp
qed

definition REFUSALS :: "errcode list" where
  "REFUSALS = [UNAUTHORIZED, INVALID_REQUEST, TOOL_NOT_FOUND, NOT_READY, INTERNAL_ERROR]"

lemma merge_errors: "merge_transport_fields b p = Inl x \<Longrightarrow> x = invalid_params"
  by (auto simp: merge_transport_fields_def merge_transport_field_def Let_def rbind_Inl_iff split: if_splits)

lemma call_part_errors:
  "body_dict body = Inl x \<Longrightarrow> x = invalid_params" "tool_name b = Inl x \<Longrightarrow> x = invalid_params" "params_of b = Inl x \<Longrightarrow> x = invalid_params"
  by (auto simp: body_dict_def tool_name_def params_of_def Let_def split: http_body.splits option.splits pyval.splits if_splits)

lemma refusal_codes:
  "exc_code invalid_params \<in> set REFUSALS" "exc_code OverflowError \<in> set REFUSALS" "exc_code (rasat TOOL_NOT_FOUND) \<in> set REFUSALS"
  "exc_code (rasat NOT_READY) \<in> set REFUSALS"
  by (simp_all add: REFUSALS_def exc_code_def)

lemma admit_call_Inl: "admit_call ready body = Inl x \<Longrightarrow> exc_code x \<in> set REFUSALS"
  unfolding admit_call_def
  by (auto simp: rbind_Inl_iff refusal_codes validate_params_def simp del: exc_code_simps split: option.splits
      dest!: call_part_errors merge_errors validate_errors)

lemma rpc_handler_cases:
  assumes "rpc_handler call ready body e w = (r, w')"
  obtains (Refused) x where "r = Inl x" "exc_code x \<in> set REFUSALS" "w' = w"
  | (Called) tool d r0 where "admit_call ready body = Inr (tool, d)" "call tool d e w = (r0, w')"
      "r = (case r0 of Inr y \<Rightarrow> Inr (y, dict_get d ''request_id'') | Inl x \<Rightarrow> Inl (handler_error x))"
proof (cases "admit_call ready body")
  case (Inl x)
  with assms admit_call_Inl [OF Inl] show thesis by (intro Refused [of x]) (simp_all add: rpc_handler_def mbind_def mlift_def)
next
  case (Inr td)
  obtain r0 w1 where c: "call (fst td) (snd td) e w = (r0, w1)" by fastforce
  with Inr assms show thesis
    by (intro Called [of "fst td" "snd td" r0])
      (auto simp: rpc_handler_def mbind_def mlift_def mtry_def mret_def mraise_def split: sum.splits)
qed

lemma request_outcomes_core:
  "case serve_with call token ready auth body e w of (r, w') \<Rightarrow>
     (w' = w \<and> (\<exists>c\<in>set REFUSALS. r = Inr (error_answer c) \<or> r = Inr \<lparr>an_status = 500, an_body = Server_Error\<rparr>))
     \<or> (\<exists>tool d r0. admissible token ready auth tool d \<and> call tool d e w = (r0, w')
          \<and> r = Inr (case r0 of
                Inr x \<Rightarrow> \<lparr>an_status = 200, an_body = Ok_Body x (dict_get d ''request_id'')\<rparr>
              | Inl x \<Rightarrow> error_answer (if is_rasat x then exc_code x else if x = KeyError then INVALID_REQUEST else INTERNAL_ERROR)))"
proof (cases "verify_token token auth")
  case (Inl x)
  then show ?thesis by (auto simp: serve_with_def mret_def REFUSALS_def)
next
  case (Inr ok)
  show ?thesis
  proof (cases ok)
    case False
    with Inr show ?thesis by (auto simp: serve_with_def mret_def REFUSALS_def)
  next
    case True
    with Inr have token: "verify_token token auth = Inr True" by simp
    obtain r w' where h: "rpc_handler call ready body e w = (r, w')" by fastforce
    then have s: "serve_with call token ready auth body e w = (Inr (answer_of r), w')"
      using token by (simp add: serve_with_def mtry_def mret_def)
    from h show ?thesis
    proof (cases rule: rpc_handler_cases)
      case (Refused x)
      with s show ?thesis by (auto simp: answer_of_def)
    next
      case (Called tool d r0)
      from admit_call_Inr [OF Called(1)] verify_token_True [OF token] have "admissible token ready auth tool d"
        by (auto simp: admissible_def)
      moreover have "answer_of r = (case r0 of
            Inr x \<Rightarrow> \<lparr>an_status = 200, an_body = Ok_Body x (dict_get d ''request_id'')\<rparr>
          | Inl x \<Rightarrow> error_answer (if is_rasat x then exc_code x else if x = KeyError then INVALID_REQUEST else INTERNAL_ERROR))"
        using Called(3) by (cases r0) (simp_all add: answer_of_def handler_error_def)
      ultimately show ?thesis using s Called(2) by auto
    qed
  qed
qed


text \<open>An integer that no float can hold is answered with 500, although the validator promises
  \<open>INVALID_REQUEST\<close>.\<close>

definition limit_call :: "int \<Rightarrow> pydict" where
  "limit_call n = [(''tool'', PStr ''get_audit_log''), (''params'', PDict [(''limit'', PInt n)])]"

theorem huge_integer_is_internal_error:
  "admit_call True (Body 450 (Some (PDict (limit_call (10 ^ 400))))) = Inl OverflowError" "exc_code OverflowError = INTERNAL_ERROR"
proof -
  have spec: "tool_of registry ''get_audit_log'' = Some tool_get_audit_log" by code_simp
  have v: "validate_params [(''limit'', PInt (10 ^ 400))] (ts_schema tool_get_audit_log) = Inl OverflowError" by code_simp
  have parts: "tool_name (limit_call n) = Inr ''get_audit_log''" "params_of (limit_call n) = Inr [(''limit'', PInt n)]"
      "merge_transport_fields (limit_call n) [(''limit'', PInt n)] = Inr [(''limit'', PInt n)]" for n
    by (simp_all add: tool_name_def params_of_def merge_transport_fields_def merge_transport_field_def limit_call_def dict_get_def)
  have "admit_call True (Body 450 (Some (PDict (limit_call n))))
      = rbind (validate_params [(''limit'', PInt n)] (ts_schema tool_get_audit_log)) (\<lambda>_. Inr (''get_audit_log'', [(''limit'', PInt n)]))" for n
    by (simp add: admit_call_def body_dict_def MAX_BODY_BYTES_def parts spec)
  from this [of "10 ^ 400"] show "admit_call True (Body 450 (Some (PDict (limit_call (10 ^ 400))))) = Inl OverflowError"
    unfolding v rbind_simps .
qed (simp add: exc_code_def)

subsection \<open>Served requests\<close>

text \<open>What happens to the daemon's tables: requests, in any state of the daemon, and the services' own
  background work, one after the other.\<close>

inductive served :: "env \<Rightarrow> world \<Rightarrow> world \<Rightarrow> bool" for e where
  Served_Refl: "served e w w"
| Served_Request: "served e w w1 \<Longrightarrow> analysis_ok dm \<Longrightarrow> serve dm auth body e w1 = (r, w2) \<Longrightarrow> served e w w2"
| Served_Background: "served e w w1 \<Longrightarrow> service_step e w1 w2 \<Longrightarrow> served e w w2"

lemma serve_runs: "analysis_ok dm \<Longrightarrow> runs (serve dm auth body)"
  unfolding runs_def
proof (intro allI)
  fix e w
  assume ok: "analysis_ok dm"
  obtain r w' where s: "serve dm auth body e w = (r, w')" by fastforce
  have "w' = w \<or> (\<exists>tool d r0. dispatch dm tool d e w = (r0, w'))"
    using request_outcomes_core [where call = "dispatch dm" and token = "dm_token dm" and ready = "is_ready (dm_readiness dm)"
        and auth = auth and body = body and e = e and w = w] s
    by (auto simp: serve_def)
  then show "history e w (snd (serve dm auth body e w))"
    using s dispatch_runs [OF ok] by (auto simp: runs_def intro: History_Refl) (metis snd_conv)
qed

lemma served_history: "served e w w' \<Longrightarrow> history e w w'"
proof (induction rule: served.induct)
  case (Served_Request w w1 dm auth body r w2)
  from serve_runs [OF Served_Request.hyps(2), of auth body] have "history e w1 (snd (serve dm auth body e w1))"
    by (simp add: runs_def)
  with Served_Request show ?case by (auto intro: history_trans)
qed (auto intro: History_Refl History_Step)

end
