(* ===== verification/Adapter.thy ===== *)
theory Adapter
  imports Rpc
begin

text \<open>
  The client of the daemon (\<open>adapter/transport.py\<close>) and the forwarding of tool calls (\<open>adapter/main.py\<close>): the
  request an agent's call becomes, what the reply becomes, and how this meets the daemon's checks.
\<close>

subsection \<open>The request\<close>

definition TRANSPORT_KEYS :: "string list" where
  "TRANSPORT_KEYS = [''request_id'', ''idempotency_key'']"

definition tool_request :: "string \<Rightarrow> pydict \<Rightarrow> pydict" where
  "tool_request tool params =
     [(''tool'', PStr tool), (''params'', PDict params)]
     @ List.map_filter (\<lambda>k. map_option (\<lambda>v. (k, v)) (map_of params k)) TRANSPORT_KEYS"

subsection \<open>The reply\<close>

text \<open>What the client sees: the status and the value of the body, or an error of the connection.\<close>

datatype daemon_reply = Reply int "pyval res" | No_Connection

definition error_envelope :: "errcode \<Rightarrow> pydict" where
  "error_envelope c = [(''ok'', PBool False), (''error'', PDict [(''code'', PStr (code_name c))])]"

definition read_reply :: "daemon_reply \<Rightarrow> pydict res" where
  "read_reply r =
     (case r of
        No_Connection \<Rightarrow> Inl (rasat INTERNAL_ERROR)
      | Reply status body \<Rightarrow>
          rbind body (\<lambda>v.
            (case v of
               PDict d \<Rightarrow> Inr (if status = 401 then error_envelope UNAUTHORIZED else d)
             | _ \<Rightarrow> Inl (rasat INTERNAL_ERROR))))"

text \<open>The result the agent gets: an envelope and whether it is an error. Every exception becomes an
  envelope.\<close>

definition tool_result :: "daemon_reply \<Rightarrow> pydict \<times> bool" where
  "tool_result r =
     (let envelope = (case read_reply r of Inr d \<Rightarrow> d | Inl _ \<Rightarrow> error_envelope INTERNAL_ERROR)
      in (envelope, dict_get envelope ''ok'' \<noteq> PBool True))"

lemma error_envelope_is_error [simp]: "dict_get (error_envelope c) ''ok'' = PBool False"
  by (simp add: error_envelope_def dict_get_def)

text \<open>A result that is no error is an envelope the daemon sent with \<open>ok\<close>.\<close>

lemma tool_result_ok: "tool_result r = (d, False) \<Longrightarrow> \<exists>status. r = Reply status (Inr (PDict d)) \<and> status \<noteq> 401 \<and> dict_get d ''ok'' = PBool True"
  by (auto simp: tool_result_def read_reply_def Let_def rbind_def split: daemon_reply.splits sum.splits pyval.splits if_splits)

subsection \<open>The daemon sees what the agent sent\<close>

lemma tool_request_parts:
  "dict_get (tool_request tool params) ''tool'' = PStr tool" "dict_get (tool_request tool params) ''params'' = PDict params"
  "dict_get (tool_request tool params) ''request_id'' = dict_get params ''request_id''"
  "dict_get (tool_request tool params) ''idempotency_key'' = dict_get params ''idempotency_key''"
  by (simp_all add: tool_request_def dict_get_def TRANSPORT_KEYS_def List.map_filter_simps split: option.split)

lemma dict_put_same:
  assumes "distinct (map fst d)" "map_of d k = Some v"
  shows "dict_put d k v = d"
proof -
  have "(if fst kv = k then (k, v) else kv) = kv" if "kv \<in> set d" for kv
    using that assms(2) map_of_is_SomeI [OF assms(1), of "fst kv" "snd kv"] by (auto simp: prod_eq_iff)
  moreover have "k \<in> fst ` set d" using map_of_SomeD [OF assms(2)] by force
  ultimately show ?thesis by (simp add: dict_put_def map_idI)
qed

definition text_or_absent :: "pydict \<Rightarrow> string \<Rightarrow> bool" where
  "text_or_absent d k = (case map_of d k of None \<Rightarrow> True | Some (PStr s) \<Rightarrow> True | _ \<Rightarrow> False)"

lemma py_eq_text: "py_eq (PStr s) (PStr s)"
  by (subst py_eq.simps) simp

lemma merge_same:
  assumes "distinct (map fst params)" "text_or_absent params k" "dict_get body k = dict_get params k"
  shows "merge_transport_field body params k params = Inr params"
proof (cases "map_of params k")
  case None
  then show ?thesis using assms(3) by (simp add: merge_transport_field_def dict_get_def)
next
  case (Some v)
  with assms(2) obtain s where "v = PStr s" by (auto simp: text_or_absent_def split: pyval.splits)
  with Some assms(3) dict_put_same [OF assms(1) Some] show ?thesis
    by (simp add: merge_transport_field_def dict_get_def py_eq_text)
qed

text \<open>C34: The adapter is transparent. When an agent calls a tool with identifiers that are strings or absent
  and the encoded request is within the size limit, the daemon decides on exactly what the agent sent:
  an unknown tool and a daemon that is not ready are refused, and otherwise the handler of that tool is
  called, with the agent's parameters unchanged, if and only if they pass the schema.\<close>

theorem adapter_call_is_transparent:
  assumes "tool \<noteq> []" "distinct (map fst params)" "n \<le> MAX_BODY_BYTES" "list_all (text_or_absent params) TRANSPORT_KEYS"
  shows "admit_call ready (Body n (Some (PDict (tool_request tool params)))) =
    (case tool_of registry tool of
       None \<Rightarrow> Inl (rasat TOOL_NOT_FOUND)
     | Some spec \<Rightarrow>
         if \<not> ts_allowed_before_ready spec \<and> \<not> ready then Inl (rasat NOT_READY)
         else rbind (validate_params params (ts_schema spec)) (\<lambda>_. Inr (tool, params)))"
proof -
  let ?b = "tool_request tool params"
  have "tool_name ?b = Inr tool" "params_of ?b = Inr params"
    using assms(1) by (simp_all add: tool_name_def params_of_def tool_request_parts Let_def split: list.split)
  moreover have "merge_transport_field ?b params k params = Inr params" if "k \<in> set TRANSPORT_KEYS" for k
    using that assms(2,4) by (intro merge_same) (auto simp: TRANSPORT_KEYS_def tool_request_parts)
  then have "merge_transport_fields ?b params = Inr params" by (simp add: merge_transport_fields_def TRANSPORT_KEYS_def)
  ultimately show ?thesis
    using assms(3) by (simp add: admit_call_def body_dict_def raise_if_def split: option.split)
qed

theorem adapter_call_is_transparent_witness:
  "admit_call True (Body 80 (Some (PDict (tool_request ''get_audit_log'' [(''request_id'', PStr ''r''), (''limit'', PInt 5)]))))
     = Inr (''get_audit_log'', [(''request_id'', PStr ''r''), (''limit'', PInt 5)])"
proof -
  let ?p = "[(''request_id'', PStr ''r''), (''limit'', PInt 5)]"
  have h: "(''get_audit_log'' :: string) \<noteq> []" "distinct (map fst ?p)" "80 \<le> MAX_BODY_BYTES" "list_all (text_or_absent ?p) TRANSPORT_KEYS"
    by (simp_all add: MAX_BODY_BYTES_def TRANSPORT_KEYS_def text_or_absent_def)
  have t: "tool_of registry ''get_audit_log'' = Some tool_get_audit_log" by code_simp
  have v: "validate_params ?p (ts_schema tool_get_audit_log) = Inr ()" by code_simp
  from adapter_call_is_transparent [OF h, of True] show ?thesis by (simp add: t v)
qed

end
