(* ===== verification/Launcher.thy ===== *)
theory Launcher
  imports Adapter
begin

text \<open>
  The adapter's start-up (\<open>adapter/launcher.py\<close>): it finds a running daemon or starts one, and waits until that daemon
  is ready. The lock file, the daemon's liveness and its answers to \<open>/health\<close> may change at any time: each
  access takes one tick and the environment gives the answer of every tick. How many rounds a waiting
  loop gets before its deadline is the clock's choice, an argument.
\<close>

subsection \<open>The health probe\<close>

text \<open>\<open>DaemonClient.health\<close>\<close>

definition health_reply :: "daemon_reply \<Rightarrow> pyval res" where
  "health_reply r =
     (case r of
        No_Connection \<Rightarrow> Inl (rasat INTERNAL_ERROR)
      | Reply status body \<Rightarrow>
          if status = 401 then Inl (rasat UNAUTHORIZED) else if 400 \<le> status then Inl (rasat INTERNAL_ERROR) else body)"

definition http_probe_ok :: "daemon_reply \<Rightarrow> bool" where
  "http_probe_ok r = (case health_reply r of Inr (PDict d) \<Rightarrow> dict_get d ''ok'' = PBool True | _ \<Rightarrow> False)"

text \<open>\<open>health.get("data", {}).get("state")\<close>, where every exception gives \<open>None\<close>.\<close>

definition http_state :: "daemon_reply \<Rightarrow> pyval" where
  "http_state r =
     (case health_reply r of
        Inr (PDict d) \<Rightarrow> (case map_of d ''data'' of Some (PDict data) \<Rightarrow> dict_get data ''state'' | _ \<Rightarrow> PNone)
      | _ \<Rightarrow> PNone)"

subsection \<open>Finding a daemon\<close>

text \<open>What a read of the lock gives: the token, and what \<open>owner_alive\<close> answers when it is asked next.\<close>

record launch_env =
  le_lock :: "nat \<Rightarrow> (string \<times> bool) option"
  le_health :: "nat \<Rightarrow> string \<Rightarrow> daemon_reply"

text \<open>What the launcher does to the world: it removes the lock, for a reason, or starts a daemon.\<close>

datatype launch_action = Dead_Lock_Removed nat | Deaf_Lock_Removed string nat | Daemon_Spawned

record launch_state =
  lt_tick :: nat
  lt_actions :: "launch_action list"

type_synonym 'a launch = "launch_state \<Rightarrow> 'a res \<times> launch_state"

definition tick :: "launch_state \<Rightarrow> launch_state" where
  "tick s = s\<lparr>lt_tick := Suc (lt_tick s)\<rparr>"

definition launched :: "launch_action \<Rightarrow> launch_state \<Rightarrow> launch_state" where
  "launched a s = s\<lparr>lt_actions := lt_actions s @ [a]\<rparr>"

definition cleanup_stale_lock :: "launch_env \<Rightarrow> launch_state \<Rightarrow> launch_state" where
  "cleanup_stale_lock le s =
     (case le_lock le (lt_tick s) of
        Some (_, False) \<Rightarrow> tick (launched (Dead_Lock_Removed (lt_tick s)) s)
      | _ \<Rightarrow> tick s)"

fun wait_for_lock :: "launch_env \<Rightarrow> nat \<Rightarrow> string launch" where
  "wait_for_lock le 0 s = (Inl (rasat TIMEOUT), s)"
| "wait_for_lock le (Suc n) s =
     (case le_lock le (lt_tick s) of
        Some (token, True) \<Rightarrow> (Inr token, tick s)
      | _ \<Rightarrow> wait_for_lock le n (tick s))"

fun wait_until_ready :: "launch_env \<Rightarrow> string \<Rightarrow> nat \<Rightarrow> unit launch" where
  "wait_until_ready le token 0 s = (Inl (rasat NOT_READY), s)"
| "wait_until_ready le token (Suc n) s =
     (if http_state (le_health le (lt_tick s) token) = PStr ''ready'' then (Inr (), tick s)
      else wait_until_ready le token n (tick s))"

text \<open>The repeated probes of a daemon that did not answer.\<close>

fun probe_again :: "launch_env \<Rightarrow> string \<Rightarrow> nat \<Rightarrow> launch_state \<Rightarrow> bool \<times> launch_state" where
  "probe_again le token 0 s = (False, s)"
| "probe_again le token (Suc n) s =
     (if http_probe_ok (le_health le (lt_tick s) token) then (True, tick s) else probe_again le token n (tick s))"

text \<open>A daemon is started and its lock awaited.\<close>

definition spawn_and_wait :: "launch_env \<Rightarrow> nat \<Rightarrow> string launch" where
  "spawn_and_wait le rounds s = wait_for_lock le rounds (launched Daemon_Spawned s)"

definition find_daemon :: "launch_env \<Rightarrow> nat \<Rightarrow> nat \<Rightarrow> string launch" where
  "find_daemon le retries rounds s0 =
     (let s = tick (cleanup_stale_lock le s0) in
      case le_lock le (lt_tick s - 1) of
        None \<Rightarrow> spawn_and_wait le rounds s
      | Some (token, False) \<Rightarrow>
          spawn_and_wait le rounds
            (if le_lock le (lt_tick s) \<noteq> None then tick (launched (Dead_Lock_Removed (lt_tick s - 1)) s) else tick s)
      | Some (token, True) \<Rightarrow>
          if http_probe_ok (le_health le (lt_tick s) token) then (Inr token, tick s)
          else (case probe_again le token (max retries 1) (tick s) of
                  (True, s1) \<Rightarrow> (Inr token, s1)
                | (False, s1) \<Rightarrow> spawn_and_wait le rounds (launched (Deaf_Lock_Removed token (lt_tick s)) s1)))"

definition ensure_daemon :: "launch_env \<Rightarrow> nat \<Rightarrow> nat \<Rightarrow> nat \<Rightarrow> string launch" where
  "ensure_daemon le retries lock_rounds ready_rounds s =
     (case find_daemon le retries lock_rounds s of
        (Inl e, s1) \<Rightarrow> (Inl e, s1)
      | (Inr token, s1) \<Rightarrow>
          (case wait_until_ready le token ready_rounds s1 of (Inl e, s2) \<Rightarrow> (Inl e, s2) | (Inr _, s2) \<Rightarrow> (Inr token, s2)))"

subsection \<open>What it finds and what it does\<close>

definition owned_by :: "launch_env \<Rightarrow> string \<Rightarrow> nat \<Rightarrow> bool" where
  "owned_by le token t = (le_lock le t = Some (token, True))"

text \<open>The reasons for which a lock may be removed.\<close>

definition justified :: "launch_env \<Rightarrow> nat \<Rightarrow> launch_action \<Rightarrow> bool" where
  "justified le retries a =
     (case a of
        Dead_Lock_Removed t \<Rightarrow> (\<exists>token. le_lock le t = Some (token, False))
      | Deaf_Lock_Removed token t \<Rightarrow> (\<forall>i\<le>max retries 1. \<not> http_probe_ok (le_health le (t + i) token))
      | Daemon_Spawned \<Rightarrow> True)"

lemma launch_simps [simp]:
  "lt_tick (tick s) = Suc (lt_tick s)" "lt_actions (tick s) = lt_actions s"
  "lt_tick (launched a s) = lt_tick s" "lt_actions (launched a s) = lt_actions s @ [a]"
  by (simp_all add: tick_def launched_def)

lemma wait_for_lock_spec:
  "wait_for_lock le n s = (r, s') \<Longrightarrow> lt_actions s' = lt_actions s
     \<and> (case r of Inl e \<Rightarrow> e = rasat TIMEOUT | Inr token \<Rightarrow> \<exists>t. owned_by le token t)"
proof (induction n arbitrary: s)
  case (Suc n)
  show ?case
  proof (cases "\<exists>token. le_lock le (lt_tick s) = Some (token, True)")
    case True
    then obtain token where t: "le_lock le (lt_tick s) = Some (token, True)" by blast
    then have "owned_by le token (lt_tick s)" by (simp add: owned_by_def)
    with t Suc.prems show ?thesis by auto
  next
    case False
    with Suc.prems have "wait_for_lock le n (tick s) = (r, s')" by (auto split: option.splits prod.splits bool.splits)
    from Suc.IH [OF this] show ?thesis by simp
  qed
qed auto

lemma wait_until_ready_spec:
  "wait_until_ready le token n s = (r, s') \<Longrightarrow> lt_actions s' = lt_actions s
     \<and> (case r of Inl e \<Rightarrow> e = rasat NOT_READY | Inr _ \<Rightarrow> \<exists>t. http_state (le_health le t token) = PStr ''ready'')"
  by (induction n arbitrary: s) (auto split: if_splits)

lemma probe_again_spec:
  "probe_again le token n s = (ok, s') \<Longrightarrow> lt_actions s' = lt_actions s
     \<and> (\<not> ok \<longrightarrow> (\<forall>i<n. \<not> http_probe_ok (le_health le (lt_tick s + i) token)))"
proof (induction n arbitrary: s)
  case (Suc n)
  show ?case
  proof (cases "http_probe_ok (le_health le (lt_tick s) token)")
    case False
    with Suc.prems have "probe_again le token n (tick s) = (ok, s')" by simp
    from Suc.IH [OF this] False show ?thesis by (auto simp: less_Suc_eq_0_disj)
  qed (use Suc.prems in auto)
qed simp

text \<open>What is done in a run: removals, then at most one start.\<close>

definition run_of :: "launch_env \<Rightarrow> nat \<Rightarrow> launch_state \<Rightarrow> launch_state \<Rightarrow> bool" where
  "run_of le retries s s' =
     (\<exists>removed spawned. lt_actions s' = lt_actions s @ removed @ spawned \<and> list_all (justified le retries) removed
        \<and> Daemon_Spawned \<notin> set removed \<and> spawned \<in> {[], [Daemon_Spawned]})"

lemma run_of_spawn:
  assumes "spawn_and_wait le n s1 = (r, s')" "lt_actions s1 = lt_actions s @ removed"
    "list_all (justified le retries) removed" "Daemon_Spawned \<notin> set removed"
  shows "run_of le retries s s' \<and> (case r of Inl e \<Rightarrow> e = rasat TIMEOUT | Inr token \<Rightarrow> \<exists>t. owned_by le token t)"
proof -
  from wait_for_lock_spec [OF assms(1) [unfolded spawn_and_wait_def]] assms(2)
  have "lt_actions s' = lt_actions s @ removed @ [Daemon_Spawned]"
    "case r of Inl e \<Rightarrow> e = rasat TIMEOUT | Inr token \<Rightarrow> \<exists>t. owned_by le token t" by auto
  with assms(3,4) show ?thesis unfolding run_of_def by blast
qed

lemma cleanup_spec:
  obtains removed where "lt_actions (cleanup_stale_lock le s) = lt_actions s @ removed"
    "list_all (justified le retries) removed" "Daemon_Spawned \<notin> set removed"
proof (cases "\<exists>token. le_lock le (lt_tick s) = Some (token, False)")
  case True
  then show ?thesis
    by (intro that [of "[Dead_Lock_Removed (lt_tick s)]"]) (auto simp: cleanup_stale_lock_def justified_def)
next
  case False
  then show ?thesis
    by (intro that [of "[]"]) (auto simp: cleanup_stale_lock_def split: option.split bool.split)
qed

lemma find_daemon_spec:
  assumes "find_daemon le retries n s0 = (r, s')"
  shows "run_of le retries s0 s' \<and> (case r of Inl e \<Rightarrow> e = rasat TIMEOUT | Inr token \<Rightarrow> \<exists>t. owned_by le token t)"
proof -
  define s where "s = tick (cleanup_stale_lock le s0)"
  obtain removed where rm: "lt_actions s = lt_actions s0 @ removed" "list_all (justified le retries) removed"
      "Daemon_Spawned \<notin> set removed"
    using cleanup_spec [of le s0 retries] unfolding s_def by auto
  note found = assms [unfolded find_daemon_def, folded s_def]
  show ?thesis
  proof (cases "le_lock le (lt_tick s - 1)")
    case None
    with found have "spawn_and_wait le n s = (r, s')" by (simp add: Let_def)
    from run_of_spawn [OF this rm] show ?thesis .
  next
    case (Some p)
    obtain token alive where p: "p = (token, alive)" by fastforce
    show ?thesis
    proof (cases alive)
      case False
      let ?s1 = "if le_lock le (lt_tick s) \<noteq> None then tick (launched (Dead_Lock_Removed (lt_tick s - 1)) s) else tick s"
      have "spawn_and_wait le n ?s1 = (r, s')" using found Some p False by (simp add: Let_def)
      moreover have "justified le retries (Dead_Lock_Removed (lt_tick s - 1))" using Some p False by (simp add: justified_def)
      then have "\<exists>more. lt_actions ?s1 = lt_actions s0 @ removed @ more \<and> list_all (justified le retries) more \<and> Daemon_Spawned \<notin> set more"
        using rm(1) by (cases "le_lock le (lt_tick s) \<noteq> None") auto
      ultimately show ?thesis
        using rm(2,3) run_of_spawn [of le n ?s1 r s' s0 _ retries] by (metis UnE append.assoc list_all_append set_append)
    next
      case True
      have own: "owned_by le token (lt_tick s - 1)" using Some p True by (simp add: owned_by_def)
      show ?thesis
      proof (cases "http_probe_ok (le_health le (lt_tick s) token)")
        case ok: True
        have "r = Inr token" "s' = tick s" using found Some p True ok by (simp_all add: Let_def)
        then show ?thesis using rm own unfolding run_of_def by auto
      next
        case bad: False
        obtain ok s1 where pr: "probe_again le token (max retries 1) (tick s) = (ok, s1)" by fastforce
        show ?thesis
        proof (cases ok)
          case ok: True
          have "r = Inr token" "s' = s1" using found Some p True bad pr ok by (simp_all add: Let_def)
          then show ?thesis using rm own probe_again_spec [OF pr] unfolding run_of_def by auto
        next
          case deaf: False
          from probe_again_spec [OF pr] deaf bad
          have "\<not> http_probe_ok (le_health le (lt_tick s + i) token)" if "i \<le> max retries 1" for i
            using that by (cases i) auto
          then have j: "list_all (justified le retries) (removed @ [Deaf_Lock_Removed token (lt_tick s)])"
            using rm(2) by (simp add: justified_def)
          have sp: "spawn_and_wait le n (launched (Deaf_Lock_Removed token (lt_tick s)) s1) = (r, s')"
            using found Some p True bad pr deaf by (simp add: Let_def)
          have ac: "lt_actions (launched (Deaf_Lock_Removed token (lt_tick s)) s1)
              = lt_actions s0 @ removed @ [Deaf_Lock_Removed token (lt_tick s)]"
            using rm(1) probe_again_spec [OF pr] by simp
          from rm(3) show ?thesis by (intro run_of_spawn [OF sp ac j]) simp
        qed
      qed
    qed
  qed
qed

text \<open>What the launcher returns can be used, and what it removes it had a reason to remove. Whatever the lock
  and the daemons do meanwhile, it ends with the token of a lock whose owner was alive and which
  answered that it is ready, or with \<open>TIMEOUT\<close> or \<open>NOT_READY\<close>; it removes a lock only after reading one
  whose owner is dead, or after every one of the probes of a living owner failed; and it starts at most
  one daemon, after which it removes nothing.\<close>

theorem launcher_finds_ready_daemon:
  "(case ensure_daemon le retries lock_rounds ready_rounds s of
      (Inl e, s') \<Rightarrow> run_of le retries s s' \<and> e \<in> {rasat TIMEOUT, rasat NOT_READY}
    | (Inr token, s') \<Rightarrow> run_of le retries s s' \<and> (\<exists>t. owned_by le token t)
        \<and> (\<exists>t. http_state (le_health le t token) = PStr ''ready''))"
proof -
  obtain r s1 where f: "find_daemon le retries lock_rounds s = (r, s1)" by fastforce
  note spec = find_daemon_spec [OF f]
  show ?thesis
  proof (cases r)
    case (Inl e)
    with f spec show ?thesis by (simp add: ensure_daemon_def)
  next
    case (Inr token)
    obtain r2 s2 where w: "wait_until_ready le token ready_rounds s1 = (r2, s2)" by fastforce
    have "run_of le retries s s2" using spec wait_until_ready_spec [OF w] by (simp add: run_of_def)
    with Inr f w spec wait_until_ready_spec [OF w] show ?thesis by (simp add: ensure_daemon_def split: sum.splits)
  qed
qed

text \<open>A daemon that answers its probe is left alone.\<close>

theorem healthy_daemon_left_alone:
  assumes "\<And>t. le_lock le t = Some (token, True)" "\<And>t. http_probe_ok (le_health le t token)"
  shows "lt_actions (snd (ensure_daemon le retries n k s)) = lt_actions s"
proof -
  have "find_daemon le retries n s = (Inr token, tick (tick (cleanup_stale_lock le s)))"
    by (simp add: find_daemon_def Let_def assms)
  moreover have "lt_actions (cleanup_stale_lock le s) = lt_actions s" by (simp add: cleanup_stale_lock_def assms)
  ultimately show ?thesis
    using wait_until_ready_spec [of le token k "tick (tick (cleanup_stale_lock le s))"]
    by (auto simp: ensure_daemon_def split: prod.split sum.split)
qed

text \<open>The check that is meant for a race only asks whether there is a lock: when a new daemon has replaced the
  dead one's lock in between, the live lock is removed.\<close>

definition race_env :: launch_env where
  "race_env = \<lparr>le_lock = (\<lambda>t. if t = 1 then Some (''old'', False) else if t = 0 then None else Some (''new'', True)),
     le_health = (\<lambda>_ _. No_Connection)\<rparr>"

theorem race_check_removes_live_lock:
  "lt_actions (snd (find_daemon race_env 5 3 \<lparr>lt_tick = 0, lt_actions = []\<rparr>)) = [Dead_Lock_Removed 1, Daemon_Spawned]
   \<and> le_lock race_env 2 = Some (''new'', True)"
  by code_simp

end
