(* ===== verification/Envelope.thy ===== *)
theory Envelope
  imports Adapter
begin

text \<open>
  The envelope of every reply (\<open>envelope.py\<close>), and what becomes of an answer of the daemon on its way through the
  adapter. The text and the details of an error are arguments, and so is what a handler's data look like.
\<close>

record meta =
  mt_as_of :: string
  mt_source :: string
  mt_freshness :: string
  mt_algo_version :: "string option"
  mt_extra :: pydict

definition meta_dict :: "meta \<Rightarrow> pydict" where
  "meta_dict mt =
     fold (\<lambda>(k, v) d. dict_put d k v) (mt_extra mt)
       ([(''as_of'', PStr (mt_as_of mt)), (''source'', PStr (mt_source mt)), (''freshness'', PStr (mt_freshness mt))]
        @ (case mt_algo_version mt of None \<Rightarrow> [] | Some v \<Rightarrow> [(''algo_version'', PStr v)]))"

definition default_meta :: "string \<Rightarrow> meta" where
  "default_meta as_of = \<lparr>mt_as_of = as_of, mt_source = ''daemon'', mt_freshness = ''fresh'', mt_algo_version = None, mt_extra = []\<rparr>"

definition ok_response :: "pyval \<Rightarrow> meta \<Rightarrow> pyval \<Rightarrow> pydict" where
  "ok_response data mt request_id =
     [(''ok'', PBool True)] @ (if data = PNone then [] else [(''data'', data)]) @ [(''meta'', PDict (meta_dict mt))]
     @ (if truthy request_id then [(''request_id'', request_id)] else [])"

definition error_response :: "string \<Rightarrow> string \<Rightarrow> pyval \<Rightarrow> meta \<Rightarrow> pyval \<Rightarrow> pydict" where
  "error_response code message details mt request_id =
     [(''ok'', PBool False),
      (''error'', PDict ([(''code'', PStr code), (''message'', PStr message)] @ (if details = PNone then [] else [(''details'', details)]))),
      (''meta'', PDict (meta_dict mt))]
     @ (if truthy request_id then [(''request_id'', request_id)] else [])"

definition error_response_from_exc :: "pyexc \<Rightarrow> string \<Rightarrow> pyval \<Rightarrow> meta \<Rightarrow> pyval \<Rightarrow> pydict" where
  "error_response_from_exc x message details mt request_id =
     (case x of
        RasatError c _ \<Rightarrow> error_response (code_name c) message details mt request_id
      | _ \<Rightarrow> error_response ''INTERNAL_ERROR'' message PNone mt request_id)"

text \<open>The body of an answer: \<open>None\<close> is the web server's own error page, which is not JSON.\<close>

definition answer_json :: "('a \<Rightarrow> pyval \<times> meta) \<Rightarrow> string \<Rightarrow> pyval \<Rightarrow> string \<Rightarrow> 'a answer \<Rightarrow> pydict option" where
  "answer_json render message details as_of a =
     (case an_body a of
        Ok_Body x request_id \<Rightarrow> (case render x of (data, mt) \<Rightarrow> Some (ok_response data mt request_id))
      | Error_Body c \<Rightarrow> Some (error_response (code_name c) message details (default_meta as_of) PNone)
      | Server_Error \<Rightarrow> None)"

definition answer_reply :: "('a \<Rightarrow> pyval \<times> meta) \<Rightarrow> string \<Rightarrow> pyval \<Rightarrow> string \<Rightarrow> 'a answer \<Rightarrow> daemon_reply" where
  "answer_reply render message details as_of a =
     Reply (an_status a) (case answer_json render message details as_of a of None \<Rightarrow> Inl (rasat INTERNAL_ERROR) | Some d \<Rightarrow> Inr (PDict d))"

definition error_code :: "pydict \<Rightarrow> pyval" where
  "error_code d = (case dict_get d ''error'' of PDict e \<Rightarrow> dict_get e ''code'' | _ \<Rightarrow> PNone)"

lemma response_parts:
  "dict_get (ok_response data mt rid) ''ok'' = PBool True" "dict_get (ok_response data mt rid) ''data'' = data"
  "dict_get (error_response c m dt mt rid) ''ok'' = PBool False" "error_code (error_response c m dt mt rid) = PStr c"
  "error_code (error_envelope ec) = PStr (code_name ec)"
  by (simp_all add: ok_response_def error_response_def error_envelope_def error_code_def dict_get_def)

text \<open>Status 401 belongs to \<open>UNAUTHORIZED\<close> alone.\<close>

definition well_formed_answer :: "'a answer \<Rightarrow> bool" where
  "well_formed_answer a =
     (case an_body a of
        Ok_Body _ _ \<Rightarrow> an_status a = 200
      | Error_Body c \<Rightarrow> an_status a = http_status_for c
      | Server_Error \<Rightarrow> an_status a = 500)"

lemma status_401: "http_status_for c = 401 \<Longrightarrow> c = UNAUTHORIZED"
  by (cases c) (simp_all add: http_status_for_def http_status_table_def)

lemma answer_of_well_formed: "well_formed_answer (answer_of r)" "well_formed_answer (error_answer c)"
  by (auto simp: well_formed_answer_def answer_of_def error_answer_def split: sum.split prod.split)

text \<open>The agent learns the daemon's answer: it gets a result that is no error exactly for an answer with data, and
  these data; otherwise the code of the daemon's error, and \<open>INTERNAL_ERROR\<close> for an answer that is no JSON.\<close>

theorem agent_sees_answer:
  assumes "well_formed_answer a"
  shows "case tool_result (answer_reply render message details as_of a) of (d, is_error) \<Rightarrow>
    (case an_body a of
       Ok_Body x rid \<Rightarrow> \<not> is_error \<and> d = ok_response (fst (render x)) (snd (render x)) rid \<and> dict_get d ''data'' = fst (render x)
     | Error_Body c \<Rightarrow> is_error \<and> error_code d = PStr (code_name c)
     | Server_Error \<Rightarrow> is_error \<and> error_code d = PStr (code_name INTERNAL_ERROR))"
proof (cases "an_body a")
  case (Ok_Body x rid)
  with assms show ?thesis
    by (simp add: well_formed_answer_def tool_result_def answer_reply_def answer_json_def read_reply_def rbind_def Let_def
        response_parts split: prod.split)
next
  case (Error_Body c)
  with assms status_401 [of c] show ?thesis
    by (auto simp: well_formed_answer_def tool_result_def answer_reply_def answer_json_def read_reply_def rbind_def Let_def response_parts)
next
  case Server_Error
  then show ?thesis
    by (simp add: tool_result_def answer_reply_def answer_json_def read_reply_def rbind_def Let_def response_parts)
qed

end
