(* ===== verification/Lifecycle.thy ===== *)
theory Lifecycle
  imports Readiness
begin

text \<open>
  The life of the daemon process (\<open>daemon/main.py\<close>, with \<open>build_site\<close> of \<open>daemon/server.py\<close>): start-up in stages, each of which
  may raise or be cancelled, the parts it opens, and the shutdown that closes them. A part is \<open>known\<close> once it is
  an attribute of the runner, which is what the shutdown goes by. What a stage does is modelled with its
  component; here is what happens around it.
\<close>

subsection \<open>Parts, stages and steps\<close>

datatype part = Lock_Part | Writer_Part | Pipeline_Part | Worker_Part | Broker_Part | Runner_Part | Site_Part

datatype stage =
    Acquire_Lock
  | Record_Migrating
  | Run_Migrations
  | Reconcile_Overrides
  | Reconcile_Emergency_Log
  | Record_Warming
  | Start_Pipeline
  | Reconcile_Orders
  | Reconcile_Pending
  | Setup_Runner
  | Start_Site
  | Record_Ready

datatype failure = Cancelled | Lock_Held | Failed pyexc

datatype daemon_action = Opened part | Done stage | Gave_Up stage | Closing part

record runner =
  rn_readiness :: readiness
  rn_known :: "part list"
  rn_open :: "part list"
  rn_stopped :: bool
  rn_trace :: "daemon_action list"

definition new_daemon :: runner where
  "new_daemon = \<lparr>rn_readiness = readiness_init, rn_known = [], rn_open = [], rn_stopped = False, rn_trace = []\<rparr>"

text \<open>A step ends with a failure or goes on.\<close>

type_synonym step = "runner \<Rightarrow> failure option \<times> runner"

definition note_action :: "daemon_action \<Rightarrow> runner \<Rightarrow> runner" where
  "note_action a d = d\<lparr>rn_trace := rn_trace d @ [a]\<rparr>"

definition open_part :: "part \<Rightarrow> step" where
  "open_part p d = (None, note_action (Opened p) (d\<lparr>rn_open := p # rn_open d\<rparr>))"

definition know :: "part \<Rightarrow> step" where
  "know p d = (None, d\<lparr>rn_known := p # rn_known d\<rparr>)"

definition stage_step :: "(stage \<Rightarrow> failure option) \<Rightarrow> stage \<Rightarrow> step" where
  "stage_step fails st d = (case fails st of None \<Rightarrow> (None, note_action (Done st) d) | Some f \<Rightarrow> (Some f, d))"

text \<open>A stage in a \<open>try\<close> with \<open>except Exception\<close>, which a cancellation passes through.\<close>

definition attempt_step :: "(stage \<Rightarrow> failure option) \<Rightarrow> stage \<Rightarrow> step" where
  "attempt_step fails st d =
     (case fails st of
        None \<Rightarrow> (None, note_action (Done st) d)
      | Some Cancelled \<Rightarrow> (Some Cancelled, d)
      | Some _ \<Rightarrow> (None, note_action (Gave_Up st) d))"

definition ready_step :: "string \<Rightarrow> step" where
  "ready_step st d =
     (case set_state st (rn_readiness d) of Inl e \<Rightarrow> (Some (Failed e), d) | Inr r \<Rightarrow> (None, d\<lparr>rn_readiness := r\<rparr>))"

fun in_order :: "step list \<Rightarrow> step" where
  "in_order [] d = (None, d)"
| "in_order (x # xs) d = (case x d of (None, d') \<Rightarrow> in_order xs d' | (Some f, d') \<Rightarrow> (Some f, d'))"

subsection \<open>Start-up\<close>

definition migration_steps :: "(stage \<Rightarrow> failure option) \<Rightarrow> step list" where
  "migration_steps fails =
     [know Writer_Part, open_part Writer_Part, ready_step ''migrating'', stage_step fails Record_Migrating,
      stage_step fails Run_Migrations, stage_step fails Reconcile_Overrides, attempt_step fails Reconcile_Emergency_Log,
      ready_step ''warming_up'', stage_step fails Record_Warming]"

definition pipeline_steps :: "(stage \<Rightarrow> failure option) \<Rightarrow> step list" where
  "pipeline_steps fails = [know Pipeline_Part, open_part Pipeline_Part, stage_step fails Start_Pipeline]"

text \<open>\<open>_start_http\<close> up to the HTTP server, and the server. \<open>build_site\<close> returns the site and its runner together, so
  neither is known before both are up.\<close>

definition service_steps :: "(stage \<Rightarrow> failure option) \<Rightarrow> bool \<Rightarrow> step list" where
  "service_steps fails pipeline =
     (if pipeline
      then [know Worker_Part, open_part Worker_Part, know Broker_Part, open_part Broker_Part,
            attempt_step fails Reconcile_Orders, attempt_step fails Reconcile_Pending]
      else [])"

definition site_steps :: "(stage \<Rightarrow> failure option) \<Rightarrow> step list" where
  "site_steps fails =
     [open_part Runner_Part, stage_step fails Setup_Runner, stage_step fails Start_Site, open_part Site_Part,
      know Runner_Part, know Site_Part]"

definition before_site :: "(stage \<Rightarrow> failure option) \<Rightarrow> bool \<Rightarrow> step list" where
  "before_site fails pipeline =
     migration_steps fails @ (if pipeline then pipeline_steps fails else []) @ service_steps fails pipeline"

subsection \<open>Shutdown\<close>

text \<open>\<open>closes p\<close> is whether closing \<open>p\<close> succeeds; a failure is logged and the shutdown goes on.\<close>

definition close_part :: "(part \<Rightarrow> bool) \<Rightarrow> part \<Rightarrow> runner \<Rightarrow> runner" where
  "close_part closes p d =
     (if p \<notin> set (rn_known d) then d
      else note_action (Closing p) (if closes p then d\<lparr>rn_open := removeAll p (rn_open d)\<rparr> else d))"

definition CLOSING_ORDER :: "part list" where
  "CLOSING_ORDER = [Worker_Part, Site_Part, Runner_Part, Broker_Part, Pipeline_Part, Writer_Part, Lock_Part]"

definition stop_daemon :: "(part \<Rightarrow> bool) \<Rightarrow> runner \<Rightarrow> runner" where
  "stop_daemon closes d =
     (if rn_stopped d then d else (fold (close_part closes) CLOSING_ORDER d)\<lparr>rn_stopped := True\<rparr>)"

definition start_daemon :: "(stage \<Rightarrow> failure option) \<Rightarrow> (part \<Rightarrow> bool) \<Rightarrow> bool \<Rightarrow> step" where
  "start_daemon fails closes pipeline d =
     (case in_order [stage_step fails Acquire_Lock, know Lock_Part, open_part Lock_Part] d of
        (Some f, d1) \<Rightarrow> (Some f, d1)
      | (None, d1) \<Rightarrow>
          (case in_order (before_site fails pipeline @ site_steps fails) d1 of
             (Some f, d2) \<Rightarrow> (Some f, stop_daemon closes d2)
           | (None, d2) \<Rightarrow> in_order [ready_step ''ready'', stage_step fails Record_Ready] d2))"

text \<open>\<open>run_daemon\<close>: the exit code, where a lock that is held is no error; \<open>run\<close> ends with the shutdown however it
  ends.\<close>

definition run_daemon :: "(stage \<Rightarrow> failure option) \<Rightarrow> (part \<Rightarrow> bool) \<Rightarrow> bool \<Rightarrow> (failure + int) \<times> runner" where
  "run_daemon fails closes pipeline =
     (case start_daemon fails closes pipeline new_daemon of
        (Some Lock_Held, d) \<Rightarrow> (Inr 0, d)
      | (Some f, d) \<Rightarrow> (Inl f, d)
      | (None, d) \<Rightarrow> (Inr 0, stop_daemon closes d))"

subsection \<open>Nothing is left open\<close>

text \<open>Every open part is known, so that a shutdown reaches it.\<close>

definition clean :: "runner \<Rightarrow> bool" where
  "clean d = (\<not> rn_stopped d \<and> set (rn_open d) \<subseteq> set (rn_known d))"

definition keeps_clean :: "step list \<Rightarrow> bool" where
  "keeps_clean xs = (\<forall>d. clean d \<longrightarrow> clean (snd (in_order xs d)))"

lemma in_order_append: "in_order (xs @ ys) d = (case in_order xs d of (None, d') \<Rightarrow> in_order ys d' | r \<Rightarrow> r)"
  by (induction xs arbitrary: d) (auto split: prod.split option.split)

lemma keeps_clean_step:
  assumes "\<And>d. clean d \<Longrightarrow> clean (snd (x d))" "keeps_clean xs"
  shows "keeps_clean (x # xs)"
proof -
  have "clean (snd (in_order (x # xs) d))" if "clean d" for d
    using assms(1) [OF that] assms(2) by (cases "x d") (auto simp: keeps_clean_def split: option.split)
  then show ?thesis by (simp add: keeps_clean_def)
qed

lemma keeps_clean_open:
  assumes "keeps_clean xs"
  shows "keeps_clean (know p # open_part p # xs)"
proof -
  have "clean (snd (in_order (know p # open_part p # xs) d))" if "clean d" for d
  proof -
    have "clean (snd (open_part p (snd (know p d))))"
      using that by (auto simp: clean_def know_def open_part_def note_action_def)
    with assms have "clean (snd (in_order xs (snd (open_part p (snd (know p d))))))" by (simp add: keeps_clean_def)
    then show ?thesis by (simp add: know_def open_part_def)
  qed
  then show ?thesis by (simp add: keeps_clean_def)
qed

lemma keeps_clean_nil: "keeps_clean []"
  by (simp add: keeps_clean_def)

lemma keeps_clean_append:
  assumes "keeps_clean xs" "keeps_clean ys"
  shows "keeps_clean (xs @ ys)"
proof -
  have "clean (snd (in_order (xs @ ys) d))" if "clean d" for d
  proof (cases "in_order xs d")
    case (Pair r d')
    with assms(1) that have "clean d'" by (metis keeps_clean_def snd_conv)
    with Pair assms(2) show ?thesis by (cases r) (simp_all add: in_order_append keeps_clean_def)
  qed
  then show ?thesis by (simp add: keeps_clean_def)
qed

lemma keeps_clean_stage:
  "keeps_clean xs \<Longrightarrow> keeps_clean (stage_step fails st # xs)"
  "keeps_clean xs \<Longrightarrow> keeps_clean (attempt_step fails st # xs)"
  "keeps_clean xs \<Longrightarrow> keeps_clean (ready_step s # xs)"
  by (auto intro!: keeps_clean_step
    simp: stage_step_def attempt_step_def ready_step_def clean_def note_action_def split: option.split failure.split sum.split)

lemmas keeps_clean_rules = keeps_clean_open keeps_clean_stage keeps_clean_nil keeps_clean_append

lemma before_site_clean: "keeps_clean (before_site fails pipeline)"
  by (auto simp: before_site_def migration_steps_def pipeline_steps_def service_steps_def intro!: keeps_clean_rules simp del: append_Cons)

lemma closed_when_clean:
  assumes "clean d"
  shows "set (rn_open (stop_daemon closes d)) \<subseteq> {p. \<not> closes p}"
proof -
  have *: "p \<in> set (rn_open (fold (close_part closes) ps d)) \<Longrightarrow> p \<in> set (rn_open d) \<and> (p \<in> set ps \<longrightarrow> p \<in> set (rn_known d) \<longrightarrow> \<not> closes p)"
    for ps p and d :: runner
  proof (induction ps arbitrary: d)
    case (Cons q qs)
    from Cons.IH [of "close_part closes q d"] Cons.prems show ?case
      by (auto simp: close_part_def note_action_def split: if_splits)
  qed simp
  have "p \<in> set CLOSING_ORDER" for p by (cases p) (simp_all add: CLOSING_ORDER_def)
  with assms * [of _ CLOSING_ORDER d] show ?thesis by (auto simp: stop_daemon_def clean_def)
qed

lemma in_order_keeps: "(\<And>x d. x \<in> set xs \<Longrightarrow> I d \<Longrightarrow> I (snd (x d))) \<Longrightarrow> I d \<Longrightarrow> I (snd (in_order xs d))"
proof (induction xs arbitrary: d)
  case (Cons x xs)
  from Cons.prems have "I (snd (x d))" by simp
  with Cons show ?case by (cases "x d") (auto split: option.split)
qed simp

text \<open>The readiness reaches \<open>warming_up\<close> before the server is built and is not touched by it.\<close>

lemma steps_readiness:
  "rn_readiness (snd (know p d)) = rn_readiness d" "rn_readiness (snd (open_part p d)) = rn_readiness d"
  "rn_readiness (snd (stage_step fails st d)) = rn_readiness d" "rn_readiness (snd (attempt_step fails st d)) = rn_readiness d"
  by (simp_all add: know_def open_part_def stage_step_def attempt_step_def note_action_def split: option.split failure.split)

lemma later_steps_readiness:
  assumes "in_order ((if pipeline then pipeline_steps fails else []) @ service_steps fails pipeline @ site_steps fails) d = (r, d')"
  shows "rn_readiness d' = rn_readiness d"
proof -
  let ?xs = "(if pipeline then pipeline_steps fails else []) @ service_steps fails pipeline @ site_steps fails"
  have "rn_readiness (snd (in_order ?xs d)) = rn_readiness d"
  proof (rule in_order_keeps [where I = "\<lambda>x. rn_readiness x = rn_readiness d"])
    show "rn_readiness (snd (x d0)) = rn_readiness d" if "x \<in> set ?xs" "rn_readiness d0 = rn_readiness d" for x d0
      using that by (auto simp: pipeline_steps_def service_steps_def site_steps_def steps_readiness split: if_splits)
  qed simp
  with assms show ?thesis by simp
qed

lemma migration_steps_readiness:
  assumes "in_order (migration_steps fails) d = (None, d')" "rn_readiness d = readiness_init"
  shows "rd_state (rn_readiness d') = ''warming_up''"
  using assms
  by (auto simp: migration_steps_def know_def open_part_def stage_step_def attempt_step_def ready_step_def note_action_def
      readiness_init_def set_state_def STATES_def states_before_def split: option.splits failure.splits)

lemma startup_readiness:
  assumes "in_order (before_site fails pipeline @ site_steps fails) d = (None, d')" "rn_readiness d = readiness_init"
  shows "rd_state (rn_readiness d') = ''warming_up''"
proof -
  obtain d1 where d1: "in_order (migration_steps fails) d = (None, d1)"
    "in_order ((if pipeline then pipeline_steps fails else []) @ service_steps fails pipeline @ site_steps fails) d1 = (None, d')"
    using assms(1) unfolding before_site_def append_assoc
    by (subst (asm) in_order_append) (auto split: prod.splits option.splits)
  from migration_steps_readiness [OF d1(1) assms(2)] later_steps_readiness [OF d1(2)] show ?thesis by simp
qed

lemma site_steps_clean:
  assumes "fails Setup_Runner = None" "fails Start_Site = None" "clean d"
  shows "clean (snd (in_order (site_steps fails) d))"
  using assms by (auto simp: site_steps_def stage_step_def clean_def know_def open_part_def note_action_def)

lemma startup_clean:
  assumes "fails Setup_Runner = None" "fails Start_Site = None" "clean d"
  shows "clean (snd (in_order (before_site fails pipeline @ site_steps fails) d))"
proof (cases "in_order (before_site fails pipeline) d")
  case (Pair r d1)
  then have "clean d1" using before_site_clean assms(3) unfolding keeps_clean_def by (metis snd_conv)
  with Pair site_steps_clean [OF assms(1,2)] show ?thesis by (cases r) (simp_all add: in_order_append)
qed

text \<open>C19: However the daemon ends, it leaves nothing open. Whatever fails or is cancelled at any stage of the start-up
  (binding the HTTP server and the last write to the lock file apart), and however many parts fail to
  close, when the process ends every part it opened, the lock included, has been closed, except those
  whose own closing failed.\<close>

theorem daemon_leaves_nothing_open:
  assumes "run_daemon fails closes pipeline = (r, d)"
    "fails Setup_Runner = None" "fails Start_Site = None" "fails Record_Ready = None"
  shows "set (rn_open d) \<subseteq> {p. \<not> closes p}"
proof (cases "fails Acquire_Lock")
  case (Some f)
  with assms(1) show ?thesis
    by (auto simp: run_daemon_def start_daemon_def stage_step_def new_daemon_def split: failure.splits)
next
  case None
  define d1 where "d1 = snd (in_order [stage_step fails Acquire_Lock, know Lock_Part, open_part Lock_Part] new_daemon)"
  have d1: "in_order [stage_step fails Acquire_Lock, know Lock_Part, open_part Lock_Part] new_daemon = (None, d1)"
    "clean d1" "rn_readiness d1 = readiness_init"
    by (simp_all add: d1_def None stage_step_def know_def open_part_def note_action_def new_daemon_def clean_def)
  obtain x d2 where s: "in_order (before_site fails pipeline @ site_steps fails) d1 = (x, d2)" by fastforce
  have "clean d2" using startup_clean [of fails, OF assms(2,3) d1(2), of pipeline] s by simp
  note closed = closed_when_clean [OF this, of closes]
  show ?thesis
  proof (cases x)
    case (Some f)
    with s d1(1) assms(1) closed show ?thesis
      by (auto simp: run_daemon_def start_daemon_def split: failure.splits)
  next
    case x: None
    obtain rd where rd: "set_state ''ready'' (rn_readiness d2) = Inr rd"
      using startup_readiness [of fails pipeline d1 d2] s x d1(3) by (auto simp: set_state_def STATES_def states_before_def)
    let ?d3 = "note_action (Done Record_Ready) (d2\<lparr>rn_readiness := rd\<rparr>)"
    have "start_daemon fails closes pipeline new_daemon = (None, ?d3)"
      using s d1(1) x rd assms(4) by (simp add: start_daemon_def ready_step_def stage_step_def)
    then have "d = stop_daemon closes ?d3" using assms(1) by (simp add: run_daemon_def)
    moreover have "clean ?d3" using \<open>clean d2\<close> by (simp add: clean_def note_action_def)
    ultimately show ?thesis using closed_when_clean by simp
  qed
qed

theorem daemon_leaves_nothing_open_witness:
  "rn_open (snd (run_daemon ((\<lambda>_. None)(Run_Migrations := Some (Failed RuntimeError))) (\<lambda>_. True) True)) = []"
proof -
  let ?fails = "(\<lambda>_. None)(Run_Migrations := Some (Failed RuntimeError))"
  obtain r d where d: "run_daemon ?fails (\<lambda>_. True) True = (r, d)" by fastforce
  have "?fails Setup_Runner = None" "?fails Start_Site = None" "?fails Record_Ready = None" by simp_all
  from daemon_leaves_nothing_open [OF d this] d show ?thesis by simp
qed

subsection \<open>Recovery before service\<close>

lemma trace_simps [simp]:
  "rn_trace (snd (know p d)) = rn_trace d" "rn_trace (snd (open_part p d)) = rn_trace d @ [Opened p]"
  "rn_trace (snd (ready_step s d)) = rn_trace d" "rn_trace (note_action a d) = rn_trace d @ [a]"
  "rn_trace (snd (stage_step fails st d)) = rn_trace d @ (if fails st = None then [Done st] else [])"
  "rn_trace (snd (attempt_step fails st d)) = rn_trace d
     @ (case fails st of None \<Rightarrow> [Done st] | Some Cancelled \<Rightarrow> [] | Some _ \<Rightarrow> [Gave_Up st])"
  by (simp_all add: know_def open_part_def ready_step_def stage_step_def attempt_step_def note_action_def
      split: option.split failure.split sum.split)

lemma step_extends:
  assumes "x \<in> set (before_site fails pipeline)"
  shows "\<exists>as. rn_trace (snd (x d)) = rn_trace d @ as \<and> Opened Site_Part \<notin> set as"
  using assms
  by (auto simp: before_site_def migration_steps_def pipeline_steps_def service_steps_def split: if_splits option.split failure.split)

lemma before_site_trace:
  assumes "in_order xs d = (r, d')" "set xs \<subseteq> set (before_site fails pipeline)"
  shows "set (rn_trace d) \<subseteq> set (rn_trace d')" "Opened Site_Part \<notin> set (rn_trace d) \<Longrightarrow> Opened Site_Part \<notin> set (rn_trace d')"
proof -
  let ?I = "\<lambda>d0 :: runner. set (rn_trace d) \<subseteq> set (rn_trace d0)
    \<and> (Opened Site_Part \<notin> set (rn_trace d) \<longrightarrow> Opened Site_Part \<notin> set (rn_trace d0))"
  have "?I (snd (in_order xs d))"
  proof (rule in_order_keeps [where I = ?I])
    fix x d0
    assume x: "x \<in> set xs" "?I d0"
    then have "x \<in> set (before_site fails pipeline)" using assms(2) by blast
    from step_extends [OF this, of d0] obtain as where "rn_trace (snd (x d0)) = rn_trace d0 @ as" "Opened Site_Part \<notin> set as" by blast
    with x(2) show "?I (snd (x d0))" by auto
  qed simp
  then show "set (rn_trace d) \<subseteq> set (rn_trace d')" "Opened Site_Part \<notin> set (rn_trace d) \<Longrightarrow> Opened Site_Part \<notin> set (rn_trace d')"
    using assms(1) by auto
qed

text \<open>A step of a run that went through left its mark.\<close>

lemma in_order_marks:
  assumes "in_order xs d = (None, d')" "set xs \<subseteq> set (before_site fails pipeline)" "x \<in> set xs"
    "\<And>d d'. x d = (None, d') \<Longrightarrow> A \<inter> set (rn_trace d') \<noteq> {}"
  shows "A \<inter> set (rn_trace d') \<noteq> {}"
  using assms(1-3)
proof (induction xs arbitrary: d)
  case (Cons y ys)
  obtain d1 where d1: "y d = (None, d1)" "in_order ys d1 = (None, d')"
    using Cons.prems(1) by (auto split: prod.splits option.splits)
  show ?case
  proof (cases "x = y")
    case True
    with assms(4) d1(1) have "A \<inter> set (rn_trace d1) \<noteq> {}" by blast
    with before_site_trace(1) [OF d1(2), of fails pipeline] Cons.prems(2) show ?thesis by auto
  next
    case False
    with Cons.prems d1 show ?thesis by (intro Cons.IH [OF d1(2)]) auto
  qed
qed simp

definition recovery_done :: "bool \<Rightarrow> daemon_action set \<Rightarrow> bool" where
  "recovery_done pipeline as =
     (Done Run_Migrations \<in> as \<and> Done Reconcile_Overrides \<in> as
      \<and> (Done Reconcile_Emergency_Log \<in> as \<or> Gave_Up Reconcile_Emergency_Log \<in> as)
      \<and> (pipeline \<longrightarrow> (Done Reconcile_Orders \<in> as \<or> Gave_Up Reconcile_Orders \<in> as)
            \<and> (Done Reconcile_Pending \<in> as \<or> Gave_Up Reconcile_Pending \<in> as)))"

lemma stage_marks: "stage_step fails st d = (None, d') \<Longrightarrow> {Done st} \<inter> set (rn_trace d') \<noteq> {}"
  by (auto simp: stage_step_def split: option.splits)

lemma attempt_marks: "attempt_step fails st d = (None, d') \<Longrightarrow> {Done st, Gave_Up st} \<inter> set (rn_trace d') \<noteq> {}"
  by (auto simp: attempt_step_def split: option.splits failure.splits)

lemma before_site_recovers:
  assumes "in_order (before_site fails pipeline) d = (None, d')"
  shows "recovery_done pipeline (set (rn_trace d'))"
proof -
  note marks = in_order_marks [OF assms subset_refl]
  have "stage_step fails Run_Migrations \<in> set (before_site fails pipeline)" "stage_step fails Reconcile_Overrides \<in> set (before_site fails pipeline)"
    "attempt_step fails Reconcile_Emergency_Log \<in> set (before_site fails pipeline)"
    "pipeline \<Longrightarrow> attempt_step fails Reconcile_Orders \<in> set (before_site fails pipeline)"
    "pipeline \<Longrightarrow> attempt_step fails Reconcile_Pending \<in> set (before_site fails pipeline)"
    by (simp_all add: before_site_def migration_steps_def service_steps_def)
  from marks [OF this(1) stage_marks] marks [OF this(2) stage_marks] marks [OF this(3) attempt_marks]
    marks [OF this(4) attempt_marks] marks [OF this(5) attempt_marks]
  show ?thesis unfolding recovery_done_def by auto
qed

lemma closing_trace: "\<exists>ps. rn_trace (stop_daemon closes d) = rn_trace d @ map Closing ps"
proof -
  have "\<exists>ps. rn_trace (fold (close_part closes) qs d) = rn_trace d @ map Closing ps" for qs
  proof (induction qs arbitrary: d)
    case Nil
    have "rn_trace (fold (close_part closes) [] d) = rn_trace d @ map Closing []" by simp
    then show ?case by blast
  next
    case (Cons q qs)
    have "\<exists>ps. rn_trace (close_part closes q d) = rn_trace d @ map Closing ps"
      by (cases "q \<in> set (rn_known d)") (auto simp: close_part_def intro: exI [of _ "[q]"] exI [of _ "[]"])
    with Cons.IH [of "close_part closes q d"] show ?case by (metis append.assoc fold_simps(2) map_append)
  qed
  then show ?thesis by (simp add: stop_daemon_def)
qed

lemma site_steps_trace:
  assumes "in_order (site_steps fails) d = (r, d')"
  shows "\<exists>as. rn_trace d' = rn_trace d @ as \<and> (Opened Site_Part \<in> set as \<longrightarrow>
    as = [Opened Runner_Part, Done Setup_Runner, Done Start_Site, Opened Site_Part])"
  using assms
  by (auto simp: site_steps_def open_part_def know_def stage_step_def note_action_def split: option.splits)

text \<open>Whatever ends the start-up adds no opening of the site.\<close>

lemma start_trace:
  assumes "start_daemon fails closes pipeline new_daemon = (r, d)" "Opened Site_Part \<in> set (rn_trace d)"
  shows "\<exists>as bs. rn_trace d = as @ Opened Site_Part # bs \<and> recovery_done pipeline (set as)
    \<and> Opened Site_Part \<notin> set as \<and> Opened Site_Part \<notin> set bs"
proof (cases "fails Acquire_Lock")
  case (Some f)
  with assms show ?thesis by (auto simp: start_daemon_def stage_step_def new_daemon_def)
next
  case None
  define d1 where "d1 = snd (in_order [stage_step fails Acquire_Lock, know Lock_Part, open_part Lock_Part] new_daemon)"
  have d1: "in_order [stage_step fails Acquire_Lock, know Lock_Part, open_part Lock_Part] new_daemon = (None, d1)"
    "Opened Site_Part \<notin> set (rn_trace d1)"
    by (simp_all add: d1_def None stage_step_def know_def open_part_def note_action_def new_daemon_def)
  obtain x d2 where s: "in_order (before_site fails pipeline @ site_steps fails) d1 = (x, d2)" by fastforce
  have tail: "\<exists>cs. rn_trace d = rn_trace d2 @ cs \<and> Opened Site_Part \<notin> set cs"
  proof (cases x)
    case (Some f)
    with s d1(1) assms(1) have "d = stop_daemon closes d2" by (simp add: start_daemon_def)
    with closing_trace [of closes d2] show ?thesis by auto
  next
    case None
    with s d1(1) assms(1) show ?thesis
      by (auto simp: start_daemon_def ready_step_def stage_step_def note_action_def split: sum.splits option.splits)
  qed
  obtain y d3 where b: "in_order (before_site fails pipeline) d1 = (y, d3)" by fastforce
  have quiet: "Opened Site_Part \<notin> set (rn_trace d3)" using before_site_trace(2) [OF b subset_refl d1(2)] .
  show ?thesis
  proof (cases y)
    case (Some f)
    with s b have "d2 = d3" by (simp add: in_order_append)
    with quiet tail assms(2) show ?thesis by auto
  next
    case y: None
    with s b have "in_order (site_steps fails) d3 = (x, d2)" by (simp add: in_order_append)
    from site_steps_trace [OF this] tail assms(2) quiet
    obtain cs where cs: "rn_trace d = (rn_trace d3 @ [Opened Runner_Part, Done Setup_Runner, Done Start_Site]) @ Opened Site_Part # cs"
      "Opened Site_Part \<notin> set cs" by fastforce
    moreover have "recovery_done pipeline (set (rn_trace d3 @ [Opened Runner_Part, Done Setup_Runner, Done Start_Site]))"
      using before_site_recovers [of fails pipeline d1 d3] b y by (auto simp: recovery_done_def)
    moreover have "Opened Site_Part \<notin> set (rn_trace d3 @ [Opened Runner_Part, Done Setup_Runner, Done Start_Site])" using quiet by simp
    ultimately show ?thesis by blast
  qed
qed

text \<open>Nothing is served before the recovery. Whenever the daemon opens its HTTP site, the migrations have run and the
  overrides are reconciled, and the emergency log, and with the pipeline the open orders and the pending
  executions, have been reconciled or given up with an exception.\<close>

theorem recovery_before_service:
  assumes "rn_trace (snd (run_daemon fails closes pipeline)) = as @ Opened Site_Part # bs"
  shows "recovery_done pipeline (set as)"
proof -
  obtain r d where d: "start_daemon fails closes pipeline new_daemon = (r, d)" by fastforce
  have "\<exists>ps. rn_trace (snd (run_daemon fails closes pipeline)) = rn_trace d @ map Closing ps"
  proof (cases r)
    case None
    with closing_trace [of closes d] d show ?thesis by (simp add: run_daemon_def)
  next
    case (Some f)
    with d have "snd (run_daemon fails closes pipeline) = d" by (cases f) (simp_all add: run_daemon_def)
    then show ?thesis by (intro exI [of _ "[]"]) simp
  qed
  then obtain ps where ps: "rn_trace (snd (run_daemon fails closes pipeline)) = rn_trace d @ map Closing ps" by blast
  have "Opened Site_Part \<in> set (rn_trace d @ map Closing ps)" using assms ps by auto
  then have "Opened Site_Part \<in> set (rn_trace d)" by auto
  from start_trace [OF d this] obtain as' bs' where
    t: "rn_trace d = as' @ Opened Site_Part # bs'" "recovery_done pipeline (set as')" "Opened Site_Part \<notin> set as'" "Opened Site_Part \<notin> set bs'"
    by blast
  have "as' @ Opened Site_Part # (bs' @ map Closing ps) = as @ Opened Site_Part # bs" using assms ps t(1) by simp
  moreover have "Opened Site_Part \<notin> set (bs' @ map Closing ps)" using t(4) by auto
  ultimately have "as' = as" using t(3) by (simp add: append_Cons_eq_iff)
  with t(2) show ?thesis by simp
qed

lemmas lifecycle_defs =
  run_daemon_def start_daemon_def before_site_def migration_steps_def pipeline_steps_def service_steps_def site_steps_def
  know_def open_part_def stage_step_def attempt_step_def ready_step_def note_action_def new_daemon_def readiness_init_def
  set_state_def STATES_def states_before_def

subsection \<open>What the shutdown does not reach\<close>

text \<open>A port that is in use: the runner is set up but nobody knows it.\<close>

theorem failed_bind_leaves_runner:
  "(let (r, d) = run_daemon ((\<lambda>_. None)(Start_Site := Some (Failed OtherException))) (\<lambda>_. True) True
    in r = Inl (Failed OtherException) \<and> rn_open d = [Runner_Part])"
  by (simp add: lifecycle_defs stop_daemon_def CLOSING_ORDER_def close_part_def)

text \<open>The last write to the lock file is outside the \<open>try\<close>: when it fails nothing is closed and the lock stays.\<close>

theorem failed_ready_record_leaves_everything:
  "(let (r, d) = run_daemon ((\<lambda>_. None)(Record_Ready := Some (Failed OtherException))) (\<lambda>_. True) True
    in r = Inl (Failed OtherException) \<and> \<not> rn_stopped d
      \<and> rn_open d = [Site_Part, Runner_Part, Broker_Part, Worker_Part, Pipeline_Part, Writer_Part, Lock_Part])"
  by (simp add: lifecycle_defs)

end
