(* ===== verification/Alarm_Loop.thy ===== *)
theory Alarm_Loop
  imports Alerts "HOL-Library.Char_ord" "HOL-Library.List_Lexorder" "HOL-Library.Product_Lexorder"
begin

text \<open>
  The background evaluation of the alarms (\<open>_alarm_eval_loop\<close> of \<open>daemon/main.py\<close> with \<open>alert_symbols\<close> of \<open>pa/alarms.py\<close>): a pass
  evaluates every pair of symbol and timeframe that some alert is about, and an error of one pair does
  not stop the others. The compute budget the pass resets is part of the engine's answers.
\<close>

definition text_at :: "pydict \<Rightarrow> string \<Rightarrow> string res" where
  "text_at d k = rbind (key d k) (\<lambda>v. case v of PStr s \<Rightarrow> Inr s | _ \<Rightarrow> Inl TypeError)"

definition pair_of :: "pydict \<Rightarrow> (string \<times> string) res" where
  "pair_of d = rbind (text_at d ''symbol'') (\<lambda>s. rbind (text_at d ''timeframe'') (\<lambda>t. Inr (s, t)))"

definition alert_pairs :: "alert_row \<Rightarrow> (string \<times> string) list res" where
  "alert_pairs r =
     (if is_simple r then rbind (pair_of (al_definition r)) (\<lambda>p. Inr [p])
      else rmap (\<lambda>c. case c of PDict d \<Rightarrow> pair_of d | _ \<Rightarrow> Inl TypeError) (clauses_of (al_definition r)))"

definition pairs_of :: "alert_row list \<Rightarrow> (string \<times> string) list res" where
  "pairs_of rows = rbind (rmap alert_pairs rows) (\<lambda>ps. Inr (sort (remdups (concat ps))))"

definition alert_symbols :: "(string \<times> string) list m" where
  "alert_symbols = mbind (db_read (\<lambda>d. alerts d)) (\<lambda>rows. mlift (pairs_of rows))"

definition evaluate_pair :: "engine \<Rightarrow> string \<times> string \<Rightarrow> (string \<times> string \<times> int) list \<Rightarrow> (string \<times> string \<times> int) list m" where
  "evaluate_pair eg p acc =
     mtry (evaluate_symbol eg (fst p) (snd p)) (\<lambda>x. mret (case x of Inl _ \<Rightarrow> acc | Inr ts \<Rightarrow> acc @ ts))"

definition alarm_pass :: "engine \<Rightarrow> (string \<times> string \<times> int) list m" where
  "alarm_pass eg =
     mtry alert_symbols (\<lambda>r. case r of Inl _ \<Rightarrow> mret [] | Inr ps \<Rightarrow> mfold (evaluate_pair eg) ps [])"

subsection \<open>A pass\<close>

lemma text_at_Inr: "text_at d k = Inr s \<longleftrightarrow> key d k = Inr (PStr s)"
  by (cases "key d k") (auto simp: text_at_def rbind_def split: pyval.splits)

lemma pair_of_Inr: "pair_of d = Inr (s, t) \<longleftrightarrow> key d ''symbol'' = Inr (PStr s) \<and> key d ''timeframe'' = Inr (PStr t)"
  by (auto simp: pair_of_def text_at_Inr rbind_Inr_iff)

lemma clause_matches_pair: "clause_matches s t c = Inr True \<longleftrightarrow> (\<exists>d. c = PDict d \<and> pair_of d = Inr (s, t))"
  unfolding pair_of_Inr by (cases c) (auto simp: clause_matches_def rbind_Inr_iff)

lemma rmap_member: "rmap f xs = Inr ys \<Longrightarrow> x \<in> set xs \<Longrightarrow> \<exists>y\<in>set ys. f x = Inr y"
  by (induction xs arbitrary: ys) (auto simp: rbind_Inr_iff)

lemma rany_member: "rany f xs = Inr True \<Longrightarrow> \<exists>x\<in>set xs. f x = Inr True"
  by (induction xs) (auto simp: rbind_Inr_iff split: if_splits)

lemma alert_pairs_concern:
  assumes "alert_pairs r = Inr q" "concerns s t r = Inr True"
  shows "(s, t) \<in> set q"
proof (cases "is_simple r")
  case True
  then have "dict_get (al_definition r) ''symbol'' = PStr s" "dict_get (al_definition r) ''timeframe'' = PStr t"
    using assms(2) by (simp_all add: concerns_def Let_def)
  then have "pair_of (al_definition r) = Inr (s, t)"
    unfolding pair_of_Inr by (auto simp: dict_get_def key_def split: option.splits)
  with assms(1) True show ?thesis by (auto simp: alert_pairs_def rbind_def)
next
  case False
  then have "rany (clause_matches s t) (clauses_of (al_definition r)) = Inr True" using assms(2) by (simp add: concerns_def Let_def)
  then obtain d where d: "PDict d \<in> set (clauses_of (al_definition r))" "pair_of d = Inr (s, t)"
    using rany_member clause_matches_pair by metis
  from False assms(1) have "rmap (\<lambda>c. case c of PDict d \<Rightarrow> pair_of d | _ \<Rightarrow> Inl TypeError) (clauses_of (al_definition r)) = Inr q"
    by (simp add: alert_pairs_def)
  from rmap_member [OF this d(1)] d(2) show ?thesis by simp
qed

text \<open>Every pair that some alert is about is evaluated.\<close>

lemma pairs_complete:
  assumes "pairs_of rows = Inr ps" "r \<in> set rows" "concerns s t r = Inr True"
  shows "(s, t) \<in> set ps"
proof -
  obtain qs where qs: "rmap alert_pairs rows = Inr qs" "ps = sort (remdups (concat qs))"
    using assms(1) by (auto simp: pairs_of_def rbind_Inr_iff)
  from rmap_member [OF qs(1) assms(2)] obtain q where "q \<in> set qs" "alert_pairs r = Inr q" by blast
  with alert_pairs_concern [OF _ assms(3)] qs(2) show ?thesis by auto
qed

lemma evaluate_pairs_return: "wp e (mfold (evaluate_pair eg) ps acc) (\<lambda>r w'. \<exists>ts. r = Inr ts) w"
proof (induction ps arbitrary: acc w)
  case (Cons p ps acc w)
  have "wp e (evaluate_pair eg p acc) (\<lambda>r w'. \<exists>ts. r = Inr ts) w"
    by (cases "evaluate_symbol eg (fst p) (snd p) e w") (auto simp: evaluate_pair_def wp_def mtry_def mret_def split: sum.split)
  then show ?case unfolding mfold.simps wp_mbind by (rule wp_mono) (auto simp: Cons.IH)
qed (simp add: wp_simps)

text \<open>A pass never raises, keeps what the alarm service keeps, and on stale data leaves the database as it is.\<close>

theorem alarm_pass_never_raises:
  "wp e (alarm_pass eg) (\<lambda>r w'. \<exists>ts. r = Inr ts) w"
  unfolding alarm_pass_def wp_mtry
  by (rule wp_mono [of _ _ "\<lambda>_ _. True"]) (auto simp: wp_def [of _ _ "\<lambda>_ _. True"] evaluate_pairs_return wp_simps split: sum.split)

lemma alarm_pass_step: "keeps alarm_step (alarm_pass eg)"
  unfolding alarm_pass_def evaluate_pair_def alert_symbols_def
  by (rule as_rules alarm_service_step)+

lemma idle_pair:
  assumes "engine_stale eg" "acc = []"
  shows "idle (evaluate_pair eg p acc) (\<lambda>ts. ts = [])"
proof -
  have "wp e (evaluate_symbol eg (fst p) (snd p)) (\<lambda>r w'. wp e (mret (case r of Inl _ \<Rightarrow> acc | Inr ts \<Rightarrow> acc @ ts))
      (\<lambda>x w2. w_db w2 = w_db w \<and> (\<forall>y. x = Inr y \<longrightarrow> y = [])) w') w" for e w
    using idle_symbol [OF assms(1), of "fst p" "snd p"] assms(2)
    by (auto simp: idle_def wp_def mret_def split: sum.split)
  then show ?thesis by (simp add: idle_def evaluate_pair_def wp_mtry)
qed

text \<open>On stale data a pass leaves the database as it is and reports nothing, even when evaluations end with an error.\<close>

theorem stale_pass_changes_nothing:
  assumes "engine_stale eg"
  shows "wp e (alarm_pass eg) (\<lambda>r w'. w_db w' = w_db w \<and> r = Inr []) w"
proof -
  have "idle (mfold (evaluate_pair eg) ps []) (\<lambda>ts. ts = [])" for ps
    by (rule idle_fold) (auto intro: idle_pair [OF assms])
  then have "wp e (mfold (evaluate_pair eg) ps []) (\<lambda>r w'. w_db w' = w_db w \<and> r = Inr []) w" for ps w
    using evaluate_pairs_return [of e eg ps "[]" w] unfolding idle_def wp_def by fastforce
  then show ?thesis
    unfolding alarm_pass_def alert_symbols_def wp_mtry wp_mbind by (auto simp: wp_simps split: sum.split)
qed

end
