(* ===== verification/Analysis_Engine.thy ===== *)
theory Analysis_Engine
  imports Analysis
begin

text \<open>
  The engine of the price-action tools (\<open>PAEngine\<close> of \<open>pa/analysis.py\<close>): it loads candles, analyses them, keeps the records
  of the analysis and serves the four views of it, with the label the handlers put on them
  (\<open>_pa_meta\<close> of \<open>daemon/handlers.py\<close>). The prices of the stored candles are finite numbers here.
\<close>

subsection \<open>State and surroundings\<close>

text \<open>A stored candle with its symbol, timeframe and source.\<close>

type_synonym candle_rows = "(string \<times> string \<times> string \<times> candle) list"

record engine_state =
  es_candles :: candle_rows
  es_structure :: "pa_row list"
  es_liquidity :: "pa_row list"
  es_blocks :: "pa_row list"

text \<open>The clocks, the futures context, the pipeline's \<open>get_candles\<close> (which may raise and may store candles), the
  evaluation of the alarms, \<open>json.dumps\<close> and \<open>json.loads\<close> of the payloads, and the identifiers of zones.\<close>

record 'k engine_env =
  ee_server_now :: "rat option"
  ee_host_now :: rat
  ee_futures :: "string \<Rightarrow> futures"
  ee_warm_up :: "(candle_rows \<Rightarrow> unit res \<times> candle_rows) option"
  ee_alarms :: "analysis \<Rightarrow> unit res"
  ee_dump_structure :: "market_structure \<Rightarrow> string"
  ee_dump_liquidity :: "zone list \<times> score \<Rightarrow> string"
  ee_dump_blocks :: "block list \<times> fvg list \<Rightarrow> string"
  ee_zones :: "string \<Rightarrow> zone list"
  ee_blocks :: "string \<Rightarrow> block list"
  ee_fvgs :: "string \<Rightarrow> fvg list"
  ee_zone_id :: "zone \<Rightarrow> 'k option"
  ee_block_id :: "block \<Rightarrow> 'k option"
  ee_fvg_id :: "fvg \<Rightarrow> 'k option"

type_synonym 'a engine_op = "engine_state \<Rightarrow> 'a res \<times> engine_state"

subsection \<open>Loading and analysing\<close>

definition engine_now :: "'k engine_env \<Rightarrow> rat" where
  "engine_now ev = (case ee_server_now ev of Some t \<Rightarrow> t | None \<Rightarrow> ee_host_now ev)"

definition read_rows :: "string \<Rightarrow> string \<Rightarrow> nat \<Rightarrow> string \<Rightarrow> candle_rows \<Rightarrow> candle list" where
  "read_rows symbol timeframe lookback source rows =
     rev (take lookback (rev (sort_key c_open_time
       (map (\<lambda>(_, _, _, c). c) (filter (\<lambda>(s, tf, src, _). s = symbol \<and> tf = timeframe \<and> src = source) rows)))))"

definition load_candles :: "'k engine_env \<Rightarrow> string \<Rightarrow> string \<Rightarrow> nat \<Rightarrow> candle list engine_op" where
  "load_candles ev symbol timeframe lookback st =
     (let rows = read_rows symbol timeframe lookback ''spot'' (es_candles st) in
      if rows \<noteq> [] then (Inr rows, st)
      else (case ee_warm_up ev of
              None \<Rightarrow> (Inr rows, st)
            | Some warm \<Rightarrow>
                (case warm (es_candles st) of
                   (Inl e, cs) \<Rightarrow> (Inl e, st\<lparr>es_candles := cs\<rparr>)
                 | (Inr _, cs) \<Rightarrow> (Inr (read_rows symbol timeframe lookback ''spot'' cs), st\<lparr>es_candles := cs\<rparr>))))"

definition SWING_ALGO_VERSION :: string where "SWING_ALGO_VERSION = ''swing-v1''"
definition LIQUIDITY_ALGO_VERSION :: string where "LIQUIDITY_ALGO_VERSION = ''liquidity-v1''"
definition OBFVG_ALGO_VERSION :: string where "OBFVG_ALGO_VERSION = ''obfvg-v1''"

definition store_records :: "'k engine_env \<Rightarrow> string \<Rightarrow> string \<Rightarrow> analysis \<Rightarrow> engine_state \<Rightarrow> engine_state" where
  "store_records ev symbol timeframe a st =
     (let at_time = an_as_of a; now = trunc (ee_host_now ev)
      in st\<lparr>es_structure := store_payload symbol timeframe SWING_ALGO_VERSION at_time (ee_dump_structure ev (an_structure a)) now (es_structure st),
            es_liquidity := store_payload symbol timeframe LIQUIDITY_ALGO_VERSION at_time (ee_dump_liquidity ev (an_zones a, an_score a)) now (es_liquidity st),
            es_blocks := store_payload symbol timeframe OBFVG_ALGO_VERSION at_time (ee_dump_blocks ev (an_blocks a, an_fvgs a)) now (es_blocks st)\<rparr>)"

text \<open>\<open>analyze\<close>: an unknown timeframe is refused before anything is loaded, and the alarms are evaluated after the
  records are stored.\<close>

definition engine_analyze :: "'k engine_env \<Rightarrow> string \<Rightarrow> string \<Rightarrow> nat \<Rightarrow> analysis engine_op" where
  "engine_analyze ev symbol timeframe lookback st =
     (if map_of TIMEFRAME_SECONDS timeframe = None then (Inl (rasat INVALID_REQUEST), st)
      else (case load_candles ev symbol timeframe lookback st of
              (Inl e, st1) \<Rightarrow> (Inl e, st1)
            | (Inr candles, st1) \<Rightarrow>
                (case analyze timeframe candles (ee_futures ev symbol) (engine_now ev) of
                   Inl e \<Rightarrow> (Inl e, st1)
                 | Inr a \<Rightarrow> (rbind (ee_alarms ev a) (\<lambda>_. Inr a), store_records ev symbol timeframe a st1))))"

subsection \<open>The views\<close>

definition shown_zones :: "'k engine_env \<Rightarrow> string \<Rightarrow> string \<Rightarrow> bool \<Rightarrow> analysis \<Rightarrow> engine_state \<Rightarrow> zone list" where
  "shown_zones ev symbol timeframe include_mitigated a st =
     (if include_mitigated then merged_zones (ee_zones ev) (ee_zone_id ev) symbol timeframe (es_liquidity st) else active_zones a)"

definition shown_blocks :: "'k engine_env \<Rightarrow> string \<Rightarrow> string \<Rightarrow> bool \<Rightarrow> analysis \<Rightarrow> engine_state \<Rightarrow> block list \<times> fvg list" where
  "shown_blocks ev symbol timeframe include_mitigated a st =
     (if include_mitigated
      then (merged_zones (ee_blocks ev) (ee_block_id ev) symbol timeframe (es_blocks st),
            merged_zones (ee_fvgs ev) (ee_fvg_id ev) symbol timeframe (es_blocks st))
      else active_blocks a)"

definition MAX_VWAP_POINTS :: nat where
  "MAX_VWAP_POINTS = 20"

record full_view =
  fl_as_of :: int
  fl_structure :: market_structure
  fl_zones :: "zone list"
  fl_score :: score
  fl_blocks :: "block list"
  fl_fvgs :: "fvg list"
  fl_vwap :: vwap_result
  fl_sessions :: "session list"

text \<open>What a view makes of a successful analysis, in the state after it.\<close>

definition view_of :: "(analysis \<Rightarrow> engine_state \<Rightarrow> 'a) \<Rightarrow> analysis engine_op \<Rightarrow> 'a engine_op" where
  "view_of f run st = (case run st of (Inl e, st') \<Rightarrow> (Inl e, st') | (Inr a, st') \<Rightarrow> (Inr (f a st'), st'))"

definition get_market_structure :: "'k engine_env \<Rightarrow> string \<Rightarrow> string \<Rightarrow> nat \<Rightarrow> (int \<times> market_structure) engine_op" where
  "get_market_structure ev symbol timeframe lookback =
     view_of (\<lambda>a _. (an_as_of a, an_structure a)) (engine_analyze ev symbol timeframe lookback)"

definition get_liquidity_zones :: "'k engine_env \<Rightarrow> string \<Rightarrow> string \<Rightarrow> bool \<Rightarrow> nat \<Rightarrow> (int \<times> zone list \<times> score) engine_op" where
  "get_liquidity_zones ev symbol timeframe include_mitigated lookback =
     view_of (\<lambda>a st. (an_as_of a, shown_zones ev symbol timeframe include_mitigated a st, an_score a))
       (engine_analyze ev symbol timeframe lookback)"

definition get_order_blocks :: "'k engine_env \<Rightarrow> string \<Rightarrow> string \<Rightarrow> bool \<Rightarrow> nat \<Rightarrow> (int \<times> block list \<times> fvg list) engine_op" where
  "get_order_blocks ev symbol timeframe include_mitigated lookback =
     view_of (\<lambda>a st. (an_as_of a, shown_blocks ev symbol timeframe include_mitigated a st)) (engine_analyze ev symbol timeframe lookback)"

definition get_full_analysis :: "'k engine_env \<Rightarrow> string \<Rightarrow> string \<Rightarrow> bool \<Rightarrow> nat \<Rightarrow> full_view engine_op" where
  "get_full_analysis ev symbol timeframe include_mitigated lookback =
     view_of (\<lambda>a st. case shown_blocks ev symbol timeframe include_mitigated a st of (obs, fvgs) \<Rightarrow>
         \<lparr>fl_as_of = an_as_of a, fl_structure = an_structure a, fl_zones = shown_zones ev symbol timeframe include_mitigated a st,
          fl_score = an_score a, fl_blocks = obs, fl_fvgs = fvgs,
          fl_vwap = (an_vwap a)\<lparr>vw_points := (let ps = vw_points (an_vwap a) in drop (length ps - MAX_VWAP_POINTS) ps)\<rparr>,
          fl_sessions = an_sessions a\<rparr>)
       (engine_analyze ev symbol timeframe lookback)"

text \<open>The label of the handlers: \<open>freshness_for\<close> without a clock of its own reads the host's. The engine's own label
  reads the server's.\<close>

definition handler_freshness :: "'k engine_env \<Rightarrow> string \<Rightarrow> int option \<Rightarrow> string res" where
  "handler_freshness ev timeframe as_of = freshness_for timeframe as_of (ee_host_now ev)"

definition engine_freshness :: "'k engine_env \<Rightarrow> string \<Rightarrow> int option \<Rightarrow> string res" where
  "engine_freshness ev timeframe as_of = freshness_for timeframe as_of (engine_now ev)"

subsection \<open>Asking again\<close>

lemma load_candles_rows:
  "load_candles ev s tf n st = (Inr cs, st1) \<Longrightarrow> cs = read_rows s tf n ''spot'' (es_candles st1)"
  by (auto simp: load_candles_def Let_def split: if_splits option.splits prod.splits sum.splits)

lemma engine_analyze_parts:
  assumes "engine_analyze ev s tf n st = (Inr a, st')"
  obtains st1 where "map_of TIMEFRAME_SECONDS tf \<noteq> None" "st' = store_records ev s tf a st1" "ee_alarms ev a = Inr ()"
    "analyze tf (read_rows s tf n ''spot'' (es_candles st1)) (ee_futures ev s) (engine_now ev) = Inr a"
  using assms load_candles_rows [of ev s tf n st]
  by (fastforce simp: engine_analyze_def rbind_def split: if_splits prod.splits sum.splits)

lemma store_records_again [simp]: "store_records ev s tf a (store_records ev s tf a st) = store_records ev s tf a st"
  by (simp add: store_records_def Let_def store_idempotent)

lemma store_records_candles [simp]: "es_candles (store_records ev s tf a st) = es_candles st"
  by (simp add: store_records_def Let_def)

lemma engine_analyze_again:
  assumes "engine_analyze ev s tf n st = (Inr a, st')"
  shows "engine_analyze ev s tf n st' = (Inr a, st')"
proof -
  obtain st1 where p: "map_of TIMEFRAME_SECONDS tf \<noteq> None" "st' = store_records ev s tf a st1" "ee_alarms ev a = Inr ()"
    "analyze tf (read_rows s tf n ''spot'' (es_candles st1)) (ee_futures ev s) (engine_now ev) = Inr a"
    using engine_analyze_parts [OF assms] by blast
  then have "read_rows s tf n ''spot'' (es_candles st1) \<noteq> []" by (auto simp: analyze_def split: if_splits)
  then have "load_candles ev s tf n st' = (Inr (read_rows s tf n ''spot'' (es_candles st1)), st')"
    by (simp add: load_candles_def p(2))
  with p show ?thesis by (simp add: engine_analyze_def rbind_def)
qed

text \<open>C29: The full analysis and the single tools agree. After a full analysis, asking for the structure, the
  liquidity zones or the order blocks of the same symbol and timeframe, while clocks and candles stay
  as they are, gives exactly the parts of the full analysis, mitigated zones included or not, and
  changes nothing: no record is written twice.\<close>

theorem views_agree:
  assumes "get_full_analysis ev s tf inc n st = (Inr v, st')"
  shows "get_market_structure ev s tf n st' = (Inr (fl_as_of v, fl_structure v), st')
    \<and> get_liquidity_zones ev s tf inc n st' = (Inr (fl_as_of v, fl_zones v, fl_score v), st')
    \<and> get_order_blocks ev s tf inc n st' = (Inr (fl_as_of v, fl_blocks v, fl_fvgs v), st')"
proof -
  obtain a where a: "engine_analyze ev s tf n st = (Inr a, st')"
    using assms by (auto simp: get_full_analysis_def view_of_def split: prod.splits sum.splits)
  note again = engine_analyze_again [OF a]
  from assms a show ?thesis
    by (auto simp: get_full_analysis_def get_market_structure_def get_liquidity_zones_def get_order_blocks_def view_of_def again
        split: prod.splits)
qed

text \<open>Five closed candles, no pipeline, payloads that are not told apart.\<close>

definition demo_engine_env :: "string engine_env" where
  "demo_engine_env =
     \<lparr>ee_server_now = Some 600, ee_host_now = 600, ee_futures = (\<lambda>_. \<lparr>fu_open_interest = None, fu_funding_rate = None, fu_liquidation = None\<rparr>),
      ee_warm_up = None, ee_alarms = (\<lambda>_. Inr ()), ee_dump_structure = (\<lambda>_. ''structure''), ee_dump_liquidity = (\<lambda>_. ''liquidity''),
      ee_dump_blocks = (\<lambda>_. ''blocks''), ee_zones = (\<lambda>_. []), ee_blocks = (\<lambda>_. []), ee_fvgs = (\<lambda>_. []),
      ee_zone_id = (\<lambda>_. None), ee_block_id = (\<lambda>_. None), ee_fvg_id = (\<lambda>_. None)\<rparr>"

definition demo_engine_state :: engine_state where
  "demo_engine_state =
     \<lparr>es_candles = map (\<lambda>(t, p). (''S'', ''1m'', ''spot'', \<lparr>c_open_time = t, c_open = p, c_high = p + 1, c_low = p - 1, c_close = p,
        c_volume = Some 1\<rparr>)) [(0, 10), (60, 11), (120, 15), (180, 12), (240, 10)],
      es_structure = [], es_liquidity = [], es_blocks = []\<rparr>"

theorem views_agree_witness:
  "\<exists>v st'. get_full_analysis demo_engine_env ''S'' ''1m'' False 200 demo_engine_state = (Inr v, st')
     \<and> get_market_structure demo_engine_env ''S'' ''1m'' 200 st' = (Inr (fl_as_of v, fl_structure v), st')"
proof -
  let ?cs = "map (\<lambda>(_, _, _, c). c) (es_candles demo_engine_state)"
  have l: "load_candles demo_engine_env ''S'' ''1m'' 200 demo_engine_state = (Inr ?cs, demo_engine_state)"
    by (simp add: load_candles_def read_rows_def demo_engine_state_def)
  have "filter_closed_candles ?cs ''1m'' 600 = Inr ?cs"
    by (simp add: filter_closed_candles_def demo_engine_state_def TIMEFRAME_SECONDS_def latest_closed_def)
  moreover have "case detect_structure ?cs SWING_LOOKBACK of Inr _ \<Rightarrow> True | Inl _ \<Rightarrow> False" by code_simp
  then obtain d where "detect_structure ?cs SWING_LOOKBACK = Inr d" by (auto split: sum.splits)
  ultimately have "analyze ''1m'' ?cs (ee_futures demo_engine_env ''S'') (engine_now demo_engine_env)
      = Inr (analysis_of ?cs (ee_futures demo_engine_env ''S'') d)"
    by (simp add: analyze_def rbind_def engine_now_def demo_engine_env_def demo_engine_state_def TIMEFRAME_SECONDS_def SWING_LOOKBACK_def)
  then obtain a st' where "engine_analyze demo_engine_env ''S'' ''1m'' 200 demo_engine_state = (Inr a, st')"
    using l by (simp add: engine_analyze_def rbind_def TIMEFRAME_SECONDS_def) (simp add: demo_engine_env_def)
  then obtain v where v: "get_full_analysis demo_engine_env ''S'' ''1m'' False 200 demo_engine_state = (Inr v, st')"
    by (auto simp: get_full_analysis_def view_of_def split: prod.splits)
  from views_agree [OF v] v show ?thesis by blast
qed

subsection \<open>What an analysis is about\<close>

lemma read_rows_sorted: "sorted (map c_open_time (read_rows s tf n src rows))"
  by (simp add: read_rows_def rev_take sorted_wrt_drop flip: drop_map)

lemma read_rows_member: "c \<in> set (read_rows s tf n src rows) \<Longrightarrow> (s, tf, src, c) \<in> set rows"
  unfolding read_rows_def set_rev by (drule in_set_takeD) (auto)

text \<open>A candle that the limit leaves out is not newer than one that is read.\<close>

lemma read_rows_left_out:
  assumes "(s, tf, src, c') \<in> set rows" "c' \<notin> set (read_rows s tf n src rows)" "c \<in> set (read_rows s tf n src rows)"
  shows "c_open_time c' \<le> c_open_time c"
proof -
  let ?all = "sort_key c_open_time (map (\<lambda>(_, _, _, c). c) (filter (\<lambda>(s', tf', src', _). s' = s \<and> tf' = tf \<and> src' = src) rows))"
  have "c' \<in> set ?all" using assms(1) by force
  moreover have split: "?all = take (length ?all - n) ?all @ read_rows s tf n src rows"
    by (simp add: read_rows_def rev_take)
  ultimately have "c' \<in> set (take (length ?all - n) ?all)" using assms(2) by (metis Un_iff set_append)
  moreover have "sorted (map c_open_time (take (length ?all - n) ?all @ read_rows s tf n src rows))"
    unfolding split [symmetric] by simp
  ultimately show ?thesis using assms(3) by (auto simp: sorted_append)
qed

lemma last_sorted_filter:
  assumes "sorted (map f xs)" "filter P xs \<noteq> []" "x \<in> set xs" "P x"
  shows "f x \<le> f (last (filter P xs))"
proof -
  let ?ys = "filter P xs"
  have "sorted (map f (butlast ?ys @ [last ?ys]))"
    unfolding append_butlast_last_id [OF assms(2)] using assms(1) by (rule sorted_filter)
  moreover have "x \<in> set (butlast ?ys @ [last ?ys])"
    unfolding append_butlast_last_id [OF assms(2)] using assms(3,4) by simp
  ultimately show ?thesis by (auto simp: sorted_append)
qed

text \<open>An analysis is about the newest closed candle that is stored, and the engine's label is \<open>fresh\<close> exactly when
  this is the last candle that has closed on the server's clock.\<close>

theorem analysis_is_current:
  assumes "engine_analyze ev s tf n st = (Inr a, st')" "map_of TIMEFRAME_SECONDS tf = Some period"
  shows "\<exists>c. (s, tf, ''spot'', c) \<in> set (es_candles st') \<and> c_open_time c = an_as_of a
    \<and> an_as_of a \<le> latest_closed period (engine_now ev)
    \<and> (\<forall>c'. (s, tf, ''spot'', c') \<in> set (es_candles st') \<and> c_open_time c' \<le> latest_closed period (engine_now ev)
          \<longrightarrow> c_open_time c' \<le> an_as_of a)
    \<and> (engine_freshness ev tf (Some (an_as_of a)) = Inr FRESH \<longleftrightarrow> an_as_of a = latest_closed period (engine_now ev))"
proof -
  obtain st1 where p: "st' = store_records ev s tf a st1"
    "analyze tf (read_rows s tf n ''spot'' (es_candles st1)) (ee_futures ev s) (engine_now ev) = Inr a"
    using engine_analyze_parts [OF assms(1)] by blast
  let ?rows = "read_rows s tf n ''spot'' (es_candles st')" and ?P = "\<lambda>c. c_open_time c \<le> latest_closed period (engine_now ev)"
  from p have an: "filter ?P ?rows \<noteq> []" "an_as_of a = c_open_time (last (filter ?P ?rows))"
    by (auto simp: analyze_def filter_closed_candles_def assms(2) rbind_def analysis_of_def Let_def
        split: if_splits prod.splits sum.splits)
  define c where "c = last (filter ?P ?rows)"
  have c: "c \<in> set ?rows" "?P c" using last_in_set [OF an(1)] unfolding c_def by auto
  have new: "c_open_time c' \<le> c_open_time c" if "(s, tf, ''spot'', c') \<in> set (es_candles st')" "?P c'" for c'
  proof (cases "c' \<in> set ?rows")
    case True
    then show ?thesis unfolding c_def using last_sorted_filter [OF read_rows_sorted an(1), of c'] that(2) by simp
  next
    case False
    then show ?thesis using read_rows_left_out [OF that(1) _ c(1)] by simp
  qed
  have fresh: "engine_freshness ev tf (Some (an_as_of a)) = Inr FRESH \<longleftrightarrow> an_as_of a = latest_closed period (engine_now ev)"
    using c(2) an(2) by (auto simp: engine_freshness_def freshness_for_def assms(2) FRESH_def STALE_def c_def)
  show ?thesis
    using read_rows_member [OF c(1)] c(2) an(2) new fresh by (intro exI [of _ c]) (simp add: c_def)
qed

text \<open>The handlers label with the host's clock: behind the server's by an hour, it calls an analysis fresh that
  lacks the last closed candle.\<close>

theorem handler_label_reads_host_clock:
  assumes "ee_server_now ev = Some 7300" "ee_host_now ev = 3700"
  shows "handler_freshness ev ''1h'' (Some 0) = Inr FRESH \<and> engine_freshness ev ''1h'' (Some 0) = Inr STALE"
  using assms by (simp add: handler_freshness_def engine_freshness_def engine_now_def freshness_for_def TIMEFRAME_SECONDS_def
      latest_closed_def FRESH_def STALE_def)

end
