(* ===== verification/Emergency_Stop.thy ===== *)
theory Emergency_Stop
  imports Kill_Switch
begin

text \<open>
  The emergency stop of \<open>emergency_stop.py\<close>, which runs without the daemon: cancel the open orders of
  every target account and sell what it holds, keeping its own hash-chain file. The file is the
  field \<open>w_elog\<close> of the world, so that what one run leaves in it is what the next one reads. The
  price source answers through the environment (its own decoding of the public endpoints is in
  the last section); what the operator types is an argument. A quantity that is not a number
  (an infinite lot step) is sent as text and recorded as 0 here.
\<close>

subsection \<open>The log file\<close>

definition SELL_LOG_ACTION :: string where
  "SELL_LOG_ACTION = ''emergency_sell''"

definition CANCEL_LOG_ACTION :: string where
  "CANCEL_LOG_ACTION = ''emergency_cancel''"

definition NON_TERMINAL_SELL_STATUSES :: "order_status list" where
  "NON_TERMINAL_SELL_STATUSES = [NEW, PARTIALLY_FILLED, UNKNOWN]"

definition log_read :: "(log_line list \<Rightarrow> 'a) \<Rightarrow> 'a m" where
  "log_read f = (\<lambda>e w. (Inr (f (w_elog w)), w))"

definition log_append :: "string \<Rightarrow> (string \<times> pyval) list \<Rightarrow> unit m" where
  "log_append action details =
     (\<lambda>e w. (case elog_append (sha256 e) (json_dumps e) ''emergency_stop'' action details (now_at e (w_tick w)) (w_elog w) of
               Inl x \<Rightarrow> (Inl x, w\<lparr>w_tick := Suc (w_tick w)\<rparr>)
             | Inr (h, lines) \<Rightarrow> (Inr (), w\<lparr>w_elog := lines, w_tick := Suc (w_tick w)\<rparr>)))"

fun miter :: "('a \<Rightarrow> unit m) \<Rightarrow> 'a list \<Rightarrow> unit m" where
  "miter f [] = mret ()"
| "miter f (x # xs) = mbind (f x) (\<lambda>_. miter f xs)"

subsection \<open>Cancelling\<close>

record cancel_acc =
  xc_cancelled :: nat
  xc_errors :: "(string \<times> errcode) list"

definition cancel_key :: "string \<Rightarrow> string \<Rightarrow> open_order \<Rightarrow> string" where
  "cancel_key aid symbol ord =
     aid @ '':'' @ symbol @ '':'' @ (case oo_cid ord of Some c \<Rightarrow> c
        | None \<Rightarrow> (case oo_order_id ord of Some i \<Rightarrow> i | None \<Rightarrow> ''None''))"

definition by_symbol :: "open_order list \<Rightarrow> (string \<times> open_order list) list" where
  "by_symbol ords = map (\<lambda>s. (s, filter (\<lambda>x. oo_symbol x = s) ords)) (sort (remdups (map oo_symbol ords)))"

definition cancel_symbol :: "string \<Rightarrow> bool \<Rightarrow> string \<times> open_order list \<Rightarrow> cancel_acc \<Rightarrow> cancel_acc m" where
  "cancel_symbol aid dry_run grp a =
     (if dry_run then mret a
      else
        let symbol = fst grp; keys = map (cancel_key aid symbol) (snd grp) in
        mbind (log_read (\<lambda>l. list_all (\<lambda>k. is_action_done CANCEL_LOG_ACTION k None l) keys)) (\<lambda>all_done.
          if all_done then mret a
          else
            mtry (broker_cancel_all aid symbol) (\<lambda>r.
              (case r of
                 Inl x \<Rightarrow> if is_rasat x then mret (a\<lparr>xc_errors := xc_errors a @ [(symbol, exc_code x)]\<rparr>) else mraise x
               | Inr n \<Rightarrow>
                   mbind (miter (\<lambda>k. log_append CANCEL_LOG_ACTION
                       [(''idem_key'', PStr k), (''account_id'', PStr aid), (''symbol'', PStr symbol), (''cancelled'', PInt (int n))]) keys)
                     (\<lambda>_. mret (a\<lparr>xc_cancelled := xc_cancelled a + n\<rparr>))))))"

subsection \<open>The sale plan\<close>

record planned =
  pl_symbol :: string
  pl_asset :: string
  pl_quantity :: pyfloat
  pl_price :: rat

record plan_acc =
  xp_plan :: "planned list"
  xp_price_errors :: "(string \<times> errcode) list"
  xp_filter_errors :: "(string \<times> errcode) list"

definition source_price :: "string \<Rightarrow> rat m" where
  "source_price symbol =
     mbind (m_price symbol) (\<lambda>p. case p of None \<Rightarrow> mraise (rasat STALE_DATA) | Some q \<Rightarrow> mret q)"

definition filter_error :: "string \<Rightarrow> plan_acc \<Rightarrow> plan_acc" where
  "filter_error symbol a = a\<lparr>xp_filter_errors := xp_filter_errors a @ [(symbol, FILTER_VIOLATION)]\<rparr>"

definition plan_asset :: "string \<times> rat \<Rightarrow> plan_acc \<Rightarrow> plan_acc m" where
  "plan_asset af a =
     (if fst af = QUOTE \<or> snd af \<le> 0 then mret a
      else
        let symbol = fst af @ QUOTE in
        mbind (m_filters symbol) (\<lambda>flts.
          (case flts of
             None \<Rightarrow> mret (filter_error symbol a)
           | Some f \<Rightarrow>
               mbind (mlift (round_down_to_step (snd af) (step_size f))) (\<lambda>qty.
                 if flt qty (min_qty f) then mret (filter_error symbol a)
                 else
                   mtry (source_price symbol) (\<lambda>r.
                     (case r of
                        Inl x \<Rightarrow>
                          if is_rasat x then mret (a\<lparr>xp_price_errors := xp_price_errors a @ [(symbol, exc_code x)]\<rparr>) else mraise x
                      | Inr price \<Rightarrow>
                          if flt (fmulq qty price) (min_notional f) then mret (filter_error symbol a)
                          else mret (a\<lparr>xp_plan := xp_plan a
                            @ [\<lparr>pl_symbol = symbol, pl_asset = fst af, pl_quantity = qty, pl_price = price\<rparr>]\<rparr>)))))))"

subsection \<open>Confirmation\<close>

text \<open>Standard input: closed, unreadable (end of file or an I/O error), or a line.\<close>

datatype console = Stdin_Closed | Stdin_Unreadable | Typed string

datatype refusal = CONFIRMATION_REQUIRED | ABORTED

definition confirm :: "console \<Rightarrow> refusal option" where
  "confirm c =
     (case c of
        Typed s \<Rightarrow> if py_lower (py_strip s) \<in> {''y'', ''yes''} then None else Some ABORTED
      | _ \<Rightarrow> Some CONFIRMATION_REQUIRED)"

subsection \<open>Selling\<close>

datatype sell_status = Dry_Run | Sale_Failed errcode | Sale order_status

record sold_entry =
  sx_planned :: planned
  sx_status :: sell_status
  sx_exchange_order_id :: "string option"
  sx_cid :: "string option"

definition sale_pending :: "sold_entry \<Rightarrow> bool" where
  "sale_pending s = (case sx_status s of Sale st \<Rightarrow> st \<in> set NON_TERMINAL_SELL_STATUSES | _ \<Rightarrow> False)"

definition emergency_cid :: "string \<Rightarrow> string \<Rightarrow> string \<Rightarrow> string" where
  "emergency_cid aid nonce symbol = ''e-'' @ take 6 aid @ ''-'' @ nonce @ ''-'' @ take 8 symbol"

definition sale_of_symbol :: "string \<Rightarrow> string \<Rightarrow> log_line \<Rightarrow> bool" where
  "sale_of_symbol aid symbol line =
     (case line of
        Corrupt _ \<Rightarrow> False
      | Entry row \<Rightarrow>
          (let prefix = aid @ '':'' @ symbol @ '':'';
               k = (case map_of (e_details row) ''idem_key'' of Some v \<Rightarrow> py_str v | None \<Rightarrow> [])
           in e_action row = SELL_LOG_ACTION \<and> take (length prefix) k = prefix))"

definition latest_sell_details :: "string \<Rightarrow> string \<Rightarrow> log_line list \<Rightarrow> (string \<times> pyval) list option" where
  "latest_sell_details aid symbol lines =
     (case List.find (sale_of_symbol aid symbol) (rev lines) of Some (Entry row) \<Rightarrow> Some (e_details row) | _ \<Rightarrow> None)"

definition unfinished_status :: "pyval \<Rightarrow> bool" where
  "unfinished_status v = (v \<in> PStr ` status_name ` set NON_TERMINAL_SELL_STATUSES)"

definition prior_cid :: "string \<Rightarrow> string \<Rightarrow> (string \<times> pyval) list \<Rightarrow> string" where
  "prior_cid aid symbol d =
     (let nonce = (case dict_get d ''run_nonce'' of PStr n \<Rightarrow> n | _ \<Rightarrow> []) in
      case dict_get d ''cid'' of PStr c \<Rightarrow> if c = [] then emergency_cid aid nonce symbol else c | _ \<Rightarrow> emergency_cid aid nonce symbol)"

text \<open>The state of the last logged sale of the symbol, when the file says it is not finished: what the
  exchange answers, or nothing when the lookup fails.\<close>

definition sale_in_flight :: "string \<Rightarrow> string \<Rightarrow> (string \<times> order_result) option m" where
  "sale_in_flight aid symbol =
     mbind (log_read (latest_sell_details aid symbol)) (\<lambda>prior.
       (case prior of
          None \<Rightarrow> mret None
        | Some d \<Rightarrow>
            if \<not> unfinished_status (dict_get d ''status'') then mret None
            else
              let pcid = prior_cid aid symbol d in
              mtry (broker_query (QueryOrder aid symbol pcid)) (\<lambda>r.
                (case r of
                   Inl x \<Rightarrow> if is_rasat x then mret None else mraise x
                 | Inr None \<Rightarrow> mret None
                 | Inr (Some f) \<Rightarrow> mret (if or_status f \<in> set NON_TERMINAL_SELL_STATUSES then Some (pcid, f) else None)))))"

definition sell_planned :: "string \<Rightarrow> string \<Rightarrow> bool \<Rightarrow> planned \<Rightarrow> sold_entry list \<Rightarrow> sold_entry list m" where
  "sell_planned aid nonce dry_run p sold =
     (let note = (\<lambda>st x c. sold @ [\<lparr>sx_planned = p, sx_status = st, sx_exchange_order_id = x, sx_cid = c\<rparr>]) in
      if dry_run then mret (note Dry_Run None None)
      else
        let cid = emergency_cid aid nonce (pl_symbol p) in
        mbind (menv (\<lambda>e. aid @ '':'' @ pl_symbol p @ '':'' @ repr_float e (pl_quantity p) @ '':'' @ nonce)) (\<lambda>sell_key.
        mbind (sale_in_flight aid (pl_symbol p)) (\<lambda>flight.
          (case flight of
             Some (pcid, f) \<Rightarrow> mret (note (Sale (or_status f)) (or_exchange_order_id f) (Some pcid))
           | None \<Rightarrow>
               mtry (mbind (broker_place (PlaceOrder aid (pl_symbol p) SELL MARKET (finite_or_zero (pl_quantity p)) None cid None)) (\<lambda>res.
                     mbind (log_append SELL_LOG_ACTION
                       [(''idem_key'', PStr sell_key), (''cid'', PStr cid), (''run_nonce'', PStr nonce), (''account_id'', PStr aid),
                        (''symbol'', PStr (pl_symbol p)), (''quantity'', PFloat (pl_quantity p)),
                        (''status'', PStr (status_name (or_status res))),
                        (''exchange_order_id'', opt_str (or_exchange_order_id res))]) (\<lambda>_. mret res)))
                 (\<lambda>r.
                   (case r of
                      Inr res \<Rightarrow> mret (note (Sale (or_status res)) (or_exchange_order_id res) (Some cid))
                    | Inl x \<Rightarrow> if is_rasat x then mret (note (Sale_Failed (exc_code x)) None None) else mraise x))))))"

subsection \<open>One account, all accounts\<close>

record stop_view =
  sv_cancelled :: nat
  sv_cancel_errors :: "(string \<times> errcode) list"
  sv_sold :: "sold_entry list"
  sv_price_errors :: "(string \<times> errcode) list"
  sv_filter_errors :: "(string \<times> errcode) list"
  sv_plan :: "planned list option"
  sv_ok :: bool

datatype stop_result =
    No_Credentials
  | Unconfirmed refusal "planned list"
  | Stopped stop_view
  | Stop_Failed errcode

definition sale_final :: "sold_entry \<Rightarrow> bool" where
  "sale_final s = (sx_status s = Sale FILLED \<or> sx_status s = Dry_Run)"

definition stop_view_of :: "bool \<Rightarrow> cancel_acc \<Rightarrow> plan_acc \<Rightarrow> sold_entry list \<Rightarrow> stop_view" where
  "stop_view_of dry_run c p sold =
     \<lparr>sv_cancelled = xc_cancelled c, sv_cancel_errors = xc_errors c, sv_sold = sold,
      sv_price_errors = xp_price_errors p, sv_filter_errors = xp_filter_errors p,
      sv_plan = (if dry_run then Some (xp_plan p) else None),
      sv_ok = (xp_price_errors p = [] \<and> xp_filter_errors p = [] \<and> xc_errors c = [] \<and> list_all sale_final sold)\<rparr>"

definition refused :: "bool \<Rightarrow> bool \<Rightarrow> console \<Rightarrow> planned list \<Rightarrow> refusal option" where
  "refused yes dry_run answer plan = (if plan \<noteq> [] \<and> \<not> yes \<and> \<not> dry_run then confirm answer else None)"

definition stop_account :: "string \<Rightarrow> bool \<Rightarrow> bool \<Rightarrow> console \<Rightarrow> stop_result m" where
  "stop_account aid yes dry_run answer =
     mbind (broker_open_orders aid) (\<lambda>ords.
     mbind (mfold (cancel_symbol aid dry_run) (by_symbol ords) \<lparr>xc_cancelled = 0, xc_errors = []\<rparr>) (\<lambda>c.
     mbind (broker_balance aid) (\<lambda>balances.
     mbind (mfold plan_asset balances \<lparr>xp_plan = [], xp_price_errors = [], xp_filter_errors = []\<rparr>) (\<lambda>p.
       (case refused yes dry_run answer (xp_plan p) of
          Some r \<Rightarrow> mret (Unconfirmed r (xp_plan p))
        | None \<Rightarrow>
            mbind uuid4_hex (\<lambda>u.
            mbind (mfold (sell_planned aid (take 8 u) dry_run) (xp_plan p) []) (\<lambda>sold.
              mret (Stopped (stop_view_of dry_run c p sold)))))))))"

definition stop_one :: "string \<Rightarrow> bool \<Rightarrow> bool \<Rightarrow> console \<Rightarrow> stop_result m" where
  "stop_one aid yes dry_run answer =
     mtry (get_credentials aid) (\<lambda>r.
       (case r of
          Inl x \<Rightarrow> if is_rasat x \<and> exc_code x = ACCOUNT_NO_CREDENTIALS then mret No_Credentials else mraise x
        | Inr _ \<Rightarrow> stop_account aid yes dry_run answer))"

definition resolve_accounts :: "string list \<Rightarrow> account list m" where
  "resolve_accounts ids =
     mbind list_accounts (\<lambda>accs.
       if ids = [] then mret accs
       else if list_ex (\<lambda>a. a \<notin> account_id ` set accs) ids then mraise (rasat ACCOUNT_NOT_FOUND)
       else mret (filter (\<lambda>acc. account_id acc \<in> set ids) accs))"

definition stop_ok :: "stop_result \<Rightarrow> bool" where
  "stop_ok r = (case r of Stopped v \<Rightarrow> sv_ok v | _ \<Rightarrow> False)"

text \<open>The answers at the console, one for each account that asks.\<close>

definition run_stop :: "string list \<Rightarrow> bool \<Rightarrow> bool \<Rightarrow> (string \<Rightarrow> console) \<Rightarrow> (bool \<times> (string \<times> stop_result) list) m" where
  "run_stop ids yes dry_run answer =
     mbind (resolve_accounts ids) (\<lambda>accs.
     mbind (mmap (\<lambda>acc.
         mtry (stop_one (account_id acc) yes dry_run (answer (account_id acc))) (\<lambda>r.
           mret (account_id acc, case r of Inr v \<Rightarrow> v | Inl x \<Rightarrow> Stop_Failed (exc_code x)))) accs) (\<lambda>results.
       mret (list_all (\<lambda>r. stop_ok (snd r)) results, results)))"

subsection \<open>What a run touches\<close>

lemma wp_log_read [wp_simps]: "wp e (log_read f) Q w = Q (Inr (f (w_elog w))) w"
  by (simp add: wp_def log_read_def)

lemma wp_log_append [wp_simps]:
  "wp e (log_append action details) Q w =
     (case elog_append (sha256 e) (json_dumps e) ''emergency_stop'' action details (now_at e (w_tick w)) (w_elog w) of
        Inl x \<Rightarrow> Q (Inl x) (w\<lparr>w_tick := Suc (w_tick w)\<rparr>)
      | Inr hl \<Rightarrow> Q (Inr ()) (w\<lparr>w_elog := snd hl, w_tick := Suc (w_tick w)\<rparr>))"
  by (auto simp: wp_def log_append_def split: sum.split prod.split)

text \<open>Relations the emergency stop respects: they hold for the requests it may send and, when it may log,
  for appending to the file.\<close>

locale stop_client = flow_relation +
  fixes may_log :: bool and may_send :: "brequest \<Rightarrow> bool"
  assumes R_append: "may_log \<Longrightarrow> R w (w\<lparr>w_elog := w_elog w @ ls\<rparr>)"
    and R_send: "may_send rq \<Longrightarrow> R w (w\<lparr>w_trace := w_trace w @ [rq]\<rparr>)"
    and may_ask: "\<not> is_mutating rq \<Longrightarrow> may_send rq"
begin

lemma resp_sent: "may_send rq \<Longrightarrow> keeps R (msend rq f)"
proof -
  assume "may_send rq"
  then have "R w (w\<lparr>w_trace := w_trace w @ [rq], w_tick := n\<rparr>)" for w :: world and n
    using R_trans [OF R_send R_tick] by simp
  moreover have "w\<lparr>w_tick := n, w_trace := t\<rparr> = w\<lparr>w_trace := t, w_tick := n\<rparr>" for w :: world and n t by simp
  ultimately show ?thesis by (simp only: keeps_def msend_def snd_conv) blast
qed

lemma resp_log: "may_log \<Longrightarrow> keeps R (log_append action details)" "keeps R (log_read f)"
proof -
  assume "may_log"
  then have "R w (w\<lparr>w_elog := w_elog w @ ls, w_tick := n\<rparr>)" for w :: world and ls :: "log_line list" and n
    using R_trans [OF R_append R_tick] by simp
  then show "keeps R (log_append action details)"
    by (auto simp: keeps_def log_append_def elog_append_def Let_def R_tick rbind_def split: sum.splits)
qed (simp add: keeps_def log_read_def R_refl)

lemma resp_miter: "(\<And>x. keeps R (f x)) \<Longrightarrow> keeps R (miter f xs)"
  by (induction xs) (auto intro!: resp_bind resp_ret)

lemmas rules = flow_intros keeps_cases resp_log resp_miter

lemma resp_asks:
  "keeps R (broker_open_orders a)" "keeps R (broker_balance a)" "keeps R (sale_in_flight aid symbol)"
  unfolding broker_open_orders_def broker_balance_def sale_in_flight_def broker_query_def
  by (rule rules resp_sent may_ask | simp (no_asm))+

lemma resp_cancel: "(\<And>s. dry_run \<or> may_log \<and> may_send (CancelAllOpen aid s)) \<Longrightarrow> keeps R (cancel_symbol aid dry_run g a)"
  unfolding cancel_symbol_def broker_cancel_all_def Let_def by (rule rules | rule resp_sent | blast)+

lemma resp_plan: "keeps R (plan_asset af a)"
  unfolding plan_asset_def source_price_def Let_def by (rule rules)+

lemma resp_sell:
  "(\<And>s q c. dry_run \<or> may_log \<and> may_send (PlaceOrder aid s SELL MARKET q None c None)) \<Longrightarrow> keeps R (sell_planned aid nonce dry_run p sold)"
  unfolding sell_planned_def broker_place_def Let_def by (rule rules resp_asks | rule resp_sent | blast)+

lemma resp_credentials: "keeps R (get_credentials aid)"
  unfolding get_credentials_def decrypt_field_def by (rule rules)+

lemma resp_stop:
  assumes "\<And>s. dry_run \<or> may_log \<and> may_send (CancelAllOpen aid s)"
    "\<And>s q c plan. refused yes dry_run answer plan = None \<Longrightarrow> plan \<noteq> [] \<Longrightarrow> dry_run \<or> may_log \<and> may_send (PlaceOrder aid s SELL MARKET q None c None)"
  shows "keeps R (stop_one aid yes dry_run answer)"
proof -
  have sells: "keeps R (mfold (sell_planned aid nonce dry_run) plan [])" if "refused yes dry_run answer plan = None" for nonce plan
    using assms(2) [OF that] by (cases plan) (auto intro!: resp_ret resp_bind resp_sell resp_mfold)
  show ?thesis
    unfolding stop_one_def stop_account_def
    by (rule sells resp_asks resp_credentials resp_cancel resp_plan rules assms(1) | assumption)+
qed

end

text \<open>A dry run only asks; an unconfirmed one sells nothing; every run extends the file.\<close>

definition only_asks :: "world \<Rightarrow> world \<Rightarrow> bool" where
  "only_asks w w' = (w_elog w' = w_elog w \<and> filter is_mutating (w_trace w') = filter is_mutating (w_trace w))"

definition extends_log :: "world \<Rightarrow> world \<Rightarrow> bool" where
  "extends_log w w' = (w_db w' = w_db w \<and> (\<exists>ls. w_elog w' = w_elog w @ ls))"

interpretation dry_stop: stop_client only_asks False "\<lambda>rq. \<not> is_mutating rq"
  by unfold_locales (auto simp: only_asks_def)

interpretation unsold_stop: stop_client no_place True "\<lambda>rq. \<not> is_place rq"
proof unfold_locales
  show "\<not> is_place rq" if "\<not> is_mutating rq" for rq using that by (cases rq) auto
qed (auto simp: no_place_def places_def)

interpretation logged_stop: stop_client extends_log True "\<lambda>rq. True"
  by unfold_locales (auto simp: extends_log_def)

text \<open>C12: The emergency stop sends only what the operator asked for. A dry run sends no request that
  changes anything and logs nothing; without the flag and without a confirmation at the console no
  order is placed, whatever was planned; and no run touches the database or removes a line of its
  file.\<close>

theorem emergency_sends_only_confirmed:
  "wp e (stop_one aid yes dry_run answer) (\<lambda>r w'. w_db w' = w_db w \<and> (\<exists>ls. w_elog w' = w_elog w @ ls)
     \<and> (dry_run \<longrightarrow> w_elog w' = w_elog w \<and> filter is_mutating (w_trace w') = filter is_mutating (w_trace w))
     \<and> (\<not> yes \<and> confirm answer \<noteq> None \<longrightarrow> places w' = places w)) w"
proof -
  have 1: "keeps extends_log (stop_one aid yes dry_run answer)"
    by (rule logged_stop.resp_stop) simp_all
  have 2: "dry_run \<Longrightarrow> keeps only_asks (stop_one aid yes dry_run answer)"
    by (rule dry_stop.resp_stop) simp_all
  have 3: "\<not> yes \<Longrightarrow> confirm answer \<noteq> None \<Longrightarrow> keeps no_place (stop_one aid yes dry_run answer)"
    by (rule unsold_stop.resp_stop) (auto simp: refused_def split: if_splits)
  show ?thesis
    using keeps_wp [OF 1, of e w] keeps_wp [OF 2, of e w] keeps_wp [OF 3, of e w]
    by (auto simp: wp_def extends_log_def only_asks_def no_place_def)
qed

theorem emergency_sends_only_confirmed_witness:
  "\<exists>w. confirm (Typed ''no'') \<noteq> None
     \<and> wp demo_env (stop_one ''a'' False False (Typed ''no'')) (\<lambda>r w'. places w' = places w \<and> w_db w' = w_db w) w"
proof -
  let ?w = "demo_world (demo_db\<lparr>accounts := [demo_account ''a'' ''real'']\<rparr>)"
  have c: "confirm (Typed ''no'') \<noteq> None" by code_simp
  from emergency_sends_only_confirmed [of demo_env "''a''" False False "Typed ''no''" ?w] c
  have "wp demo_env (stop_one ''a'' False False (Typed ''no'')) (\<lambda>r w'. places w' = places ?w \<and> w_db w' = w_db ?w) ?w"
    by (auto elim: wp_mono)
  with c show ?thesis by blast
qed

subsection \<open>When the emergency stop says ok\<close>

text \<open>A balance that is planned for sale: the free amount rounded down to the lot step of the filters the
  price source gave.\<close>

definition plan_covers :: "env \<Rightarrow> planned list \<Rightarrow> string \<times> rat \<Rightarrow> bool" where
  "plan_covers e plan af =
     (fst af = QUOTE \<or> snd af \<le> 0
      \<or> (\<exists>p\<in>set plan. pl_symbol p = fst af @ QUOTE \<and> (\<exists>n f. market_filters e n (pl_symbol p) = Inr (Some f)
           \<and> round_down_to_step (snd af) (step_size f) = Inr (pl_quantity p) \<and> \<not> flt (pl_quantity p) (min_qty f))))"

definition plan_clean :: "plan_acc \<Rightarrow> bool" where
  "plan_clean a = (xp_price_errors a = [] \<and> xp_filter_errors a = [])"

lemma plan_asset_covers:
  "wp e (plan_asset af a) (\<lambda>r w'. \<forall>a'. r = Inr a' \<longrightarrow> plan_clean a' \<longrightarrow>
     plan_clean a \<and> set (xp_plan a) \<subseteq> set (xp_plan a') \<and> plan_covers e (xp_plan a') af) w"
  by (auto simp: plan_asset_def source_price_def filter_error_def plan_clean_def plan_covers_def m_filters_def m_price_def
      Let_def wp_bind_simps wp_simps split: option.splits sum.splits)

lemma plan_covers_mono: "plan_covers e ps af \<Longrightarrow> set ps \<subseteq> set qs \<Longrightarrow> plan_covers e qs af"
  unfolding plan_covers_def by blast

lemma plan_all_covers:
  "wp e (mfold plan_asset bs a) (\<lambda>r w'. \<forall>a'. r = Inr a' \<longrightarrow> plan_clean a' \<longrightarrow>
     plan_clean a \<and> set (xp_plan a) \<subseteq> set (xp_plan a') \<and> (\<forall>af\<in>set bs. plan_covers e (xp_plan a') af)) w"
proof (induction bs arbitrary: a w)
  case (Cons af bs)
  show ?case
    unfolding mfold.simps wp_mbind
    by (rule wp_mono [OF plan_asset_covers [of e af a]])
      (auto split: sum.split intro!: wp_mono [OF Cons.IH] intro: plan_covers_mono dest: subsetD)
qed (simp add: wp_simps)

text \<open>Outside a dry run, selling leaves one entry per planned sale, in order, none of them a dry one.\<close>

lemma sell_planned_entry:
  "wp e (sell_planned aid nonce False p sold) (\<lambda>r w'. \<forall>s'. r = Inr s' \<longrightarrow>
     (\<exists>s. s' = sold @ [s] \<and> sx_planned s = p \<and> sx_status s \<noteq> Dry_Run)) w"
proof -
  have flight: "wp e (sale_in_flight aid (pl_symbol p)) (\<lambda>r w'. True) w" for w by (simp add: wp_def)
  show ?thesis
    unfolding sell_planned_def Let_def if_False wp_mbind [of e "menv _"] wp_menv sum.case wp_mbind [of e "sale_in_flight _ _"]
    by (rule wp_mono [OF flight]) (auto simp: wp_bind_simps wp_simps broker_place_def split: sum.split option.split)
qed

lemma sell_all_entries:
  "wp e (mfold (sell_planned aid nonce False) ps sold) (\<lambda>r w'. \<forall>s'. r = Inr s' \<longrightarrow>
     (\<exists>new. s' = sold @ new \<and> map sx_planned new = ps \<and> list_all (\<lambda>s. sx_status s \<noteq> Dry_Run) new)) w"
proof (induction ps arbitrary: sold w)
  case (Cons p ps)
  show ?case
    unfolding mfold.simps wp_mbind
    by (rule wp_mono [OF sell_planned_entry [of e aid nonce p sold]])
      (fastforce split: sum.split intro!: wp_mono [OF Cons.IH])
qed (simp add: wp_simps)

definition sold_out :: "env \<Rightarrow> stop_view \<Rightarrow> string \<times> rat \<Rightarrow> bool" where
  "sold_out e v af =
     (fst af = QUOTE \<or> snd af \<le> 0
      \<or> (\<exists>s\<in>set (sv_sold v). sx_status s = Sale FILLED \<and> pl_symbol (sx_planned s) = fst af @ QUOTE
          \<and> (\<exists>n f. market_filters e n (fst af @ QUOTE) = Inr (Some f)
               \<and> round_down_to_step (snd af) (step_size f) = Inr (pl_quantity (sx_planned s)))))"

lemma sold_out_entries:
  assumes "map sx_planned s' = xp_plan p" "list_all (\<lambda>s. sx_status s \<noteq> Dry_Run) s'" "list_all sale_final s'" "plan_covers e (xp_plan p) af"
  shows "sold_out e (stop_view_of False c p s') af"
proof -
  have "\<exists>s\<in>set s'. sx_planned s = q \<and> sx_status s = Sale FILLED" if "q \<in> set (xp_plan p)" for q
  proof -
    from that obtain s where "s \<in> set s'" "sx_planned s = q" using assms(1) by (metis imageE list.set_map)
    with assms(2,3) show ?thesis by (auto simp: list_all_iff sale_final_def)
  qed
  with assms(4) show ?thesis by (fastforce simp: plan_covers_def sold_out_def stop_view_of_def)
qed

lemma sells_out:
  assumes "plan_clean p \<longrightarrow> (\<forall>af\<in>set bs. plan_covers e (xp_plan p) af)"
  shows "wp e (mbind (mfold (sell_planned aid nonce False) (xp_plan p) []) (\<lambda>sold. mret (Stopped (stop_view_of False c p sold))))
    (\<lambda>r w'. \<forall>v. r = Inr (Stopped v) \<and> sv_ok v \<longrightarrow> (\<forall>af\<in>set bs. sold_out e v af) \<and> sv_cancel_errors v = []) w"
  unfolding wp_mbind
proof (rule wp_mono [OF sell_all_entries])
  fix r :: "sold_entry list res" and w' :: world
  assume new: "\<forall>s'. r = Inr s' \<longrightarrow> (\<exists>new. s' = [] @ new \<and> map sx_planned new = xp_plan p \<and> list_all (\<lambda>s. sx_status s \<noteq> Dry_Run) new)"
  have "sold_out e (stop_view_of False c p s') af"
    if "r = Inr s'" "sv_ok (stop_view_of False c p s')" "af \<in> set bs" for s' af
    by (rule sold_out_entries) (use new that assms in \<open>auto simp: stop_view_of_def plan_clean_def\<close>)
  then show "case r of Inl x \<Rightarrow> \<forall>v. Inl x = Inr (Stopped v) \<and> sv_ok v \<longrightarrow> (\<forall>af\<in>set bs. sold_out e v af) \<and> sv_cancel_errors v = []
    | Inr s' \<Rightarrow> wp e (mret (Stopped (stop_view_of False c p s')))
        (\<lambda>r w'. \<forall>v. r = Inr (Stopped v) \<and> sv_ok v \<longrightarrow> (\<forall>af\<in>set bs. sold_out e v af) \<and> sv_cancel_errors v = []) w'"
    by (auto simp: wp_simps stop_view_of_def split: sum.split)
qed

lemma stop_account_sold_out:
  "wp e (stop_account aid yes False answer) (\<lambda>r w'. \<forall>v. r = Inr (Stopped v) \<and> sv_ok v \<longrightarrow>
     (\<exists>n balances. b_balance e n aid = Inr balances \<and> (\<forall>af\<in>set balances. sold_out e v af)) \<and> sv_cancel_errors v = []) w"
proof -
  let ?Q = "\<lambda>r (w'::world). \<forall>v. r = Inr (Stopped v) \<and> sv_ok v \<longrightarrow>
     (\<exists>n balances. b_balance e n aid = Inr balances \<and> (\<forall>af\<in>set balances. sold_out e v af)) \<and> sv_cancel_errors v = []"
  have "wp e (case refused yes False answer (xp_plan p) of Some r \<Rightarrow> mret (Unconfirmed r (xp_plan p))
      | None \<Rightarrow> mbind uuid4_hex (\<lambda>u. mbind (mfold (sell_planned aid (take 8 u) False) (xp_plan p) [])
          (\<lambda>sold. mret (Stopped (stop_view_of False c p sold))))) ?Q w"
    if "b_balance e n aid = Inr balances" "plan_clean p \<longrightarrow> (\<forall>af\<in>set balances. plan_covers e (xp_plan p) af)" for n balances p c w
  proof (cases "refused yes False answer (xp_plan p)")
    case None
    have "wp e (mbind (mfold (sell_planned aid (take 8 u) False) (xp_plan p) []) (\<lambda>sold. mret (Stopped (stop_view_of False c p sold)))) ?Q w'"
      for u w' by (rule wp_mono [OF sells_out [OF that(2)]]) (use that(1) in blast)
    with None show ?thesis by (simp add: wp_mbind [of e uuid4_hex] wp_simps)
  qed (simp add: wp_simps)
  note acts = this
  have "wp e (mbind (mfold plan_asset balances \<lparr>xp_plan = [], xp_price_errors = [], xp_filter_errors = []\<rparr>) (\<lambda>p.
       case refused yes False answer (xp_plan p) of Some r \<Rightarrow> mret (Unconfirmed r (xp_plan p))
      | None \<Rightarrow> mbind uuid4_hex (\<lambda>u. mbind (mfold (sell_planned aid (take 8 u) False) (xp_plan p) [])
          (\<lambda>sold. mret (Stopped (stop_view_of False c p sold)))))) ?Q w"
    if "b_balance e n aid = Inr balances" for n balances c w
    unfolding wp_mbind [of e "mfold plan_asset _ _"]
    by (rule wp_mono [OF plan_all_covers]) (auto split: sum.split intro!: acts [OF that])
  note plans = this
  show ?thesis
    unfolding stop_account_def
    by (rule wp_bind_any, rule wp_bind_any)
      (simp_all add: plans wp_mbind [of e "msend _ _"] broker_balance_def wp_simps split: sum.split)
qed



subsection \<open>Sales in flight\<close>

lemma stop_keys [simp]: "\<not> sensitive ''cid''" "\<not> sensitive ''run_nonce''"
  by (simp_all add: sensitive_def SENSITIVE_KEYS_def py_lower_def lower_char_def)

text \<open>An order that was sent and accepted is the last sale of its symbol in the file.\<close>

lemma logged_sale_is_latest:
  assumes "elog_append H dumps actor SELL_LOG_ACTION d now lines = Inr (h, lines')"
    "dict_get d ''idem_key'' = PStr (aid @ '':'' @ symbol @ '':'' @ rest)" "dict_get d ''cid'' = PStr c" "dict_get d ''status'' = PStr st"
  shows "\<exists>d'. latest_sell_details aid symbol lines' = Some d' \<and> dict_get d' ''cid'' = PStr c \<and> dict_get d' ''status'' = PStr st"
proof -
  from assms(1) obtain row where l: "lines' = lines @ [Entry row]" and r: "e_details row = redact_dict d" "e_action row = SELL_LOG_ACTION"
    by (auto simp: elog_append_def rbind_Inr_iff Let_def elog_entry_of_def)
  have "dict_get (e_details row) ''idem_key'' = PStr (aid @ '':'' @ symbol @ '':'' @ rest)"
    unfolding r(1) by (rule dict_get_redact) (use assms(2) in simp_all)
  then have "map_of (e_details row) ''idem_key'' = Some (PStr (aid @ '':'' @ symbol @ '':'' @ rest))"
    by (auto simp: dict_get_def split: option.splits)
  then have "sale_of_symbol aid symbol (Entry row)"
    by (simp add: sale_of_symbol_def r(2) py_str_def)
  then have "latest_sell_details aid symbol lines' = Some (redact_dict d)"
    by (simp add: latest_sell_details_def l r(1))
  with assms(3,4) show ?thesis by (simp add: dict_get_redact)
qed

definition in_flight :: "string \<Rightarrow> string \<Rightarrow> string \<Rightarrow> world \<Rightarrow> bool" where
  "in_flight aid symbol c w =
     (\<exists>d. latest_sell_details aid symbol (w_elog w) = Some d \<and> prior_cid aid symbol d = c \<and> unfinished_status (dict_get d ''status''))"

lemma sale_in_flight_found:
  "wp e (sale_in_flight aid symbol) (\<lambda>r w'. w_elog w' = w_elog w \<and> (\<forall>c f. r = Inr (Some (c, f)) \<longrightarrow> in_flight aid symbol c w)) w"
  by (auto simp: sale_in_flight_def in_flight_def Let_def wp_bind_simps wp_simps broker_query_def split: option.split sum.split)

lemma placed_sale_in_flight:
  assumes "elog_append H dumps actor SELL_LOG_ACTION [(''idem_key'', PStr (aid @ CHR '':'' # symbol @ CHR '':'' # rest)),
      (''cid'', PStr (emergency_cid aid nonce symbol)), (''run_nonce'', v1), (''account_id'', v2), (''symbol'', v3), (''quantity'', v4),
      (''status'', PStr (status_name st)), (''exchange_order_id'', v5)] now (w_elog w) = Inr (h, lines')"
    "st \<in> set NON_TERMINAL_SELL_STATUSES"
  shows "in_flight aid symbol (emergency_cid aid nonce symbol) (w'\<lparr>w_elog := lines', w_tick := n\<rparr>)"
proof -
  have c: "emergency_cid aid nonce symbol \<noteq> []" by (simp add: emergency_cid_def)
  from logged_sale_is_latest [OF assms(1), of aid symbol rest "emergency_cid aid nonce symbol" "status_name st"]
  obtain d' where d: "latest_sell_details aid symbol lines' = Some d'" "dict_get d' ''cid'' = PStr (emergency_cid aid nonce symbol)"
      "dict_get d' ''status'' = PStr (status_name st)"
    by (auto simp: dict_get_def)
  with c assms(2) show ?thesis by (auto simp: in_flight_def prior_cid_def unfinished_status_def Let_def)
qed

lemma pending_sale_in_flight:
  "wp e (sell_planned aid nonce False p sold) (\<lambda>r w'. \<forall>s. r = Inr (sold @ [s]) \<and> sale_pending s \<longrightarrow>
     (\<exists>c. sx_cid s = Some c \<and> in_flight aid (pl_symbol p) c w')) w"
  unfolding sell_planned_def Let_def if_False wp_mbind [of e "menv _"] wp_menv sum.case wp_mbind [of e "sale_in_flight _ _"]
proof (rule wp_mono [OF sale_in_flight_found], goal_cases)
  case (1 r w1)
  have same: "in_flight aid (pl_symbol p) c w1 = in_flight aid (pl_symbol p) c w" for c using 1 by (simp add: in_flight_def)
  show ?case
  proof (cases r)
    case (Inr fl)
    then show ?thesis
    proof (cases fl)
      case None
      with Inr show ?thesis
        by (auto simp: wp_bind_simps wp_simps broker_place_def sale_pending_def split: sum.split if_splits
            elim: placed_sale_in_flight)
    next
      case (Some cf)
      with Inr 1 show ?thesis by (cases cf) (auto simp: wp_simps sale_pending_def same)
    qed
  qed simp
qed


definition demo_planned :: planned where
  "demo_planned = \<lparr>pl_symbol = ''BTCUSDT'', pl_asset = ''BTC'', pl_quantity = Fin 2, pl_price = 100\<rparr>"

text \<open>An environment in which the exchange accepts an order but does not fill it.\<close>

definition slow_env :: env where
  "slow_env = demo_env\<lparr>b_place := (\<lambda>_ _. Inr (demo_result\<lparr>or_status := NEW\<rparr>)), b_query := (\<lambda>_ _. Inr (Some (demo_result\<lparr>or_status := NEW\<rparr>)))\<rparr>"


text \<open>A sale whose submission times out is reported as failed, not as pending, and is not logged: the next
  run does not ask the exchange about it and sells again.\<close>

theorem timed_out_sale_is_forgotten:
  "let e = demo_env\<lparr>b_place := (\<lambda>_ _. Inl (rasat TIMEOUT))\<rparr>;
       first = sell_planned ''a'' ''n'' False demo_planned [] e (demo_world demo_db);
       second = sell_planned ''a'' ''m'' False demo_planned [] demo_env (snd first)
   in (case fst first of Inr [s] \<Rightarrow> sx_status s = Sale_Failed TIMEOUT \<and> \<not> sale_pending s | _ \<Rightarrow> False)
      \<and> w_elog (snd first) = [] \<and> length (places (snd second)) = 2"
  by code_simp

text \<open>After a torn line in the file the first sale that is sent cannot be logged: the run of the account
  ends with an internal error and its other assets are not sold.\<close>

theorem torn_line_stops_the_stop:
  "let e = demo_env\<lparr>b_balance := (\<lambda>_ _. Inr [(''BTC'', 2), (''ETH'', 3)])\<rparr>;
       w = (demo_world (demo_db\<lparr>accounts := [demo_account ''a'' ''real'']\<rparr>))\<lparr>w_elog := [Corrupt ''x'']\<rparr>;
       r = run_stop [] True False (\<lambda>_. Stdin_Closed) e w
   in fst r = Inr (False, [(''a'', Stop_Failed INTERNAL_ERROR)]) \<and> length (places (snd r)) = 1"
  by code_simp

subsection \<open>The public price source\<close>

definition public_price :: "http_reply \<Rightarrow> rat res" where
  "public_price reply =
     (case reply of
        TransportError \<Rightarrow> Inl (rasat INTERNAL_ERROR)
      | Reply st body \<Rightarrow>
          if st = 400 then Inl (rasat INVALID_SYMBOL)
          else if 400 \<le> st then Inl (rasat INTERNAL_ERROR)
          else
            (case body of
               PDict d \<Rightarrow>
                 (case map_of d ''price'' of
                    None \<Rightarrow> Inl (rasat INTERNAL_ERROR)
                  | Some v \<Rightarrow>
                      (case py_float v of
                         Inl x \<Rightarrow> Inl (if x = TypeError \<or> x = ValueError then rasat INTERNAL_ERROR else x)
                       | Inr (Fin q) \<Rightarrow> if q \<le> 0 then Inl (rasat INTERNAL_ERROR) else Inr q
                       | Inr _ \<Rightarrow> Inl (rasat INTERNAL_ERROR)))
             | _ \<Rightarrow> Inl (rasat INTERNAL_ERROR)))"

definition FILTERS_TTL_SECONDS :: rat where
  "FILTERS_TTL_SECONDS = 3600"

definition info_entry :: "string \<Rightarrow> exchange_entry list \<Rightarrow> exchange_entry option" where
  "info_entry symbol entries = List.find (\<lambda>x. str_or_empty (ee_symbol x) \<noteq> [] \<and> str_or_empty (ee_symbol x) = symbol) (rev entries)"

definition fetch_filters ::
  "rat \<Rightarrow> exchange_entry list res \<Rightarrow> string \<Rightarrow> (string \<times> rat \<times> symbol_filters) list
     \<Rightarrow> symbol_filters option res \<times> (string \<times> rat \<times> symbol_filters) list" where
  "fetch_filters now info symbol cache =
     (case info of
        Inl x \<Rightarrow> if is_rasat x then (Inr None, cache) else (Inl x, cache)
      | Inr entries \<Rightarrow>
          (case info_entry symbol entries of
             None \<Rightarrow> (Inr None, cache)
           | Some entry \<Rightarrow>
               (case from_exchange_info entry of
                  Inl x \<Rightarrow> (Inl x, cache)
                | Inr f \<Rightarrow> (Inr (Some f), dict_put cache symbol (now, f)))))"

text \<open>The filters of a symbol and the cache afterwards; \<open>info\<close> is the answer of the exchange info
  endpoint, looked at only when the cache has no recent entry.\<close>

definition public_filters ::
  "rat \<Rightarrow> exchange_entry list res \<Rightarrow> string \<Rightarrow> (string \<times> rat \<times> symbol_filters) list
     \<Rightarrow> symbol_filters option res \<times> (string \<times> rat \<times> symbol_filters) list" where
  "public_filters now info symbol cache =
     (case map_of cache symbol of
        Some (t, f) \<Rightarrow> if now - t < FILTERS_TTL_SECONDS then (Inr (Some f), cache) else fetch_filters now info symbol cache
      | None \<Rightarrow> fetch_filters now info symbol cache)"

lemma public_price_positive: "public_price reply = Inr q \<Longrightarrow> 0 < q"
  by (auto simp: public_price_def split: http_reply.splits pyval.splits option.splits sum.splits pyfloat.splits if_splits)

lemma public_filters_cached:
  "public_filters now info symbol cache = (Inr (Some f), cache') \<Longrightarrow> map_of cache symbol = None \<Longrightarrow>
     now' - now < FILTERS_TTL_SECONDS \<Longrightarrow> public_filters now' info' symbol cache' = (Inr (Some f), cache')"
  by (auto simp: public_filters_def fetch_filters_def map_of_dict_put split: sum.splits option.splits if_splits)

end
