(* ===== verification/Rate_Limit.thy ===== *)
theory Rate_Limit
  imports Numeric
begin

text \<open>
  The weight budget of the exchange's REST interface (\<open>data/rate_limit.py\<close>) and the retries of the REST
  client (\<open>data/binance_client.py\<close>). The readings of the monotonic clock and what the server reports
  while a caller sleeps are arguments. Waiting for the budget is a loop that may not end; a call that
  never returns is \<open>None\<close>.
\<close>

subsection \<open>The budget\<close>

record weight_budget =
  bu_max :: int
  bu_window :: rat
  bu_used :: rat
  bu_start :: rat
  bu_waits :: nat

text \<open>One round of \<open>acquire\<close>: reset the window when it is over, then take the weight if it fits.\<close>

definition try_acquire :: "rat \<Rightarrow> int \<Rightarrow> weight_budget \<Rightarrow> weight_budget \<times> bool" where
  "try_acquire now w b =
     (let b1 = (if bu_window b \<le> now - bu_start b then b\<lparr>bu_used := 0, bu_start := now\<rparr> else b) in
      if bu_used b1 + of_int w \<le> of_int (bu_max b1) then (b1\<lparr>bu_used := bu_used b1 + of_int w\<rparr>, True)
      else (b1\<lparr>bu_waits := bu_waits b1 + 1\<rparr>, False))"

definition sleep_time :: "rat \<Rightarrow> rat \<Rightarrow> weight_budget \<Rightarrow> rat" where
  "sleep_time now jitter b = min (bu_start b + bu_window b - now) 5 + jitter"

definition note_used :: "int \<Rightarrow> weight_budget \<Rightarrow> weight_budget" where
  "note_used used b = (if bu_used b < of_int used then b\<lparr>bu_used := of_int used\<rparr> else b)"

text \<open>\<open>clock k\<close> is the reading of round \<open>k\<close>, \<open>noted k\<close> what other requests report while round \<open>k\<close> sleeps.\<close>

partial_function (option) acquire :: "(nat \<Rightarrow> rat) \<Rightarrow> (nat \<Rightarrow> int list) \<Rightarrow> int \<Rightarrow> nat \<Rightarrow> weight_budget \<Rightarrow> (nat \<times> weight_budget) option" where
  "acquire clock noted w k b =
     (case try_acquire (clock k) w b of
        (b', granted) \<Rightarrow>
          if granted then Some (Suc k, b') else acquire clock noted w (Suc k) (fold note_used (noted k) b'))"

definition snapshot :: "rat \<Rightarrow> weight_budget \<Rightarrow> rat \<times> int \<times> rat \<times> nat" where
  "snapshot now b = (bu_used b, bu_max b, max 0 (bu_window b - (now - bu_start b)), bu_waits b)"

definition backoff_delay :: "nat \<Rightarrow> rat \<Rightarrow> rat \<Rightarrow> rat option \<Rightarrow> rat" where
  "backoff_delay attempt base max_delay jitter =
     (let delay = min (base * 2 ^ attempt) max_delay in
      case jitter of None \<Rightarrow> delay | Some f \<Rightarrow> delay * f)"

lemma backoff_delay_bounds:
  assumes "0 \<le> base" "0 \<le> max_delay" "\<And>f. jitter = Some f \<Longrightarrow> 8 / 10 \<le> f \<and> f \<le> 12 / 10"
  shows "0 \<le> backoff_delay attempt base max_delay jitter" "backoff_delay attempt base max_delay jitter \<le> 12 / 10 * max_delay"
proof -
  let ?d = "min (base * 2 ^ attempt) max_delay"
  have d: "0 \<le> ?d" "?d \<le> max_delay" using assms(1,2) by simp_all
  show "0 \<le> backoff_delay attempt base max_delay jitter"
    using d assms(3) by (cases jitter) (auto simp: backoff_delay_def Let_def)
  show "backoff_delay attempt base max_delay jitter \<le> 12 / 10 * max_delay"
  proof (cases jitter)
    case (Some f)
    have "?d * f \<le> max_delay * (12 / 10)" using d assms(3) [OF Some] by (intro mult_mono) auto
    with Some show ?thesis by (simp add: backoff_delay_def Let_def mult.commute)
  next
    case None
    have "?d \<le> 12 / 10 * max_delay" using order_trans [OF d(2), of "12 / 10 * max_delay"] assms(2) by simp
    with None show ?thesis by (simp add: backoff_delay_def Let_def)
  qed
qed

subsection \<open>Waiting ends\<close>

lemma try_acquire_expired:
  "bu_window b \<le> now - bu_start b \<Longrightarrow> w \<le> bu_max b \<Longrightarrow> snd (try_acquire now w b)"
  by (simp add: try_acquire_def)

lemma try_acquire_refused:
  assumes "try_acquire now w b = (b', False)" "w \<le> bu_max b"
  shows "bu_start b' = bu_start b" "bu_window b' = bu_window b" "bu_max b' = bu_max b" "now - bu_start b < bu_window b"
  using assms by (auto simp: try_acquire_def Let_def split: if_splits)

lemma note_used_simps:
  "bu_start (fold note_used us b) = bu_start b" "bu_window (fold note_used us b) = bu_window b" "bu_max (fold note_used us b) = bu_max b"
  by (induction us arbitrary: b) (simp_all add: note_used_def)

lemma note_used_mono: "bu_used b \<le> bu_used (fold note_used us b)"
proof (induction us arbitrary: b)
  case (Cons u us)
  have "bu_used b \<le> bu_used (note_used u b)" by (simp add: note_used_def)
  also have "\<dots> \<le> bu_used (fold note_used us (note_used u b))" by (rule Cons.IH)
  finally show ?case by simp
qed simp

text \<open>The rounds a caller may still need: one per five seconds left of the window.\<close>

definition rounds_left :: "rat \<Rightarrow> weight_budget \<Rightarrow> nat" where
  "rounds_left now b = nat \<lceil>(bu_start b + bu_window b - now) / 5\<rceil>"

lemma rounds_left_less:
  assumes "now - bu_start b < bu_window b" "now + min (bu_start b + bu_window b - now) 5 \<le> now'"
    "bu_start b' = bu_start b" "bu_window b' = bu_window b"
  shows "rounds_left now' b' < rounds_left now b"
proof -
  let ?r = "bu_start b + bu_window b - now" and ?r' = "bu_start b + bu_window b - now'"
  have pos: "0 < ?r" using assms(1) by simp
  have up: "?r / 5 \<le> of_int \<lceil>?r / 5\<rceil>" by simp
  have one: "1 \<le> \<lceil>?r / 5\<rceil>" using pos by simp
  then have one': "1 \<le> (of_int \<lceil>?r / 5\<rceil> :: rat)" by simp
  have "?r' \<le> 0 \<or> ?r' \<le> ?r - 5" using assms(2) by linarith
  then have "?r' / 5 \<le> of_int \<lceil>?r / 5\<rceil> - 1"
  proof
    assume "?r' \<le> 0"
    then have "?r' / 5 \<le> 0" by simp
    with one' show ?thesis by linarith
  next
    assume "?r' \<le> ?r - 5"
    then have "?r' / 5 \<le> ?r / 5 - 1" by (simp add: divide_simps)
    with up show ?thesis by linarith
  qed
  then have "\<lceil>?r' / 5\<rceil> \<le> \<lceil>?r / 5\<rceil> - 1" by (intro ceiling_le) simp
  then have "nat \<lceil>?r' / 5\<rceil> < nat \<lceil>?r / 5\<rceil>" using one by linarith
  then show ?thesis by (simp add: rounds_left_def assms(3,4))
qed

lemma acquire_returns_core:
  assumes "w \<le> bu_max b" "\<And>k. clock k + min (bu_start b + bu_window b - clock k) 5 \<le> clock (Suc k)"
  shows "\<exists>k' b'. acquire clock noted w k b = Some (k', b') \<and> k' \<le> k + rounds_left (clock k) b + 1 \<and> bu_used b' \<le> of_int (bu_max b)"
  using assms
proof (induction "rounds_left (clock k) b" arbitrary: k b rule: less_induct)
  case less
  obtain b1 granted where t: "try_acquire (clock k) w b = (b1, granted)" by fastforce
  show ?case
  proof (cases granted)
    case True
    with t have "acquire clock noted w k b = Some (Suc k, b1)" "bu_used b1 \<le> of_int (bu_max b)"
      by (simp add: acquire.simps, auto simp: try_acquire_def Let_def split: if_splits)
    then show ?thesis by auto
  next
    case False
    let ?b = "fold note_used (noted k) b1"
    have refused: "try_acquire (clock k) w b = (b1, False)" using t False by simp
    note same = try_acquire_refused [OF refused less.prems(1)]
    have lt: "rounds_left (clock (Suc k)) ?b < rounds_left (clock k) b"
      by (rule rounds_left_less [OF same(4) less.prems(2)]) (simp_all add: note_used_simps same)
    have "\<exists>k' b'. acquire clock noted w (Suc k) ?b = Some (k', b') \<and> k' \<le> Suc k + rounds_left (clock (Suc k)) ?b + 1
        \<and> bu_used b' \<le> of_int (bu_max ?b)"
      by (rule less.hyps [OF lt]) (use less.prems in \<open>simp_all add: note_used_simps same\<close>)
    with lt t False show ?thesis by (auto simp: acquire.simps [of clock noted w k b] note_used_simps same)
  qed
qed


definition demo_budget :: weight_budget where
  "demo_budget = \<lparr>bu_max = 10, bu_window = 60, bu_used = 10, bu_start = 0, bu_waits = 0\<rparr>"


text \<open>A weight above the maximum is never granted: the call sleeps for ever, with the lock held.\<close>

theorem oversized_request_never_returns:
  assumes "bu_max b < w" "0 \<le> bu_used b"
  shows "acquire clock noted w k b = None"
proof -
  have "acquire clock noted w k b = Some y \<Longrightarrow> bu_max b < w \<and> 0 \<le> bu_used b \<longrightarrow> False" for y
  proof (induction rule: acquire.raw_induct [rotated, consumes 1, case_names step])
    case (step acq clock noted w k b y)
    obtain b1 granted where t: "try_acquire (clock k) w b = (b1, granted)" by fastforce
    show ?case
    proof
      assume b: "bu_max b < w \<and> 0 \<le> bu_used b"
      then have "\<not> granted" "bu_max b1 = bu_max b" "0 \<le> bu_used b1"
        using t by (auto simp: try_acquire_def Let_def split: if_splits)
      moreover from this(1) step(2) t have "acq clock noted w (Suc k) (fold note_used (noted k) b1) = Some y" by simp
      note step(1) [OF this]
      ultimately show False using b order_trans [OF _ note_used_mono [of b1 "noted k"]] by (simp add: note_used_simps)
    qed
  qed
  with assms show ?thesis by (cases "acquire clock noted w k b") auto
qed

subsection \<open>The budget of a window is respected\<close>

text \<open>The grants in order, each with the start of the window it was granted in. A reset starts a new
  window; the clock does not run backwards.\<close>

inductive budget_run :: "weight_budget \<Rightarrow> (rat \<times> int) list \<Rightarrow> weight_budget \<Rightarrow> bool" for b0 where
  Budget_Start: "budget_run b0 [] b0"
| Budget_Round: "budget_run b0 gs b \<Longrightarrow> 0 \<le> w \<Longrightarrow> try_acquire now w b = (b', granted)
    \<Longrightarrow> budget_run b0 (if granted then gs @ [(bu_start b', w)] else gs) b'"
| Budget_Noted: "budget_run b0 gs b \<Longrightarrow> budget_run b0 gs (note_used u b)"

definition granted_in :: "rat \<Rightarrow> (rat \<times> int) list \<Rightarrow> int" where
  "granted_in s gs = sum_list (map snd (filter (\<lambda>g. fst g = s) gs))"

lemma granted_in_append: "granted_in s (gs @ [(t, w)]) = granted_in s gs + (if t = s then w else 0)"
  by (simp add: granted_in_def)

definition within_budget :: "weight_budget \<Rightarrow> (rat \<times> int) list \<Rightarrow> bool" where
  "within_budget b gs =
     ((\<forall>s. granted_in s gs \<le> bu_max b) \<and> of_int (granted_in (bu_start b) gs) \<le> bu_used b
      \<and> (\<forall>g\<in>set gs. fst g \<le> bu_start b))"

lemma granted_in_none: "(\<And>g. g \<in> set gs \<Longrightarrow> fst g \<noteq> s) \<Longrightarrow> granted_in s gs = 0"
  by (induction gs) (auto simp: granted_in_def)

lemma within_budget_reset:
  assumes "within_budget b gs" "0 < bu_window b" "bu_window b \<le> now - bu_start b"
  shows "within_budget (b\<lparr>bu_used := 0, bu_start := now\<rparr>) gs"
proof -
  have "fst g < now" if "g \<in> set gs" for g using assms that by (fastforce simp: within_budget_def)
  then have "granted_in now gs = 0" by (intro granted_in_none) fastforce
  with assms show ?thesis by (auto simp: within_budget_def)
qed

lemma within_budget_round:
  assumes "within_budget b gs" "0 < bu_window b" "0 \<le> w" "try_acquire now w b = (b', granted)"
  shows "within_budget b' (if granted then gs @ [(bu_start b', w)] else gs)" "bu_window b' = bu_window b" "bu_max b' = bu_max b"
proof -
  define b1 where "b1 = (if bu_window b \<le> now - bu_start b then b\<lparr>bu_used := 0, bu_start := now\<rparr> else b)"
  have b1: "within_budget b1 gs" "bu_window b1 = bu_window b" "bu_max b1 = bu_max b"
    using assms(1,2) within_budget_reset by (auto simp: b1_def)
  have t: "b' = (if granted then b1\<lparr>bu_used := bu_used b1 + of_int w\<rparr> else b1\<lparr>bu_waits := bu_waits b1 + 1\<rparr>)"
    "granted \<Longrightarrow> bu_used b1 + of_int w \<le> of_int (bu_max b1)"
    using assms(4) unfolding try_acquire_def b1_def [symmetric] Let_def by (auto split: if_splits)
  show "bu_window b' = bu_window b" "bu_max b' = bu_max b" using t(1) b1 by simp_all
  show "within_budget b' (if granted then gs @ [(bu_start b', w)] else gs)"
  proof (cases granted)
    case True
    have "of_int (granted_in (bu_start b1) gs) + of_int w \<le> (of_int (bu_max b1) :: rat)"
      using b1(1) t(2) [OF True] by (simp add: within_budget_def)
    then have "granted_in (bu_start b1) gs + w \<le> bu_max b1" by (metis of_int_add of_int_le_iff)
    with True b1(1) t(1) show ?thesis by (auto simp: within_budget_def granted_in_append)
  qed (use t(1) b1(1) in \<open>simp add: within_budget_def\<close>)
qed

lemma budget_run_within:
  assumes "budget_run b0 gs b" "0 < bu_window b0" "0 \<le> bu_max b0" "0 \<le> bu_used b0"
  shows "within_budget b gs \<and> bu_window b = bu_window b0 \<and> bu_max b = bu_max b0"
  using assms(1)
proof induction
  case Budget_Start
  then show ?case using assms(3,4) by (simp add: within_budget_def granted_in_def)
next
  case (Budget_Round gs b w now b' granted)
  with within_budget_round [of b gs w now b' granted] assms(2) show ?case by auto
next
  case (Budget_Noted gs b u)
  then show ?case by (auto simp: within_budget_def note_used_def)
qed

text \<open>C25: No window is overspent. Whatever requests ask for the budget in whatever order, with resets and
  reports of the server in between, the weights granted within one window add up to at most the
  maximum.\<close>

theorem window_budget_respected:
  assumes "budget_run b0 gs b" "0 < bu_window b0" "0 \<le> bu_max b0" "0 \<le> bu_used b0"
  shows "granted_in s gs \<le> bu_max b0"
  using budget_run_within [OF assms] by (metis within_budget_def)

theorem window_budget_respected_witness:
  "granted_in 60 [(60, 4), (60, 6)] \<le> 10 \<and> budget_run demo_budget [(60, 4), (60, 6)] (demo_budget\<lparr>bu_start := 60\<rparr>)"
proof -
  have "budget_run demo_budget (if True then [] @ [(bu_start (demo_budget\<lparr>bu_used := 4, bu_start := 60\<rparr>), 4)] else []) (demo_budget\<lparr>bu_used := 4, bu_start := 60\<rparr>)"
    by (rule Budget_Round [OF Budget_Start, where now = 60]) (simp_all add: try_acquire_def demo_budget_def)
  then have one: "budget_run demo_budget [(60, 4)] (demo_budget\<lparr>bu_used := 4, bu_start := 60\<rparr>)" by (simp add: demo_budget_def)
  have "budget_run demo_budget (if True then [(60, 4)] @ [(bu_start (demo_budget\<lparr>bu_start := 60\<rparr>), 6)] else [(60, 4)]) (demo_budget\<lparr>bu_start := 60\<rparr>)"
    by (rule Budget_Round [OF one, where now = 70]) (simp_all add: try_acquire_def demo_budget_def)
  then have two: "budget_run demo_budget [(60, 4), (60, 6)] (demo_budget\<lparr>bu_start := 60\<rparr>)" by (simp add: demo_budget_def)
  from window_budget_respected [OF two, of 60] two show ?thesis by (simp add: demo_budget_def)
qed

subsection \<open>Requests with retries\<close>

text \<open>What one attempt meets: an answer with its status, the used weight its header reports and the body it
  decodes to (\<open>None\<close> when reading the body breaks off), or a network error or timeout before the answer.\<close>

datatype attempt = Answer int "int option" "pyval res option" | Client_Error

definition note_header :: "int option \<Rightarrow> weight_budget \<Rightarrow> weight_budget" where
  "note_header used b = (case used of Some n \<Rightarrow> note_used n b | None \<Rightarrow> b)"

fun get_attempts :: "attempt list \<Rightarrow> pyexc \<Rightarrow> weight_budget \<Rightarrow> pyval res \<times> nat \<times> weight_budget" where
  "get_attempts [] last_exc b = (Inl last_exc, 0, b)"
| "get_attempts (Client_Error # rest) last_exc b =
     (case get_attempts rest (rasat INTERNAL_ERROR) b of (r, n, b') \<Rightarrow> (r, Suc n, b'))"
| "get_attempts (Answer status used body # rest) last_exc b =
     (let b1 = note_header used b in
      if status = 429 \<or> status = 418 then (case get_attempts rest (rasat RATE_LIMITED) b1 of (r, n, b') \<Rightarrow> (r, Suc n, b'))
      else if status = 401 \<or> status = 403 then (Inl (rasat UNAUTHORIZED), 1, b1)
      else if status = 400 \<or> status = 404 then (Inl (rasat INVALID_REQUEST), 1, b1)
      else if 400 \<le> status then (case get_attempts rest (rasat INTERNAL_ERROR) b1 of (r, n, b') \<Rightarrow> (r, Suc n, b'))
      else (case body of
          Some v \<Rightarrow> (v, 1, b1)
        | None \<Rightarrow> (case get_attempts rest (rasat INTERNAL_ERROR) b1 of (r, n, b') \<Rightarrow> (r, Suc n, b'))))"

text \<open>\<open>BinanceREST.get\<close>: the result, the number of requests sent, and the budget.\<close>

definition rest_get ::
  "(nat \<Rightarrow> rat) \<Rightarrow> (nat \<Rightarrow> int list) \<Rightarrow> (nat \<Rightarrow> attempt) \<Rightarrow> nat \<Rightarrow> int \<Rightarrow> nat \<Rightarrow> weight_budget \<Rightarrow> (pyval res \<times> nat \<times> weight_budget) option" where
  "rest_get clock noted attempts retries w k b =
     (case acquire clock noted w k b of
        None \<Rightarrow> None
      | Some (k', b') \<Rightarrow> Some (get_attempts (map attempts [0..<retries]) (rasat INTERNAL_ERROR) b'))"

definition kline_weight :: "int \<Rightarrow> int" where
  "kline_weight limit = (if limit \<le> 100 then 1 else if limit \<le> 500 then 2 else 5)"

lemma get_attempts_bound: "get_attempts as x b = (r, n, b') \<Longrightarrow> n \<le> length as"
  by (induction as x b arbitrary: r n b' rule: get_attempts.induct)
    (fastforce simp: Let_def split: if_splits prod.splits option.splits)+

text \<open>Retries are not charged: a call that sends four requests reserves the weight of one.\<close>

theorem retries_are_not_charged:
  "get_attempts (replicate 3 Client_Error @ [Answer 200 None (Some (Inr v))]) x b = (Inr v, 4, b)"
  by (simp add: numeral_3_eq_3 note_header_def)

end
