(* ===== verification/Market_Data.thy ===== *)
theory Market_Data
  imports Swings Rate_Limit "HOL-Library.Char_ord" "HOL-Library.List_Lexorder"
begin

text \<open>
  The server clock (\<open>data/clock.py\<close>), the symbol universe (\<open>data/universe.py\<close>), the candle table with its
  writer, reader and retention (\<open>data/klines.py\<close>, \<open>storage/retention.py\<close>). What the exchange answers
  and the readings of the host clock are arguments. A table is the list of its rows; the abstract view
  of the candle table is a map from its primary key.
\<close>

subsection \<open>Tables with a primary key\<close>

text \<open>\<open>INSERT \<dots> ON CONFLICT(key) DO UPDATE\<close> of every column that is not in the key.\<close>

definition upsert :: "('r \<Rightarrow> 'k) \<Rightarrow> 'r \<Rightarrow> 'r list \<Rightarrow> 'r list" where
  "upsert key r t = (if key r \<in> key ` set t then map (\<lambda>x. if key x = key r then r else x) t else t @ [r])"

definition table_map :: "('r \<Rightarrow> 'k) \<Rightarrow> 'r list \<Rightarrow> 'k \<rightharpoonup> 'r" where
  "table_map key t = map_of (map (\<lambda>r. (key r, r)) t)"

lemma table_map_simps [simp]:
  "table_map key [] = Map.empty" "table_map key (r # t) = (table_map key t)(key r \<mapsto> r)"
  by (simp_all add: table_map_def)

lemma table_map_append: "table_map key (t @ u) = table_map key u ++ table_map key t"
  by (simp add: table_map_def)

lemma table_map_key: "table_map key t k = Some r \<Longrightarrow> key r = k \<and> r \<in> set t"
  by (induction t) (auto split: if_splits)

lemma table_map_None: "table_map key t k = None \<longleftrightarrow> k \<notin> key ` set t"
  by (induction t) auto

lemma table_map_unique: "distinct (map key t) \<Longrightarrow> table_map key t k = Some r \<longleftrightarrow> r \<in> set t \<and> key r = k"
  by (induction t) (auto simp: image_iff)

lemma table_map_replace:
  "key r \<in> key ` set t \<Longrightarrow> table_map key (map (\<lambda>x. if key x = key r then r else x) t) = (table_map key t)(key r \<mapsto> r)"
proof (rule ext)
  fix k
  have *: "table_map key (map (\<lambda>x. if key x = key r then r else x) t) k
      = (if k = key r then (if key r \<in> key ` set t then Some r else None) else table_map key t k)" for t
    by (induction t) auto
  assume "key r \<in> key ` set t"
  then show "table_map key (map (\<lambda>x. if key x = key r then r else x) t) k = ((table_map key t)(key r \<mapsto> r)) k" by (simp add: *)
qed

lemma table_map_upsert: "table_map key (upsert key r t) = (table_map key t)(key r \<mapsto> r)"
proof (cases "key r \<in> key ` set t")
  case False
  then have "table_map key t (key r) = None" by (simp add: table_map_None)
  with False show ?thesis by (auto simp: upsert_def table_map_append map_add_def split: option.splits)
qed (simp add: upsert_def table_map_replace)

lemma upsert_distinct: "distinct (map key t) \<Longrightarrow> distinct (map key (upsert key r t))"
proof -
  have "map key (map (\<lambda>x. if key x = key r then r else x) t) = map key t" by simp
  then show "distinct (map key t) \<Longrightarrow> ?thesis" by (simp add: upsert_def del: map_map)
qed

lemma upsert_set: "x \<in> set (upsert key r t) \<Longrightarrow> x = r \<or> x \<in> set t"
  by (auto simp: upsert_def split: if_splits)

lemma fold_upsert_distinct: "distinct (map key t) \<Longrightarrow> distinct (map key (fold (upsert key) rs t))"
  by (induction rs arbitrary: t) (simp_all add: upsert_distinct)

lemma fold_upsert_set: "x \<in> set (fold (upsert key) rs t) \<Longrightarrow> x \<in> set rs \<or> x \<in> set t"
  by (induction rs arbitrary: t) (fastforce dest: upsert_set)+

lemma table_map_fold_upsert:
  "table_map key (fold (upsert key) rs t) = fold (\<lambda>r m. m(key r \<mapsto> r)) rs (table_map key t)"
  by (induction rs arbitrary: t) (simp_all add: table_map_upsert)

lemma table_map_filter:
  assumes "distinct (map key t)"
  shows "table_map key (filter P t) = (\<lambda>k. case table_map key t k of Some r \<Rightarrow> if P r then Some r else None | None \<Rightarrow> None)"
proof
  fix k
  have d: "distinct (map key (filter P t))" using assms by (induction t) auto
  show "table_map key (filter P t) k = (case table_map key t k of Some r \<Rightarrow> if P r then Some r else None | None \<Rightarrow> None)"
  proof (cases "table_map key t k")
    case None
    then have "k \<notin> key ` set (filter P t)" by (auto simp: table_map_None)
    then have "table_map key (filter P t) k = None" by (simp only: table_map_None) simp
    with None show ?thesis by simp
  next
    case (Some r)
    then have r: "r \<in> set t" "key r = k" using table_map_key by fast+
    have "table_map key (filter P t) k = None" if "\<not> P r"
    proof (rule ccontr)
      assume "table_map key (filter P t) k \<noteq> None"
      then obtain s where "s \<in> set (filter P t)" "key s = k" by (auto dest: table_map_key)
      with r assms have "s = r" by (auto simp: distinct_map dest: inj_onD)
      with that \<open>s \<in> set (filter P t)\<close> show False by simp
    qed
    with Some r d show ?thesis by (auto simp: table_map_unique)
  qed
qed

subsection \<open>The server clock\<close>

record clock =
  ck_offset :: "rat option"
  ck_synced :: rat
  ck_failed :: bool

definition initial_clock :: clock where
  "initial_clock = \<lparr>ck_offset = None, ck_synced = 0, ck_failed = False\<rparr>"

definition MAX_OFFSET_AGE_SECONDS :: rat where
  "MAX_OFFSET_AGE_SECONDS = 300"

definition MAX_OFFSET_SECONDS :: rat where
  "MAX_OFFSET_SECONDS = 3600"

text \<open>The server time of an answer of \<open>/api/v3/time\<close>; anything but an object with the field raises.\<close>

definition server_time :: "pyval \<Rightarrow> int res" where
  "server_time answer =
     (case answer of
        PDict d \<Rightarrow>
          (let ms = dict_get d ''serverTime'' in
           if \<not> truthy ms then Inl (rasat INTERNAL_ERROR) else rbind (py_int ms) (\<lambda>n. Inr (to_epoch_seconds n)))
      | _ \<Rightarrow> Inl OtherException)"

text \<open>\<open>sync\<close>: \<open>t1\<close> is the reading the offset is computed from, \<open>t2\<close> the one recorded.\<close>

definition clock_sync :: "pyval res \<Rightarrow> rat \<Rightarrow> rat \<Rightarrow> clock \<Rightarrow> clock \<times> bool" where
  "clock_sync answer t1 t2 c =
     (case rbind answer server_time of
        Inl _ \<Rightarrow> (c\<lparr>ck_failed := True\<rparr>, False)
      | Inr server \<Rightarrow>
          (let offset = of_int server - t1 in
           if MAX_OFFSET_SECONDS < \<bar>offset\<bar> then (c\<lparr>ck_offset := None, ck_failed := True\<rparr>, False)
           else (\<lparr>ck_offset = Some offset, ck_synced = t2, ck_failed = False\<rparr>, True)))"

definition server_now :: "clock \<Rightarrow> rat \<Rightarrow> rat option" where
  "server_now c t =
     (case ck_offset c of
        None \<Rightarrow> None
      | Some offset \<Rightarrow> if MAX_OFFSET_AGE_SECONDS < t - ck_synced c then None else Some (t + offset))"

definition clock_offset :: "clock \<Rightarrow> rat \<Rightarrow> rat option" where
  "clock_offset c t = (if server_now c t = None then None else ck_offset c)"

definition clock_available :: "clock \<Rightarrow> rat \<Rightarrow> bool" where
  "clock_available c t = (server_now c t \<noteq> None)"

definition clock_ok :: "clock \<Rightarrow> bool" where
  "clock_ok c = (\<forall>offset. ck_offset c = Some offset \<longrightarrow> \<bar>offset\<bar> \<le> MAX_OFFSET_SECONDS)"

lemma clock_ok_sync: "clock_ok c \<Longrightarrow> clock_ok (fst (clock_sync answer t1 t2 c))"
  by (auto simp: clock_sync_def clock_ok_def Let_def split: sum.splits)

lemma clock_ok_initial: "clock_ok initial_clock"
  by (simp add: clock_ok_def initial_clock_def)

lemma server_now_Some:
  assumes "clock_ok c" "server_now c t = Some sn"
  shows "\<bar>sn - t\<bar> \<le> MAX_OFFSET_SECONDS" "t - ck_synced c \<le> MAX_OFFSET_AGE_SECONDS"
  using assms by (auto simp: server_now_def clock_ok_def split: option.splits if_splits)

subsection \<open>The symbol universe\<close>

datatype universe_status = Universe_Unknown | Universe_Ok | Universe_Stale | Universe_Error

text \<open>The exchange lists each symbol with its name and its record (\<open>exchangeInfo\<close>).\<close>

type_synonym listing = "string \<times> pydict"

record universe =
  un_symbols :: "string list"
  un_info :: "listing list"
  un_status :: universe_status
  un_last_sync :: rat

definition tradable :: "listing \<Rightarrow> bool" where
  "tradable s = (dict_get (snd s) ''status'' = PStr ''TRADING'' \<and> dict_get (snd s) ''quoteAsset'' = PStr ''USDT'')"

definition universe_sync :: "listing list res \<Rightarrow> rat \<Rightarrow> universe \<Rightarrow> universe \<times> nat res" where
  "universe_sync answer now u =
     (case answer of
        Inl e \<Rightarrow> (u\<lparr>un_status := (if un_symbols u = [] then Universe_Error else Universe_Stale)\<rparr>, Inl e)
      | Inr listed \<Rightarrow>
          (let entries = fold (upsert fst) listed [];
               symbols = sort (map fst (filter tradable entries))
           in (\<lparr>un_symbols = symbols, un_info = entries, un_status = Universe_Ok, un_last_sync = now\<rparr>, Inr (length symbols))))"

definition symbol_info :: "universe \<Rightarrow> string \<Rightarrow> pydict option" where
  "symbol_info u s = map_of (un_info u) s"

definition ensure_contains :: "rat \<Rightarrow> listing list res \<Rightarrow> rat \<Rightarrow> string \<Rightarrow> universe \<Rightarrow> universe \<times> bool" where
  "ensure_contains refresh answer now s u =
     (if s \<in> set (un_symbols u) then (u, True)
      else (let u' = (if refresh < now - un_last_sync u then fst (universe_sync answer now u) else u) in (u', s \<in> set (un_symbols u'))))"

definition universe_ok :: "universe \<Rightarrow> bool" where
  "universe_ok u =
     (sorted (un_symbols u) \<and> distinct (un_symbols u) \<and> distinct (map fst (un_info u))
      \<and> (\<forall>s\<in>set (un_symbols u). \<exists>d. symbol_info u s = Some d \<and> tradable (s, d))
      \<and> (un_status u = Universe_Stale \<longrightarrow> un_symbols u \<noteq> []))"

lemma universe_ok_sync: "universe_ok u \<Longrightarrow> universe_ok (fst (universe_sync answer now u))"
proof (cases answer)
  case (Inr listed)
  define entries where "entries = fold (upsert fst) listed []"
  have d: "distinct (map fst entries)" unfolding entries_def by (rule fold_upsert_distinct) simp
  then have "distinct (map fst (filter tradable entries))" by (induction entries) auto
  moreover have "map_of entries s = Some d \<and> tradable (s, d)" if "(s, d) \<in> set (filter tradable entries)" for s d
    using that d by simp
  ultimately show ?thesis using d Inr
    by (auto simp: universe_ok_def universe_sync_def Let_def symbol_info_def simp flip: entries_def)
qed (auto simp: universe_ok_def universe_sync_def symbol_info_def)

lemma universe_ok_ensure: "universe_ok u \<Longrightarrow> universe_ok (fst (ensure_contains refresh answer now s u))"
  by (simp add: ensure_contains_def Let_def universe_ok_sync)

subsection \<open>Reading klines\<close>

text \<open>Iteration and \<open>x[n]\<close> with a literal index.\<close>

definition py_iter :: "pyval \<Rightarrow> pyval list res" where
  "py_iter v =
     (case v of PList xs \<Rightarrow> Inr xs | PDict d \<Rightarrow> Inr (map (\<lambda>p. PStr (fst p)) d) | PStr s \<Rightarrow> Inr (map (\<lambda>c. PStr [c]) s) | _ \<Rightarrow> Inl TypeError)"

definition py_item :: "pyval \<Rightarrow> nat \<Rightarrow> pyval res" where
  "py_item v n =
     (case v of
        PList xs \<Rightarrow> if n < length xs then Inr (xs ! n) else Inl IndexError
      | PStr s \<Rightarrow> if n < length s then Inr (PStr [s ! n]) else Inl IndexError
      | PDict _ \<Rightarrow> Inl KeyError
      | _ \<Rightarrow> Inl TypeError)"

record bar =
  br_open_time :: int
  br_prices :: "pyfloat \<times> pyfloat \<times> pyfloat \<times> pyfloat"
  br_volume :: pyfloat
  br_quote_volume :: pyfloat
  br_trades :: int

definition float_item :: "pyval \<Rightarrow> nat \<Rightarrow> pyfloat res" where
  "float_item v n = rbind (py_item v n) py_float"

definition parse_kline :: "pyval \<Rightarrow> bar res" where
  "parse_kline item =
     rbind (rbind (py_item item 0) py_int) (\<lambda>ot.
     rbind (float_item item 1) (\<lambda>op.
     rbind (float_item item 2) (\<lambda>hi.
     rbind (float_item item 3) (\<lambda>lo.
     rbind (float_item item 4) (\<lambda>cl.
     rbind (float_item item 5) (\<lambda>vol.
     rbind (float_item item 7) (\<lambda>quote.
     rbind (rbind (py_item item 8) py_int) (\<lambda>trades.
       Inr \<lparr>br_open_time = to_epoch_seconds ot, br_prices = (op, hi, lo, cl), br_volume = vol,
            br_quote_volume = quote, br_trades = trades\<rparr>))))))))"

text \<open>A malformed item is skipped; any other exception ends the whole parse.\<close>

fun parse_items :: "pyval list \<Rightarrow> bar list res" where
  "parse_items [] = Inr []"
| "parse_items (item # items) =
     (case parse_kline item of
        Inl e \<Rightarrow> if e \<in> {TypeError, ValueError, IndexError} then parse_items items else Inl e
      | Inr b \<Rightarrow> rbind (parse_items items) (\<lambda>bs. Inr (b # bs)))"

definition parse_klines :: "pyval \<Rightarrow> bar list res" where
  "parse_klines raw = rbind (py_iter raw) parse_items"

subsection \<open>The candle table\<close>

text \<open>A float column holds no NaN (the database stores \<open>NULL\<close>) and an integer column 64 bits.\<close>

definition sql_real :: "pyfloat \<Rightarrow> pyval" where
  "sql_real f = (if f = NaN then PNone else PFloat f)"

definition sql_int_ok :: "int \<Rightarrow> bool" where
  "sql_int_ok n = (- (2 ^ 63) \<le> n \<and> n < 2 ^ 63)"

type_synonym candle_key = "string \<times> string \<times> int \<times> string"

record crow =
  cr_symbol :: string
  cr_timeframe :: string
  cr_open_time :: int
  cr_prices :: "pyval \<times> pyval \<times> pyval \<times> pyval"
  cr_volume :: pyval
  cr_quote_volume :: pyval
  cr_trades :: int
  cr_source :: string
  cr_updated_at :: int

definition crow_key :: "crow \<Rightarrow> candle_key" where
  "crow_key r = (cr_symbol r, cr_timeframe r, cr_open_time r, cr_source r)"

definition crow_of :: "string \<Rightarrow> string \<Rightarrow> string \<Rightarrow> int \<Rightarrow> bar \<Rightarrow> crow" where
  "crow_of symbol tf source now b =
     (case br_prices b of (op, hi, lo, cl) \<Rightarrow>
        \<lparr>cr_symbol = symbol, cr_timeframe = tf, cr_open_time = br_open_time b,
         cr_prices = (sql_real op, sql_real hi, sql_real lo, sql_real cl), cr_volume = sql_real (br_volume b),
         cr_quote_volume = sql_real (br_quote_volume b), cr_trades = br_trades b, cr_source = source, cr_updated_at = now\<rparr>)"

definition closed_only :: "int \<Rightarrow> rat \<Rightarrow> bar list \<Rightarrow> bar list" where
  "closed_only period now rows = filter (\<lambda>r. br_open_time r \<le> latest_closed period now) rows"

text \<open>\<open>_store\<close>: nothing is written without a server clock; one transaction otherwise.\<close>

definition closed_rows :: "string \<Rightarrow> string \<Rightarrow> string \<Rightarrow> bar list \<Rightarrow> clock \<Rightarrow> rat \<Rightarrow> crow list res" where
  "closed_rows symbol tf source rows c t =
     (case server_now c t of
        None \<Rightarrow> Inr []
      | Some now \<Rightarrow>
          (case map_of TIMEFRAME_SECONDS tf of
             None \<Rightarrow> Inl KeyError
           | Some period \<Rightarrow>
               (let closed = closed_only period now rows in
                if \<not> list_all (\<lambda>b. sql_int_ok (br_open_time b) \<and> sql_int_ok (br_trades b)) closed then Inl OverflowError
                else Inr (map (crow_of symbol tf source (trunc now)) closed))))"

definition store :: "string \<Rightarrow> string \<Rightarrow> string \<Rightarrow> bar list \<Rightarrow> clock \<Rightarrow> rat \<Rightarrow> crow list \<Rightarrow> crow list res" where
  "store symbol tf source rows c t table =
     rbind (closed_rows symbol tf source rows c t) (\<lambda>new. Inr (fold (upsert crow_key) new table))"

definition read_candles :: "string \<Rightarrow> string \<Rightarrow> nat \<Rightarrow> string \<Rightarrow> crow list \<Rightarrow> crow list" where
  "read_candles symbol tf limit source table =
     rev (take limit (rev (sort_key cr_open_time
       (filter (\<lambda>r. cr_symbol r = symbol \<and> cr_timeframe r = tf \<and> cr_source r = source) table))))"

text \<open>\<open>_warm_map\<close> and \<open>_is_warm\<close>: the newest stored open time against the last closed candle.\<close>

definition newest_open :: "string \<Rightarrow> string \<Rightarrow> string \<Rightarrow> crow list \<Rightarrow> int" where
  "newest_open symbol tf source table =
     (case read_candles symbol tf 1 source table of [] \<Rightarrow> 0 | r # _ \<Rightarrow> cr_open_time r)"

definition is_warm :: "string \<Rightarrow> string \<Rightarrow> string \<Rightarrow> clock \<Rightarrow> rat \<Rightarrow> crow list \<Rightarrow> bool res" where
  "is_warm symbol tf source c t table =
     (case server_now c t of
        None \<Rightarrow> Inr False
      | Some now \<Rightarrow>
          (case map_of TIMEFRAME_SECONDS tf of
             None \<Rightarrow> Inl KeyError
           | Some period \<Rightarrow> Inr (latest_closed period now \<le> newest_open symbol tf source table)))"

text \<open>\<open>freshness_for\<close>; the callers have checked the timeframe.\<close>

definition candle_freshness :: "string \<Rightarrow> clock \<Rightarrow> rat \<Rightarrow> crow list \<Rightarrow> bool res" where
  "candle_freshness tf c t rows =
     (if rows = [] then Inr False
      else case server_now c t of
             None \<Rightarrow> Inr False
           | Some now \<Rightarrow>
               (case map_of TIMEFRAME_SECONDS tf of
                  None \<Rightarrow> Inl KeyError
                | Some period \<Rightarrow> Inr (cr_open_time (last rows) = latest_closed period now)))"

text \<open>\<open>prune_candles\<close>, with the retention of the configuration in seconds.\<close>

definition outdated :: "rat \<Rightarrow> string \<times> int \<Rightarrow> crow \<Rightarrow> bool" where
  "outdated now p r = (cr_timeframe r = fst p \<and> cr_open_time r < trunc now - snd p)"

definition prune_candles :: "(string \<times> int) list \<Rightarrow> rat \<Rightarrow> crow list \<Rightarrow> crow list" where
  "prune_candles retention now table =
     fold (\<lambda>p. filter (\<lambda>r. \<not> outdated now p r)) retention table"

subsection \<open>The table refines a map\<close>

datatype candle_op =
    Store_Bars string string string "bar list" clock rat
  | Prune_Candles "(string \<times> int) list" rat

text \<open>A failed write leaves the table as it was.\<close>

fun candle_step :: "candle_op \<Rightarrow> crow list \<Rightarrow> crow list" where
  "candle_step (Store_Bars symbol tf source rows c t) table =
     (case store symbol tf source rows c t table of Inl _ \<Rightarrow> table | Inr table' \<Rightarrow> table')"
| "candle_step (Prune_Candles retention now) table = prune_candles retention now table"

type_synonym candle_map = "candle_key \<rightharpoonup> crow"

definition map_prune :: "(string \<times> int) list \<Rightarrow> rat \<Rightarrow> candle_map \<Rightarrow> candle_map" where
  "map_prune retention now m =
     (\<lambda>k. case m k of
            None \<Rightarrow> None
          | Some r \<Rightarrow> if \<exists>p\<in>set retention. outdated now p r then None else Some r)"

fun map_step :: "candle_op \<Rightarrow> candle_map \<Rightarrow> candle_map" where
  "map_step (Store_Bars symbol tf source rows c t) m =
     (case closed_rows symbol tf source rows c t of Inl _ \<Rightarrow> m | Inr new \<Rightarrow> fold (\<lambda>r m. m(crow_key r \<mapsto> r)) new m)"
| "map_step (Prune_Candles retention now) m = map_prune retention now m"

text \<open>Reading a map: the newest open times of the series, in ascending order.\<close>

definition map_read :: "string \<Rightarrow> string \<Rightarrow> nat \<Rightarrow> string \<Rightarrow> candle_map \<Rightarrow> crow list" where
  "map_read symbol tf limit source m =
     (let times = sorted_list_of_set {k. (symbol, tf, k, source) \<in> dom m} in
      map (\<lambda>k. the (m (symbol, tf, k, source))) (rev (take limit (rev times))))"

abbreviation keyed :: "crow list \<Rightarrow> bool" where
  "keyed table \<equiv> distinct (map crow_key table)"

lemma store_keyed: "keyed table \<Longrightarrow> store symbol tf source rows c t table = Inr table' \<Longrightarrow> keyed table'"
  by (auto simp: store_def rbind_Inr_iff fold_upsert_distinct)

lemma keyed_filter: "keyed table \<Longrightarrow> keyed (filter P table)"
  by (induction table) auto

lemma fold_filter: "fold (\<lambda>p. filter (\<lambda>r. \<not> Q p r)) ps xs = filter (\<lambda>r. \<not> (\<exists>p\<in>set ps. Q p r)) xs"
  by (induction ps arbitrary: xs) (auto simp: filter_filter intro: filter_cong)

lemma prune_alt: "prune_candles retention now table = filter (\<lambda>r. \<not> (\<exists>p\<in>set retention. outdated now p r)) table"
  unfolding prune_candles_def by (rule fold_filter)

lemma candle_step_keyed: "keyed table \<Longrightarrow> keyed (candle_step op table)"
  by (cases op) (auto simp: prune_alt keyed_filter split: sum.splits dest: store_keyed)

lemma candle_step_refines: "keyed table \<Longrightarrow> table_map crow_key (candle_step op table) = map_step op (table_map crow_key table)"
proof (cases op)
  case (Store_Bars symbol tf source rows c t)
  then show ?thesis
    by (simp add: store_def rbind_def table_map_fold_upsert split: sum.split)
next
  case (Prune_Candles retention now)
  moreover assume "keyed table"
  ultimately show ?thesis
    by (auto simp: prune_alt table_map_filter map_prune_def fun_eq_iff split: option.split)
qed

lemma read_times:
  assumes "keyed table"
  shows "map cr_open_time (sort_key cr_open_time (filter (\<lambda>r. cr_symbol r = symbol \<and> cr_timeframe r = tf \<and> cr_source r = source) table))
    = sorted_list_of_set {k. (symbol, tf, k, source) \<in> dom (table_map crow_key table)}" (is "map _ (sort_key _ ?rows) = _")
proof -
  have "distinct (map cr_open_time ?rows)"
    using assms by (induction table) (auto simp: crow_key_def image_iff)
  then have "distinct (map cr_open_time (sort_key cr_open_time ?rows))" by (simp add: distinct_map)
  moreover have times: "set (map cr_open_time (sort_key cr_open_time ?rows)) = {k. (symbol, tf, k, source) \<in> dom (table_map crow_key table)}"
    by (auto simp: domIff table_map_None crow_key_def image_iff)
  moreover have "finite {k. (symbol, tf, k, source) \<in> dom (table_map crow_key table)}" unfolding times [symmetric] by simp
  ultimately show ?thesis by (intro sorted_distinct_set_unique) simp_all
qed

lemma read_refines:
  assumes "keyed table"
  shows "read_candles symbol tf limit source table = map_read symbol tf limit source (table_map crow_key table)"
proof -
  let ?rows = "sort_key cr_open_time (filter (\<lambda>r. cr_symbol r = symbol \<and> cr_timeframe r = tf \<and> cr_source r = source) table)"
  let ?get = "\<lambda>k. the (table_map crow_key table (symbol, tf, k, source))"
  have "?get (cr_open_time r) = r" if "r \<in> set ?rows" for r
    using that table_map_unique [OF assms, of "(symbol, tf, cr_open_time r, source)" r] by (auto simp: crow_key_def)
  then have "map ?get (map cr_open_time ?rows) = ?rows" unfolding map_map by (intro map_idI) (simp only: o_apply)
  then have "?rows = map ?get (sorted_list_of_set {k. (symbol, tf, k, source) \<in> dom (table_map crow_key table)})"
    by (simp only: read_times [OF assms])
  then show ?thesis by (simp add: read_candles_def map_read_def Let_def rev_map take_map)
qed

lemma candle_run_keyed: "keyed table \<Longrightarrow> keyed (fold candle_step ops table)"
  by (induction ops arbitrary: table) (simp_all add: candle_step_keyed)

lemma candle_run_refines: "keyed table \<Longrightarrow> table_map crow_key (fold candle_step ops table) = fold map_step ops (table_map crow_key table)"
  by (induction ops arbitrary: table) (simp_all add: candle_step_keyed candle_step_refines)

text \<open>C23: The candle table refines a map from (symbol, timeframe, open time, source). Whatever batches are stored
  and whatever is pruned, the rows have distinct keys, the table denotes the map the same operations
  build, and a read returns the newest entries of the series in that map, oldest first.\<close>

theorem candle_table_refines_map:
  "distinct (map crow_key (fold candle_step ops []))
   \<and> table_map crow_key (fold candle_step ops []) = fold map_step ops Map.empty
   \<and> read_candles symbol tf limit source (fold candle_step ops []) = map_read symbol tf limit source (fold map_step ops Map.empty)"
  using candle_run_refines [of "[]" ops] candle_run_keyed [of "[]" ops]
  by (simp add: read_refines)

end
