(* ===== verification/Kline_Service.thy ===== *)
theory Kline_Service
  imports Market_Data
begin

text \<open>
  The kline service (\<open>KlineService\<close> of \<open>data/klines.py\<close>) as a state machine: the priority queue, the
  jobs the workers hold, the futures and the in-flight table, with the reads of the agent, the
  background passes and the completion callbacks as interleaved steps. A future is named by the
  sequence number of its job.
\<close>

subsection \<open>State\<close>

type_synonym job_key = "string \<times> string \<times> string"

record job =
  jb_symbol :: string
  jb_timeframe :: string
  jb_limit :: int
  jb_source :: string
  jb_future :: nat

datatype job_end = Finished nat | Failed pyexc | Cancelled

record market =
  mk_clock :: clock
  mk_universe :: universe
  mk_futures :: "string list option"
  mk_futures_at :: rat
  mk_queue :: "(nat \<times> job) list"
  mk_seq :: nat
  mk_running :: "job list"
  mk_inflight :: "job_key \<rightharpoonup> nat"
  mk_done :: "nat \<rightharpoonup> job_end"
  mk_callbacks :: "job_key list"
  mk_table :: "crow list"

definition initial_market :: "crow list \<Rightarrow> market" where
  "initial_market table =
     \<lparr>mk_clock = initial_clock,
      mk_universe = \<lparr>un_symbols = [], un_info = [], un_status = Universe_Unknown, un_last_sync = 0\<rparr>,
      mk_futures = None, mk_futures_at = 0, mk_queue = [], mk_seq = 0, mk_running = [], mk_inflight = Map.empty,
      mk_done = Map.empty, mk_callbacks = [], mk_table = table\<rparr>"

definition KLINE_INTERVALS :: "string list" where
  "KLINE_INTERVALS = [''15m'', ''1h'', ''4h'', ''1d'']"

definition UNIVERSE_REFRESH_SECONDS :: rat where
  "UNIVERSE_REFRESH_SECONDS = 1800"

definition FUTURES_UNIVERSE_TTL_SECONDS :: rat where
  "FUTURES_UNIVERSE_TTL_SECONDS = 3600"

definition PRIORITY_ONDEMAND :: nat where
  "PRIORITY_ONDEMAND = 0"

definition PRIORITY_CLOSED_BAR :: nat where
  "PRIORITY_CLOSED_BAR = 5"

definition PRIORITY_BACKFILL :: nat where
  "PRIORITY_BACKFILL = 10"

definition KLINE_BACKFILL_BARS :: int where
  "KLINE_BACKFILL_BARS = 300"

definition KLINE_CATCHUP_BARS :: int where
  "KLINE_CATCHUP_BARS = 5"

subsection \<open>The work queue\<close>

text \<open>\<open>_enqueue\<close>: a request for a key that is in flight joins the future that is there.\<close>

definition enqueue :: "string \<Rightarrow> string \<Rightarrow> int \<Rightarrow> nat \<Rightarrow> string \<Rightarrow> market \<Rightarrow> market \<times> nat" where
  "enqueue symbol tf limit priority source m =
     (let key = (symbol, tf, source);
          fresh = (let n = Suc (mk_seq m) in
            (m\<lparr>mk_inflight := (mk_inflight m)(key \<mapsto> n), mk_seq := n,
               mk_queue := mk_queue m @ [(priority, \<lparr>jb_symbol = symbol, jb_timeframe = tf, jb_limit = limit, jb_source = source, jb_future = n\<rparr>)]\<rparr>, n))
      in case mk_inflight m key of
           Some f \<Rightarrow> if mk_done m f = None then (m, f) else fresh
         | None \<Rightarrow> fresh)"

text \<open>A worker takes the least (priority, sequence number).\<close>

definition before :: "nat \<times> job \<Rightarrow> nat \<times> job \<Rightarrow> bool" where
  "before p q = (fst p < fst q \<or> (fst p = fst q \<and> jb_future (snd p) \<le> jb_future (snd q)))"

fun least_entry :: "(nat \<times> job) list \<Rightarrow> (nat \<times> job) option" where
  "least_entry [] = None"
| "least_entry (p # ps) = (case least_entry ps of None \<Rightarrow> Some p | Some q \<Rightarrow> Some (if before p q then p else q))"

definition take_job :: "market \<Rightarrow> (job \<times> market) option" where
  "take_job m =
     (case least_entry (mk_queue m) of
        None \<Rightarrow> None
      | Some p \<Rightarrow> Some (snd p, m\<lparr>mk_queue := remove1 p (mk_queue m), mk_running := snd p # mk_running m\<rparr>))"

definition job_key :: "job \<Rightarrow> job_key" where
  "job_key j = (jb_symbol j, jb_timeframe j, jb_source j)"

text \<open>A future ends once; ending it schedules its callback.\<close>

definition end_future :: "job_key \<Rightarrow> nat \<Rightarrow> job_end \<Rightarrow> market \<Rightarrow> market" where
  "end_future key f e m =
     (if mk_done m f = None then m\<lparr>mk_done := (mk_done m)(f \<mapsto> e), mk_callbacks := mk_callbacks m @ [key]\<rparr> else m)"

text \<open>\<open>_fetch\<close> and \<open>_store\<close> of a worker, with what the exchange answers.\<close>

definition store_fetched :: "string \<Rightarrow> string \<Rightarrow> string \<Rightarrow> pyval res \<Rightarrow> rat \<Rightarrow> market \<Rightarrow> market \<times> nat res" where
  "store_fetched symbol tf source answer t m =
     (case rbind answer parse_klines of
        Inl e \<Rightarrow> (m, Inl e)
      | Inr rows \<Rightarrow>
          if rows = [] then (m, Inr 0)
          else (case store symbol tf source rows (mk_clock m) t (mk_table m) of
                  Inl e \<Rightarrow> (m, Inl e)
                | Inr table \<Rightarrow> (m\<lparr>mk_table := table\<rparr>, Inr (length rows))))"

definition finish_job :: "job \<Rightarrow> pyval res \<Rightarrow> rat \<Rightarrow> market \<Rightarrow> market" where
  "finish_job j answer t m =
     (case store_fetched (jb_symbol j) (jb_timeframe j) (jb_source j) answer t m of
        (m1, r) \<Rightarrow> end_future (job_key j) (jb_future j) (case r of Inl e \<Rightarrow> Failed e | Inr n \<Rightarrow> Finished n)
                    (m1\<lparr>mk_running := remove1 j (mk_running m1)\<rparr>))"

text \<open>\<open>_on_job_done\<close>: the callback drops the key, whatever future it holds by then.\<close>

definition run_callback :: "market \<Rightarrow> market" where
  "run_callback m =
     (case mk_callbacks m of
        [] \<Rightarrow> m
      | key # keys \<Rightarrow> m\<lparr>mk_callbacks := keys, mk_inflight := (mk_inflight m)(key := None)\<rparr>)"

subsection \<open>Reads of the agent\<close>

definition ensure_futures_symbol :: "listing list res \<Rightarrow> rat \<Rightarrow> string \<Rightarrow> market \<Rightarrow> market \<times> bool res" where
  "ensure_futures_symbol answer now symbol m =
     (let stale = (mk_futures m = None \<or> FUTURES_UNIVERSE_TTL_SECONDS \<le> now - mk_futures_at m);
          m1 = (if stale then (case answer of
                  Inl _ \<Rightarrow> m
                | Inr listed \<Rightarrow> m\<lparr>mk_futures := Some (remdups (map fst (filter tradable listed))), mk_futures_at := now\<rparr>) else m)
      in case mk_futures m1 of
           None \<Rightarrow> (m1, Inl (rasat INVALID_SYMBOL))
         | Some symbols \<Rightarrow> (m1, Inr (symbol \<in> set symbols)))"

definition ensure_symbol :: "listing list res \<Rightarrow> listing list res \<Rightarrow> rat \<Rightarrow> string \<Rightarrow> string \<Rightarrow> market \<Rightarrow> market \<times> bool res" where
  "ensure_symbol spot_answer futures_answer now source symbol m =
     (if source = ''futures'' then ensure_futures_symbol futures_answer now symbol m
      else case ensure_contains UNIVERSE_REFRESH_SECONDS spot_answer now symbol (mk_universe m) of
             (u, known) \<Rightarrow> (m\<lparr>mk_universe := u\<rparr>, Inr known))"

text \<open>\<open>get_candles\<close> up to its first wait: the rows, or the future it waits for.\<close>

datatype asked = Rows "crow list" | Waits nat

definition warm_up :: "string \<Rightarrow> string \<Rightarrow> int \<Rightarrow> string \<Rightarrow> rat \<Rightarrow> pyval res \<Rightarrow> market \<Rightarrow> market \<times> asked res" where
  "warm_up symbol tf limit source t answer m =
     (if tf \<in> set KLINE_INTERVALS then
        (case is_warm symbol tf source (mk_clock m) t (mk_table m) of
           Inl e \<Rightarrow> (m, Inl e)
         | Inr True \<Rightarrow> (m, Inr (Rows (read_candles symbol tf (nat limit) source (mk_table m))))
         | Inr False \<Rightarrow> (case enqueue symbol tf limit PRIORITY_ONDEMAND source m of (m', f) \<Rightarrow> (m', Inr (Waits f))))
      else
        (case store_fetched symbol tf source answer t m of
           (m', Inl e) \<Rightarrow> (m', Inl e)
         | (m', Inr _) \<Rightarrow> (m', Inr (Rows (read_candles symbol tf (nat limit) source (mk_table m'))))))"

record ask_env =
  ae_spot :: "listing list res"
  ae_futures :: "listing list res"
  ae_klines :: "pyval res"
  ae_now :: rat

definition get_candles :: "ask_env \<Rightarrow> string \<Rightarrow> string \<Rightarrow> int \<Rightarrow> string \<Rightarrow> market \<Rightarrow> market \<times> asked res" where
  "get_candles e symbol tf limit source m =
     (if tf \<notin> set (map fst TIMEFRAME_SECONDS) then (m, Inl (rasat INVALID_REQUEST))
      else if limit < 1 \<or> 1000 < limit then (m, Inl (rasat INVALID_REQUEST))
      else if source \<notin> {''spot'', ''futures''} then (m, Inl (rasat INVALID_REQUEST))
      else case ensure_symbol (ae_spot e) (ae_futures e) (ae_now e) source symbol m of
             (m1, Inl x) \<Rightarrow> (m1, Inl x)
           | (m1, Inr known) \<Rightarrow>
               if \<not> known then (m1, Inl (rasat INVALID_SYMBOL))
               else warm_up symbol tf limit source (ae_now e) (ae_klines e) m1)"

text \<open>The rest of \<open>get_candles\<close> once the future it waits for has ended; a cancelled future cancels the
  request, which has no result (\<open>None\<close>).\<close>

definition resume_candles :: "nat \<Rightarrow> string \<Rightarrow> string \<Rightarrow> int \<Rightarrow> string \<Rightarrow> market \<Rightarrow> crow list res option" where
  "resume_candles f symbol tf limit source m =
     (case mk_done m f of
        None \<Rightarrow> None
      | Some Cancelled \<Rightarrow> None
      | Some (Failed e) \<Rightarrow> Some (Inl (if is_rasat e then e else rasat STALE_DATA))
      | Some (Finished _) \<Rightarrow> Some (Inr (read_candles symbol tf (nat limit) source (mk_table m))))"

text \<open>The parameters of \<open>get_candles\<close> of the daemon; a bool is an int.\<close>

definition candle_args :: "pydict \<Rightarrow> (string \<times> string \<times> int \<times> pyval) res" where
  "candle_args d =
     (case dict_get d ''symbol'' of
        PStr symbol \<Rightarrow>
          if symbol = [] then Inl (rasat INVALID_REQUEST)
          else (case dict_get d ''timeframe'' of
                  PStr tf \<Rightarrow>
                    if tf = [] then Inl (rasat INVALID_REQUEST)
                    else (case (case map_of d ''limit'' of None \<Rightarrow> PInt 300 | Some v \<Rightarrow> v) of
                            PInt n \<Rightarrow> Inr (symbol, tf, n, case map_of d ''source'' of None \<Rightarrow> PStr ''spot'' | Some v \<Rightarrow> v)
                          | PBool b \<Rightarrow> Inr (symbol, tf, if b then 1 else 0, case map_of d ''source'' of None \<Rightarrow> PStr ''spot'' | Some v \<Rightarrow> v)
                          | _ \<Rightarrow> Inl (rasat INVALID_REQUEST))
                | _ \<Rightarrow> Inl (rasat INVALID_REQUEST))
      | _ \<Rightarrow> Inl (rasat INVALID_REQUEST))"

text \<open>The reply: the rows and whether they are reported fresh, judged when the rows are there.\<close>

definition candles_reply :: "string \<Rightarrow> clock \<Rightarrow> rat \<Rightarrow> crow list \<Rightarrow> (crow list \<times> bool) res" where
  "candles_reply tf c t rows = rbind (candle_freshness tf c t rows) (\<lambda>fresh. Inr (rows, fresh))"

subsection \<open>Background passes\<close>

definition needs_catchup :: "string \<Rightarrow> int \<Rightarrow> market \<Rightarrow> bool" where
  "needs_catchup tf last_closed m =
     (\<exists>s\<in>set (un_symbols (mk_universe m)). newest_open s tf ''spot'' (mk_table m) < last_closed)"

definition enqueue_all :: "(string \<times> string) list \<Rightarrow> int \<Rightarrow> nat \<Rightarrow> market \<Rightarrow> market" where
  "enqueue_all pairs limit priority m = fold (\<lambda>(s, tf) m. fst (enqueue s tf limit priority ''spot'' m)) pairs m"

text \<open>One timeframe of \<open>_scheduler_loop\<close>.\<close>

definition catchup_pass :: "string \<Rightarrow> rat \<Rightarrow> market \<Rightarrow> market" where
  "catchup_pass tf t m =
     (case server_now (mk_clock m) t of
        None \<Rightarrow> m
      | Some now \<Rightarrow>
          (case map_of TIMEFRAME_SECONDS tf of
             None \<Rightarrow> m
           | Some period \<Rightarrow>
               if needs_catchup tf (latest_closed period now) m
               then enqueue_all (map (\<lambda>s. (s, tf)) (un_symbols (mk_universe m))) KLINE_CATCHUP_BARS PRIORITY_CLOSED_BAR m
               else m))"

definition backfill_pass :: "rat \<Rightarrow> market \<Rightarrow> market" where
  "backfill_pass t m =
     (if server_now (mk_clock m) t = None then m
      else enqueue_all
        (filter (\<lambda>(s, tf). is_warm s tf ''spot'' (mk_clock m) t (mk_table m) \<noteq> Inr True)
           (concat (map (\<lambda>s. map (\<lambda>tf. (s, tf)) KLINE_INTERVALS) (un_symbols (mk_universe m)))))
        KLINE_BACKFILL_BARS PRIORITY_BACKFILL m)"

definition kline_health :: "rat \<Rightarrow> market \<Rightarrow> nat \<times> nat \<times> bool" where
  "kline_health t m = (length (mk_queue m), card (dom (mk_inflight m)), clock_available (mk_clock m) t)"

subsection \<open>Runs\<close>

definition held_jobs :: "market \<Rightarrow> job list" where
  "held_jobs m = map snd (mk_queue m) @ mk_running m"

inductive market_reach :: "market \<Rightarrow> bool" where
  Market_Init: "market_reach (initial_market [])"
| Market_Restart: "market_reach m \<Longrightarrow> market_reach (initial_market (mk_table m))"
| Market_Clock: "market_reach m \<Longrightarrow> market_reach (m\<lparr>mk_clock := fst (clock_sync answer t1 t2 (mk_clock m))\<rparr>)"
| Market_Universe: "market_reach m \<Longrightarrow> market_reach (m\<lparr>mk_universe := fst (universe_sync listed t (mk_universe m))\<rparr>)"
| Market_Ask: "market_reach m \<Longrightarrow> market_reach (fst (get_candles e symbol tf limit source m))"
| Market_Take: "market_reach m \<Longrightarrow> take_job m = Some (j, m') \<Longrightarrow> market_reach m'"
| Market_Finish: "market_reach m \<Longrightarrow> j \<in> set (mk_running m) \<Longrightarrow> market_reach (finish_job j answer t m)"
| Market_Callback: "market_reach m \<Longrightarrow> market_reach (run_callback m)"
| Market_Cancel: "market_reach m \<Longrightarrow> j \<in> set (held_jobs m) \<Longrightarrow> market_reach (end_future (job_key j) (jb_future j) Cancelled m)"
| Market_Catchup: "market_reach m \<Longrightarrow> market_reach (catchup_pass tf t m)"
| Market_Backfill: "market_reach m \<Longrightarrow> market_reach (backfill_pass t m)"
| Market_Prune: "market_reach m \<Longrightarrow> market_reach (m\<lparr>mk_table := prune_candles retention t (mk_table m)\<rparr>)"

subsection \<open>The table\<close>

definition row_closed :: "crow \<Rightarrow> bool" where
  "row_closed r = (\<exists>period. map_of TIMEFRAME_SECONDS (cr_timeframe r) = Some period \<and> cr_open_time r + period \<le> cr_updated_at r)"

lemma period_pos: "map_of TIMEFRAME_SECONDS tf = Some period \<Longrightarrow> 0 < period"
  by (auto simp: TIMEFRAME_SECONDS_def split: if_splits dest!: map_of_SomeD)

lemma latest_closed_le:
  assumes "0 < period"
  shows "of_int (latest_closed period now + period) \<le> now" "now < of_int (latest_closed period now + 2 * period)"
proof -
  let ?k = "\<lfloor>now / of_int period\<rfloor>"
  have "of_int ?k * of_int period \<le> now" "now < (of_int ?k + 1) * of_int period"
    using assms by (simp_all add: floor_divide_lower floor_divide_upper)
  then show "of_int (latest_closed period now + period) \<le> now" "now < of_int (latest_closed period now + 2 * period)"
    by (simp_all add: latest_closed_def algebra_simps)
qed

lemma floor_le_trunc: "\<lfloor>q\<rfloor> \<le> trunc q"
  by (simp add: trunc_def)

lemma closed_rows_closed:
  assumes "closed_rows symbol tf source rows c t = Inr new" "r \<in> set new"
  shows "row_closed r"
proof -
  from assms obtain now period b where now: "map_of TIMEFRAME_SECONDS tf = Some period"
      "br_open_time b \<le> latest_closed period now" "r = crow_of symbol tf source (trunc now) b"
    by (auto simp: closed_rows_def Let_def closed_only_def split: option.splits if_splits)
  have "br_open_time b + period \<le> \<lfloor>now\<rfloor>"
    using now(2) latest_closed_le(1) [OF period_pos [OF now(1)], of now] by (auto simp: le_floor_iff)
  with now floor_le_trunc [of now] show ?thesis by (auto simp: row_closed_def crow_of_def split: prod.split)
qed

definition table_ok :: "crow list \<Rightarrow> bool" where
  "table_ok table = (keyed table \<and> (\<forall>r\<in>set table. row_closed r))"

lemma table_ok_store: "table_ok table \<Longrightarrow> store symbol tf source rows c t table = Inr table' \<Longrightarrow> table_ok table'"
  by (auto simp: table_ok_def store_def rbind_Inr_iff fold_upsert_distinct dest!: fold_upsert_set dest: closed_rows_closed)

lemma table_ok_prune: "table_ok table \<Longrightarrow> table_ok (prune_candles retention now table)"
  by (auto simp: table_ok_def prune_alt keyed_filter)

subsection \<open>The jobs\<close>

definition job_futures :: "market \<Rightarrow> nat list" where
  "job_futures m = map jb_future (held_jobs m)"

text \<open>Every future that was issued is queued, held by a worker or ended; nothing is held twice.\<close>

definition jobs_ok :: "market \<Rightarrow> bool" where
  "jobs_ok m =
     (distinct (job_futures m) \<and> set (job_futures m) \<union> dom (mk_done m) = {1..mk_seq m}
      \<and> ran (mk_inflight m) \<subseteq> {1..mk_seq m})"

definition market_ok :: "market \<Rightarrow> bool" where
  "market_ok m = (table_ok (mk_table m) \<and> clock_ok (mk_clock m) \<and> universe_ok (mk_universe m) \<and> jobs_ok m)"

lemma store_fetched_parts:
  assumes "store_fetched symbol tf source answer t m = (m', r)"
  shows "table_ok (mk_table m) \<Longrightarrow> table_ok (mk_table m')" "m' = m\<lparr>mk_table := mk_table m'\<rparr>"
  using assms by (auto simp: store_fetched_def split: sum.splits if_splits intro: table_ok_store)

lemma jobs_ok_table [simp]: "jobs_ok (m\<lparr>mk_table := table\<rparr>) = jobs_ok m" "jobs_ok (m\<lparr>mk_clock := c\<rparr>) = jobs_ok m"
    "jobs_ok (m\<lparr>mk_universe := u\<rparr>) = jobs_ok m" "jobs_ok (m\<lparr>mk_futures := fs, mk_futures_at := t\<rparr>) = jobs_ok m"
  by (simp_all add: jobs_ok_def job_futures_def held_jobs_def)

lemma enqueue_parts:
  assumes "enqueue symbol tf limit priority source m = (m', f)"
  shows "mk_table m' = mk_table m" "mk_clock m' = mk_clock m" "mk_universe m' = mk_universe m"
    "jobs_ok m \<Longrightarrow> jobs_ok m'" "jobs_ok m \<Longrightarrow> mk_done m' f = None \<and> f \<in> set (job_futures m')"
proof -
  show "mk_table m' = mk_table m" "mk_clock m' = mk_clock m" "mk_universe m' = mk_universe m"
    using assms by (auto simp: enqueue_def Let_def split: option.splits if_splits)
  have old: "f \<in> set (job_futures m)" if "jobs_ok m" "mk_inflight m (symbol, tf, source) = Some f" "mk_done m f = None"
    using that unfolding jobs_ok_def by (blast intro: ranI)
  let ?j = "\<lparr>jb_symbol = symbol, jb_timeframe = tf, jb_limit = limit, jb_source = source, jb_future = Suc (mk_seq m)\<rparr>"
  let ?m = "m\<lparr>mk_inflight := (mk_inflight m)((symbol, tf, source) \<mapsto> Suc (mk_seq m)), mk_seq := Suc (mk_seq m),
      mk_queue := mk_queue m @ [(priority, ?j)]\<rparr>"
  have new: "jobs_ok ?m \<and> mk_done ?m (Suc (mk_seq m)) = None \<and> Suc (mk_seq m) \<in> set (job_futures ?m)" if "jobs_ok m"
  proof -
    from that have "Suc (mk_seq m) \<notin> set (job_futures m) \<union> dom (mk_done m)" by (auto simp: jobs_ok_def)
    moreover have "ran ((mk_inflight m)((symbol, tf, source) \<mapsto> Suc (mk_seq m))) \<subseteq> insert (Suc (mk_seq m)) (ran (mk_inflight m))"
      by (auto simp: ran_def)
    ultimately show ?thesis using that by (auto simp: jobs_ok_def job_futures_def held_jobs_def atLeastAtMostSuc_conv)
  qed
  have *: "m' = m \<and> mk_inflight m (symbol, tf, source) = Some f \<and> mk_done m f = None \<or> m' = ?m \<and> f = Suc (mk_seq m)"
    using assms by (auto simp: enqueue_def Let_def split: option.splits if_splits)
  show "jobs_ok m \<Longrightarrow> jobs_ok m'" using * new by blast
  show "jobs_ok m \<Longrightarrow> mk_done m' f = None \<and> f \<in> set (job_futures m')"
    by (rule disjE [OF *]; elim conjE; hypsubst; use old new in simp)
qed

lemma least_entry_None: "least_entry ps = None \<longleftrightarrow> ps = []"
  by (cases ps) (auto split: option.splits)

lemma before_order: "before p p" "before p q \<Longrightarrow> before q r \<Longrightarrow> before p r" "\<not> before p q \<Longrightarrow> before q p"
  by (auto simp: before_def)

lemma least_entry_in: "least_entry ps = Some p \<Longrightarrow> p \<in> set ps \<and> (\<forall>q\<in>set ps. before p q)"
proof (induction ps arbitrary: p)
  case (Cons a ps)
  show ?case
  proof (cases "least_entry ps")
    case None
    with Cons.prems show ?thesis by (simp add: least_entry_None before_order)
  next
    case (Some q)
    note q = Cons.IH [OF Some]
    show ?thesis
    proof (cases "before a q")
      case True
      with q have "before a r" if "r \<in> set ps" for r using that before_order(2) [OF True] by blast
      with True Some Cons.prems show ?thesis by (simp add: before_order(1))
    next
      case False
      with q Some Cons.prems before_order(3) [OF False] show ?thesis by simp
    qed
  qed
qed simp

lemma take_job_parts:
  assumes "take_job m = Some (j, m')"
  shows "mk_table m' = mk_table m" "mk_clock m' = mk_clock m" "mk_universe m' = mk_universe m" "jobs_ok m \<Longrightarrow> jobs_ok m'"
    "mk_done m' = mk_done m" "j \<in> set (mk_running m')" "\<exists>p. (p, j) \<in> set (mk_queue m) \<and> mk_queue m' = remove1 (p, j) (mk_queue m)"
    "mk_running m' = j # mk_running m"
proof -
  from assms obtain p where p: "(p, j) \<in> set (mk_queue m)"
      "m' = m\<lparr>mk_queue := remove1 (p, j) (mk_queue m), mk_running := j # mk_running m\<rparr>"
    by (fastforce simp: take_job_def split: option.splits dest: least_entry_in)
  then show "mk_table m' = mk_table m" "mk_clock m' = mk_clock m" "mk_universe m' = mk_universe m" "mk_done m' = mk_done m"
    "j \<in> set (mk_running m')" "\<exists>p. (p, j) \<in> set (mk_queue m) \<and> mk_queue m' = remove1 (p, j) (mk_queue m)" "mk_running m' = j # mk_running m"
    by auto
  obtain xs ys where q: "mk_queue m = xs @ (p, j) # ys" "remove1 (p, j) (mk_queue m) = xs @ ys"
    using p(1) by (metis remove1_split)
  show "jobs_ok m \<Longrightarrow> jobs_ok m'"
    using p(2) q by (auto simp: jobs_ok_def job_futures_def held_jobs_def)
qed

lemma end_future_parts:
  "mk_table (end_future key f e m) = mk_table m" "mk_clock (end_future key f e m) = mk_clock m"
  "mk_universe (end_future key f e m) = mk_universe m" "mk_queue (end_future key f e m) = mk_queue m"
  "mk_running (end_future key f e m) = mk_running m" "mk_seq (end_future key f e m) = mk_seq m"
  "mk_inflight (end_future key f e m) = mk_inflight m"
  "mk_done (end_future key f e m) = (if mk_done m f = None then (mk_done m)(f \<mapsto> e) else mk_done m)"
  by (simp_all add: end_future_def)

lemma finish_job_parts:
  "table_ok (mk_table m) \<Longrightarrow> table_ok (mk_table (finish_job j answer t m))"
  "mk_clock (finish_job j answer t m) = mk_clock m" "mk_universe (finish_job j answer t m) = mk_universe m"
  "mk_queue (finish_job j answer t m) = mk_queue m" "mk_running (finish_job j answer t m) = remove1 j (mk_running m)"
  "mk_seq (finish_job j answer t m) = mk_seq m" "mk_inflight (finish_job j answer t m) = mk_inflight m"
  "\<exists>e. e \<noteq> Cancelled \<and> mk_done (finish_job j answer t m) = (if mk_done m (jb_future j) = None then (mk_done m)(jb_future j \<mapsto> e) else mk_done m)"
proof -
  obtain m1 r where s: "store_fetched (jb_symbol j) (jb_timeframe j) (jb_source j) answer t m = (m1, r)" by fastforce
  define table where "table = mk_table m1"
  have m1: "m1 = m\<lparr>mk_table := table\<rparr>" "table_ok (mk_table m) \<Longrightarrow> table_ok table"
    using store_fetched_parts [OF s] by (simp_all add: table_def)
  let ?e = "case r of Inl e \<Rightarrow> Failed e | Inr n \<Rightarrow> Finished n"
  have f: "finish_job j answer t m = end_future (job_key j) (jb_future j) ?e (m\<lparr>mk_table := table, mk_running := remove1 j (mk_running m)\<rparr>)"
    by (simp add: finish_job_def s m1(1))
  show "table_ok (mk_table m) \<Longrightarrow> table_ok (mk_table (finish_job j answer t m))"
    "mk_clock (finish_job j answer t m) = mk_clock m" "mk_universe (finish_job j answer t m) = mk_universe m"
    "mk_queue (finish_job j answer t m) = mk_queue m" "mk_running (finish_job j answer t m) = remove1 j (mk_running m)"
    "mk_seq (finish_job j answer t m) = mk_seq m" "mk_inflight (finish_job j answer t m) = mk_inflight m"
    unfolding f by (simp_all add: end_future_parts m1(2))
  show "\<exists>e. e \<noteq> Cancelled \<and> mk_done (finish_job j answer t m) = (if mk_done m (jb_future j) = None then (mk_done m)(jb_future j \<mapsto> e) else mk_done m)"
    by (intro exI [of _ ?e] conjI) (simp split: sum.split, simp add: f end_future_parts)
qed

lemma jobs_ok_end:
  assumes "jobs_ok m" "j \<in> set (held_jobs m)"
  shows "jobs_ok (end_future (job_key j) (jb_future j) e m)"
proof -
  have "jb_future j \<in> {1..mk_seq m}" using assms by (auto simp: jobs_ok_def job_futures_def)
  with assms(1) show ?thesis
    by (auto simp: jobs_ok_def job_futures_def held_jobs_def end_future_parts)
qed

lemma jobs_ok_finish:
  assumes "jobs_ok m" "j \<in> set (mk_running m)"
  shows "jobs_ok (finish_job j answer t m)"
proof -
  obtain xs ys where r: "mk_running m = xs @ j # ys" "remove1 j (mk_running m) = xs @ ys"
    using assms(2) by (metis remove1_split)
  obtain e where "mk_done (finish_job j answer t m) = (if mk_done m (jb_future j) = None then (mk_done m)(jb_future j \<mapsto> e) else mk_done m)"
    using finish_job_parts(8) by blast
  then have "dom (mk_done (finish_job j answer t m)) = insert (jb_future j) (dom (mk_done m))" by auto
  with assms(1) r show ?thesis
    by (auto simp: jobs_ok_def job_futures_def held_jobs_def finish_job_parts)
qed

lemma jobs_ok_callback: "jobs_ok m \<Longrightarrow> jobs_ok (run_callback m)"
proof -
  have "ran ((mk_inflight m)(key := None)) \<subseteq> ran (mk_inflight m)" for key by (auto simp: ran_def)
  then show "jobs_ok m \<Longrightarrow> jobs_ok (run_callback m)"
    by (fastforce simp: run_callback_def jobs_ok_def job_futures_def held_jobs_def split: list.split)
qed

subsection \<open>Every reachable state is well formed\<close>

lemma market_ok_enqueue:
  assumes "market_ok m"
  shows "market_ok (fst (enqueue symbol tf limit priority source m))"
proof -
  obtain m' f where e: "enqueue symbol tf limit priority source m = (m', f)" by fastforce
  with assms enqueue_parts [OF e] show ?thesis by (simp add: market_ok_def)
qed

lemma market_ok_enqueue_all: "market_ok m \<Longrightarrow> market_ok (enqueue_all pairs limit priority m)"
  unfolding enqueue_all_def by (induction pairs arbitrary: m) (auto simp: market_ok_enqueue)

lemma market_ok_store_fetched:
  assumes "market_ok m" "store_fetched symbol tf source answer t m = (m', r)"
  shows "market_ok m'"
proof -
  have "market_ok (m\<lparr>mk_table := mk_table m'\<rparr>)" using assms(1) store_fetched_parts(1) [OF assms(2)] by (simp add: market_ok_def)
  then show ?thesis by (simp only: store_fetched_parts(2) [OF assms(2), symmetric])
qed

lemma market_ok_ensure:
  assumes "market_ok m" "ensure_symbol spot futures now source symbol m = (m', r)"
  shows "market_ok m'"
  using assms universe_ok_ensure [of "mk_universe m" UNIVERSE_REFRESH_SECONDS spot now symbol]
  by (auto simp: ensure_symbol_def ensure_futures_symbol_def Let_def market_ok_def split: if_splits prod.splits option.splits sum.splits)

lemma market_ok_warm_up:
  assumes "market_ok m" "warm_up symbol tf limit source t answer m = (m', r)"
  shows "market_ok m'" "r = Inr (Waits f) \<Longrightarrow> mk_done m' f = None \<and> f \<in> set (job_futures m')"
proof -
  have en: "market_ok (fst (enqueue symbol tf limit PRIORITY_ONDEMAND source m))" by (rule market_ok_enqueue [OF assms(1)])
  show "market_ok m'"
    using assms en market_ok_store_fetched [OF assms(1)]
    by (auto simp: warm_up_def split: if_splits sum.splits bool.splits prod.splits)
  show "r = Inr (Waits f) \<Longrightarrow> mk_done m' f = None \<and> f \<in> set (job_futures m')"
    using assms enqueue_parts(5) [of symbol tf limit PRIORITY_ONDEMAND source m m' f]
    by (auto simp: warm_up_def market_ok_def split: if_splits sum.splits bool.splits prod.splits)
qed

lemma market_ok_get_candles:
  assumes "market_ok m" "get_candles e symbol tf limit source m = (m', r)"
  shows "market_ok m'" "r = Inr (Waits f) \<Longrightarrow> mk_done m' f = None \<and> f \<in> set (job_futures m')"
proof -
  obtain m1 k where en: "ensure_symbol (ae_spot e) (ae_futures e) (ae_now e) source symbol m = (m1, k)" by fastforce
  note ok = market_ok_ensure [OF assms(1) en]
  have "(m', r) = warm_up symbol tf limit source (ae_now e) (ae_klines e) m1 \<or> (m' = m \<or> m' = m1) \<and> (\<exists>x. r = Inl x)"
    using assms(2) en by (auto simp: get_candles_def split: if_splits sum.splits)
  with ok assms(1) market_ok_warm_up [OF ok, of symbol tf limit source "ae_now e" "ae_klines e" m' r]
  show "market_ok m'" "r = Inr (Waits f) \<Longrightarrow> mk_done m' f = None \<and> f \<in> set (job_futures m')" by auto
qed

lemma market_ok_initial: "table_ok table \<Longrightarrow> market_ok (initial_market table)"
  by (auto simp: initial_market_def market_ok_def clock_ok_initial universe_ok_def jobs_ok_def job_futures_def held_jobs_def)

lemma market_reach_ok: "market_reach m \<Longrightarrow> market_ok m"
proof (induction rule: market_reach.induct)
  case Market_Init
  show ?case by (rule market_ok_initial) (simp add: table_ok_def)
next
  case (Market_Restart m)
  then show ?case by (intro market_ok_initial) (simp add: market_ok_def)
next
  case (Market_Ask m e symbol tf limit source)
  then show ?case using market_ok_get_candles(1) [of m] by (metis prod.collapse)
next
  case (Market_Take m j m')
  then show ?case by (simp add: market_ok_def take_job_parts)
next
  case (Market_Finish m j answer t)
  then show ?case by (simp add: market_ok_def finish_job_parts jobs_ok_finish)
next
  case (Market_Callback m)
  then show ?case by (simp add: market_ok_def jobs_ok_callback) (simp add: run_callback_def split: list.split)
next
  case (Market_Cancel m j)
  then show ?case by (simp add: market_ok_def jobs_ok_end) (simp add: end_future_parts)
next
  case (Market_Catchup m tf t)
  then show ?case by (simp add: catchup_pass_def market_ok_enqueue_all split: option.split)
next
  case (Market_Backfill m t)
  then show ?case by (simp add: backfill_pass_def market_ok_enqueue_all)
qed (simp_all add: market_ok_def clock_ok_sync universe_ok_sync table_ok_prune)

text \<open>C22: Only closed candles are stored, once each. In every state the service reaches, whatever the exchange
  answers and however reads, workers, passes, clock synchronisations, cancellations, pruning and restarts
  interleave, each row is the only one with its key and its candle had closed on the server clock when it
  was written: open time plus period is at most the time of the write.\<close>

theorem stored_candles_closed:
  assumes "market_reach m" "r \<in> set (mk_table m)"
  shows "\<exists>period. map_of TIMEFRAME_SECONDS (cr_timeframe r) = Some period \<and> cr_open_time r + period \<le> cr_updated_at r
    \<and> (\<forall>r'\<in>set (mk_table m). crow_key r' = crow_key r \<longrightarrow> r' = r)"
proof -
  have "table_ok (mk_table m)" using market_reach_ok [OF assms(1)] by (simp add: market_ok_def)
  with assms(2) show ?thesis unfolding table_ok_def row_closed_def by (auto simp: distinct_map inj_on_def)
qed

lemma read_candles_set: "r \<in> set (read_candles symbol tf n source table) \<Longrightarrow> r \<in> set table \<and> cr_symbol r = symbol \<and> cr_timeframe r = tf \<and> cr_source r = source"
  by (auto simp: read_candles_def dest: in_set_takeD)

lemma read_candles_shape:
  assumes "keyed table"
  shows "length (read_candles symbol tf n source table) \<le> n"
    "sorted_wrt (<) (map cr_open_time (read_candles symbol tf n source table))"
proof -
  let ?rows = "sort_key cr_open_time (filter (\<lambda>r. cr_symbol r = symbol \<and> cr_timeframe r = tf \<and> cr_source r = source) table)"
  show "length (read_candles symbol tf n source table) \<le> n" by (simp add: read_candles_def)
  have times: "sorted_wrt (<) (map cr_open_time ?rows)" unfolding read_times [OF assms] by (rule strict_sorted_list_of_set)
  have "read_candles symbol tf n source table = drop (length ?rows - n) ?rows" by (simp add: read_candles_def rev_take)
  then show "sorted_wrt (<) (map cr_open_time (read_candles symbol tf n source table))"
    using times by (simp add: sorted_wrt_drop flip: drop_map)
qed

text \<open>C21: Candles reported fresh are current. The rows are read in one state and judged in a possibly later
  one. When the reply says fresh, the server clock was
  synchronised within the last five minutes and lies within an hour of the host clock, the rows are at
  most as many as asked for and in ascending order, the last of them is the newest candle that has closed
  on the server clock, and the one after it has not.\<close>

theorem fresh_candles_are_current:
  assumes "market_reach m0" "market_reach m" "candles_reply tf (mk_clock m) t (read_candles symbol tf n source (mk_table m0)) = Inr (rows, True)"
  shows "\<exists>now period. server_now (mk_clock m) t = Some now \<and> t - ck_synced (mk_clock m) \<le> MAX_OFFSET_AGE_SECONDS
    \<and> \<bar>now - t\<bar> \<le> MAX_OFFSET_SECONDS \<and> map_of TIMEFRAME_SECONDS tf = Some period \<and> rows \<noteq> [] \<and> length rows \<le> n
    \<and> sorted_wrt (<) (map cr_open_time rows)
    \<and> of_int (cr_open_time (last rows) + period) \<le> now \<and> now < of_int (cr_open_time (last rows) + 2 * period)"
proof -
  have ok: "keyed (mk_table m0)" "clock_ok (mk_clock m)" using market_reach_ok [OF assms(1)] market_reach_ok [OF assms(2)] by (simp_all add: market_ok_def table_ok_def)
  from assms(3) obtain now period where now: "server_now (mk_clock m) t = Some now" "map_of TIMEFRAME_SECONDS tf = Some period"
      "rows = read_candles symbol tf n source (mk_table m0)" "rows \<noteq> []" "cr_open_time (last rows) = latest_closed period now"
    by (auto simp: candles_reply_def candle_freshness_def rbind_Inr_iff split: if_splits option.splits)
  with server_now_Some [OF ok(2) now(1)] read_candles_shape [OF ok(1)] latest_closed_le [OF period_pos [OF now(2)], of now]
  show ?thesis by auto
qed

subsection \<open>Waiting requests are answered\<close>

text \<open>The workers left alone: each job they hold ends, then each round takes a job and ends it.\<close>

fun work_off :: "(nat \<Rightarrow> pyval res) \<Rightarrow> rat \<Rightarrow> nat \<Rightarrow> market \<Rightarrow> market" where
  "work_off ans t 0 m = m"
| "work_off ans t (Suc n) m =
     (case take_job m of None \<Rightarrow> m | Some (j, m') \<Rightarrow> work_off ans t n (finish_job j (ans (jb_future j)) t m'))"

definition settle :: "(nat \<Rightarrow> pyval res) \<Rightarrow> rat \<Rightarrow> market \<Rightarrow> market" where
  "settle ans t m = work_off ans t (length (mk_queue m)) (fold (\<lambda>j. finish_job j (ans (jb_future j)) t) (mk_running m) m)"

definition ended :: "nat \<Rightarrow> market \<Rightarrow> bool" where
  "ended f m = (\<exists>e. mk_done m f = Some e \<and> e \<noteq> Cancelled)"

lemma finish_job_done:
  "\<exists>e. e \<noteq> Cancelled \<and> (\<forall>f. mk_done (finish_job j answer t m) f = (if f = jb_future j \<and> mk_done m f = None then Some e else mk_done m f))"
proof -
  from finish_job_parts(8) obtain e where "e \<noteq> Cancelled"
      "mk_done (finish_job j answer t m) = (if mk_done m (jb_future j) = None then (mk_done m)(jb_future j \<mapsto> e) else mk_done m)"
    by blast
  then show ?thesis by (intro exI [of _ e]) simp
qed

lemma finish_ends:
  "mk_done m (jb_future j) \<noteq> Some Cancelled \<Longrightarrow> ended (jb_future j) (finish_job j answer t m)"
  "ended f m \<Longrightarrow> ended f (finish_job j answer t m)"
  "mk_done m f \<noteq> Some Cancelled \<Longrightarrow> mk_done (finish_job j answer t m) f \<noteq> Some Cancelled"
proof -
  obtain e where e: "e \<noteq> Cancelled" "\<And>f. mk_done (finish_job j answer t m) f = (if f = jb_future j \<and> mk_done m f = None then Some e else mk_done m f)"
    using finish_job_done by blast
  show "mk_done m (jb_future j) \<noteq> Some Cancelled \<Longrightarrow> ended (jb_future j) (finish_job j answer t m)"
    using e(1) by (cases "mk_done m (jb_future j)") (auto simp: ended_def e(2))
  show "ended f m \<Longrightarrow> ended f (finish_job j answer t m)" by (auto simp: ended_def e(2))
  show "mk_done m f \<noteq> Some Cancelled \<Longrightarrow> mk_done (finish_job j answer t m) f \<noteq> Some Cancelled" using e by auto
qed

lemma running_end:
  "mk_done m f \<noteq> Some Cancelled \<Longrightarrow> ended f m \<or> f \<in> jb_future ` set js
    \<Longrightarrow> ended f (fold (\<lambda>j. finish_job j (ans (jb_future j)) t) js m)"
proof (induction js arbitrary: m)
  case (Cons j js)
  show ?case unfolding fold_Cons o_apply
    by (rule Cons.IH) (use Cons.prems finish_ends in \<open>auto\<close>)
qed simp

lemma fold_finish_queue: "mk_queue (fold (\<lambda>j. finish_job j (ans (jb_future j)) t) js m) = mk_queue m"
  by (induction js arbitrary: m) (simp_all add: finish_job_parts)

lemma fold_finish_alive:
  "mk_done m f \<noteq> Some Cancelled \<Longrightarrow> mk_done (fold (\<lambda>j. finish_job j (ans (jb_future j)) t) js m) f \<noteq> Some Cancelled"
  by (induction js arbitrary: m) (simp_all add: finish_ends(3))

lemma work_off_ends:
  "n = length (mk_queue m) \<Longrightarrow> mk_done m f \<noteq> Some Cancelled \<Longrightarrow> ended f m \<or> f \<in> jb_future ` snd ` set (mk_queue m)
    \<Longrightarrow> ended f (work_off ans t n m)"
proof (induction n arbitrary: m)
  case (Suc n)
  then have "mk_queue m \<noteq> []" by auto
  then obtain q where "least_entry (mk_queue m) = Some q" by (cases "least_entry (mk_queue m)") (simp_all add: least_entry_None)
  then obtain j m' where tk: "take_job m = Some (j, m')" by (simp add: take_job_def)
  obtain p where p: "(p, j) \<in> set (mk_queue m)" "mk_queue m' = remove1 (p, j) (mk_queue m)"
    using take_job_parts(7) [OF tk] by blast
  note d = take_job_parts(5) [OF tk]
  let ?m = "finish_job j (ans (jb_future j)) t m'"
  have "ended f (work_off ans t n ?m)"
  proof (rule Suc.IH)
    show "n = length (mk_queue ?m)" using p Suc.prems(1) by (simp add: finish_job_parts length_remove1)
    show "mk_done ?m f \<noteq> Some Cancelled" using Suc.prems(2) d finish_ends(3) [of m' f] by simp
    show "ended f ?m \<or> f \<in> jb_future ` snd ` set (mk_queue ?m)"
    proof (cases "ended f m \<or> f = jb_future j")
      case True
      then show ?thesis
      proof
        assume "ended f m"
        then have "ended f m'" using d by (simp add: ended_def)
        then show ?thesis using finish_ends(2) by blast
      next
        assume "f = jb_future j"
        then show ?thesis using Suc.prems(2) d finish_ends(1) [of m' j] by simp
      qed
    next
      case False
      with Suc.prems(3) obtain q where q: "q \<in> set (mk_queue m)" "f = jb_future (snd q)" by auto
      with False have "q \<noteq> (p, j)" by auto
      with q(1) have "q \<in> set (mk_queue m')" by (simp add: p(2) in_set_remove1)
      with q show ?thesis by (auto simp: finish_job_parts)
    qed
  qed
  with tk show ?case by simp
qed simp

text \<open>C24: A request for candles that waits is answered. In a reachable state the future it waits for has not
  ended and its job is queued or held by a worker; and once the workers have ended the jobs they hold and
  taken as many as are queued, whatever the exchange answers, the request resumes with the rows or an
  error.\<close>

theorem waiting_requests_are_answered:
  assumes "market_reach m" "get_candles e symbol tf limit source m = (m', Inr (Waits f))"
  shows "mk_done m' f = None \<and> f \<in> set (job_futures m') \<and> resume_candles f symbol tf limit source (settle ans t m') \<noteq> None"
proof -
  have held: "mk_done m' f = None" "f \<in> set (job_futures m')"
    using market_ok_get_candles(2) [OF market_reach_ok [OF assms(1)] assms(2), of f] by blast+
  let ?m = "fold (\<lambda>j. finish_job j (ans (jb_future j)) t) (mk_running m') m'"
  have "ended f ?m \<or> f \<in> jb_future ` snd ` set (mk_queue ?m)"
    using held running_end [of m' f "mk_running m'" ans t]
    by (auto simp: fold_finish_queue job_futures_def held_jobs_def)
  then have "ended f (settle ans t m')"
    unfolding settle_def using held(1) by (intro work_off_ends) (simp_all add: fold_finish_queue fold_finish_alive)
  with held show ?thesis by (auto simp: ended_def resume_candles_def split: job_end.split)
qed

subsection \<open>Example runs\<close>

text \<open>The clock is synchronised at \<open>1700000000\<close>, the universe holds one pair, and the exchange answers a
  request for klines with one bar that has closed and one that is forming.\<close>

definition demo_time :: "pyval res" where
  "demo_time = Inr (PDict [(''serverTime'', PInt 1700000000000)])"

definition demo_listing :: "listing list res" where
  "demo_listing = Inr [(''BTCUSDT'', [(''status'', PStr ''TRADING''), (''quoteAsset'', PStr ''USDT'')])]"

definition demo_bar :: "int \<Rightarrow> pyval" where
  "demo_bar ms = PList [PInt ms, PInt 10, PInt 12, PInt 9, PInt 11, PInt 100, PInt (ms + 1), PInt 1000, PInt 7]"

definition demo_start :: market where
  "demo_start =
     (let m = initial_market []; m1 = m\<lparr>mk_clock := fst (clock_sync demo_time 1700000000 1700000000 (mk_clock m))\<rparr>
      in m1\<lparr>mk_universe := fst (universe_sync demo_listing 1700000000 (mk_universe m1))\<rparr>)"

definition demo_ask :: "pyval list \<Rightarrow> ask_env" where
  "demo_ask bars = \<lparr>ae_spot = demo_listing, ae_futures = demo_listing, ae_klines = Inr (PList bars), ae_now = 1700000000\<rparr>"

definition demo_live :: market where
  "demo_live = fst (get_candles (demo_ask [demo_bar 1699999920000, demo_bar 1699999980000]) ''BTCUSDT'' ''1m'' 5 ''spot'' demo_start)"

lemma demo_start_reach: "market_reach demo_start"
  unfolding demo_start_def Let_def by (intro market_reach.intros)

lemma demo_live_reach: "market_reach demo_live"
  unfolding demo_live_def by (intro Market_Ask demo_start_reach)

lemma demo_live_table: "mk_table demo_live = [crow_of ''BTCUSDT'' ''1m'' ''spot'' 1700000000
    \<lparr>br_open_time = 1699999920, br_prices = (Fin 10, Fin 12, Fin 9, Fin 11), br_volume = Fin 100, br_quote_volume = Fin 1000, br_trades = 7\<rparr>]"
  by code_simp

text \<open>A catch-up after the start of a new pair: the last five bars are fetched at low priority.\<close>

definition demo_caught_up :: market where
  "demo_caught_up =
     (case take_job (catchup_pass ''1h'' 1700000000 demo_start) of
        None \<Rightarrow> demo_start
      | Some (j, m) \<Rightarrow> run_callback (finish_job j (Inr (PList [demo_bar 1699995600000, demo_bar 1699999200000])) 1700000000 m))"

theorem stored_candles_closed_witness:
  "\<exists>r period. r \<in> set (mk_table demo_live) \<and> map_of TIMEFRAME_SECONDS (cr_timeframe r) = Some period
    \<and> cr_open_time r + period \<le> cr_updated_at r"
proof -
  obtain r where r: "r \<in> set (mk_table demo_live)" by (simp add: demo_live_table)
  from stored_candles_closed [OF demo_live_reach r] r show ?thesis by blast
qed

lemma demo_fresh: "candles_reply ''1m'' (mk_clock demo_live) 1700000000 (read_candles ''BTCUSDT'' ''1m'' 5 ''spot'' (mk_table demo_live))
    = Inr (mk_table demo_live, True)"
  by code_simp

theorem fresh_candles_are_current_witness:
  "mk_table demo_live \<noteq> [] \<and> (\<exists>now. server_now (mk_clock demo_live) 1700000000 = Some now
    \<and> now < of_int (cr_open_time (last (mk_table demo_live)) + 2 * 60))"
  using fresh_candles_are_current [OF demo_live_reach demo_live_reach demo_fresh]
  by (auto simp: TIMEFRAME_SECONDS_def)

lemma demo_waits: "snd (get_candles (demo_ask []) ''BTCUSDT'' ''1h'' 300 ''spot'' demo_start) = Inr (Waits 1)"
  by code_simp

theorem waiting_requests_are_answered_witness:
  "resume_candles 1 ''BTCUSDT'' ''1h'' 300 ''spot''
     (settle (\<lambda>_. Inl (rasat RATE_LIMITED)) 1700000000 (fst (get_candles (demo_ask []) ''BTCUSDT'' ''1h'' 300 ''spot'' demo_start))) \<noteq> None"
proof -
  have asked: "get_candles (demo_ask []) ''BTCUSDT'' ''1h'' 300 ''spot'' demo_start
      = (fst (get_candles (demo_ask []) ''BTCUSDT'' ''1h'' 300 ''spot'' demo_start), Inr (Waits 1))"
    by (rule prod_eqI) (simp_all add: demo_waits)
  from waiting_requests_are_answered [OF demo_start_reach asked] show ?thesis by blast
qed

subsection \<open>What the queue and the warm test allow\<close>

text \<open>A pair is warm when its newest candle is there, however few there are. The catch-up of a new pair
  fetches a few bars, so the backfill of its history is skipped and a read of 300 candles returns the one
  that was stored, without a fetch and reported fresh.\<close>

theorem catchup_hides_missing_history:
  "market_reach demo_caught_up \<and> mk_queue demo_caught_up = []
   \<and> snd (get_candles (demo_ask []) ''BTCUSDT'' ''1h'' 300 ''spot'' demo_caught_up) = Inr (Rows (mk_table demo_caught_up))
   \<and> length (mk_table demo_caught_up) = 1
   \<and> candle_freshness ''1h'' (mk_clock demo_caught_up) 1700000000 (mk_table demo_caught_up) = Inr True
   \<and> filter (\<lambda>p. jb_timeframe (snd p) = ''1h'') (mk_queue (backfill_pass 1700000000 demo_caught_up)) = []"
proof -
  have "map_option (jb_future \<circ> fst) (take_job (catchup_pass ''1h'' 1700000000 demo_start)) = Some 1" by code_simp
  then obtain j m where j: "take_job (catchup_pass ''1h'' 1700000000 demo_start) = Some (j, m)" by auto
  have "market_reach m" by (rule Market_Take [OF Market_Catchup [OF demo_start_reach] j])
  then have "market_reach demo_caught_up"
    using take_job_parts(6) [OF j] by (auto simp: demo_caught_up_def j intro!: Market_Callback Market_Finish)
  moreover have "mk_queue demo_caught_up = []" by code_simp
  moreover have "snd (get_candles (demo_ask []) ''BTCUSDT'' ''1h'' 300 ''spot'' demo_caught_up) = Inr (Rows (mk_table demo_caught_up))"
    by code_simp
  moreover have "length (mk_table demo_caught_up) = 1" by code_simp
  moreover have "candle_freshness ''1h'' (mk_clock demo_caught_up) 1700000000 (mk_table demo_caught_up) = Inr True" by code_simp
  moreover have "filter (\<lambda>p. jb_timeframe (snd p) = ''1h'') (mk_queue (backfill_pass 1700000000 demo_caught_up)) = []" by code_simp
  ultimately show ?thesis by blast
qed

text \<open>A request for a key in flight joins the job that is queued: neither its priority nor its number of
  bars is raised.\<close>

theorem request_joins_queued_job:
  "mk_inflight m (symbol, tf, source) = Some f \<Longrightarrow> mk_done m f = None \<Longrightarrow> enqueue symbol tf limit priority source m = (m, f)"
  by (simp add: enqueue_def Let_def)

text \<open>A request between the end of a future and its callback registers a new future, which the callback
  drops: the next request for the same key starts a second job.\<close>

definition demo_race :: market where
  "demo_race =
     (case take_job (fst (enqueue ''BTCUSDT'' ''1h'' 300 PRIORITY_ONDEMAND ''spot'' demo_start)) of
        None \<Rightarrow> demo_start
      | Some (j, m) \<Rightarrow>
          fst (enqueue ''BTCUSDT'' ''1h'' 300 PRIORITY_ONDEMAND ''spot''
            (run_callback (fst (enqueue ''BTCUSDT'' ''1h'' 300 PRIORITY_ONDEMAND ''spot'' (finish_job j (Inr (PList [])) 1700000000 m))))))"

theorem late_callback_allows_duplicate_jobs:
  "map (job_key \<circ> snd) (mk_queue demo_race) = [(''BTCUSDT'', ''1h'', ''spot''), (''BTCUSDT'', ''1h'', ''spot'')]"
  by code_simp

end
