(* ===== verification/Market_Streams.thy ===== *)
theory Market_Streams
  imports Market_Data Alerts
begin

text \<open>
  The live streams and the futures context: the ticker stream and its cache (\<open>data/miniticker.py\<close>), the
  liquidation stream (\<open>data/liquidation_ws.py\<close>) and the futures poller with the ageing and pruning of its
  table (\<open>data/futures.py\<close>, \<open>storage/retention.py\<close>). A message is the value its JSON text decodes to, or
  \<open>None\<close> when it does not decode.
\<close>

subsection \<open>Values of a message\<close>

text \<open>\<open>x["k"]\<close> and \<open>x.get\<close>; only an object has fields.\<close>

definition field_of :: "pyval \<Rightarrow> string \<Rightarrow> pyval res" where
  "field_of v k = (case v of PDict d \<Rightarrow> (case map_of d k of Some x \<Rightarrow> Inr x | None \<Rightarrow> Inl KeyError) | _ \<Rightarrow> Inl TypeError)"

definition float_field :: "pyval \<Rightarrow> string \<Rightarrow> pyfloat res" where
  "float_field v k = rbind (field_of v k) py_float"

text \<open>Items whose exception the parser catches are skipped.\<close>

fun keep_parsed :: "(pyval \<Rightarrow> 'a res) \<Rightarrow> pyval list \<Rightarrow> 'a list res" where
  "keep_parsed f [] = Inr []"
| "keep_parsed f (x # xs) =
     (case f x of
        Inl e \<Rightarrow> if e \<in> {KeyError, TypeError, ValueError} then keep_parsed f xs else Inl e
      | Inr y \<Rightarrow> rbind (keep_parsed f xs) (\<lambda>ys. Inr (y # ys)))"

definition fmul :: "pyfloat \<Rightarrow> pyfloat \<Rightarrow> pyfloat" where
  "fmul x y =
     (case (x, y) of
        (Fin a, Fin b) \<Rightarrow> Fin (a * b)
      | (NaN, _) \<Rightarrow> NaN
      | (_, NaN) \<Rightarrow> NaN
      | (Fin a, _) \<Rightarrow> if a = 0 then NaN else if (0 < a) = (y = PInf) then PInf else NInf
      | (_, Fin b) \<Rightarrow> if b = 0 then NaN else if (0 < b) = (x = PInf) then PInf else NInf
      | _ \<Rightarrow> if x = y then PInf else NInf)"

subsection \<open>The ticker stream\<close>

record ticker =
  tk_symbol :: string
  tk_last :: pyfloat
  tk_open :: pyfloat
  tk_high :: pyfloat
  tk_low :: pyfloat
  tk_volume :: pyfloat
  tk_quote_volume :: pyfloat
  tk_change_pct :: pyfloat
  tk_event_time :: pyfloat

text \<open>\<open>(close - open) / open * 100\<close>, 0 when the open is 0.\<close>

definition change_pct :: "pyfloat \<Rightarrow> pyfloat \<Rightarrow> pyfloat" where
  "change_pct close open24h =
     (case (close, open24h) of
        (Fin c, Fin b) \<Rightarrow> Fin (if b = 0 then 0 else (c - b) / b * 100)
      | (NaN, Fin b) \<Rightarrow> if b = 0 then Fin 0 else NaN
      | (_, Fin b) \<Rightarrow> if b = 0 then Fin 0 else if (0 < b) = (close = PInf) then PInf else NInf
      | _ \<Rightarrow> NaN)"

definition parse_ticker :: "pyval \<Rightarrow> ticker res" where
  "parse_ticker item =
     rbind (float_field item ''c'') (\<lambda>close.
     rbind (float_field item ''o'') (\<lambda>open24h.
     rbind (as_dict item) (\<lambda>d.
     rbind (case dict_get d ''P'' of PNone \<Rightarrow> Inr (change_pct close open24h) | v \<Rightarrow> py_float v) (\<lambda>pct.
     rbind (field_of item ''s'') (\<lambda>symbol.
     rbind (float_field item ''h'') (\<lambda>high.
     rbind (float_field item ''l'') (\<lambda>low.
     rbind (float_field item ''v'') (\<lambda>volume.
     rbind (float_field item ''q'') (\<lambda>quote.
     rbind (py_float (get_or d ''E'' (PInt 0))) (\<lambda>ts.
       Inr \<lparr>tk_symbol = py_str symbol, tk_last = close, tk_open = open24h, tk_high = high, tk_low = low, tk_volume = volume,
            tk_quote_volume = quote, tk_change_pct = pct, tk_event_time = fdiv ts (Fin 1000)\<rparr>))))))))))"

definition parse_miniticker_arr :: "pyval option \<Rightarrow> ticker list res" where
  "parse_miniticker_arr message =
     (case message of
        None \<Rightarrow> Inr []
      | Some v \<Rightarrow>
          (case (case v of PDict d \<Rightarrow> get_or d ''data'' (PList []) | _ \<Rightarrow> v) of
             PList items \<Rightarrow> keep_parsed parse_ticker items
           | _ \<Rightarrow> Inr []))"

record ticker_cache =
  tc_data :: "ticker list"
  tc_connected :: bool
  tc_last_message :: rat

definition STREAM_STALE_AFTER :: rat where
  "STREAM_STALE_AFTER = 30"

definition mark_connected :: "ticker_cache \<Rightarrow> ticker_cache" where
  "mark_connected c = c\<lparr>tc_connected := True\<rparr>"

definition mark_stale :: "ticker_cache \<Rightarrow> ticker_cache" where
  "mark_stale c = c\<lparr>tc_connected := False\<rparr>"

definition apply_updates :: "rat \<Rightarrow> ticker list \<Rightarrow> ticker_cache \<Rightarrow> ticker_cache" where
  "apply_updates now us c =
     (let c1 = c\<lparr>tc_data := fold (upsert tk_symbol) us (tc_data c)\<rparr> in
      if us = [] then c1 else mark_connected (c1\<lparr>tc_last_message := now\<rparr>))"

definition stream_fresh :: "rat \<Rightarrow> ticker_cache \<Rightarrow> bool" where
  "stream_fresh now c = (tc_connected c \<and> now - tc_last_message c \<le> STREAM_STALE_AFTER)"

definition ticker_of :: "string \<Rightarrow> ticker_cache \<Rightarrow> ticker option" where
  "ticker_of symbol c = table_map tk_symbol (tc_data c) symbol"

definition ticker_fresh :: "rat \<Rightarrow> string \<Rightarrow> ticker_cache \<Rightarrow> bool" where
  "ticker_fresh now symbol c = (ticker_of symbol c \<noteq> None \<and> stream_fresh now c)"

definition get_ticker :: "rat \<Rightarrow> string \<Rightarrow> ticker_cache \<Rightarrow> (ticker \<times> bool) option" where
  "get_ticker now symbol c = map_option (\<lambda>u. (u, ticker_fresh now symbol c)) (ticker_of symbol c)"

text \<open>One message of the connection loop: an exception of the parser ends the connection.\<close>

definition on_ticker_message :: "rat \<Rightarrow> pyval option \<Rightarrow> ticker_cache \<Rightarrow> ticker_cache" where
  "on_ticker_message now message c =
     (case parse_miniticker_arr message of Inl _ \<Rightarrow> mark_stale c | Inr us \<Rightarrow> apply_updates now us c)"

text \<open>The watchdog closes a connection whose messages stopped.\<close>

definition watchdog :: "rat \<Rightarrow> ticker_cache \<Rightarrow> ticker_cache" where
  "watchdog now c = (if tc_connected c \<and> \<not> stream_fresh now c then mark_stale c else c)"

definition next_backoff :: "rat \<Rightarrow> rat" where
  "next_backoff b = min (b * 2) 60"

subsection \<open>The futures context table\<close>

record frow =
  fr_symbol :: pyval
  fr_type :: string
  fr_event_time :: int
  fr_value :: pyval
  fr_extra :: pydict
  fr_fetched_at :: int
  fr_fresh :: bool

definition frow_key :: "frow \<Rightarrow> pyval \<times> string \<times> int" where
  "frow_key r = (fr_symbol r, fr_type r, fr_event_time r)"

text \<open>A row as the pollers hand it over: symbol, type, value, event time, extra.\<close>

type_synonym context_row = "pyval \<times> string \<times> pyfloat \<times> int \<times> pydict"

definition bind_row :: "int \<Rightarrow> context_row \<Rightarrow> frow res" where
  "bind_row fetched_at row =
     (case row of (symbol, kind, v, ts, extra) \<Rightarrow>
        rbind (text_column symbol) (\<lambda>s.
        rbind (raise_if (\<not> sql_int_ok ts) OverflowError) (\<lambda>_.
        rbind (raise_if (s = PNone) IntegrityError) (\<lambda>_.
          Inr \<lparr>fr_symbol = s, fr_type = kind, fr_event_time = ts, fr_value = sql_real v, fr_extra = extra,
               fr_fetched_at = fetched_at, fr_fresh = True\<rparr>))))"

text \<open>\<open>_store\<close>: one transaction for all rows.\<close>

definition store_context :: "rat \<Rightarrow> context_row list \<Rightarrow> frow list \<Rightarrow> frow list res" where
  "store_context now rows table =
     rbind (rmap (bind_row (trunc now)) rows) (\<lambda>new. Inr (fold (upsert frow_key) new table))"

definition FUTURES_STALE_AFTER_SECONDS :: int where
  "FUTURES_STALE_AFTER_SECONDS = 1800"

definition age_stale_rows :: "rat \<Rightarrow> frow list \<Rightarrow> frow list \<times> nat" where
  "age_stale_rows now table =
     (let old = (\<lambda>r. fr_fresh r \<and> fr_fetched_at r < trunc now - FUTURES_STALE_AFTER_SECONDS)
      in (upd_where old (\<lambda>r. r\<lparr>fr_fresh := False\<rparr>) table, count_where old table))"

definition prune_futures_context :: "rat \<Rightarrow> int \<Rightarrow> frow list \<Rightarrow> frow list \<times> nat" where
  "prune_futures_context now max_days table =
     (let old = (\<lambda>r. fr_event_time r < trunc now - max_days * 86400)
      in (filter (\<lambda>r. \<not> old r) table, count_where old table))"

subsection \<open>The liquidation stream\<close>

record liquidation =
  lq_symbol :: string
  lq_side :: string
  lq_price :: pyfloat
  lq_qty :: pyfloat
  lq_event_time :: int

text \<open>A malformed event is skipped; \<open>None\<close> marks those that are no order events at all.\<close>

definition parse_force_order :: "pyval \<Rightarrow> liquidation option res" where
  "parse_force_order item =
     (case item of
        PDict d \<Rightarrow>
          (case dict_get d ''o'' of
             PDict q \<Rightarrow>
               (let ts = (if truthy (dict_get d ''E'') then dict_get d ''E''
                          else if truthy (dict_get q ''T'') then dict_get q ''T'' else PInt 0) in
                rbind (py_int ts) (\<lambda>n.
                rbind (field_of (PDict q) ''s'') (\<lambda>symbol.
                rbind (float_field (PDict q) ''p'') (\<lambda>price.
                rbind (float_field (PDict q) ''q'') (\<lambda>qty.
                  Inr (Some \<lparr>lq_symbol = py_str symbol, lq_side = py_str (get_or q ''S'' (PStr ''?'')), lq_price = price,
                             lq_qty = qty, lq_event_time = to_epoch_seconds n\<rparr>))))))
           | _ \<Rightarrow> Inr None)
      | _ \<Rightarrow> Inr None)"

definition parse_force_order_arr :: "pyval option \<Rightarrow> liquidation list res" where
  "parse_force_order_arr message =
     (case message of
        None \<Rightarrow> Inr []
      | Some v \<Rightarrow>
          (let data = (case v of PDict d \<Rightarrow> get_or d ''data'' v | _ \<Rightarrow> v);
               items = (case data of PDict _ \<Rightarrow> [data] | PList xs \<Rightarrow> xs | _ \<Rightarrow> [])
           in rbind (keep_parsed parse_force_order items) (\<lambda>xs. Inr (List.map_filter id xs))))"

definition liquidation_row :: "liquidation \<Rightarrow> context_row" where
  "liquidation_row e =
     (PStr (lq_symbol e), ''liquidation'', fmul (lq_price e) (lq_qty e), lq_event_time e,
      [(''side'', PStr (lq_side e)), (''price'', PFloat (lq_price e)), (''qty'', PFloat (lq_qty e))])"

record liquidation_client =
  lc_connected :: bool
  lc_last_message :: rat
  lc_written :: nat

text \<open>\<open>_handle_raw\<close>: an error of the database is swallowed, one of the parser ends the connection.\<close>

definition handle_raw :: "rat \<Rightarrow> pyval option \<Rightarrow> liquidation_client \<times> frow list \<Rightarrow> liquidation_client \<times> frow list" where
  "handle_raw now message s =
     (case s of (c, table) \<Rightarrow>
        (case parse_force_order_arr message of
           Inl _ \<Rightarrow> (c\<lparr>lc_connected := False\<rparr>, table)
         | Inr events \<Rightarrow>
             (let c1 = c\<lparr>lc_connected := True, lc_last_message := now\<rparr> in
              if events = [] then (c1, table)
              else case store_context now (map liquidation_row events) table of
                     Inl _ \<Rightarrow> (c1, table)
                   | Inr table' \<Rightarrow> (c1\<lparr>lc_written := lc_written c + length events\<rparr>, table'))))"

subsection \<open>The poller\<close>

datatype poll_status = Poll_Ok | Poll_Error | Poll_Rate_Limited

record poller =
  po_symbols :: "string list option"
  po_synced :: rat
  po_funding :: "poll_status option"
  po_interest :: "poll_status option"
  po_table :: "frow list"

definition funding_row :: "pyval \<Rightarrow> context_row option res" where
  "funding_row item =
     rbind (as_dict item) (\<lambda>d.
       if dict_get d ''lastFundingRate'' = PNone then Inr None
       else
         rbind (field_of item ''symbol'') (\<lambda>symbol.
         rbind (py_float (dict_get d ''lastFundingRate'')) (\<lambda>rate.
         rbind (py_int (get_or d ''time'' (PInt 0))) (\<lambda>ts.
           Inr (Some (symbol, ''funding_rate'', rate, to_epoch_seconds ts, [(''next_funding_time'', dict_get d ''nextFundingTime'')]))))))"

definition poll_funding :: "pyval res \<Rightarrow> rat \<Rightarrow> poller \<Rightarrow> poller \<times> nat res" where
  "poll_funding answer now p =
     (case rbind (rbind answer py_iter) (keep_parsed funding_row) of
        Inl e \<Rightarrow> (p, Inl e)
      | Inr rows \<Rightarrow>
          (case store_context now (List.map_filter id rows) (po_table p) of
             Inl e \<Rightarrow> (p, Inl e)
           | Inr table \<Rightarrow> (p\<lparr>po_table := table, po_funding := Some Poll_Ok\<rparr>, Inr (length (List.map_filter id rows)))))"

text \<open>The symbols of the futures exchange, kept for an hour.\<close>

definition futures_symbol_set :: "listing list res \<Rightarrow> rat \<Rightarrow> poller \<Rightarrow> poller \<times> string list res" where
  "futures_symbol_set answer now p =
     (if po_symbols p = None \<or> 3600 \<le> now - po_synced p
      then (case answer of
              Inl e \<Rightarrow> (p, Inl e)
            | Inr listed \<Rightarrow>
                (let new = remdups (map fst (filter tradable listed)) in (p\<lparr>po_symbols := Some new, po_synced := now\<rparr>, Inr new)))
      else (p, Inr (the (po_symbols p))))"

definition interest_row :: "string \<Rightarrow> pyval \<Rightarrow> context_row res" where
  "interest_row symbol v =
     rbind (as_dict v) (\<lambda>d.
     rbind (py_float (get_or d ''openInterest'' (PInt 0))) (\<lambda>q.
     rbind (py_int (get_or d ''time'' (PInt 0))) (\<lambda>ts.
       Inr (PStr symbol, ''open_interest'', q, to_epoch_seconds ts, []))))"

definition poll_symbol :: "pyval res \<Rightarrow> rat \<Rightarrow> string \<Rightarrow> poller \<Rightarrow> poller res" where
  "poll_symbol answer now symbol p =
     rbind (rbind answer (interest_row symbol)) (\<lambda>row.
     rbind (store_context now [row] (po_table p)) (\<lambda>table. Inr (p\<lparr>po_table := table\<rparr>)))"

text \<open>The loop over the universe: the poller, the rows stored and whether the pass was clean. An exception
  that is not canonical ends the pass without a result.\<close>

fun poll_interest_loop :: "(string \<Rightarrow> pyval res) \<Rightarrow> rat \<Rightarrow> string list \<Rightarrow> poller \<Rightarrow> nat \<Rightarrow> bool \<Rightarrow> poller \<times> (nat \<times> bool) res" where
  "poll_interest_loop answers now [] p stored clean = (p, Inr (stored, clean))"
| "poll_interest_loop answers now (s # ss) p stored clean =
     (if s \<notin> set (case po_symbols p of Some symbols \<Rightarrow> symbols | None \<Rightarrow> []) then poll_interest_loop answers now ss p stored clean
      else case poll_symbol (answers s) now s p of
             Inr p' \<Rightarrow> poll_interest_loop answers now ss p' (Suc stored) clean
           | Inl e \<Rightarrow>
               if \<not> is_rasat e then (p, Inl e)
               else if exc_code e = RATE_LIMITED then (p\<lparr>po_interest := Some Poll_Rate_Limited\<rparr>, Inr (stored, False))
               else if exc_code e = INVALID_REQUEST
                 then poll_interest_loop answers now ss (p\<lparr>po_symbols := map_option (filter (\<lambda>x. x \<noteq> s)) (po_symbols p)\<rparr>) stored clean
               else poll_interest_loop answers now ss (p\<lparr>po_interest := Some Poll_Error\<rparr>) stored False)"

definition poll_open_interest ::
  "listing list res \<Rightarrow> (string \<Rightarrow> pyval res) \<Rightarrow> rat \<Rightarrow> string list \<Rightarrow> poller \<Rightarrow> poller \<times> nat res" where
  "poll_open_interest listed answers now symbols p =
     (case futures_symbol_set listed now p of
        (p1, Inl e) \<Rightarrow> (p1, Inl e)
      | (p1, Inr _) \<Rightarrow>
          (case poll_interest_loop answers now symbols p1 0 True of
             (p2, Inl e) \<Rightarrow> (p2, Inl e)
           | (p2, Inr (stored, clean)) \<Rightarrow> (if clean then p2\<lparr>po_interest := Some Poll_Ok\<rparr> else p2, Inr stored)))"

text \<open>One pass of \<open>run_loop\<close>: ageing, funding, open interest; only canonical errors of a poll mark its
  status, and any other ends the pass.\<close>

definition interest_pass :: "listing list res \<Rightarrow> (string \<Rightarrow> pyval res) \<Rightarrow> rat \<Rightarrow> string list \<Rightarrow> poller \<Rightarrow> poller" where
  "interest_pass listed answers now symbols p =
     (case poll_open_interest listed answers now symbols p of
        (p', Inr _) \<Rightarrow> p'
      | (p', Inl e) \<Rightarrow> if is_rasat e then p'\<lparr>po_interest := Some Poll_Error\<rparr> else p')"

definition poll_pass ::
  "pyval res \<Rightarrow> listing list res \<Rightarrow> (string \<Rightarrow> pyval res) \<Rightarrow> rat \<Rightarrow> string list \<Rightarrow> poller \<Rightarrow> poller" where
  "poll_pass funding listed answers now symbols p =
     (case poll_funding funding now (p\<lparr>po_table := fst (age_stale_rows now (po_table p))\<rparr>) of
        (p1, Inr _) \<Rightarrow> interest_pass listed answers now symbols p1
      | (p1, Inl e) \<Rightarrow>
          if is_rasat e then interest_pass listed answers now symbols (p1\<lparr>po_funding := Some Poll_Error\<rparr>) else p1)"

subsection \<open>Facts\<close>

text \<open>A ticker reported fresh comes from a live stream: the connection is up and some message arrived within
  the last thirty seconds.\<close>

lemma get_ticker_fresh:
  "get_ticker now symbol c = Some (u, True) \<Longrightarrow>
     tk_symbol u = symbol \<and> u \<in> set (tc_data c) \<and> tc_connected c \<and> now - tc_last_message c \<le> STREAM_STALE_AFTER"
  by (auto simp: get_ticker_def ticker_fresh_def stream_fresh_def ticker_of_def dest: table_map_key)

text \<open>Freshness is of the stream, not of the symbol: a message about one symbol makes the stored ticker of
  every other symbol fresh again, however old it is.\<close>

theorem old_ticker_is_reported_fresh:
  assumes "ticker_of symbol c = Some u" "tk_symbol v \<noteq> symbol"
  shows "get_ticker now symbol (apply_updates now [v] c) = Some (u, True)"
  using assms
  by (simp add: get_ticker_def ticker_fresh_def stream_fresh_def apply_updates_def Let_def mark_connected_def ticker_of_def
      table_map_upsert STREAM_STALE_AFTER_def)

text \<open>The key of a liquidation is its symbol and its second: of two in one message, the first is lost,
  although both are counted.\<close>

lemma bind_liquidation:
  "bind_row n (liquidation_row e) = (if sql_int_ok (lq_event_time e)
     then Inr \<lparr>fr_symbol = PStr (lq_symbol e), fr_type = ''liquidation'', fr_event_time = lq_event_time e,
       fr_value = sql_real (fmul (lq_price e) (lq_qty e)),
       fr_extra = [(''side'', PStr (lq_side e)), (''price'', PFloat (lq_price e)), (''qty'', PFloat (lq_qty e))],
       fr_fetched_at = n, fr_fresh = True\<rparr> else Inl OverflowError)"
  by (simp add: bind_row_def liquidation_row_def text_column_def rbind_def raise_if_def)

theorem same_second_liquidations_collapse:
  assumes "parse_force_order_arr message = Inr [e1, e2]" "lq_symbol e1 = lq_symbol e2" "lq_event_time e1 = lq_event_time e2"
    "sql_int_ok (lq_event_time e2)" "handle_raw now message (c, []) = (c', table)"
  shows "map fr_value table = [sql_real (fmul (lq_price e2) (lq_qty e2))] \<and> lc_written c' = lc_written c + 2"
proof -
  have "handle_raw now message (c, []) = (c\<lparr>lc_connected := True, lc_last_message := now, lc_written := lc_written c + 2\<rparr>,
      fold (upsert frow_key) (map (\<lambda>e. case bind_row (trunc now) (liquidation_row e) of Inr r \<Rightarrow> r) [e1, e2]) [])"
    using assms(1,3,4) by (simp add: handle_raw_def Let_def store_context_def bind_liquidation rbind_def)
  with assms show ?thesis by (auto simp: bind_liquidation upsert_def frow_key_def)
qed

text \<open>The rows that are fresh after a pass were fetched within the last half hour.\<close>

lemma aged_rows: "r \<in> set (fst (age_stale_rows now table)) \<Longrightarrow> fr_fresh r \<Longrightarrow> trunc now - FUTURES_STALE_AFTER_SECONDS \<le> fr_fetched_at r"
  by (auto simp: age_stale_rows_def Let_def upd_where_def split: if_splits)

subsection \<open>Reading the context\<close>

text \<open>\<open>load_futures_series\<close>, \<open>load_futures_context\<close> (\<open>pa/liquidity.py\<close>) and \<open>_latest_futures\<close> of the screener and the alarms. The key of
  the table leaves no ties of event times.\<close>

definition FUTURES_TYPES :: "string list" where
  "FUTURES_TYPES = [''funding_rate'', ''open_interest'', ''liquidation'']"

definition of_kind :: "string \<Rightarrow> string \<Rightarrow> frow \<Rightarrow> bool" where
  "of_kind symbol kind r = (fr_symbol r = PStr symbol \<and> fr_type r = kind)"

definition load_futures_series :: "string \<Rightarrow> string \<Rightarrow> nat \<Rightarrow> frow list \<Rightarrow> frow list" where
  "load_futures_series symbol kind limit table =
     rev (take limit (rev (sort_key fr_event_time (filter (of_kind symbol kind) table))))"

definition latest_futures :: "string \<Rightarrow> string \<Rightarrow> frow list \<Rightarrow> frow option" where
  "latest_futures symbol kind table =
     (let series = load_futures_series symbol kind 1 table in if series = [] then None else Some (last series))"

text \<open>The first row of each type in the order of falling event times.\<close>

definition load_futures_context :: "string \<Rightarrow> frow list \<Rightarrow> string \<rightharpoonup> frow" where
  "load_futures_context symbol table =
     fold (\<lambda>r latest. if fr_type r \<in> dom latest then latest else latest(fr_type r \<mapsto> r))
       (rev (sort_key fr_event_time (filter (\<lambda>r. fr_symbol r = PStr symbol \<and> fr_type r \<in> set FUTURES_TYPES) table)))
       Map.empty"

lemma first_of_type:
  "fold (\<lambda>r latest. if fr_type r \<in> dom latest then latest else latest(fr_type r \<mapsto> r)) rs m k
     = (case m k of Some r \<Rightarrow> Some r | None \<Rightarrow> List.find (\<lambda>r. fr_type r = k) rs)"
  by (induction rs arbitrary: m) (auto split: option.splits)

lemma find_hd: "List.find P xs = (if filter P xs = [] then None else Some (hd (filter P xs)))"
  by (induction xs) auto

text \<open>Both readers of the newest value agree, and it is the newest one.\<close>

lemma context_is_latest:
  assumes "k \<in> set FUTURES_TYPES"
  shows "load_futures_context symbol table k = latest_futures symbol k table"
proof -
  let ?rows = "filter (\<lambda>r. fr_symbol r = PStr symbol \<and> fr_type r \<in> set FUTURES_TYPES) table"
  have "filter (\<lambda>r. fr_type r = k) ?rows = filter (of_kind symbol k) table"
    using assms by (auto simp: of_kind_def intro: filter_cong)
  then have "filter (\<lambda>r. fr_type r = k) (rev (sort_key fr_event_time ?rows)) = rev (sort_key fr_event_time (filter (of_kind symbol k) table))"
    by (simp only: rev_filter [symmetric] filter_sort)
  then have "load_futures_context symbol table k
      = (let xs = sort_key fr_event_time (filter (of_kind symbol k) table) in if xs = [] then None else Some (last xs))"
    by (simp add: load_futures_context_def first_of_type find_hd Let_def hd_rev)
  also have "\<dots> = latest_futures symbol k table"
    by (auto simp: latest_futures_def load_futures_series_def Let_def hd_rev take_Suc)
  finally show ?thesis .
qed

lemma latest_is_newest:
  assumes "latest_futures symbol k table = Some r"
  shows "r \<in> set table \<and> of_kind symbol k r \<and> (\<forall>r'\<in>set table. of_kind symbol k r' \<longrightarrow> fr_event_time r' \<le> fr_event_time r)"
proof -
  let ?xs = "sort_key fr_event_time (filter (of_kind symbol k) table)"
  from assms have r: "?xs \<noteq> []" "r = last ?xs"
    by (auto simp: latest_futures_def load_futures_series_def Let_def hd_rev take_Suc split: if_splits)
  have "fr_event_time r' \<le> fr_event_time r" if "r' \<in> set ?xs" for r'
  proof -
    have "sorted (map fr_event_time (butlast ?xs @ [last ?xs]))" unfolding append_butlast_last_id [OF r(1)] by simp
    moreover have "r' \<in> set (butlast ?xs @ [last ?xs])" unfolding append_butlast_last_id [OF r(1)] using that .
    ultimately show ?thesis using r(2) by (auto simp: sorted_append)
  qed
  moreover have "r \<in> set ?xs" using r by (metis last_in_set)
  ultimately show ?thesis by auto
qed

end
