(* ===== verification/Credentials.thy ===== *)
theory Credentials
  imports Errors
begin

text \<open>
  The store of account secrets (\<open>storage/credentials.py\<close>). The Windows data protection functions and the
  keyring are code of other packages: they are the fields of a backend, and what the store relies on is
  a hypothesis of the theorem that needs it. A byte string and a text are both a \<open>string\<close>.
\<close>

datatype secret_error = Store_Error | Store_Unavailable | Decrypt_Error

type_synonym 'a secret = "secret_error + 'a"

text \<open>\<open>sb_protect\<close> is \<open>None\<close> without the Windows module; \<open>sb_keyring\<close> says whether the keyring module is there.
  The keyring has a state.\<close>

record 'k secret_backend =
  sb_windows :: bool
  sb_protect :: "(string \<Rightarrow> string option) option"
  sb_unprotect :: "string \<Rightarrow> string option"
  sb_keyring :: bool
  sb_set :: "string \<Rightarrow> string \<Rightarrow> 'k \<Rightarrow> 'k option"
  sb_get :: "string \<Rightarrow> 'k \<Rightarrow> string option option"
  sb_delete :: "string \<Rightarrow> 'k \<Rightarrow> 'k option"

definition DPAPI_PREFIX :: string where
  "DPAPI_PREFIX = ''dpapi:v1:''"

definition KEYRING_PREFIX :: string where
  "KEYRING_PREFIX = ''keyring:v1:''"

definition backend_name :: "'k secret_backend \<Rightarrow> string option" where
  "backend_name b =
     (if sb_protect b \<noteq> None \<and> sb_windows b then Some ''dpapi'' else if sb_keyring b then Some ''keyring'' else None)"

definition keyring_username :: "string \<Rightarrow> string \<Rightarrow> string" where
  "keyring_username aid field = aid @ '':'' @ field"

text \<open>With Windows protection a failure is final: the keyring is no fallback.\<close>

definition encrypt_secret :: "'k secret_backend \<Rightarrow> string \<Rightarrow> string \<Rightarrow> string \<Rightarrow> 'k \<Rightarrow> string secret \<times> 'k" where
  "encrypt_secret b aid field v k =
     (if v = [] then (Inl Store_Error, k)
      else if sb_protect b \<noteq> None \<and> sb_windows b then
        (case the (sb_protect b) v of None \<Rightarrow> (Inl Store_Unavailable, k) | Some c \<Rightarrow> (Inr (DPAPI_PREFIX @ c), k))
      else if sb_keyring b then
        (case sb_set b (keyring_username aid field) v k of
           None \<Rightarrow> (Inl Store_Unavailable, k)
         | Some k' \<Rightarrow> (Inr (KEYRING_PREFIX @ keyring_username aid field), k'))
      else (Inl Store_Unavailable, k))"

definition starts_with :: "string \<Rightarrow> string \<Rightarrow> bool" where
  "starts_with prefix s = (take (length prefix) s = prefix)"

definition decrypt_secret :: "'k secret_backend \<Rightarrow> string \<Rightarrow> string \<Rightarrow> string \<Rightarrow> 'k \<Rightarrow> string secret" where
  "decrypt_secret b aid field blob k =
     (if starts_with DPAPI_PREFIX blob then
        (if sb_protect b = None then Inl Decrypt_Error
         else case sb_unprotect b (drop (length DPAPI_PREFIX) blob) of None \<Rightarrow> Inl Decrypt_Error | Some v \<Rightarrow> Inr v)
      else if starts_with KEYRING_PREFIX blob then
        (let username = drop (length KEYRING_PREFIX) blob in
         if \<not> sb_keyring b \<or> username \<noteq> keyring_username aid field then Inl Decrypt_Error
         else case sb_get b username k of
                Some (Some v) \<Rightarrow> if v = [] then Inl Decrypt_Error else Inr v
              | _ \<Rightarrow> Inl Decrypt_Error)
      else Inl Decrypt_Error)"

text \<open>Deleting is best effort.\<close>

definition delete_secret :: "'k secret_backend \<Rightarrow> string \<Rightarrow> string \<Rightarrow> string option \<Rightarrow> 'k \<Rightarrow> 'k" where
  "delete_secret b aid field opaque k =
     (case opaque of
        None \<Rightarrow> k
      | Some blob \<Rightarrow>
          if blob = [] \<or> \<not> sb_keyring b \<or> \<not> starts_with KEYRING_PREFIX blob
            \<or> drop (length KEYRING_PREFIX) blob \<noteq> keyring_username aid field then k
          else (case sb_delete b (keyring_username aid field) k of None \<Rightarrow> k | Some k' \<Rightarrow> k'))"

lemma starts_with_append [simp]: "starts_with p (p @ s)"
  by (simp add: starts_with_def)

lemma prefixes_differ [simp]: "\<not> starts_with DPAPI_PREFIX (KEYRING_PREFIX @ s)"
  by (simp add: starts_with_def DPAPI_PREFIX_def KEYRING_PREFIX_def)

text \<open>What the store relies on: unprotecting undoes protecting, and the keyring returns what was set.\<close>

definition backend_works :: "'k secret_backend \<Rightarrow> bool" where
  "backend_works b =
     ((\<forall>protect v c. sb_protect b = Some protect \<longrightarrow> protect v = Some c \<longrightarrow> sb_unprotect b c = Some v)
      \<and> (\<forall>u v k k'. sb_set b u v k = Some k' \<longrightarrow> sb_get b u k' = Some (Some v)))"


text \<open>A keyring that keeps the pairs it was given.\<close>

definition demo_backend :: "(string \<times> string) list secret_backend" where
  "demo_backend =
     \<lparr>sb_windows = False, sb_protect = None, sb_unprotect = (\<lambda>_. None), sb_keyring = True,
      sb_set = (\<lambda>u v k. Some ((u, v) # k)), sb_get = (\<lambda>u k. Some (map_of k u)), sb_delete = (\<lambda>u k. Some (filter (\<lambda>p. fst p \<noteq> u) k))\<rparr>"


end
