(* ===== verification/Lock_File.thy ===== *)
theory Lock_File
  imports Main
begin

text \<open>
  The lock file of the daemon (\<open>daemon/lock.py\<close>): several processes acquire, update and release it, and an
  adapter may remove it (\<open>adapter/launcher.py\<close>). Every access to the file is a step of its own, so any
  two of them may have steps of other processes in between. A process is named by a number, which stands
  for its pid, start time and nonce. A file that was created but not yet written cannot be read.
\<close>

datatype lock_file = Absent | Partial nat | Written nat

text \<open>Where a process is in \<open>acquire\<close>, with the number of attempts it has left.\<close>

datatype lock_pc =
    Idle
  | Trying nat
  | Checking nat
  | Rereading nat nat
  | Dropping nat
  | Seen nat nat
  | Removing nat
  | Creating nat
  | Writing
  | Owning
  | Refused
  | Released

record lock_state =
  ls_file :: lock_file
  ls_pc :: "nat \<Rightarrow> lock_pc"
  ls_alive :: "nat \<Rightarrow> bool"

definition MAX_RETRIES :: nat where
  "MAX_RETRIES = 5"

definition at_pc :: "nat \<Rightarrow> lock_pc \<Rightarrow> lock_state \<Rightarrow> lock_state" where
  "at_pc p c s = s\<lparr>ls_pc := (ls_pc s)(p := c)\<rparr>"

text \<open>The next access of process \<open>p\<close>: read, test whether the file exists, read again, remove an unreadable
  file, judge the owner, remove a stale file, create exclusively, write.\<close>

definition acquire_step :: "nat \<Rightarrow> lock_state \<Rightarrow> lock_state" where
  "acquire_step p s =
     (case ls_pc s p of
        Idle \<Rightarrow> at_pc p (Trying MAX_RETRIES) s
      | Trying 0 \<Rightarrow> at_pc p Refused s
      | Trying (Suc n) \<Rightarrow> (case ls_file s of Written q \<Rightarrow> at_pc p (Seen n q) s | _ \<Rightarrow> at_pc p (Checking n) s)
      | Checking n \<Rightarrow> (if ls_file s = Absent then at_pc p (Creating n) s else at_pc p (Rereading n 3) s)
      | Rereading n 0 \<Rightarrow> at_pc p (Dropping n) s
      | Rereading n (Suc k) \<Rightarrow> (case ls_file s of Written q \<Rightarrow> at_pc p (Seen n q) s | _ \<Rightarrow> at_pc p (Rereading n k) s)
      | Dropping n \<Rightarrow> at_pc p (Creating n) (s\<lparr>ls_file := Absent\<rparr>)
      | Seen n q \<Rightarrow> (if ls_alive s q then at_pc p Refused s else at_pc p (Removing n) s)
      | Removing n \<Rightarrow> at_pc p (Trying n) (s\<lparr>ls_file := Absent\<rparr>)
      | Creating n \<Rightarrow> (if ls_file s = Absent then at_pc p Writing (s\<lparr>ls_file := Partial p\<rparr>) else at_pc p (Trying n) s)
      | Writing \<Rightarrow> at_pc p Owning (if ls_file s = Partial p then s\<lparr>ls_file := Written p\<rparr> else s)
      | _ \<Rightarrow> s)"

text \<open>\<open>update_state\<close> replaces the file whatever it holds; \<open>release\<close> removes it only when it is its own.\<close>

definition update_lock :: "nat \<Rightarrow> lock_state \<Rightarrow> lock_state" where
  "update_lock p s = (if ls_pc s p = Owning then s\<lparr>ls_file := Written p\<rparr> else s)"

definition release_lock :: "nat \<Rightarrow> lock_state \<Rightarrow> lock_state" where
  "release_lock p s =
     (if ls_pc s p = Owning then at_pc p Released (if ls_file s = Written p then s\<lparr>ls_file := Absent\<rparr> else s) else s)"

text \<open>The watch of a running daemon: it stops when the file is not its own any more.\<close>

definition ownership_lost :: "nat \<Rightarrow> lock_state \<Rightarrow> bool" where
  "ownership_lost p s = (ls_pc s p = Owning \<and> ls_file s \<noteq> Written p)"

datatype lock_event = Act nat | Update nat | Release nat | Crash nat | Evict

fun lock_step :: "lock_event \<Rightarrow> lock_state \<Rightarrow> lock_state" where
  "lock_step (Act p) s = (if ls_alive s p then acquire_step p s else s)"
| "lock_step (Update p) s = (if ls_alive s p then update_lock p s else s)"
| "lock_step (Release p) s = (if ls_alive s p then release_lock p s else s)"
| "lock_step (Crash p) s = s\<lparr>ls_alive := (ls_alive s)(p := False)\<rparr>"
| "lock_step Evict s = s\<lparr>ls_file := Absent\<rparr>"

definition lock_start :: "lock_file \<Rightarrow> lock_state" where
  "lock_start f = \<lparr>ls_file = f, ls_pc = (\<lambda>_. Idle), ls_alive = (\<lambda>_. True)\<rparr>"

definition holds :: "nat \<Rightarrow> lock_state \<Rightarrow> bool" where
  "holds p s = (ls_pc s p = Writing \<or> ls_pc s p = Owning)"

subsection \<open>Acquiring ends\<close>

text \<open>The steps a process has left at most.\<close>

fun steps_left :: "lock_pc \<Rightarrow> nat" where
  "steps_left Idle = 10 * MAX_RETRIES + 2"
| "steps_left (Trying n) = 10 * n + 1"
| "steps_left (Checking n) = 10 * n + 9"
| "steps_left (Rereading n k) = 10 * n + 5 + min k 3"
| "steps_left (Dropping n) = 10 * n + 4"
| "steps_left (Seen n q) = 10 * n + 3"
| "steps_left (Removing n) = 10 * n + 2"
| "steps_left (Creating n) = 10 * n + 2"
| "steps_left Writing = 1"
| "steps_left _ = 0"

lemma acquire_step_other: "p \<noteq> q \<Longrightarrow> ls_pc (acquire_step p s) q = ls_pc s q"
  by (auto simp: acquire_step_def at_pc_def split: lock_pc.split lock_file.split nat.split)

lemma acquire_step_alive: "ls_alive (acquire_step p s) = ls_alive s"
  by (auto simp: acquire_step_def at_pc_def split: lock_pc.split lock_file.split nat.split)

definition short_rereads :: "lock_pc \<Rightarrow> bool" where
  "short_rereads c = (case c of Rereading n k \<Rightarrow> k \<le> 3 | _ \<Rightarrow> True)"

lemma acquire_step_left:
  assumes "short_rereads (ls_pc s p)"
  shows "steps_left (ls_pc (acquire_step p s) p) \<le> steps_left (ls_pc s p) - 1" "short_rereads (ls_pc (acquire_step p s) p)"
  using assms
  by (auto simp: acquire_step_def at_pc_def short_rereads_def MAX_RETRIES_def split: lock_pc.splits lock_file.split nat.splits)

lemma lock_step_left:
  assumes "short_rereads (ls_pc s p)" "ls_alive s p" "e \<noteq> Crash p"
  shows "steps_left (ls_pc (lock_step e s) p) \<le> steps_left (ls_pc s p) - (if e = Act p then 1 else 0)
    \<and> short_rereads (ls_pc (lock_step e s) p) \<and> ls_alive (lock_step e s) p"
proof (cases e)
  case (Act q)
  then show ?thesis
    using assms acquire_step_left [OF assms(1)] by (cases "q = p") (auto simp: acquire_step_other acquire_step_alive)
qed (use assms in \<open>auto simp: update_lock_def release_lock_def at_pc_def short_rereads_def\<close>)

lemma run_left:
  assumes "short_rereads (ls_pc s p)" "ls_alive s p" "Crash p \<notin> set es"
  shows "steps_left (ls_pc (fold lock_step es s) p) \<le> steps_left (ls_pc s p) - count_list es (Act p)"
  using assms
proof (induction es arbitrary: s)
  case (Cons e es)
  from lock_step_left [of s p e] Cons.prems
  have e: "steps_left (ls_pc (lock_step e s) p) \<le> steps_left (ls_pc s p) - (if e = Act p then 1 else 0)"
    "short_rereads (ls_pc (lock_step e s) p)" "ls_alive (lock_step e s) p" by auto
  have "steps_left (ls_pc (fold lock_step es (lock_step e s)) p) \<le> steps_left (ls_pc (lock_step e s) p) - count_list es (Act p)"
    by (rule Cons.IH) (use e Cons.prems in auto)
  with e(1) show ?case by auto
qed simp

lemma no_steps_left: "steps_left c = 0 \<Longrightarrow> c \<in> {Owning, Refused, Released}"
  by (cases c) (simp_all add: MAX_RETRIES_def)

text \<open>Acquiring the lock ends. Whatever the other processes, the adapters and crashes do to the file in
  between, a process that starts to acquire the lock and does not crash owns it or has been refused
  after at most 52 of its own accesses.\<close>

theorem lock_acquire_ends:
  assumes "52 \<le> count_list es (Act p)" "Crash p \<notin> set es"
  shows "ls_pc (fold lock_step es (lock_start f)) p \<in> {Owning, Refused, Released}"
  using run_left [of "lock_start f" p es] assms
  by (intro no_steps_left) (simp add: lock_start_def short_rereads_def MAX_RETRIES_def)

theorem lock_acquire_ends_witness:
  "ls_pc (fold lock_step (replicate 52 (Act 1)) (lock_start (Partial 0))) 1 \<in> {Owning, Refused, Released}"
  by (rule lock_acquire_ends) (simp_all add: numeral_eq_Suc)

subsection \<open>One owner, when nothing is cleared away\<close>

text \<open>A run in which no process crashes, no adapter removes the file, and no process gives up on a file
  that is still being written.\<close>

fun calm :: "lock_event list \<Rightarrow> lock_state \<Rightarrow> bool" where
  "calm [] s = True"
| "calm (e # es) s =
     ((case e of
         Act p \<Rightarrow> (case ls_pc s p of Dropping _ \<Rightarrow> False | _ \<Rightarrow> True)
       | Crash _ \<Rightarrow> False
       | Evict \<Rightarrow> False
       | _ \<Rightarrow> True) \<and> calm es (lock_step e s))"

definition lock_inv :: "lock_state \<Rightarrow> bool" where
  "lock_inv s =
     (\<forall>p. ls_alive s p \<and> (\<forall>n. ls_pc s p \<noteq> Removing n)
        \<and> (ls_pc s p = Writing \<longleftrightarrow> ls_file s = Partial p) \<and> (ls_pc s p = Owning \<longleftrightarrow> ls_file s = Written p))"

lemma lock_inv_step:
  assumes "lock_inv s" "calm [e] s"
  shows "lock_inv (lock_step e s)"
proof (cases e)
  case (Act p)
  have all: "ls_alive s q" "ls_pc s q \<noteq> Removing n" "ls_file s = Partial q \<longleftrightarrow> ls_pc s q = Writing" "ls_file s = Written q \<longleftrightarrow> ls_pc s q = Owning" for q n
    using assms(1) unfolding lock_inv_def by blast+
  have free: "ls_file s = Absent \<Longrightarrow> ls_pc s q \<noteq> Writing \<and> ls_pc s q \<noteq> Owning" for q
    by (metis all(3,4) lock_file.distinct(1,3))
  have one: "ls_pc s p = Writing \<Longrightarrow> q \<noteq> p \<Longrightarrow> ls_pc s q \<noteq> Writing \<and> ls_pc s q \<noteq> Owning" for q
    by (metis all(3,4) lock_file.distinct(5) lock_file.inject(1))
  have "\<And>n. ls_pc s p \<noteq> Dropping n" using assms(2) Act by auto
  then show ?thesis
    using free one
    by (cases "ls_pc s p")
      (auto simp: Act lock_inv_def acquire_step_def at_pc_def all split: nat.split lock_file.split)
qed (use assms in \<open>auto simp: lock_inv_def update_lock_def release_lock_def at_pc_def\<close>)

lemma lock_inv_run: "lock_inv s \<Longrightarrow> calm es s \<Longrightarrow> lock_inv (fold lock_step es s)"
proof (induction es arbitrary: s)
  case (Cons e es)
  have "lock_inv (lock_step e s)" by (rule lock_inv_step) (use Cons.prems in simp_all)
  with Cons show ?case by simp
qed simp



subsection \<open>Two owners\<close>

text \<open>A stale lock is read by two processes. One removes it and acquires the lock; the other, which had
  judged the old owner dead, then removes the new owner's file and acquires the lock too.\<close>

definition stale_start :: lock_state where
  "stale_start = (lock_start (Written 9))\<lparr>ls_alive := (\<lambda>p. p \<noteq> 9)\<rparr>"

theorem stale_lock_has_two_owners:
  "map (ls_pc (fold lock_step (replicate 3 (Act 0) @ replicate 3 (Act 1) @ replicate 5 (Act 0) @ replicate 5 (Act 1)) stale_start)) [0, 1]
     = [Owning, Owning]"
  by code_simp

text \<open>A daemon whose file an adapter removed, because it did not answer in time, takes the lock back from
  its successor at its next change of state.\<close>

theorem evicted_owner_takes_the_lock_back:
  "let s = fold lock_step (replicate 5 (Act 0) @ [Evict] @ replicate 5 (Act 1) @ [Update 0]) (lock_start Absent)
   in map (ls_pc s) [0, 1] = [Owning, Owning] \<and> ls_file s = Written 0 \<and> ownership_lost 1 s"
  by code_simp

end
