(* ===== verification/Migrations.thy ===== *)
theory Migrations
  imports Errors
begin

text \<open>
  The database schema and its migrations (\<open>storage/migrations.py\<close>), statement by statement. The module opens no
  transaction for statements that define tables, columns or indexes: sqlite commits each of them at once,
  and only the row that records the version is written in the transaction of the migration. A run may
  be cut off after any statement: \<open>k\<close> is the number of statements it still executes. The columns carry their
  declarations; the lock against other processes is not modelled.
\<close>

subsection \<open>Statements\<close>

type_synonym column = "string \<times> string"

text \<open>\<open>CREATE TABLE IF NOT EXISTS\<close> with its keys, \<open>CREATE INDEX\<close> (with \<open>IF NOT EXISTS\<close> or without), \<open>ALTER TABLE ADD COLUMN\<close>.\<close>

datatype statement =
    Create_Table string "column list" "string list list"
  | Create_Index string string bool
  | Add_Column string column

record table =
  tb_columns :: "column list"
  tb_keys :: "string list list"

record db_schema =
  sc_tables :: "(string \<times> table) list"
  sc_indexes :: "string list"
  sc_versions :: "(int \<times> string) list"

definition empty_schema :: db_schema where
  "empty_schema = \<lparr>sc_tables = [], sc_indexes = [], sc_versions = []\<rparr>"

definition SQL_QUOTE :: string where
  "SQL_QUOTE = [CHR 0x27]"

text \<open>A missing table, a column that is there and an index that is there are errors of sqlite.\<close>

fun execute :: "statement \<Rightarrow> db_schema \<Rightarrow> db_schema res" where
  "execute (Create_Table t cols ks) s =
     Inr (if map_of (sc_tables s) t \<noteq> None then s
          else s\<lparr>sc_tables := sc_tables s @ [(t, \<lparr>tb_columns = cols, tb_keys = ks\<rparr>)]\<rparr>)"
| "execute (Create_Index i t if_not_exists) s =
     (if i \<in> set (sc_indexes s) then (if if_not_exists then Inr s else Inl OtherException)
      else if map_of (sc_tables s) t = None then Inl OtherException
      else Inr (s\<lparr>sc_indexes := sc_indexes s @ [i]\<rparr>))"
| "execute (Add_Column t c) s =
     (case map_of (sc_tables s) t of
        None \<Rightarrow> Inl OtherException
      | Some tb \<Rightarrow>
          if fst c \<in> set (map fst (tb_columns tb)) then Inl OtherException
          else Inr (s\<lparr>sc_tables := map (\<lambda>p. if fst p = t then (t, tb\<lparr>tb_columns := tb_columns tb @ [c]\<rparr>) else p) (sc_tables s)\<rparr>))"

subsection \<open>The migrations\<close>

definition m1_initial_schema :: "statement list" where
  "m1_initial_schema =
     [Create_Table ''candles''
        [(''symbol'', ''TEXT NOT NULL''), (''timeframe'', ''TEXT NOT NULL''), (''open_time'', ''INTEGER NOT NULL''),
         (''open'', ''REAL''), (''high'', ''REAL''), (''low'', ''REAL''), (''close'', ''REAL''), (''volume'', ''REAL''),
         (''quote_volume'', ''REAL''), (''trades'', ''INTEGER''),
         (''source'', ''TEXT NOT NULL DEFAULT '' @ SQL_QUOTE @ ''spot'' @ SQL_QUOTE @ ''''), (''updated_at'', ''INTEGER NOT NULL'')]
        [[''symbol'', ''timeframe'', ''open_time'', ''source'']],
      Create_Table ''futures_context''
        [(''id'', ''INTEGER PRIMARY KEY AUTOINCREMENT''), (''symbol'', ''TEXT NOT NULL''), (''type'', ''TEXT NOT NULL''),
         (''event_time'', ''INTEGER NOT NULL''), (''value'', ''REAL''), (''extra'', ''TEXT''),
         (''fetched_at'', ''INTEGER NOT NULL''), (''freshness'', ''TEXT NOT NULL DEFAULT '' @ SQL_QUOTE @ ''fresh'' @ SQL_QUOTE @ '''')]
        [[''id''], [''symbol'', ''type'', ''event_time'']],
      Create_Table ''market_structure''
        [(''id'', ''INTEGER PRIMARY KEY AUTOINCREMENT''), (''symbol'', ''TEXT NOT NULL''), (''timeframe'', ''TEXT NOT NULL''),
         (''algo_version'', ''TEXT NOT NULL''), (''effective_from'', ''INTEGER NOT NULL''), (''effective_to'', ''INTEGER''),
         (''payload'', ''TEXT NOT NULL''), (''created_at'', ''INTEGER NOT NULL'')]
        [[''id'']],
      Create_Table ''liquidity_zones''
        [(''id'', ''INTEGER PRIMARY KEY AUTOINCREMENT''), (''symbol'', ''TEXT NOT NULL''), (''timeframe'', ''TEXT NOT NULL''),
         (''algo_version'', ''TEXT NOT NULL''), (''effective_from'', ''INTEGER NOT NULL''), (''effective_to'', ''INTEGER''),
         (''payload'', ''TEXT NOT NULL''), (''created_at'', ''INTEGER NOT NULL'')]
        [[''id'']],
      Create_Table ''order_blocks''
        [(''id'', ''INTEGER PRIMARY KEY AUTOINCREMENT''), (''symbol'', ''TEXT NOT NULL''), (''timeframe'', ''TEXT NOT NULL''),
         (''algo_version'', ''TEXT NOT NULL''), (''effective_from'', ''INTEGER NOT NULL''), (''effective_to'', ''INTEGER''),
         (''payload'', ''TEXT NOT NULL''), (''created_at'', ''INTEGER NOT NULL'')]
        [[''id'']],
      Create_Table ''annotations''
        [(''id'', ''INTEGER PRIMARY KEY AUTOINCREMENT''), (''symbol'', ''TEXT NOT NULL''), (''timeframe'', ''TEXT NOT NULL''),
         (''created_by'', ''TEXT''), (''data'', ''TEXT NOT NULL''), (''created_at'', ''INTEGER NOT NULL'')]
        [[''id'']],
      Create_Table ''alerts''
        [(''id'', ''INTEGER PRIMARY KEY AUTOINCREMENT''), (''alert_id'', ''TEXT NOT NULL UNIQUE''),
         (''definition'', ''TEXT NOT NULL''), (''state'', ''TEXT NOT NULL''), (''created_at'', ''INTEGER NOT NULL''),
         (''updated_at'', ''INTEGER NOT NULL'')]
        [[''id''], [''alert_id'']],
      Create_Table ''triggered_alerts''
        [(''id'', ''INTEGER PRIMARY KEY AUTOINCREMENT''), (''alert_id'', ''TEXT NOT NULL''), (''trigger_key'', ''TEXT NOT NULL''),
         (''payload'', ''TEXT NOT NULL''), (''triggered_at'', ''INTEGER NOT NULL'')]
        [[''id''], [''alert_id'', ''trigger_key'']],
      Create_Table ''accounts''
        [(''id'', ''INTEGER PRIMARY KEY AUTOINCREMENT''), (''account_id'', ''TEXT NOT NULL UNIQUE''), (''label'', ''TEXT''),
         (''tags'', ''TEXT NOT NULL DEFAULT '' @ SQL_QUOTE @ ''[]'' @ SQL_QUOTE @ ''''),
         (''market'', ''TEXT NOT NULL DEFAULT '' @ SQL_QUOTE @ ''spot'' @ SQL_QUOTE @ ''''),
         (''trading_lock'', ''TEXT NOT NULL DEFAULT '' @ SQL_QUOTE @ ''paper'' @ SQL_QUOTE @ ''''), (''encrypted_api_key'', ''BLOB''),
         (''encrypted_secret'', ''BLOB''), (''created_at'', ''INTEGER NOT NULL''), (''updated_at'', ''INTEGER NOT NULL'')]
        [[''id''], [''account_id'']],
      Create_Table ''audit_log''
        [(''id'', ''INTEGER PRIMARY KEY AUTOINCREMENT''), (''seq'', ''INTEGER NOT NULL UNIQUE''), (''actor'', ''TEXT NOT NULL''),
         (''action'', ''TEXT NOT NULL''), (''details'', ''TEXT NOT NULL''), (''prev_hash'', ''TEXT NOT NULL''),
         (''hash'', ''TEXT NOT NULL''), (''created_at'', ''INTEGER NOT NULL'')]
        [[''id''], [''seq'']]]"

definition m2_indexes :: "statement list" where
  "m2_indexes =
     [Create_Index ''idx_candles_lookup'' ''candles'' True,
      Create_Index ''idx_candles_tf_time'' ''candles'' True,
      Create_Index ''idx_ms_lookup'' ''market_structure'' True,
      Create_Index ''idx_lz_lookup'' ''liquidity_zones'' True,
      Create_Index ''idx_ob_lookup'' ''order_blocks'' True,
      Create_Index ''idx_fc_lookup'' ''futures_context'' True,
      Create_Index ''idx_ann_lookup'' ''annotations'' True]"

definition m3_alert_cooldown :: "statement list" where
  "m3_alert_cooldown =
     [Add_Column ''alerts'' (''cooldown_until'', ''INTEGER''),
      Create_Index ''idx_alerts_state'' ''alerts'' True]"

definition m4_risk_policy :: "statement list" where
  "m4_risk_policy =
     [Create_Table ''risk_policy''
        [(''account_id'', ''TEXT PRIMARY KEY''), (''max_notional_per_order'', ''REAL''), (''max_aggregate_exposure'', ''REAL''),
         (''allowed_symbols'', ''TEXT NOT NULL DEFAULT '' @ SQL_QUOTE @ ''[]'' @ SQL_QUOTE @ ''''),
         (''policy_version'', ''INTEGER NOT NULL DEFAULT 0''), (''created_at'', ''INTEGER NOT NULL''),
         (''updated_at'', ''INTEGER NOT NULL'')]
        [[''account_id'']],
      Create_Table ''risk_override''
        [(''id'', ''INTEGER PRIMARY KEY AUTOINCREMENT''), (''override_id'', ''TEXT NOT NULL UNIQUE''),
         (''account_id'', ''TEXT NOT NULL''), (''policy_version'', ''INTEGER NOT NULL''), (''idempotency_key'', ''TEXT NOT NULL''),
         (''actor'', ''TEXT NOT NULL''), (''reason'', ''TEXT NOT NULL''),
         (''scope'', ''TEXT NOT NULL DEFAULT '' @ SQL_QUOTE @ ''next_order'' @ SQL_QUOTE @ ''''),
         (''state'', ''TEXT NOT NULL DEFAULT '' @ SQL_QUOTE @ ''reserved'' @ SQL_QUOTE @ ''''), (''created_at'', ''INTEGER NOT NULL''),
         (''expires_at'', ''INTEGER NOT NULL''), (''applied_at'', ''INTEGER''), (''consumed_by_idem'', ''TEXT''),
         (''reconciled_at'', ''INTEGER''), (''reconcile_reason'', ''TEXT'')]
        [[''id''], [''override_id''], [''account_id'', ''idempotency_key'']],
      Create_Index ''idx_risk_override_account'' ''risk_override'' True]"

definition m5_orders :: "statement list" where
  "m5_orders =
     [Create_Table ''orders''
        [(''id'', ''INTEGER PRIMARY KEY AUTOINCREMENT''), (''order_id'', ''TEXT NOT NULL UNIQUE''),
         (''account_id'', ''TEXT NOT NULL''), (''idempotency_key'', ''TEXT NOT NULL''), (''symbol'', ''TEXT NOT NULL''),
         (''side'', ''TEXT NOT NULL''), (''order_type'', ''TEXT NOT NULL''), (''quantity'', ''REAL NOT NULL''),
         (''price'', ''REAL''), (''status'', ''TEXT NOT NULL''), (''exchange_order_id'', ''TEXT''), (''client_order_id'', ''TEXT''),
         (''executed_qty'', ''REAL''), (''avg_price'', ''REAL''), (''fee'', ''REAL''), (''notional'', ''REAL''),
         (''reference_price'', ''REAL''), (''error_code'', ''TEXT''), (''error_message'', ''TEXT''),
         (''created_at'', ''INTEGER NOT NULL''), (''updated_at'', ''INTEGER NOT NULL'')]
        [[''id''], [''order_id''], [''account_id'', ''idempotency_key'']],
      Create_Index ''idx_orders_account'' ''orders'' True,
      Create_Index ''idx_orders_open'' ''orders'' True]"

definition m6_emergency_reconciled :: "statement list" where
  "m6_emergency_reconciled =
     [Create_Table ''emergency_reconciled''
        [(''entry_hash'', ''TEXT PRIMARY KEY''), (''seq'', ''INTEGER NOT NULL''), (''reconciled_at'', ''INTEGER NOT NULL'')]
        [[''entry_hash'']]]"

definition m7_orders_equity_snapshot :: "statement list" where
  "m7_orders_equity_snapshot =
     [Add_Column ''orders'' (''equity_snapshot'', ''REAL'')]"

definition m8_pending_orders :: "statement list" where
  "m8_pending_orders =
     [Create_Table ''pending_orders''
        [(''id'', ''INTEGER PRIMARY KEY AUTOINCREMENT''), (''order_id'', ''TEXT NOT NULL UNIQUE''),
         (''alert_id'', ''TEXT NOT NULL''), (''account_id'', ''TEXT NOT NULL''), (''symbol'', ''TEXT NOT NULL''),
         (''side'', ''TEXT NOT NULL''), (''order_type'', ''TEXT NOT NULL DEFAULT '' @ SQL_QUOTE @ ''market'' @ SQL_QUOTE @ ''''),
         (''entry'', ''REAL''), (''stop_loss'', ''REAL''), (''risk_pct'', ''REAL''),
         (''status'', ''TEXT NOT NULL DEFAULT '' @ SQL_QUOTE @ ''awaiting_approval'' @ SQL_QUOTE @ ''''), (''note'', ''TEXT''),
         (''created_at'', ''INTEGER NOT NULL''), (''approved_at'', ''INTEGER''), (''rejected_at'', ''INTEGER''),
         (''executed_order_id'', ''TEXT''), (''reject_reason'', ''TEXT'')]
        [[''id''], [''order_id'']],
      Create_Index ''idx_pending_orders_status'' ''pending_orders'' False,
      Create_Index ''idx_pending_orders_alert'' ''pending_orders'' False]"

definition m9_stop_price :: "statement list" where
  "m9_stop_price =
     [Add_Column ''orders'' (''stop_price'', ''REAL'')]"

definition m10_stop_limit_price :: "statement list" where
  "m10_stop_limit_price =
     [Add_Column ''orders'' (''stop_limit_price'', ''REAL'')]"

text \<open>The last migration adds the columns that are missing.\<close>

definition EXECUTION_COLUMNS :: "column list" where
  "EXECUTION_COLUMNS =
     [(''execution_started_at'', ''INTEGER''), (''execution_finished_at'', ''INTEGER''), (''execution_error_code'', ''TEXT''),
      (''execution_error_message'', ''TEXT''), (''last_attempt_at'', ''INTEGER'')]"

definition m11_pending_execution_state :: "db_schema \<Rightarrow> statement list" where
  "m11_pending_execution_state s =
     (let there = (case map_of (sc_tables s) ''pending_orders'' of None \<Rightarrow> [] | Some tb \<Rightarrow> map fst (tb_columns tb))
      in map (Add_Column ''pending_orders'') (filter (\<lambda>c. fst c \<notin> set there) EXECUTION_COLUMNS))"

type_synonym migration = "int \<times> string \<times> (db_schema \<Rightarrow> statement list)"

definition MIGRATIONS :: "migration list" where
  "MIGRATIONS =
     [(1, ''initial_schema'', \<lambda>_. m1_initial_schema), (2, ''indexes'', \<lambda>_. m2_indexes),
      (3, ''alert_cooldown'', \<lambda>_. m3_alert_cooldown), (4, ''risk_policy_override'', \<lambda>_. m4_risk_policy),
      (5, ''orders'', \<lambda>_. m5_orders), (6, ''emergency_reconciled'', \<lambda>_. m6_emergency_reconciled),
      (7, ''orders_equity_snapshot'', \<lambda>_. m7_orders_equity_snapshot), (8, ''pending_orders'', \<lambda>_. m8_pending_orders),
      (9, ''orders_stop_price'', \<lambda>_. m9_stop_price), (10, ''orders_stop_limit_price'', \<lambda>_. m10_stop_limit_price),
      (11, ''pending_execution_state'', m11_pending_execution_state)]"

subsection \<open>Running them\<close>

datatype migration_end = Applied "int list" | Cut_Off | Raised pyexc

fun run_statements :: "nat \<Rightarrow> statement list \<Rightarrow> db_schema \<Rightarrow> db_schema \<times> nat \<times> migration_end option" where
  "run_statements k [] s = (s, k, None)"
| "run_statements 0 (x # xs) s = (s, 0, Some Cut_Off)"
| "run_statements (Suc k) (x # xs) s =
     (case execute x s of Inl e \<Rightarrow> (s, k, Some (Raised e)) | Inr s' \<Rightarrow> run_statements k xs s')"

fun apply_migrations :: "nat \<Rightarrow> migration list \<Rightarrow> int list \<Rightarrow> string list \<Rightarrow> db_schema \<Rightarrow> db_schema \<times> migration_end" where
  "apply_migrations k [] vs ns s = (s, Applied [])"
| "apply_migrations k ((v, n, body) # ms) vs ns s =
     (if v \<in> set vs \<or> n \<in> set ns then apply_migrations k ms vs ns s
      else case run_statements k (body s) s of
             (s1, _, Some r) \<Rightarrow> (s1, r)
           | (s1, 0, None) \<Rightarrow> (s1, Cut_Off)
           | (s1, Suc k1, None) \<Rightarrow>
               if v \<in> set (map fst (sc_versions s1)) then (s1, Raised IntegrityError)
               else (case apply_migrations k1 ms vs ns (s1\<lparr>sc_versions := sc_versions s1 @ [(v, n)]\<rparr>) of
                       (s2, Applied applied) \<Rightarrow> (s2, Applied (v # applied))
                     | r \<Rightarrow> r))"

definition run_migrations :: "nat \<Rightarrow> db_schema \<Rightarrow> db_schema \<times> migration_end" where
  "run_migrations k s = apply_migrations k MIGRATIONS (map fst (sc_versions s)) (map snd (sc_versions s)) s"

definition current_version :: "db_schema \<Rightarrow> int" where
  "current_version s = (if sc_versions s = [] then 0 else Max (set (map fst (sc_versions s))))"

subsection \<open>Running twice\<close>

lemma execute_versions: "execute x s = Inr s' \<Longrightarrow> sc_versions s' = sc_versions s"
  by (cases x) (auto split: if_splits option.splits)

lemma run_statements_versions: "run_statements k xs s = (s', k', r) \<Longrightarrow> sc_versions s' = sc_versions s"
  by (induction k xs s rule: run_statements.induct) (auto split: sum.splits dest: execute_versions)

lemma run_statements_end: "run_statements k xs s \<noteq> (s', k', Some (Applied vs))"
  by (induction k xs s rule: run_statements.induct) (auto split: sum.splits)

lemma apply_records:
  "apply_migrations k ms vs ns s = (s', Applied applied) \<Longrightarrow>
     set (sc_versions s) \<subseteq> set (sc_versions s')
     \<and> (\<forall>(v, n, body)\<in>set ms. v \<in> set vs \<or> n \<in> set ns \<or> (v, n) \<in> set (sc_versions s'))
     \<and> set applied \<subseteq> fst ` set ms"
proof (induction k ms vs ns s arbitrary: s' applied rule: apply_migrations.induct)
  case (2 k v n body ms vs ns s)
  show ?case
  proof (cases "v \<in> set vs \<or> n \<in> set ns")
    case True
    with "2.IH"(1) [OF True] "2.prems" show ?thesis by auto
  next
    case False
    with "2.prems" obtain s1 k1 applied1 where r: "run_statements k (body s) s = (s1, Suc k1, None)"
        "v \<notin> set (map fst (sc_versions s1))"
        "apply_migrations k1 ms vs ns (s1\<lparr>sc_versions := sc_versions s1 @ [(v, n)]\<rparr>) = (s', Applied applied1)" "applied = v # applied1"
      by (auto simp: run_statements_end split: prod.splits option.splits nat.splits if_splits migration_end.splits)
    from "2.IH"(2) [OF False r(1) [symmetric] refl refl refl r(2,3)] run_statements_versions [OF r(1)] r(4)
    show ?thesis by auto
  qed
qed simp

lemma apply_nothing: "\<forall>(v, n, body)\<in>set ms. v \<in> set vs \<or> n \<in> set ns \<Longrightarrow> apply_migrations k ms vs ns s = (s, Applied [])"
  by (induction ms) auto

text \<open>Migrating is idempotent. Whatever the database holds, when a run applies its migrations to the end, every
  migration of the list is recorded by its version or its name, and a later run applies nothing and
  leaves the schema as it is.\<close>

theorem migrations_idempotent:
  assumes "run_migrations k s = (s', Applied applied)"
  shows "run_migrations k' s' = (s', Applied [])
    \<and> (\<forall>(v, n, body)\<in>set MIGRATIONS. v \<in> set (map fst (sc_versions s')) \<or> n \<in> set (map snd (sc_versions s')))"
proof -
  from apply_records [OF assms [unfolded run_migrations_def]]
  have *: "set (sc_versions s) \<subseteq> set (sc_versions s')"
    "\<forall>(v, n, body)\<in>set MIGRATIONS. v \<in> set (map fst (sc_versions s)) \<or> n \<in> set (map snd (sc_versions s)) \<or> (v, n) \<in> set (sc_versions s')"
    by blast+
  have "\<forall>(v, n, body)\<in>set MIGRATIONS. v \<in> set (map fst (sc_versions s')) \<or> n \<in> set (map snd (sc_versions s'))"
  proof clarify
    fix v n and body :: "db_schema \<Rightarrow> statement list"
    assume m: "(v, n, body) \<in> set MIGRATIONS" "n \<notin> set (map snd (sc_versions s'))"
    with *(1) have "n \<notin> set (map snd (sc_versions s))" by auto
    with *(2) m(1) have "v \<in> set (map fst (sc_versions s)) \<or> (v, n) \<in> set (sc_versions s')" by blast
    with *(1) show "v \<in> set (map fst (sc_versions s'))" by force
  qed
  then show ?thesis unfolding run_migrations_def using apply_nothing by blast
qed

subsection \<open>A new database\<close>

definition migrated :: db_schema where
  "migrated = fst (run_migrations 100 empty_schema)"

lemma new_database: "snd (run_migrations 100 empty_schema) = Applied [1, 2, 3, 4, 5, 6, 7, 8, 9, 10, 11]"
  by code_simp

theorem migrations_idempotent_witness:
  "run_migrations 0 migrated = (migrated, Applied [])"
proof -
  have "run_migrations 100 empty_schema = (migrated, Applied [1, 2, 3, 4, 5, 6, 7, 8, 9, 10, 11])"
    by (rule prod_eqI) (simp_all add: migrated_def new_database)
  from migrations_idempotent [OF this] show ?thesis by blast
qed

definition columns_of :: "string \<Rightarrow> db_schema \<Rightarrow> string list" where
  "columns_of t s = (case map_of (sc_tables s) t of None \<Rightarrow> [] | Some tb \<Rightarrow> map fst (tb_columns tb))"

definition keys_of :: "string \<Rightarrow> db_schema \<Rightarrow> string list list" where
  "keys_of t s = (case map_of (sc_tables s) t of None \<Rightarrow> [] | Some tb \<Rightarrow> tb_keys tb)"

text \<open>The keys the models of the tables rely on.\<close>

lemma migrated_keys:
  "map (\<lambda>t. keys_of t migrated) [''orders'', ''candles'', ''futures_context'', ''triggered_alerts'', ''risk_override''] =
     [[[''id''], [''order_id''], [''account_id'', ''idempotency_key'']],
      [[''symbol'', ''timeframe'', ''open_time'', ''source'']],
      [[''id''], [''symbol'', ''type'', ''event_time'']],
      [[''id''], [''alert_id'', ''trigger_key'']],
      [[''id''], [''override_id''], [''account_id'', ''idempotency_key'']]]"
  by code_simp

lemma map_of_replaced: "map_of ts t = Some x \<Longrightarrow> map_of (map (\<lambda>p. if fst p = t then (t, y) else p) ts) t = Some y"
  by (induction ts) auto

text \<open>A run that is cut off between the statement of a migration and the record of its version leaves the
  column behind. The next run repeats the migration and fails on the column that is there already, and so
  does every later one.\<close>

theorem interrupted_migration_cannot_be_repeated:
  assumes "map fst (sc_versions s) = [1, 2, 3, 4, 5, 6]" "''orders_equity_snapshot'' \<notin> set (map snd (sc_versions s))"
    "map_of (sc_tables s) ''orders'' = Some tb" "''equity_snapshot'' \<notin> set (map fst (tb_columns tb))"
  shows "\<exists>s1. run_migrations 1 s = (s1, Cut_Off) \<and> run_migrations (Suc k) s1 = (s1, Raised OtherException)"
proof -
  let ?tb = "tb\<lparr>tb_columns := tb_columns tb @ [(''equity_snapshot'', ''REAL'')]\<rparr>"
  let ?s = "s\<lparr>sc_tables := map (\<lambda>p. if fst p = ''orders'' then (''orders'', ?tb) else p) (sc_tables s)\<rparr>"
  have t: "map_of (sc_tables ?s) ''orders'' = Some ?tb" using map_of_replaced [OF assms(3)] by simp
  have e: "execute (Add_Column ''orders'' (''equity_snapshot'', ''REAL'')) s = Inr ?s" using assms(3,4) by simp
  have f: "execute (Add_Column ''orders'' (''equity_snapshot'', ''REAL'')) ?s = Inl OtherException" using t by simp
  have "run_migrations 1 s = (?s, Cut_Off)"
    using assms(1,2) by (simp add: run_migrations_def MIGRATIONS_def m7_orders_equity_snapshot_def e del: execute.simps)
  moreover have "run_migrations (Suc k) ?s = (?s, Raised OtherException)"
    using assms(1,2) by (cases k) (simp_all add: run_migrations_def MIGRATIONS_def m7_orders_equity_snapshot_def f del: execute.simps)
  ultimately show ?thesis by blast
qed

end
