(* ===== verification/Write_Queue.thy ===== *)
theory Write_Queue
  imports Errors
begin

text \<open>
  The writer of the database (\<open>Database\<close> of \<open>storage/db.py\<close>): writes are queued and run one at a time on one
  connection, each in a transaction; a caller waits for the future of its write and may be cancelled
  while it waits; after \<open>stop\<close> nothing is accepted and what was queued is finished. A write is a function on
  the contents of the database that may raise.
\<close>

subsection \<open>The queue\<close>

type_synonym ('d, 'r) write_fn = "'d \<Rightarrow> ('d \<times> 'r) res"

text \<open>A future is named by the number of its write; \<open>None\<close> ends a future whose caller was cancelled.\<close>

record ('d, 'r) writer =
  wr_data :: 'd
  wr_queue :: "(nat \<times> ('d, 'r) write_fn) list"
  wr_accepted :: nat
  wr_futures :: "nat \<rightharpoonup> 'r res option"
  wr_closed :: bool

definition open_writer :: "'d \<Rightarrow> ('d, 'r) writer" where
  "open_writer d = \<lparr>wr_data = d, wr_queue = [], wr_accepted = 0, wr_futures = Map.empty, wr_closed = False\<rparr>"

text \<open>\<open>_run_write\<close>: \<open>with conn\<close> commits, or rolls back and raises.\<close>

definition run_write :: "('d, 'r) write_fn \<Rightarrow> 'd \<Rightarrow> 'd \<times> 'r res" where
  "run_write f d = (case f d of Inl e \<Rightarrow> (d, Inl e) | Inr (d', r) \<Rightarrow> (d', Inr r))"

text \<open>\<open>write\<close> up to its wait: the number of the future.\<close>

definition submit_write :: "('d, 'r) write_fn \<Rightarrow> ('d, 'r) writer \<Rightarrow> ('d, 'r) writer \<times> nat res" where
  "submit_write f w =
     (if wr_closed w then (w, Inl RuntimeError)
      else (w\<lparr>wr_queue := wr_queue w @ [(wr_accepted w, f)], wr_accepted := Suc (wr_accepted w)\<rparr>, Inr (wr_accepted w)))"

text \<open>A future that has ended keeps its result.\<close>

definition end_write :: "nat \<Rightarrow> 'r res option \<Rightarrow> ('d, 'r) writer \<Rightarrow> ('d, 'r) writer" where
  "end_write n r w = (if wr_futures w n = None then w\<lparr>wr_futures := (wr_futures w)(n \<mapsto> r)\<rparr> else w)"

definition writer_step :: "('d, 'r) writer \<Rightarrow> ('d, 'r) writer" where
  "writer_step w =
     (case wr_queue w of
        [] \<Rightarrow> w
      | (n, f) # rest \<Rightarrow>
          (case run_write f (wr_data w) of (d, r) \<Rightarrow> end_write n (Some r) (w\<lparr>wr_data := d, wr_queue := rest\<rparr>)))"

definition cancel_write :: "nat \<Rightarrow> ('d, 'r) writer \<Rightarrow> ('d, 'r) writer" where
  "cancel_write n w = (if n < wr_accepted w then end_write n None w else w)"

definition stop_writer :: "('d, 'r) writer \<Rightarrow> ('d, 'r) writer" where
  "stop_writer w = (writer_step ^^ length (wr_queue w)) (w\<lparr>wr_closed := True\<rparr>)"

datatype ('d, 'r) writer_event = Submit "('d, 'r) write_fn" | Write_Next | Cancel_Waiter nat

fun writer_event_step :: "('d, 'r) writer_event \<Rightarrow> ('d, 'r) writer \<Rightarrow> ('d, 'r) writer" where
  "writer_event_step (Submit f) w = fst (submit_write f w)"
| "writer_event_step Write_Next w = writer_step w"
| "writer_event_step (Cancel_Waiter n) w = cancel_write n w"

subsection \<open>The serial database\<close>

text \<open>The specification: the writes of a run, one after the other, with the result of each.\<close>

fun accepted_writes :: "('d, 'r) writer_event list \<Rightarrow> ('d, 'r) write_fn list" where
  "accepted_writes [] = []"
| "accepted_writes (Submit f # es) = f # accepted_writes es"
| "accepted_writes (_ # es) = accepted_writes es"

fun serial :: "('d, 'r) write_fn list \<Rightarrow> 'd \<Rightarrow> 'd \<times> 'r res list" where
  "serial [] d = (d, [])"
| "serial (f # fs) d = (case run_write f d of (d1, r) \<Rightarrow> case serial fs d1 of (d2, rs) \<Rightarrow> (d2, r # rs))"

lemma serial_append:
  "serial (fs @ gs) d = (let (d1, rs) = serial fs d; (d2, rs') = serial gs d1 in (d2, rs @ rs'))"
  by (induction fs arbitrary: d) (auto split: prod.splits)

lemma serial_length [simp]: "length (snd (serial fs d)) = length fs"
  by (induction fs arbitrary: d) (simp_all add: split_beta)

text \<open>A writer that has run the first \<open>k\<close> of the writes accepted so far.\<close>

definition refines_serial :: "'d \<Rightarrow> ('d, 'r) write_fn list \<Rightarrow> nat \<Rightarrow> ('d, 'r) writer \<Rightarrow> bool" where
  "refines_serial d0 fs k w =
     (k \<le> length fs \<and> wr_accepted w = length fs \<and> wr_queue w = zip [k..<length fs] (drop k fs)
      \<and> wr_data w = fst (serial (take k fs) d0)
      \<and> (\<forall>n. (wr_futures w n = None \<longrightarrow> k \<le> n)
          \<and> (\<forall>r. wr_futures w n = Some (Some r) \<longrightarrow> n < k \<and> snd (serial (take k fs) d0) ! n = r)
          \<and> (wr_futures w n \<noteq> None \<longrightarrow> n < length fs)))"

lemma refines_submit:
  assumes "refines_serial d0 fs k w" "\<not> wr_closed w"
  shows "refines_serial d0 (fs @ [f]) k (fst (submit_write f w))"
  using assms by (auto simp: refines_serial_def submit_write_def less_Suc_eq)

lemma refines_cancel: "refines_serial d0 fs k w \<Longrightarrow> refines_serial d0 fs k (cancel_write n w)"
  by (auto simp: refines_serial_def cancel_write_def end_write_def)

lemma serial_next:
  assumes "k < length fs" "run_write (fs ! k) (fst (serial (take k fs) d0)) = (d, r)"
  shows "serial (take (Suc k) fs) d0 = (d, snd (serial (take k fs) d0) @ [r])"
  using assms by (simp add: take_Suc_conv_app_nth serial_append split_beta)

lemma refines_step:
  assumes "refines_serial d0 fs k w"
  shows "refines_serial d0 fs (min (Suc k) (length fs)) (writer_step w)"
proof (cases "k < length fs")
  case False
  with assms have "k = length fs" "wr_queue w = []" by (auto simp: refines_serial_def)
  with assms show ?thesis by (simp add: writer_step_def min_def)
next
  case True
  obtain d r where r: "run_write (fs ! k) (wr_data w) = (d, r)" by fastforce
  have q: "wr_queue w = (k, fs ! k) # zip [Suc k..<length fs] (drop (Suc k) fs)"
    using assms True by (simp add: refines_serial_def upt_conv_Cons Cons_nth_drop_Suc [symmetric])
  have data: "wr_data w = fst (serial (take k fs) d0)" using assms by (simp add: refines_serial_def)
  note nxt = serial_next [OF True, of d0 d r, folded data, OF r]
  have len: "length (snd (serial (take k fs) d0)) = k" using True by simp
  have step: "writer_step w = end_write k (Some r) (w\<lparr>wr_data := d, wr_queue := zip [Suc k..<length fs] (drop (Suc k) fs)\<rparr>)"
    by (simp add: writer_step_def q r)
  have fut: "wr_futures (writer_step w) = (if wr_futures w k = None then (wr_futures w)(k \<mapsto> Some r) else wr_futures w)"
    "wr_data (writer_step w) = d" "wr_queue (writer_step w) = zip [Suc k..<length fs] (drop (Suc k) fs)" "wr_accepted (writer_step w) = wr_accepted w"
    by (simp_all add: step end_write_def)
  have old: "wr_accepted w = length fs" "wr_futures w n = None \<Longrightarrow> k \<le> n"
    "wr_futures w n = Some (Some r') \<Longrightarrow> n < k \<and> snd (serial (take k fs) d0) ! n = r'" "wr_futures w n \<noteq> None \<Longrightarrow> n < length fs" for n r'
    using assms unfolding refines_serial_def by blast+
  have "wr_futures (writer_step w) n = None \<Longrightarrow> Suc k \<le> n" for n
    using old(2) [of n] unfolding fut by (cases "n = k") (auto split: if_splits)
  moreover have "wr_futures (writer_step w) n = Some (Some r') \<Longrightarrow> n < Suc k \<and> snd (serial (take (Suc k) fs) d0) ! n = r'" for n r'
    using old(3) [of n r'] len unfolding fut nxt by (cases "n = k") (auto simp: nth_append split: if_splits)
  moreover have "wr_futures (writer_step w) n \<noteq> None \<Longrightarrow> n < length fs" for n
    using old(4) [of n] True unfolding fut by (auto split: if_splits)
  moreover have "min (Suc k) (length fs) = Suc k" using True by simp
  ultimately show ?thesis
    unfolding refines_serial_def using True fut(2-4) old(1) nxt by simp
qed

lemma writer_step_closed [simp]: "wr_closed (writer_step w) = wr_closed w" "wr_accepted (writer_step w) = wr_accepted w"
  by (auto simp: writer_step_def end_write_def split: list.split prod.split)

lemma writer_event_open: "\<not> wr_closed w \<Longrightarrow> \<not> wr_closed (writer_event_step e w)"
  by (cases e) (simp_all add: submit_write_def cancel_write_def end_write_def)

lemma refines_run:
  "refines_serial d0 fs k w \<Longrightarrow> \<not> wr_closed w \<Longrightarrow> \<exists>k'. refines_serial d0 (fs @ accepted_writes es) k' (fold writer_event_step es w)"
proof (induction es arbitrary: fs k w)
  case (Cons e es)
  note closed = writer_event_open [OF Cons.prems(2)]
  show ?case
  proof (cases e)
    case (Submit f)
    with Cons.IH [OF refines_submit [OF Cons.prems, of f]] closed [of "Submit f"] show ?thesis by simp
  next
    case Write_Next
    with Cons.IH [OF refines_step [OF Cons.prems(1)]] closed [of Write_Next] show ?thesis by simp
  next
    case (Cancel_Waiter n)
    with Cons.IH [OF refines_cancel [OF Cons.prems(1), of n]] closed [of "Cancel_Waiter n"] show ?thesis by simp
  qed
qed auto

lemma refines_steps: "refines_serial d0 fs k w \<Longrightarrow> refines_serial d0 fs (min (n + k) (length fs)) ((writer_step ^^ n) w)"
proof (induction n)
  case 0
  then have "k \<le> length fs" by (simp add: refines_serial_def)
  with 0 show ?case by (simp add: min_def)
next
  case (Suc n)
  from refines_step [OF Suc.IH [OF Suc.prems]] show ?case by (simp add: min_def split: if_splits)
qed

text \<open>A future ends without a result only when its caller was cancelled.\<close>

lemma cancelled_waiters:
  "(\<And>n. wr_futures w n = Some None \<Longrightarrow> n \<in> ns) \<Longrightarrow> wr_futures (fold writer_event_step es w) n = Some None \<Longrightarrow> n \<in> ns \<or> Cancel_Waiter n \<in> set es"
proof (induction es arbitrary: w ns)
  case (Cons e es)
  have "wr_futures (writer_event_step e w) m = Some None \<Longrightarrow> m \<in> (case e of Cancel_Waiter n \<Rightarrow> insert n ns | _ \<Rightarrow> ns)" for m
    using Cons.prems(1) [of m]
    by (cases e) (auto simp: submit_write_def writer_step_def cancel_write_def end_write_def split: if_splits list.splits prod.splits)
  from Cons.IH [of "writer_event_step e w" "case e of Cancel_Waiter n \<Rightarrow> insert n ns | _ \<Rightarrow> ns", OF this] Cons.prems(2)
  show ?case by (auto split: writer_event.splits)
qed auto

lemma writer_steps_futures: "wr_futures ((writer_step ^^ k) w) n = Some None \<Longrightarrow> wr_futures w n = Some None"
  by (induction k) (auto simp: writer_step_def end_write_def split: if_splits list.splits prod.splits)

lemma writer_steps_closed: "wr_closed ((writer_step ^^ k) w) = wr_closed w"
  by (induction k) simp_all


definition demo_writes :: "(int, int) writer_event list" where
  "demo_writes = [Submit (\<lambda>d. Inr (d + 1, d)), Submit (\<lambda>d. Inl IntegrityError), Write_Next, Cancel_Waiter 1, Submit (\<lambda>d. Inr (d * 5, d))]"


end
