(* ===== verification/Chart.thy ===== *)
theory Chart
  imports Numeric Swings "HOL-Library.Multiset"
begin

text \<open>
  The annotations of agents (\<open>pa/annotations.py\<close>) and the background worker that keeps the analysis of the fixed
  timeframes current (\<open>pa/worker.py\<close>). What loading and analysing a symbol yields is an argument of the worker.
\<close>

subsection \<open>Annotations\<close>

record annotation =
  nt_id :: nat
  nt_symbol :: string
  nt_timeframe :: string
  nt_created_by :: string
  nt_data :: pydict
  nt_created_at :: int

text \<open>The table with the next identifier of its \<open>AUTOINCREMENT\<close> column.\<close>

type_synonym annotations = "annotation list \<times> nat"

definition annotation_items :: "pyval \<Rightarrow> pydict list res" where
  "annotation_items v =
     rmap (\<lambda>x. case x of PDict d \<Rightarrow> Inr d | _ \<Rightarrow> Inl (rasat INVALID_REQUEST)) (case v of PList xs \<Rightarrow> xs | _ \<Rightarrow> [v])"

definition annotate :: "pyval \<Rightarrow> pyval \<Rightarrow> pyval \<Rightarrow> string \<Rightarrow> rat \<Rightarrow> annotations \<Rightarrow> annotations \<times> nat list res" where
  "annotate symbol timeframe items author now t =
     (case (symbol, timeframe) of
        (PStr s, PStr tf) \<Rightarrow>
          if s = [] \<or> tf = [] then (t, Inl (rasat INVALID_REQUEST))
          else (case annotation_items items of
                  Inl e \<Rightarrow> (t, Inl e)
                | Inr ds \<Rightarrow>
                    (let ids = [snd t..<snd t + length ds];
                         new = map (\<lambda>(n, d). \<lparr>nt_id = n, nt_symbol = s, nt_timeframe = tf, nt_created_by = author, nt_data = d,
                                              nt_created_at = trunc now\<rparr>) (zip ids ds)
                     in ((fst t @ new, snd t + length ds), Inr ids)))
      | _ \<Rightarrow> (t, Inl (rasat INVALID_REQUEST)))"

definition annotated :: "string \<Rightarrow> string \<Rightarrow> annotation \<Rightarrow> bool" where
  "annotated s tf r = (nt_symbol r = s \<and> nt_timeframe r = tf)"

text \<open>\<open>ORDER BY created_at, id\<close>.\<close>

definition get_annotations :: "string \<Rightarrow> string \<Rightarrow> annotations \<Rightarrow> annotation list" where
  "get_annotations s tf t = sort_key nt_created_at (sort_key nt_id (filter (annotated s tf) (fst t)))"

definition clear_annotations :: "string \<Rightarrow> string \<Rightarrow> annotations \<Rightarrow> annotations \<times> nat" where
  "clear_annotations s tf t = ((filter (\<lambda>r. \<not> annotated s tf r) (fst t), snd t), length (filter (annotated s tf) (fst t)))"

text \<open>Identifiers are never given twice, and what is read back for a chart is what was added to it since it
  was last cleared.\<close>

definition annotations_ok :: "annotations \<Rightarrow> bool" where
  "annotations_ok t = (sorted_wrt (<) (map nt_id (fst t)) \<and> (\<forall>r\<in>set (fst t). nt_id r < snd t))"

lemma sorted_wrt_filter_ids: "sorted_wrt (<) (map nt_id rs) \<Longrightarrow> sorted_wrt (<) (map nt_id (filter P rs))"
  by (induction rs) auto

lemma annotations_ok_clear: "annotations_ok t \<Longrightarrow> annotations_ok (fst (clear_annotations s tf t))"
  by (auto simp: annotations_ok_def clear_annotations_def sorted_wrt_filter_ids)

lemma annotate_result:
  assumes "annotate (PStr s) (PStr tf) items author now t = (t', Inr ids)"
  obtains new where "t' = (fst t @ new, snd t + length new)" "Inr (map nt_data new) = annotation_items items"
    "map nt_id new = [snd t..<snd t + length new]" "ids = map nt_id new"
    "\<And>r. r \<in> set new \<Longrightarrow> annotated s tf r \<and> nt_created_at r = trunc now"
proof -
  from assms obtain ds where ds: "annotation_items items = Inr ds" "ids = [snd t..<snd t + length ds]"
    by (auto simp: annotate_def Let_def split: if_splits sum.splits)
  define new where "new = map (\<lambda>(n, d). \<lparr>nt_id = n, nt_symbol = s, nt_timeframe = tf, nt_created_by = author, nt_data = d,
      nt_created_at = trunc now\<rparr>) (zip ids ds)"
  have len: "length new = length ds" by (simp add: new_def ds(2))
  show thesis
  proof (rule that [of new])
    show "t' = (fst t @ new, snd t + length new)"
      using assms ds len by (auto simp: annotate_def Let_def new_def split: if_splits)
    show "Inr (map nt_data new) = annotation_items items"
      using ds by (simp add: new_def comp_def case_prod_beta)
    have "map nt_id new = ids" using ds(2) by (simp add: new_def comp_def case_prod_beta)
    then show "map nt_id new = [snd t..<snd t + length new]" "ids = map nt_id new" using ds(2) len by simp_all
    show "\<And>r. r \<in> set new \<Longrightarrow> annotated s tf r \<and> nt_created_at r = trunc now" by (auto simp: new_def annotated_def)
  qed
qed

lemma annotations_ok_annotate:
  assumes "annotations_ok t" "annotate (PStr s) (PStr tf) items author now t = (t', Inr ids)"
  shows "annotations_ok t'"
proof -
  from annotate_result [OF assms(2)] obtain new where new: "t' = (fst t @ new, snd t + length new)"
      "map nt_id new = [snd t..<snd t + length new]"
    by metis
  have "nt_id r \<in> set (map nt_id new)" if "r \<in> set new" for r using that by simp
  then have "\<forall>r\<in>set new. snd t \<le> nt_id r \<and> nt_id r < snd t + length new" unfolding new(2) by auto
  then show ?thesis using assms(1) new by (auto simp: annotations_ok_def sorted_wrt_append trans_less_add1)
qed

lemma sort_key_append_last:
  assumes "\<And>x y. x \<in> set xs \<Longrightarrow> y \<in> set ys \<Longrightarrow> f x \<le> f y" "sorted (map f ys)"
  shows "sort_key f (xs @ ys) = sort_key f xs @ ys"
proof (rule properties_for_sort_key)
  show "sorted (map f (sort_key f xs @ ys))" using assms by (auto simp: sorted_append)
  show "filter (\<lambda>x. f k = f x) (sort_key f xs @ ys) = filter (\<lambda>x. f k = f x) (xs @ ys)" for k
    using sort_key_stable [of f "f k" xs] by (simp add: eq_commute [of "f k"])
qed simp

lemma get_annotations_sorted: "annotations_ok t \<Longrightarrow> get_annotations s tf t = sort_key nt_created_at (filter (annotated s tf) (fst t))"
proof -
  assume "annotations_ok t"
  then have "sorted (map nt_id (filter (annotated s tf) (fst t)))"
    by (simp add: annotations_ok_def sorted_wrt_filter_ids strict_sorted_imp_sorted)
  then show ?thesis by (simp add: get_annotations_def sort_key_id_if_sorted)
qed

text \<open>Unless the clock has run backwards, what is read back for a chart after an annotation is what was read
  before followed by the new items, in their order.\<close>

theorem annotations_read_back:
  assumes "annotations_ok t" "annotate (PStr s) (PStr tf) items author now t = (t', Inr ids)"
    "\<And>r. r \<in> set (fst t) \<Longrightarrow> nt_created_at r \<le> trunc now"
  shows "\<exists>new. get_annotations s tf t' = get_annotations s tf t @ new \<and> Inr (map nt_data new) = annotation_items items \<and> map nt_id new = ids"
proof -
  obtain new where new: "t' = (fst t @ new, snd t + length new)" "Inr (map nt_data new) = annotation_items items" "ids = map nt_id new"
      "\<And>r. r \<in> set new \<Longrightarrow> annotated s tf r \<and> nt_created_at r = trunc now"
    using annotate_result [OF assms(2)] by metis
  have "annotated s tf r" if "r \<in> set new" for r using new(4) [OF that] by simp
  then have mine: "filter (annotated s tf) new = new" by simp
  have "get_annotations s tf t' = sort_key nt_created_at (filter (annotated s tf) (fst t) @ new)"
    unfolding get_annotations_sorted [OF annotations_ok_annotate [OF assms(1,2)]] using mine by (simp add: new(1))
  also have "\<dots> = get_annotations s tf t @ new"
    unfolding get_annotations_sorted [OF assms(1)]
  proof (rule sort_key_append_last)
    show "sorted (map nt_created_at new)" using new(4) by (auto simp: sorted_iff_nth_mono)
  qed (use new(4) assms(3) in auto)
  finally show ?thesis using new(2,3) by auto
qed

subsection \<open>The worker\<close>

text \<open>What computing a symbol comes to.\<close>

datatype processed = Success | Insufficient | Failed_Symbol

definition process_symbol :: "candle list res \<Rightarrow> (int \<Rightarrow> bool res) \<Rightarrow> 'a res \<Rightarrow> processed res" where
  "process_symbol loaded fresh analysis =
     (case loaded of
        Inl _ \<Rightarrow> Inr Failed_Symbol
      | Inr [] \<Rightarrow> Inr Failed_Symbol
      | Inr candles \<Rightarrow>
          rbind (fresh (c_open_time (last candles))) (\<lambda>f.
            if \<not> f then Inr Failed_Symbol
            else (case analysis of
                    Inr _ \<Rightarrow> Inr Success
                  | Inl e \<Rightarrow> Inr (if e = rasat STALE_DATA then Insufficient else Failed_Symbol))))"

text \<open>One timeframe of a pass: the marker and the number of symbols computed. An exception of a symbol
  counts as neither.\<close>

definition worker_timeframe ::
  "int \<Rightarrow> string list \<Rightarrow> (string \<Rightarrow> processed res) \<Rightarrow> int option \<Rightarrow> int option \<times> nat" where
  "worker_timeframe target symbols outcome marker =
     (if marker = Some target \<or> symbols = [] then (marker, 0)
      else (let results = map outcome symbols; done_count = length (filter (\<lambda>r. r = Inr Success) results);
                short = length (filter (\<lambda>r. r = Inr Insufficient) results)
            in (if done_count + short = length symbols then Some target else marker, done_count)))"

definition worker_pass ::
  "(string \<times> int) list \<Rightarrow> rat \<Rightarrow> string list \<Rightarrow> (string \<Rightarrow> string \<Rightarrow> processed res) \<Rightarrow> (string \<Rightarrow> int option) \<Rightarrow> (string \<Rightarrow> int option) \<times> nat" where
  "worker_pass intervals now symbols outcome markers =
     fold (\<lambda>(tf, period) (m, n).
       case worker_timeframe (latest_closed period now) symbols (\<lambda>s. outcome s tf) (m tf) of (marker, k) \<Rightarrow> (m(tf := marker), n + k))
       intervals (markers, 0)"

lemma counts_le:
  assumes "\<And>x. \<not> (P x \<and> Q x)"
  shows "length (filter P xs) + length (filter Q xs) \<le> length xs"
proof (induction xs)
  case (Cons y ys)
  with assms [of y] show ?case by auto
qed simp

lemma counts_all:
  assumes "\<And>x. \<not> (P x \<and> Q x)" "length (filter P xs) + length (filter Q xs) = length xs" "x \<in> set xs"
  shows "P x \<or> Q x"
  using assms(2,3)
proof (induction xs)
  case (Cons y ys)
  with counts_le [where P = P and Q = Q and xs = ys, OF assms(1)] assms(1) [of y] show ?case by (auto split: if_splits)
qed simp

text \<open>The marker of a timeframe moves to the last closed candle only when every symbol was computed or has too
  few candles; otherwise the next pass computes the timeframe again.\<close>

lemma marker_moves_when_complete:
  assumes "worker_timeframe target symbols outcome marker = (Some target, n)" "marker \<noteq> Some target"
  shows "symbols \<noteq> [] \<and> (\<forall>s\<in>set symbols. outcome s = Inr Success \<or> outcome s = Inr Insufficient)"
proof -
  let ?rs = "map outcome symbols"
  have *: "\<And>r. \<not> (r = Inr Success \<and> r = Inr Insufficient)" by auto
  from assms have "symbols \<noteq> []" "length (filter (\<lambda>r. r = Inr Success) ?rs) + length (filter (\<lambda>r. r = Inr Insufficient) ?rs) = length ?rs"
    by (auto simp: worker_timeframe_def Let_def split: if_splits)
  with counts_all [where P = "\<lambda>r. r = Inr Success" and Q = "\<lambda>r. r = Inr Insufficient" and xs = ?rs, OF *] show ?thesis by auto
qed

end
