(* ===== verification/Spec2Isabelle.thy ===== *)
theory Spec2Isabelle
  imports Signing Launcher Envelope Lifecycle Alarm_Loop Analysis_Engine Emergency_Stop Kline_Service Market_Streams Credentials Lock_File Migrations Write_Queue Chart
begin

text \<open>
  A verification library for rasattrading-mcp, a daemon that serves trading tools to agents over local HTTP:
  accounts with encrypted keys, risk policies, orders on several accounts, alarms with pending orders, a
  price-action analysis, market data, and a stand-alone emergency stop. All paths are below
  \<open>src/rasattrading_mcp/\<close>.

  \<^bold>\<open>How the program is modelled.\<close> A Python value of dynamic type is a \<open>pyval\<close>; a float is an exact rational
  with infinities and NaN, so rounding in binary64 is not modelled (tolerances of the code are kept). A
  function that may raise returns \<open>'a res\<close>, with the exception on the left; \<open>RasatError\<close> carries the code that
  \<open>envelope.py\<close> and the server turn into a reply. Operations on shared state are functions of type \<open>'a m\<close>
  (theory World): they read an environment and thread a world, which holds the sqlite tables as
  lists of rows, the clock and the log of requests sent to the exchange. Each \<open>await\<close> on the exchange, the
  market feed or the clock consumes one tick; the answers of all ticks are a field of the world, so a
  theorem for every world is a theorem for every behaviour of the exchange. \<open>db_write\<close> is a transaction: it
  commits everything or nothing. Hashes, encryption, \<open>json.dumps\<close>, \<open>repr\<close> of a float and the analysis
  behind the chart tools are parameters (fields of the environment, or arguments). A JSON
  text is the value it decodes to. Loops over lists are structural recursion; polling loops have a bound
  from the code; the wait for the weight budget may not end and is a \<open>partial_function\<close> whose
  termination is a theorem.

  \<^bold>\<open>Foundations.\<close> Prelude: strings, rows, lists. Errors: \<open>errors.py\<close>, exceptions, error-aware iteration. Numeric:
  \<open>float\<close>, \<open>int\<close>, \<open>numeric.py\<close>, \<open>timeutil.py\<close>. World: the state, the monad and its rules \<open>runs\<close> (an operation never
  gets stuck), \<open>keeps\<close> (an invariant relation between the worlds before and after), \<open>wp\<close> (a
  postcondition), each closed under the combinators, so that a proof about an operation follows its text.

  \<^bold>\<open>Risk and orders.\<close> Risk: \<open>accuracy.py\<close>, \<open>risk.py\<close>. Sizing: \<open>position_sizing.py\<close>. Order_Validation: \<open>storage/order_validation.py\<close>.
  Broker: what \<open>data/order_broker.py\<close> sends and how it reads every reply; Signing: its signed queries. Risk_Policy: \<open>storage/risk_policy.py\<close>, policies with
  versions and one-shot overrides. Accounts: \<open>storage/accounts.py\<close>. Orders: \<open>storage/orders.py\<close>, the order table, targets,
  sized, direct and OCO execution, reconciliation after a timeout. Order_Safety: what is checked before an order is sent.
  Submission_Log: the requests sent against the rows. Kill_Switch: \<open>close_all_positions\<close>. Exposure: exposure, balances,
  open orders, the scan for unprotected positions. Service: histories of the order service.

  \<^bold>\<open>Records that must not be lost.\<close> Audit_Log: \<open>storage/audit.py\<close>, the hash chain. Emergency_Log: \<open>storage/emergency_log.py\<close>. Emergency_Stop:
  \<open>emergency_stop.py\<close>, which works without the daemon. Pending: the pending orders of \<open>pa/alarms.py\<close> with
  the approval handler of \<open>daemon/handlers.py\<close> and the recovery after a crash.

  \<^bold>\<open>Storage.\<close> Write_Queue: the writer of \<open>storage/db.py\<close>, what \<open>db_write\<close> rests on. Credentials: \<open>storage/credentials.py\<close>. Migrations: the
  schema, statement by statement.

  \<^bold>\<open>Analysis.\<close> Swings, Liquidity, Order_Blocks: \<open>pa/swings.py\<close>, \<open>pa/liquidity.py\<close>, \<open>pa/obfvg.py\<close>. Analysis: VWAP, sessions, the record store and
  \<open>analyze\<close>. Analysis_Engine: \<open>PAEngine\<close>, the views of an analysis and its label. Chart: annotations and the background worker. Screener: \<open>pa/screener.py\<close>. Alerts: the rest of \<open>pa/alarms.py\<close>, clauses, triggers, cooldowns. Alarm_Loop: the
  background passes of \<open>daemon/main.py\<close>.

  \<^bold>\<open>Market data.\<close> Rate_Limit: \<open>data/rate_limit.py\<close> and the retries of \<open>data/binance_client.py\<close>. Market_Data: \<open>data/clock.py\<close>, \<open>data/universe.py\<close>, the
  candle table. Kline_Service: \<open>data/klines.py\<close> as a step relation \<open>market_reach\<close> in which requests, workers,
  background passes, callbacks, cancellations and restarts interleave. Market_Streams: \<open>data/miniticker.py\<close>,
  \<open>data/liquidation_ws.py\<close>, \<open>data/futures.py\<close>.

  \<^bold>\<open>The daemon.\<close> Schema_Lite: \<open>schema_lite.py\<close>. Tools: the 39 tools of \<open>tools.py\<close>. Readiness: \<open>daemon/readiness.py\<close>. Handlers: \<open>daemon/handlers.py\<close> and its
  table. Rpc: \<open>daemon/server.py\<close>, from the bytes' decoded body to the answer, and \<open>served\<close>, the histories of a daemon.
  Adapter: \<open>adapter/transport.py\<close>, \<open>adapter/main.py\<close>, the agent's side of a call. Envelope: \<open>envelope.py\<close> and what an
  agent sees of an answer. Launcher: \<open>adapter/launcher.py\<close>. Lifecycle: start-up and shutdown of \<open>daemon/main.py\<close>. Lock_File: \<open>daemon/lock.py\<close> as steps of several
  processes, with the removal of a lock by \<open>adapter/launcher.py\<close> and the ownership watch of \<open>daemon/main.py\<close>.
  Histories: the relation every service operation keeps; this theory states the two properties of whole histories.

  \<^bold>\<open>What the theorems show.\<close> Over any history of requests and background work no idempotency key is sent
  twice and every request sent is a row of the order table (C1), and the services keep each other's
  invariants (C3). A handler only sees calls that passed the token, the readiness gate and the schema, and
  what a request can lead to is listed in full. Orders are gated by caps, balance and the trading flag;
  a pending order is executed at most once and every claim is settled; the kill switch and the emergency
  stop report success only when everything is sold; alarms fire exactly on fresh data whose clause holds,
  once per cooldown; swings and structure do not change when candles are added; the validator accepts
  exactly the values that conform; candles are stored closed and once, the table refines a map, a reply
  that says fresh is current, a waiting request is answered, and the weight budget of a window is
  respected. The write queue refines the serial execution of the writes, the lock file has one owner as
  long as nothing is cleared away, a daemon that ends leaves nothing open, the views of an analysis agree, stored secrets are read back, and the adapter changes nothing of what an
  agent sends. Theorems that are not properties show where code and documentation part; the
  findings of the manifest name them.

  \<^bold>\<open>Bounds and fuel.\<close> No definition has fuel of its own: \<open>work_off\<close> runs as many rounds as jobs are queued, which
  the theorem shows to be enough; the polls of the emergency stop and of the order service have the
  number of attempts of the code.

  \<^bold>\<open>Not modelled.\<close> Sockets and HTTP, process creation, signal handlers, the wiring of \<open>data/pipeline.py\<close>, the MCP server, the sqlite
  connection and its readers, log formatting and most configuration values: I/O and
  glue. The handlers of the chart, market and analysis tools are a parameter of the dispatcher. Messages
  of errors and the texts of replies are left out.
\<close>

subsection \<open>Properties of everything the daemon serves\<close>

text \<open>C1: No order is ever sent twice. In every state that the daemon reaches from an empty order table by
  serving requests, whatever they contain, and by its services' background work, and whatever the
  exchange, the market feed and the clock answer,
  the orders sent so far correspond one to one to rows of the order table: the \<open>i\<close>-th request
  carries the terms of the \<open>i\<close>-th row, and the account and idempotency key of these rows are
  pairwise different. Timeouts, retries, reconciliation, the kill switch and rejected calls are
  all included.\<close>

theorem each_key_sent_once:
  assumes "served e w0 w" "orders (w_db w0) = []" "places w0 = []"
  shows "distinct (order_keys w)
     \<and> (\<exists>rows. list_all2 carries rows (places w) \<and> distinct (map row_key rows) \<and> set rows \<subseteq> set (orders (w_db w)))"
proof -
  have "logged w0" using assms(2,3) by (simp add: logged_def)
  moreover have "distinct (order_keys w0)" using assms(2) by (simp add: order_keys_def)
  ultimately show ?thesis
    using history_kept [OF served_history [OF assms(1)]] by (simp add: services_keep_def log_kept_def orders_evolve_def logged_def)
qed

theorem each_key_sent_once_witness:
  "\<exists>w. served demo_env (demo_world (demo_db\<lparr>accounts := [demo_account ''a'' ''real'']\<rparr>)) w \<and> length (places w) = 1
     \<and> (\<exists>rows. list_all2 carries rows (places w) \<and> distinct (map row_key rows) \<and> set rows \<subseteq> set (orders (w_db w)))"
proof -
  let ?w0 = "demo_world (demo_db\<lparr>accounts := [demo_account ''a'' ''real'']\<rparr>)"
  let ?call = "place_order (PStr ''a'') (PStr ''BTCUSDT'') (PStr ''BUY'') (PStr ''MARKET'') (PInt 1) PNone PNone (PStr ''k'') []"
  have n: "length (places (snd (?call demo_env ?w0))) = 1" by code_simp
  have "?call demo_env ?w0 = (fst (?call demo_env ?w0), snd (?call demo_env ?w0))" by simp
  then have h: "served demo_env ?w0 (snd (?call demo_env ?w0))"
    by (rule Served_Background [OF Served_Refl Place])
  have "orders (w_db ?w0) = []" "places ?w0 = []" by (simp_all add: demo_defs places_def)
  from each_key_sent_once [OF h this] n h show ?thesis by blast
qed



end
